(* ===== verification/Prelude.thy ===== *)
theory Prelude
  imports Main "HOL-Library.List_Lexorder"
begin

text \<open>
  Shared ground of the development: fallible results as sums, stateful code that may
  raise as functions from a state to a result and a new state, the Hoare triples the
  service proofs are written in, and the list facts several components use.

  Python's \<open>raise\<close> is a value here: a computation of type \<open>('e, 's, 'a) io\<close> maps a
  state to either an exception (\<open>Inl\<close>) or a value (\<open>Inr\<close>), together with the state
  it leaves behind. An exception does not roll the state back, exactly as in Python.
\<close>

section \<open>Collections of rules\<close>

named_theorems io_simps \<open>one-step evaluation of stateful code\<close>
named_theorems wp \<open>rules for Hoare triples over stateful code\<close>
named_theorems keeps \<open>rules for invariants kept by stateful code\<close>

section \<open>Fallible results\<close>

definition res_bind :: "'e + 'a \<Rightarrow> ('a \<Rightarrow> 'e + 'b) \<Rightarrow> 'e + 'b" where
  "res_bind r f = (case r of Inl e \<Rightarrow> Inl e | Inr x \<Rightarrow> f x)"

lemma res_bind_simps [simp]:
  "res_bind (Inl e) f = Inl e"
  "res_bind (Inr x) f = f x"
  by (simp_all add: res_bind_def)

lemma res_bind_Inr_iff: "res_bind r f = Inr y \<longleftrightarrow> (\<exists>x. r = Inr x \<and> f x = Inr y)"
  by (cases r) auto

lemma res_bind_Inl_iff:
  "res_bind r f = Inl e \<longleftrightarrow> r = Inl e \<or> (\<exists>x. r = Inr x \<and> f x = Inl e)"
  by (cases r) auto

text \<open>\<open>raise e unless b\<close>: the guards of the source (\<open>if not b: raise e\<close>).\<close>

definition guard_res :: "bool \<Rightarrow> 'e \<Rightarrow> 'e + unit" where
  "guard_res b e = (if b then Inr () else Inl e)"

lemma guard_res_simps [simp]:
  "guard_res True e = Inr ()"
  "guard_res False e = Inl e"
  "guard_res b e = Inr u \<longleftrightarrow> b"
  "guard_res b e = Inl e' \<longleftrightarrow> \<not> b \<and> e' = e"
  by (auto simp: guard_res_def)

section \<open>Stateful code that may raise\<close>

type_synonym ('e, 's, 'a) io = "'s \<Rightarrow> ('e + 'a) \<times> 's"

definition io_return :: "'a \<Rightarrow> ('e, 's, 'a) io" where
  "io_return x = (\<lambda>s. (Inr x, s))"

definition io_raise :: "'e \<Rightarrow> ('e, 's, 'a) io" where
  "io_raise e = (\<lambda>s. (Inl e, s))"

definition io_bind :: "('e, 's, 'a) io \<Rightarrow> ('a \<Rightarrow> ('e, 's, 'b) io) \<Rightarrow> ('e, 's, 'b) io" where
  "io_bind m f = (\<lambda>s. case m s of (Inl e, t) \<Rightarrow> (Inl e, t) | (Inr x, t) \<Rightarrow> f x t)"

definition io_then :: "('e, 's, unit) io \<Rightarrow> ('e, 's, 'b) io \<Rightarrow> ('e, 's, 'b) io" where
  "io_then m k = io_bind m (\<lambda>_. k)"

text \<open>A pure step that may raise.\<close>

definition io_lift :: "'e + 'a \<Rightarrow> ('e, 's, 'a) io" where
  "io_lift r = (\<lambda>s. (r, s))"

definition io_guard :: "bool \<Rightarrow> 'e \<Rightarrow> ('e, 's, unit) io" where
  "io_guard b e = io_lift (guard_res b e)"

definition io_modify :: "('s \<Rightarrow> 's) \<Rightarrow> ('e, 's, unit) io" where
  "io_modify f = (\<lambda>s. (Inr (), f s))"

definition io_gets :: "('s \<Rightarrow> 'a) \<Rightarrow> ('e, 's, 'a) io" where
  "io_gets f = (\<lambda>s. (Inr (f s), s))"

text \<open>\<open>try: m except e: h e\<close>: the handler runs in the state the failure left.\<close>

definition io_catch :: "('e, 's, 'a) io \<Rightarrow> ('e \<Rightarrow> ('f, 's, 'a) io) \<Rightarrow> ('f, 's, 'a) io" where
  "io_catch m h = (\<lambda>s. case m s of (Inl e, t) \<Rightarrow> h e t | (Inr x, t) \<Rightarrow> (Inr x, t))"

text \<open>A \<open>for\<close> loop that collects one result per element and stops at the first raise.\<close>

fun io_map :: "('a \<Rightarrow> ('e, 's, 'b) io) \<Rightarrow> 'a list \<Rightarrow> ('e, 's, 'b list) io" where
  "io_map f [] = io_return []"
| "io_map f (x # xs) =
     io_bind (f x) (\<lambda>y. io_bind (io_map f xs) (\<lambda>ys. io_return (y # ys)))"

text \<open>A \<open>for\<close> loop run for its effect.\<close>

fun io_each :: "('a \<Rightarrow> ('e, 's, unit) io) \<Rightarrow> 'a list \<Rightarrow> ('e, 's, unit) io" where
  "io_each f [] = io_return ()"
| "io_each f (x # xs) = io_then (f x) (io_each f xs)"

text \<open>Code that works on one part of a larger state, the other part untouched.\<close>

definition io_on_snd :: "('e, 's, 'a) io \<Rightarrow> ('e, 'r \<times> 's, 'a) io" where
  "io_on_snd m = (\<lambda>(r, s). case m s of (x, t) \<Rightarrow> (x, (r, t)))"

definition io_on_fst :: "('e, 'r, 'a) io \<Rightarrow> ('e, 'r \<times> 's, 'a) io" where
  "io_on_fst m = (\<lambda>(r, s). case m r of (x, q) \<Rightarrow> (x, (q, s)))"

definition io_mod_fst :: "('r \<Rightarrow> 'r) \<Rightarrow> ('e, 'r \<times> 's, unit) io" where
  "io_mod_fst f = (\<lambda>(r, s). (Inr (), (f r, s)))"

lemma io_step [io_simps, simp]:
  "io_return x s = (Inr x, s)"
  "io_raise e s = (Inl e, s)"
  "io_lift r s = (r, s)"
  "io_modify f s = (Inr (), f s)"
  "io_gets g s = (Inr (g s), s)"
  "io_guard b e s = (guard_res b e, s)"
  "io_mod_fst h (q, s) = (Inr (), (h q, s))"
  by (simp_all add: io_return_def io_raise_def io_lift_def io_modify_def io_gets_def
      io_guard_def io_mod_fst_def)

lemma io_bind_cases:
  "io_bind m f s = (case m s of (Inl e, t) \<Rightarrow> (Inl e, t) | (Inr x, t) \<Rightarrow> f x t)"
  by (simp add: io_bind_def)

lemma io_bind_run [io_simps, simp]:
  "m s = (Inl e, t) \<Longrightarrow> io_bind m f s = (Inl e, t)"
  "m s = (Inr x, t) \<Longrightarrow> io_bind m f s = f x t"
  by (simp_all add: io_bind_def)

lemma io_then_run [io_simps, simp]:
  "m s = (Inl e, t) \<Longrightarrow> io_then m k s = (Inl e, t)"
  "m s = (Inr u, t) \<Longrightarrow> io_then m k s = k t"
  by (simp_all add: io_then_def io_bind_def)

lemma io_catch_run [io_simps, simp]:
  "m s = (Inl e, t) \<Longrightarrow> io_catch m h s = h e t"
  "m s = (Inr x, t) \<Longrightarrow> io_catch m h s = (Inr x, t)"
  by (simp_all add: io_catch_def)

lemma io_on_snd_run [io_simps, simp]:
  "m s = (x, t) \<Longrightarrow> io_on_snd m (q, s) = (x, (q, t))"
  by (simp add: io_on_snd_def)

lemma io_bind_Inr_iff:
  "io_bind m f s = (Inr y, u) \<longleftrightarrow> (\<exists>x t. m s = (Inr x, t) \<and> f x t = (Inr y, u))"
  by (auto simp: io_bind_def split: prod.splits sum.splits)

lemma io_then_Inr_iff:
  "io_then m k s = (Inr y, u) \<longleftrightarrow> (\<exists>x t. m s = (Inr x, t) \<and> k t = (Inr y, u))"
  by (auto simp: io_then_def io_bind_Inr_iff)

lemma io_on_snd_iff:
  "io_on_snd m s = (x, u) \<longleftrightarrow> (\<exists>t. m (snd s) = (x, t) \<and> u = (fst s, t))"
  by (cases s) (auto simp: io_on_snd_def split: prod.splits)

section \<open>Hoare triples\<close>

text \<open>
  \<open>triple P m Q E\<close>: started in a state that satisfies \<open>P\<close>, \<open>m\<close> either returns a value
  and a state related by \<open>Q\<close> or raises an exception and leaves a state related by \<open>E\<close>.
  Every \<open>io\<close> is a total function, so the triple is about total correctness.
\<close>

definition triple ::
  "('s \<Rightarrow> bool) \<Rightarrow> ('e, 's, 'a) io \<Rightarrow> ('a \<Rightarrow> 's \<Rightarrow> bool) \<Rightarrow> ('e \<Rightarrow> 's \<Rightarrow> bool) \<Rightarrow> bool" where
  "triple P m Q E \<longleftrightarrow>
     (\<forall>s. P s \<longrightarrow> (case m s of (Inl e, t) \<Rightarrow> E e t | (Inr x, t) \<Rightarrow> Q x t))"

lemma tripleI:
  assumes "\<And>s x t. P s \<Longrightarrow> m s = (Inr x, t) \<Longrightarrow> Q x t"
    and "\<And>s e t. P s \<Longrightarrow> m s = (Inl e, t) \<Longrightarrow> E e t"
  shows "triple P m Q E"
  using assms by (auto simp: triple_def split: prod.splits sum.splits)

lemma tripleD_Inr: "triple P m Q E \<Longrightarrow> P s \<Longrightarrow> m s = (Inr x, t) \<Longrightarrow> Q x t"
  by (auto simp: triple_def)

lemma tripleD_Inl: "triple P m Q E \<Longrightarrow> P s \<Longrightarrow> m s = (Inl e, t) \<Longrightarrow> E e t"
  by (auto simp: triple_def)

lemma triple_pre: "triple P' m Q E \<Longrightarrow> (\<And>s. P s \<Longrightarrow> P' s) \<Longrightarrow> triple P m Q E"
  by (auto simp: triple_def)

lemma triple_post:
  assumes "triple P m Q' E'" "\<And>x t. Q' x t \<Longrightarrow> Q x t" "\<And>e t. E' e t \<Longrightarrow> E e t"
  shows "triple P m Q E"
  using assms by (intro tripleI) (blast dest: tripleD_Inr tripleD_Inl)+

lemma triple_return [wp]: "triple (Q x) (io_return x) Q E"
  by (simp add: triple_def)

lemma triple_raise [wp]: "triple (E e) (io_raise e) Q E"
  by (simp add: triple_def)

lemma triple_lift [wp]:
  "triple (\<lambda>s. case r of Inl e \<Rightarrow> E e s | Inr x \<Rightarrow> Q x s) (io_lift r) Q E"
  by (auto simp: triple_def split: sum.splits)

lemma triple_guard [wp]: "triple (\<lambda>s. if b then Q () s else E e s) (io_guard b e) Q E"
  by (auto simp: triple_def guard_res_def)

lemma triple_modify [wp]: "triple (\<lambda>s. Q () (f s)) (io_modify f) Q E"
  by (simp add: triple_def)

lemma triple_gets [wp]: "triple (\<lambda>s. Q (f s) s) (io_gets f) Q E"
  by (simp add: triple_def)

lemma triple_bind [wp]:
  assumes "\<And>x. triple (R x) (f x) Q E" and "triple P m R E"
  shows "triple P (io_bind m f) Q E"
  using assms by (fastforce simp: triple_def io_bind_def split: prod.splits sum.splits)

lemma triple_then [wp]:
  assumes "triple R k Q E" and "triple P m (\<lambda>_. R) E"
  shows "triple P (io_then m k) Q E"
  unfolding io_then_def by (rule triple_bind [OF assms])

section \<open>Invariants kept by stateful code\<close>

text \<open>\<open>io_keeps I m\<close>: \<open>m\<close> leads from states with \<open>I\<close> to states with \<open>I\<close>, raising or not.\<close>

definition io_keeps :: "('s \<Rightarrow> bool) \<Rightarrow> ('e, 's, 'a) io \<Rightarrow> bool" where
  "io_keeps I m \<longleftrightarrow> (\<forall>s. I s \<longrightarrow> I (snd (m s)))"

lemma io_keepsD: "io_keeps I m \<Longrightarrow> I s \<Longrightarrow> m s = (r, t) \<Longrightarrow> I t"
  by (force simp: io_keeps_def)

lemma io_keeps_basic [keeps, intro]:
  "io_keeps I (io_return x)"
  "io_keeps I (io_raise e)"
  "io_keeps I (io_lift r)"
  "io_keeps I (io_guard b e)"
  "io_keeps I (io_gets g)"
  by (simp_all add: io_keeps_def)

lemma io_keeps_bind_strong:
  assumes "io_keeps I m" and "\<And>x s t. I s \<Longrightarrow> m s = (Inr x, t) \<Longrightarrow> I t \<Longrightarrow> I (snd (f x t))"
  shows "io_keeps I (io_bind m f)"
  unfolding io_keeps_def
proof (intro allI impI)
  fix s assume I: "I s"
  show "I (snd (io_bind m f s))"
  proof (cases "m s")
    case (Pair r t)
    with assms(1) I have "I t" by (blast dest: io_keepsD)
    with Pair assms(2)[OF I] show ?thesis by (cases r) auto
  qed
qed

lemma io_keeps_bind [keeps, intro]:
  assumes "io_keeps I m" and "\<And>x. io_keeps I (f x)"
  shows "io_keeps I (io_bind m f)"
  using assms by (intro io_keeps_bind_strong) (auto simp: io_keeps_def)

lemma io_keeps_then [keeps, intro]:
  "io_keeps I m \<Longrightarrow> io_keeps I k \<Longrightarrow> io_keeps I (io_then m k)"
  unfolding io_then_def by (rule io_keeps_bind)

lemma io_keeps_catch [keeps, intro]:
  assumes "io_keeps I m" and "\<And>e. io_keeps I (h e)"
  shows "io_keeps I (io_catch m h)"
  unfolding io_keeps_def
proof (intro allI impI)
  fix s assume I: "I s"
  show "I (snd (io_catch m h s))"
  proof (cases "m s")
    case (Pair r t)
    with assms(1) I have "I t" by (blast dest: io_keepsD)
    with Pair assms(2) show ?thesis by (cases r) (auto simp: io_keeps_def)
  qed
qed

lemma io_keeps_map [keeps, intro]:
  "(\<And>x. x \<in> set xs \<Longrightarrow> io_keeps I (f x)) \<Longrightarrow> io_keeps I (io_map f xs)"
  by (induction xs) auto

lemma io_keeps_each [keeps, intro]:
  "(\<And>x. x \<in> set xs \<Longrightarrow> io_keeps I (f x)) \<Longrightarrow> io_keeps I (io_each f xs)"
  by (induction xs) auto

lemma io_keeps_on_snd [keeps, intro]:
  "io_keeps I m \<Longrightarrow> io_keeps (\<lambda>p. I (snd p)) (io_on_snd m)"
  by (auto simp: io_keeps_def io_on_snd_def split: prod.splits)

lemma io_keeps_mod_fst [keeps, intro]: "io_keeps (\<lambda>p. I (snd p)) (io_mod_fst f)"
  by (auto simp: io_keeps_def io_mod_fst_def)

lemma triple_pure: "(b \<Longrightarrow> triple P m Q E) \<Longrightarrow> triple (\<lambda>s. P s \<and> b) m Q E"
  by (auto simp: triple_def)

lemma triple_option:
  "(z = None \<Longrightarrow> triple P m Q E) \<Longrightarrow> (\<And>x. z = Some x \<Longrightarrow> triple P (f x) Q E) \<Longrightarrow>
   triple P (case z of None \<Rightarrow> m | Some x \<Rightarrow> f x) Q E"
  by (cases z) auto

lemma triple_on_snd:
  "triple P m Q E \<Longrightarrow>
   triple (\<lambda>p. P (snd p)) (io_on_snd m) (\<lambda>x p. Q x (snd p)) (\<lambda>e p. E e (snd p))"
  by (auto simp: triple_def io_on_snd_def split: prod.splits sum.splits)

lemma io_keeps_triple: "io_keeps P m \<longleftrightarrow> triple P m (\<lambda>_. P) (\<lambda>_. P)"
proof -
  have "(case m s of (Inl e, t) \<Rightarrow> P t | (Inr x, t) \<Rightarrow> P t) = P (snd (m s))" for s
    by (simp split: prod.split sum.split)
  then show ?thesis by (simp add: io_keeps_def triple_def)
qed

lemma io_keeps_prod [keeps]:
  "(\<And>a b. z = (a, b) \<Longrightarrow> io_keeps P (f a b)) \<Longrightarrow> io_keeps P (case z of (a, b) \<Rightarrow> f a b)"
  by (cases z) auto

lemma io_keeps_if [keeps]:
  "(b \<Longrightarrow> io_keeps P m) \<Longrightarrow> (\<not> b \<Longrightarrow> io_keeps P k) \<Longrightarrow> io_keeps P (if b then m else k)"
  by auto

lemma io_keeps_option [keeps]:
  "(z = None \<Longrightarrow> io_keeps P m) \<Longrightarrow> (\<And>x. z = Some x \<Longrightarrow> io_keeps P (f x)) \<Longrightarrow>
   io_keeps P (case z of None \<Rightarrow> m | Some x \<Rightarrow> f x)"
  by (cases z) auto

text \<open>A step that keeps \<open>P\<close> and whose result has the property the rest relies on.\<close>

lemma io_keeps_bind_info:
  assumes "triple P m (\<lambda>x s. P s \<and> R x) (\<lambda>_. P)" and "\<And>x. R x \<Longrightarrow> io_keeps P (f x)"
  shows "io_keeps P (io_bind m f)"
  unfolding io_keeps_triple
proof (rule triple_bind [OF _ assms(1)])
  show "triple (\<lambda>s. P s \<and> R x) (f x) (\<lambda>_. P) (\<lambda>_. P)" for x
    using assms(2) by (intro triple_pure) (simp add: io_keeps_triple)
qed

lemma triple_keeps: "triple P m (\<lambda>x s. P s \<and> R x) (\<lambda>_. P) \<Longrightarrow> io_keeps P m"
  unfolding io_keeps_triple by (erule triple_post) auto

lemma triple_lift_info: "triple P (io_lift r) (\<lambda>x s. P s \<and> r = Inr x) (\<lambda>_. P)"
  by (auto simp: triple_def split: sum.splits)

lemma triple_guard_info: "triple P (io_guard b e) (\<lambda>_ s. P s \<and> b) (\<lambda>_. P)"
  by (auto simp: triple_def guard_res_def)

lemma io_keeps_then_info:
  "triple P m (\<lambda>_ s. P s \<and> b) (\<lambda>_. P) \<Longrightarrow> (b \<Longrightarrow> io_keeps P k) \<Longrightarrow> io_keeps P (io_then m k)"
  unfolding io_then_def by (rule io_keeps_bind_info [where R = "\<lambda>_. b"])

section \<open>Lists and maps\<close>

lemma dropWhile_hd: "dropWhile P xs = y # ys \<Longrightarrow> \<not> P y"
  by (metis dropWhile_eq_Cons_conv)

lemma set_takeWhile_sat: "x \<in> set (takeWhile P xs) \<Longrightarrow> P x"
  by (rule set_takeWhileD [THEN conjunct2])

lemma length_dropWhile_less: "xs \<noteq> [] \<Longrightarrow> P (hd xs) \<Longrightarrow> length (dropWhile P xs) < length xs"
  by (cases xs) (auto simp: le_imp_less_Suc length_dropWhile_le)

lemma map_le_Some: "m \<subseteq>\<^sub>m m' \<Longrightarrow> m k = Some x \<Longrightarrow> m' k = Some x"
  unfolding map_le_def by (metis domI)

end
