(* ===== verification/PyStr.thy ===== *)
theory PyStr
  imports Prelude
begin

text \<open>
  Python's \<open>str\<close>: a sequence of Unicode code points, here \<open>int list\<close> (what \<open>ord\<close> gives).
  \<open>lit\<close> turns an ASCII literal into one and \<open>cp\<close> an ASCII character into its code point.

  The string methods the source uses are defined over code points.  What depends on the
  Unicode Character Database in a way too large to write out (which characters are
  alphanumeric, the case folding and lower-case tables, NFKC normalisation) is a record
  \<open>ucd\<close> of tables, an argument of the functions that consult it; \<open>ucd_ok\<close> states the
  documented behaviour the proofs rely on and \<open>ascii_ucd\<close> is a concrete instance.
  White space and the invisible categories are small enough to be written out in full.
\<close>

type_synonym pystr = "int list"

abbreviation cp :: "char \<Rightarrow> int" where
  "cp c \<equiv> of_char c"

definition lit :: "string \<Rightarrow> pystr" where
  "lit s = map of_char s"

text \<open>The single quote, which a literal cannot hold at its end.\<close>

definition squote :: pystr where
  "squote = [39]"

definition quoted :: "pystr \<Rightarrow> pystr" where
  "quoted s = squote @ s @ squote"

lemma lit_simps [simp]:
  "lit [] = []"
  "lit (c # cs) = of_char c # lit cs"
  by (simp_all add: lit_def)

section \<open>Character classes\<close>

text \<open>\<open>str.isspace\<close>, which is also what \<open>\<^verbatim>\<open>\s\<close>\<close> matches and what \<open>strip\<close> removes.\<close>

definition is_space :: "int \<Rightarrow> bool" where
  "is_space c \<longleftrightarrow>
     (9 \<le> c \<and> c \<le> 13) \<or> (28 \<le> c \<and> c \<le> 32) \<or> c = 133 \<or> c = 160 \<or> c = 5760
     \<or> (8192 \<le> c \<and> c \<le> 8202) \<or> c = 8232 \<or> c = 8233 \<or> c = 8239 \<or> c = 8287 \<or> c = 12288"

definition is_ascii :: "int \<Rightarrow> bool" where
  "is_ascii c \<longleftrightarrow> 0 \<le> c \<and> c < 128"

definition ascii_upper :: "int \<Rightarrow> bool" where
  "ascii_upper c \<longleftrightarrow> 65 \<le> c \<and> c \<le> 90"

definition ascii_lower :: "int \<Rightarrow> bool" where
  "ascii_lower c \<longleftrightarrow> 97 \<le> c \<and> c \<le> 122"

definition ascii_digit :: "int \<Rightarrow> bool" where
  "ascii_digit c \<longleftrightarrow> 48 \<le> c \<and> c \<le> 57"

definition ascii_alnum :: "int \<Rightarrow> bool" where
  "ascii_alnum c \<longleftrightarrow> ascii_upper c \<or> ascii_lower c \<or> ascii_digit c"

definition ascii_lower1 :: "int \<Rightarrow> int" where
  "ascii_lower1 c = (if ascii_upper c then c + 32 else c)"

definition ascii_upper1 :: "int \<Rightarrow> int" where
  "ascii_upper1 c = (if ascii_lower c then c - 32 else c)"

lemmas ascii_defs =
  is_ascii_def ascii_upper_def ascii_lower_def ascii_digit_def ascii_alnum_def
  ascii_lower1_def ascii_upper1_def

section \<open>The Unicode tables Python consults\<close>

record ucd =
  u_alnum :: "int \<Rightarrow> bool"        \<comment> \<open>\<open>str.isalnum\<close> of one character\<close>
  u_fold :: "int \<Rightarrow> pystr"        \<comment> \<open>\<open>str.casefold\<close> of one character\<close>
  u_lower :: "pystr \<Rightarrow> pystr"     \<comment> \<open>\<open>str.lower\<close>\<close>
  u_upper :: "pystr \<Rightarrow> pystr"     \<comment> \<open>\<open>str.upper\<close>\<close>
  u_nfkc :: "pystr \<Rightarrow> pystr"      \<comment> \<open>\<open>unicodedata.normalize('NFKC', s)\<close>\<close>

text \<open>\<open>str.casefold\<close> folds character by character.\<close>

definition casefold :: "ucd \<Rightarrow> pystr \<Rightarrow> pystr" where
  "casefold U s = concat (map (u_fold U) s)"

definition ucd_ok :: "ucd \<Rightarrow> bool" where
  "ucd_ok U \<longleftrightarrow>
     (\<forall>c. is_ascii c \<longrightarrow> (u_alnum U c \<longleftrightarrow> ascii_alnum c))
     \<and> (\<forall>c. is_ascii c \<longrightarrow> u_fold U c = [ascii_lower1 c])
     \<and> (\<forall>c. casefold U (u_fold U c) = u_fold U c)
     \<and> (\<forall>s. list_all is_ascii s \<longrightarrow> u_lower U s = map ascii_lower1 s)
     \<and> (\<forall>s. list_all is_ascii s \<longrightarrow> u_upper U s = map ascii_upper1 s)
     \<and> (\<forall>s. list_all is_ascii s \<longrightarrow> u_nfkc U s = s)"

definition ascii_ucd :: ucd where
  "ascii_ucd =
     \<lparr>u_alnum = ascii_alnum, u_fold = (\<lambda>c. [ascii_lower1 c]), u_lower = map ascii_lower1,
      u_upper = map ascii_upper1, u_nfkc = (\<lambda>s. s)\<rparr>"

lemma casefold_Nil [simp]: "casefold U [] = []"
  by (simp add: casefold_def)

lemma casefold_append: "casefold U (s @ t) = casefold U s @ casefold U t"
  by (simp add: casefold_def)

lemma casefold_idem:
  assumes "ucd_ok U" shows "casefold U (casefold U s) = casefold U s"
proof (induction s)
  case (Cons c s)
  have "casefold U (c # s) = u_fold U c @ casefold U s" by (simp add: casefold_def)
  with Cons assms show ?case by (simp add: casefold_append ucd_ok_def)
qed simp

lemma ascii_ucd_casefold: "casefold ascii_ucd s = map ascii_lower1 s"
  by (induction s) (simp_all add: casefold_def ascii_ucd_def)

lemma ascii_ucd_ok: "ucd_ok ascii_ucd"
proof -
  have "ascii_lower1 (ascii_lower1 c) = ascii_lower1 c" for c
    by (auto simp: ascii_defs)
  then show ?thesis
    by (simp add: ucd_ok_def ascii_ucd_casefold) (simp add: ascii_ucd_def)
qed

section \<open>String methods\<close>

definition lstrip_by :: "(int \<Rightarrow> bool) \<Rightarrow> pystr \<Rightarrow> pystr" where
  "lstrip_by p s = dropWhile p s"

definition rstrip_by :: "(int \<Rightarrow> bool) \<Rightarrow> pystr \<Rightarrow> pystr" where
  "rstrip_by p s = rev (dropWhile p (rev s))"

text \<open>\<open>s.strip()\<close>, \<open>s.rstrip()\<close> and \<open>s.rstrip(";")\<close>.\<close>

definition strip :: "pystr \<Rightarrow> pystr" where
  "strip s = rstrip_by is_space (lstrip_by is_space s)"

definition rstrip :: "pystr \<Rightarrow> pystr" where
  "rstrip s = rstrip_by is_space s"

definition rstrip_char :: "int \<Rightarrow> pystr \<Rightarrow> pystr" where
  "rstrip_char c s = rstrip_by (\<lambda>x. x = c) s"

definition starts_with :: "pystr \<Rightarrow> pystr \<Rightarrow> bool" where
  "starts_with s p \<longleftrightarrow> take (length p) s = p"

definition ends_with :: "pystr \<Rightarrow> pystr \<Rightarrow> bool" where
  "ends_with s p \<longleftrightarrow> length p \<le> length s \<and> drop (length s - length p) s = p"

text \<open>\<open>p in s\<close>.\<close>

fun contains :: "pystr \<Rightarrow> pystr \<Rightarrow> bool" where
  "contains p [] \<longleftrightarrow> p = []"
| "contains p (c # s) \<longleftrightarrow> starts_with (c # s) p \<or> contains p s"

text \<open>
  What follows the first occurrence of a non-empty \<open>p\<close>: the slice of \<open>s\<close> from \<open>s.find(p) + len(p)\<close> on,
  or \<open>None\<close> where \<open>find\<close> answers \<open>-1\<close>.
\<close>

fun cut_after :: "pystr \<Rightarrow> pystr \<Rightarrow> pystr option" where
  "cut_after p [] = (if p = [] then Some [] else None)"
| "cut_after p (c # s) =
     (if starts_with (c # s) p then Some (drop (length p) (c # s)) else cut_after p s)"

text \<open>\<open>s.split(sep)\<close> for a one-character separator: always at least one part.\<close>

fun split_on :: "int \<Rightarrow> pystr \<Rightarrow> pystr list" where
  "split_on sep [] = [[]]"
| "split_on sep (c # s) =
     (if c = sep then [] # split_on sep s
      else case split_on sep s of [] \<Rightarrow> [[c]] | w # ws \<Rightarrow> (c # w) # ws)"

text \<open>\<open>s.split()\<close>: the maximal runs of non-space characters.\<close>

fun words_of :: "pystr \<Rightarrow> pystr list" where
  "words_of [] = []"
| "words_of (c # s) =
     (if is_space c then words_of s
      else case s of
        [] \<Rightarrow> [[c]]
      | d # _ \<Rightarrow>
          (if is_space d then [c] # words_of s
           else case words_of s of [] \<Rightarrow> [[c]] | w # ws \<Rightarrow> (c # w) # ws))"

text \<open>\<open>sep.join(parts)\<close>.\<close>

fun join :: "pystr \<Rightarrow> pystr list \<Rightarrow> pystr" where
  "join sep [] = []"
| "join sep [p] = p"
| "join sep (p # q # ps) = p @ sep @ join sep (q # ps)"

text \<open>\<open>s.replace(c, r)\<close> for a one-character \<open>c\<close>.\<close>

definition replace_char :: "int \<Rightarrow> pystr \<Rightarrow> pystr \<Rightarrow> pystr" where
  "replace_char c r s = concat (map (\<lambda>x. if x = c then r else [x]) s)"

text \<open>\<open>str(n)\<close> of an integer.\<close>

fun nat_digits :: "nat \<Rightarrow> pystr" where
  "nat_digits n = (if n < 10 then [48 + int n] else nat_digits (n div 10) @ [48 + int (n mod 10)])"

declare nat_digits.simps [simp del]

definition str_of_nat :: "nat \<Rightarrow> pystr" where
  "str_of_nat n = nat_digits n"

definition str_of_int :: "int \<Rightarrow> pystr" where
  "str_of_int i = (if i < 0 then cp CHR ''-'' # nat_digits (nat (- i)) else nat_digits (nat i))"

text \<open>\<open>sorted(S)\<close> of a finite set of strings: by code points, as Python compares them.\<close>

definition sorted_strs :: "pystr set \<Rightarrow> pystr list" where
  "sorted_strs S = sorted_list_of_set S"

section \<open>Facts about the string methods\<close>

lemma set_rstrip_by: "set (rstrip_by p s) \<subseteq> set s"
  unfolding rstrip_by_def by (auto dest: set_dropWhileD)

lemma set_lstrip_by: "set (lstrip_by p s) \<subseteq> set s"
  unfolding lstrip_by_def by (auto dest: set_dropWhileD)

lemma set_strip: "set (strip s) \<subseteq> set s"
  unfolding strip_def using set_rstrip_by set_lstrip_by by fastforce

lemma rstrip_by_prefix: "\<exists>t. s = rstrip_by p s @ t \<and> list_all p t"
proof -
  have "rev s = takeWhile p (rev s) @ dropWhile p (rev s)" by simp
  then have "s = rev (dropWhile p (rev s)) @ rev (takeWhile p (rev s))"
    by (metis rev_append rev_rev_ident)
  moreover have "list_all p (rev (takeWhile p (rev s)))"
    by (auto simp: list_all_iff dest: set_takeWhileD)
  ultimately show ?thesis unfolding rstrip_by_def by blast
qed

lemma lstrip_by_suffix: "\<exists>t. s = t @ lstrip_by p s \<and> list_all p t"
  unfolding lstrip_by_def
  by (metis list_all_iff set_takeWhileD takeWhile_dropWhile_id)

lemma rstrip_by_last: "rstrip_by p s \<noteq> [] \<Longrightarrow> \<not> p (last (rstrip_by p s))"
  unfolding rstrip_by_def by (simp add: hd_dropWhile last_rev)

lemma lstrip_by_hd: "lstrip_by p s \<noteq> [] \<Longrightarrow> \<not> p (hd (lstrip_by p s))"
  unfolding lstrip_by_def by (rule hd_dropWhile)

lemma rstrip_by_empty_iff: "rstrip_by p s = [] \<longleftrightarrow> list_all p s"
  by (auto simp: rstrip_by_def list_all_iff)

lemma strip_empty_iff: "strip s = [] \<longleftrightarrow> list_all is_space s"
proof -
  have "list_all is_space (lstrip_by is_space s) \<longleftrightarrow> list_all is_space s"
    by (metis (full_types) list_all_append lstrip_by_suffix)
  then show ?thesis by (simp add: strip_def rstrip_by_empty_iff)
qed

lemma strip_surrounded:
  "\<exists>a b. s = a @ strip s @ b \<and> list_all is_space a \<and> list_all is_space b"
  unfolding strip_def by (metis append.assoc lstrip_by_suffix rstrip_by_prefix)

lemma rstrip_by_fix: "s = [] \<or> \<not> p (last s) \<Longrightarrow> rstrip_by p s = s"
  by (cases s rule: rev_cases) (auto simp: rstrip_by_def)

lemma lstrip_by_fix: "s = [] \<or> \<not> p (hd s) \<Longrightarrow> lstrip_by p s = s"
  by (cases s) (auto simp: lstrip_by_def)

lemma strip_hd: "strip s \<noteq> [] \<Longrightarrow> \<not> is_space (hd (strip s))"
proof -
  assume ne: "strip s \<noteq> []"
  obtain t where t: "lstrip_by is_space s = strip s @ t"
    unfolding strip_def using rstrip_by_prefix by blast
  with ne have "hd (strip s) = hd (lstrip_by is_space s)" by simp
  with t ne show ?thesis by (metis append_is_Nil_conv lstrip_by_hd)
qed

lemma strip_last: "strip s \<noteq> [] \<Longrightarrow> \<not> is_space (last (strip s))"
  unfolding strip_def by (rule rstrip_by_last)

lemma strip_Nil [simp]: "strip [] = []"
  by (simp add: strip_def lstrip_by_def rstrip_by_def)

lemma strip_idem [simp]: "strip (strip s) = strip s"
proof (cases "strip s = []")
  case False
  then have "lstrip_by is_space (strip s) = strip s"
    by (intro lstrip_by_fix) (auto dest: strip_hd)
  then show ?thesis
    using strip_last [OF False] by (simp add: strip_def [of "strip s"] rstrip_by_fix)
qed simp

lemma starts_with_iff: "starts_with s p \<longleftrightarrow> (\<exists>t. s = p @ t)"
  unfolding starts_with_def by (metis append_eq_conv_conj)

lemma ends_with_iff: "ends_with s p \<longleftrightarrow> (\<exists>t. s = t @ p)"
  unfolding ends_with_def
  by (metis append_eq_conv_conj append_take_drop_id diff_add_inverse2 le_add2 length_append)

lemma contains_iff: "contains p s \<longleftrightarrow> (\<exists>a b. s = a @ p @ b)"
proof (induction s)
  case (Cons c s)
  have "(\<exists>a b. c # s = a @ p @ b) \<longleftrightarrow> starts_with (c # s) p \<or> (\<exists>a b. s = a @ p @ b)"
    unfolding starts_with_iff by (auto simp: Cons_eq_append_conv)
  with Cons show ?case by simp
qed simp

lemma cut_after_Some:
  "cut_after p s = Some r \<Longrightarrow> \<exists>a. s = a @ p @ r \<and> \<not> (p \<noteq> [] \<and> contains p (a @ butlast p))"
proof (induction p s rule: cut_after.induct)
  case (1 p)
  then show ?case by (auto split: if_splits)
next
  case (2 p c s)
  show ?case
  proof (cases "starts_with (c # s) p")
    case True
    with 2 have "c # s = [] @ p @ r" unfolding starts_with_def
      by (metis append_Nil append_take_drop_id cut_after.simps(2) option.inject starts_with_def)
    moreover have "\<not> contains p (butlast p)" if "p \<noteq> []"
      using that by (cases p rule: rev_cases) (auto simp: contains_iff dest!: arg_cong [where f = length])
    ultimately show ?thesis by (metis append_Nil)
  next
    case False
    with 2 obtain a where a: "s = a @ p @ r" "\<not> (p \<noteq> [] \<and> contains p (a @ butlast p))"
      by auto
    moreover have "p \<noteq> []" using False by (auto simp: starts_with_def)
    moreover have "\<not> starts_with (c # a @ butlast p) p"
      using False a(1) \<open>p \<noteq> []\<close>
      by (auto simp: starts_with_iff)
        (metis append.assoc append_Cons append_butlast_last_id)
    ultimately show ?thesis by (intro exI [of _ "c # a"]) simp
  qed
qed

lemma cut_after_length: "cut_after p s = Some r \<Longrightarrow> length r + length p \<le> length s"
  by (auto dest: cut_after_Some)

lemma cut_after_None: "p \<noteq> [] \<Longrightarrow> cut_after p s = None \<longleftrightarrow> \<not> contains p s"
  by (induction p s rule: cut_after.induct) auto

lemma split_on_nonempty [simp]: "split_on sep s \<noteq> []"
  by (cases s) (auto split: list.splits)

text \<open>Splitting and joining on the same separator is the identity.\<close>

lemma join_Cons_ne: "ps \<noteq> [] \<Longrightarrow> join sep (p # ps) = p @ sep @ join sep ps"
  by (cases ps) auto

lemma join_split_on: "join [sep] (split_on sep s) = s"
proof (induction s)
  case (Cons c s)
  obtain w ws where "split_on sep s = w # ws" by (cases "split_on sep s") auto
  with Cons show ?case by (cases ws) auto
qed simp

lemma split_on_no_sep: "w \<in> set (split_on sep s) \<Longrightarrow> sep \<notin> set w"
proof (induction s arbitrary: w)
  case (Cons c s)
  obtain v vs where "split_on sep s = v # vs" by (cases "split_on sep s") auto
  with Cons show ?case by (auto split: if_splits)
qed simp

lemma split_on_no_occurrence: "sep \<notin> set s \<Longrightarrow> split_on sep s = [s]"
  by (induction s) auto

lemma split_on_append: "sep \<notin> set s \<Longrightarrow> split_on sep (s @ sep # t) = s # split_on sep t"
  by (induction s) auto

lemma split_on_join:
  "ps \<noteq> [] \<Longrightarrow> \<forall>p\<in>set ps. sep \<notin> set p \<Longrightarrow> split_on sep (join [sep] ps) = ps"
  by (induction "[sep]" ps rule: join.induct) (auto simp: split_on_no_occurrence split_on_append)

lemma words_of_step:
  "\<not> is_space c \<Longrightarrow> s \<noteq> [] \<Longrightarrow> \<not> is_space (hd s) \<Longrightarrow>
   words_of (c # s) = (case words_of s of [] \<Rightarrow> [[c]] | w # ws \<Rightarrow> (c # w) # ws)"
  by (cases s) simp_all

lemma words_of_single:
  "\<not> is_space c \<Longrightarrow> s = [] \<or> is_space (hd s) \<Longrightarrow> words_of (c # s) = [c] # words_of s"
  by (cases s) simp_all

declare words_of.simps(2) [simp del]

lemma words_of_space [simp]: "is_space c \<Longrightarrow> words_of (c # s) = words_of s"
  by (simp add: words_of.simps(2))

lemma words_of_no_space: "w \<in> set (words_of s) \<Longrightarrow> w \<noteq> [] \<and> (\<forall>c\<in>set w. \<not> is_space c)"
proof (induction s arbitrary: w)
  case (Cons c s)
  consider "is_space c" | "\<not> is_space c" "s = [] \<or> is_space (hd s)"
    | "\<not> is_space c" "s \<noteq> []" "\<not> is_space (hd s)" by blast
  then show ?case
  proof cases
    case 3
    from Cons.IH have "\<forall>w\<in>set (words_of s). w \<noteq> [] \<and> (\<forall>c\<in>set w. \<not> is_space c)" by blast
    with 3 Cons.prems show ?thesis by (cases "words_of s") (auto simp: words_of_step)
  qed (use Cons in \<open>auto simp: words_of_single\<close>)
qed simp

lemma sorted_strs_set [simp]: "finite S \<Longrightarrow> set (sorted_strs S) = S"
  by (simp add: sorted_strs_def)

lemma sorted_strs_sorted [simp]: "sorted (sorted_strs S)" "distinct (sorted_strs S)"
  by (simp_all add: sorted_strs_def)

end
