(* ===== verification/Models.thy ===== *)
theory Models
  imports PyStr
begin

text \<open>
  The data shapes shared by all layers (\<open>models.py\<close>) and the errors of the service
  layer (\<open>errors.py\<close>).  Every dataclass and pydantic model is a record with the same
  fields (prefixed, since record fields share one name space), every \<open>Literal\<close> a
  datatype, every exception class a constructor.
\<close>

section \<open>Errors\<close>

text \<open>The subclasses of \<open>McpSqlError\<close>.\<close>

datatype mcp_kind =
    ToolNotPermitted
  | ConnectionNotFound
  | ConnectionUnavailable
  | TableNotFound
  | InvalidArgument
  | QueryRejected
  | QueryTimeout
  | QueryFailed
  | ExplainNotSupported
  | AuditWriteError
  | NotAuthenticated

text \<open>
  What a call can raise: a domain error with its message (\<open>str(error)\<close>), any other
  \<open>Exception\<close>, of which the program only ever looks at the type name, or a
  \<open>BaseException\<close> that is not an \<open>Exception\<close> (asyncio's \<open>CancelledError\<close>), which
  \<open>except Exception\<close> does not catch.
\<close>

datatype exn = McpSqlError mcp_kind pystr | OtherError pystr | BaseError pystr

fun exn_is :: "mcp_kind \<Rightarrow> exn \<Rightarrow> bool" where
  "exn_is k (McpSqlError k' m) \<longleftrightarrow> k' = k"
| "exn_is k (OtherError t) \<longleftrightarrow> False"
| "exn_is k (BaseError t) \<longleftrightarrow> False"

text \<open>Caught by \<open>except Exception\<close>.\<close>

fun is_exception :: "exn \<Rightarrow> bool" where
  "is_exception (BaseError t) \<longleftrightarrow> False"
| "is_exception e \<longleftrightarrow> True"

section \<open>Values\<close>

text \<open>A Python float: a finite binary number \<open>m * 2 ^ e\<close>, or one of the special values.\<close>

datatype pyfloat = Fin int int | PosInf | NegInf | NaN

definition isfinite :: "pyfloat \<Rightarrow> bool" where
  "isfinite f = (case f of Fin m e \<Rightarrow> True | _ \<Rightarrow> False)"

text \<open>JSON-like values: tool arguments, connection details, token claims, cleaned cells.\<close>

datatype json =
    JNull
  | JBool bool
  | JInt int
  | JFloat pyfloat
  | JStr pystr
  | JList "json list"
  | JDict "(pystr \<times> json) list"

text \<open>\<open>d.get(key)\<close> on a dict (keys are unique; the first entry of a key is its entry).\<close>

definition dict_get :: "(pystr \<times> json) list \<Rightarrow> pystr \<Rightarrow> json option" where
  "dict_get d k = map_of d k"

text \<open>\<open>d[key] = v\<close>: replaces in place, or appends.\<close>

fun dict_set :: "'k \<Rightarrow> 'v \<Rightarrow> ('k \<times> 'v) list \<Rightarrow> ('k \<times> 'v) list" where
  "dict_set k v [] = [(k, v)]"
| "dict_set k v ((k', v') # d) = (if k = k' then (k, v) # d else (k', v') # dict_set k v d)"

lemma map_of_dict_set [simp]: "map_of (dict_set k v d) = (map_of d)(k \<mapsto> v)"
  by (induction k v d rule: dict_set.induct) auto

lemma keys_dict_set: "fst ` set (dict_set k v d) = insert k (fst ` set d)"
  by (induction k v d rule: dict_set.induct) auto

lemma set_dict_set: "set (dict_set k v d) \<subseteq> insert (k, v) (set d)"
  by (induction k v d rule: dict_set.induct) auto

lemma distinct_dict_set: "distinct (map fst d) \<Longrightarrow> distinct (map fst (dict_set k v d))"
proof (induction k v d rule: dict_set.induct)
  case (2 k v k' v' d)
  then show ?case using keys_dict_set [of k v d] by auto
qed simp

text \<open>Python truth: \<open>None\<close>, \<open>False\<close>, zero and empty containers are false.\<close>

fun truthy :: "json \<Rightarrow> bool" where
  "truthy JNull = False"
| "truthy (JBool b) = b"
| "truthy (JInt i) = (i \<noteq> 0)"
| "truthy (JFloat f) = (case f of Fin m e \<Rightarrow> m \<noteq> 0 | _ \<Rightarrow> True)"
| "truthy (JStr s) = (s \<noteq> [])"
| "truthy (JList xs) = (xs \<noteq> [])"
| "truthy (JDict d) = (d \<noteq> [])"

type_synonym uuid = pystr        \<comment> \<open>the canonical text of a UUID\<close>
type_synonym datetime = int      \<comment> \<open>microseconds since the epoch\<close>

section \<open>Who is calling\<close>

type_synonym subject = "pystr \<times> pystr"   \<comment> \<open>\<open>("user", sub)\<close> or \<open>("role", name)\<close>\<close>

record caller =
  sub :: pystr
  cname :: "pystr option"
  roles :: "pystr set"

text \<open>The caller's own id, plus each role, sorted.\<close>

definition subjects :: "caller \<Rightarrow> subject list" where
  "subjects c = (lit ''user'', sub c) # map (\<lambda>r. (lit ''role'', r)) (sorted_strs (roles c))"

text \<open>Callers as pydantic admits them: a non-empty \<open>sub\<close>; a frozenset is finite.\<close>

definition valid_caller :: "caller \<Rightarrow> bool" where
  "valid_caller c \<longleftrightarrow> sub c \<noteq> [] \<and> finite (roles c)"

lemma set_subjects:
  "finite (roles c) \<Longrightarrow>
   set (subjects c) = insert (lit ''user'', sub c) ((\<lambda>r. (lit ''role'', r)) ` roles c)"
  by (simp add: subjects_def)

lemma distinct_subjects: "distinct (subjects c)"
  by (auto simp: subjects_def distinct_map inj_on_def)

text \<open>The subjects determine the identity: two callers share them only with the same id and roles.\<close>

lemma subjects_inj:
  assumes "finite (roles c)" "finite (roles d)" "set (subjects c) = set (subjects d)"
  shows "sub c = sub d \<and> roles c = roles d"
proof
  let ?S = "set (subjects c)" and ?T = "set (subjects d)"
  have u: "(lit ''user'', x) \<in> ?S \<longleftrightarrow> x = sub c" "(lit ''user'', x) \<in> ?T \<longleftrightarrow> x = sub d" for x
    using assms(1,2) by (auto simp: set_subjects)
  have "(lit ''user'', sub c) \<in> ?S" by (simp only: u)
  then have "(lit ''user'', sub c) \<in> ?T" by (simp only: assms(3))
  then show "sub c = sub d" by (simp only: u)
  have r: "(lit ''role'', x) \<in> ?S \<longleftrightarrow> x \<in> roles c" "(lit ''role'', x) \<in> ?T \<longleftrightarrow> x \<in> roles d" for x
    using assms(1,2) by (auto simp: set_subjects)
  show "roles c = roles d" using r assms(3) by blast
qed

section \<open>What adapters return\<close>

datatype table_kind = KTable | KView

record table_info =
  ti_name :: pystr
  ti_kind :: table_kind
  ti_comment :: "pystr option"

record column_info =
  ci_name :: pystr
  ci_type :: pystr
  ci_nullable :: bool
  ci_primary_key :: bool
  ci_comment :: "pystr option"

record relationship =
  rel_from_table :: pystr
  rel_columns :: "pystr list"
  rel_to_table :: pystr
  rel_to_columns :: "pystr list"

record table_description =
  td_name :: pystr
  td_kind :: table_kind
  td_comment :: "pystr option"
  td_columns :: "column_info list"
  td_foreign_keys :: "relationship list"

record 'v raw_result =
  rr_columns :: "pystr list"
  rr_rows :: "'v list list"
  rr_truncated :: bool

record explain_result =
  er_plan :: pystr
  er_estimated_cost :: "pyfloat option"
  er_estimated_rows :: "int option"

section \<open>The connection registry\<close>

record connection_record =
  cr_id :: uuid
  cr_name :: pystr
  cr_engine :: pystr
  cr_description :: pystr
  cr_details :: "(pystr \<times> json) list"
  cr_secret_encrypted :: "pystr option"
  cr_updated_at :: datetime

section \<open>What callers see\<close>

record security_flag =
  sf_location :: pystr
  sf_rule :: pystr

record connection_info =
  cinf_name :: pystr
  cinf_engine :: pystr
  cinf_description :: pystr

record table_summary =
  ts_name :: pystr
  ts_kind :: table_kind
  ts_description :: pystr

record column_detail =
  cd_name :: pystr
  cd_type :: pystr
  cd_nullable :: bool
  cd_primary_key :: bool
  cd_description :: pystr

record foreign_key_detail =
  fkd_from_table :: pystr
  fkd_columns :: "pystr list"
  fkd_to_table :: pystr
  fkd_to_columns :: "pystr list"

record table_detail =
  tdt_name :: pystr
  tdt_kind :: table_kind
  tdt_description :: pystr
  tdt_columns :: "column_detail list"
  tdt_foreign_keys :: "foreign_key_detail list"
  tdt_security_flags :: "security_flag list"

record table_relationships =
  trl_table :: pystr
  trl_references :: "foreign_key_detail list"
  trl_referenced_by :: "foreign_key_detail list"

record schema_search_hit =
  hit_table :: pystr
  hit_column :: "pystr option"
  hit_description :: pystr
  hit_score :: pyfloat

record query_result =
  qr_columns :: "pystr list"
  qr_rows :: "json list list"
  qr_row_count :: int
  qr_truncated :: bool
  qr_elapsed_ms :: int
  qr_security_flags :: "security_flag list"

record plan_result =
  pr_plan :: pystr
  pr_estimated_cost :: "pyfloat option"
  pr_estimated_rows :: "int option"

section \<open>The audit trail\<close>

record audit_entry =
  ae_caller_sub :: pystr
  ae_caller_name :: "pystr option"
  ae_tool_name :: pystr
  ae_connection_name :: "pystr option"
  ae_arguments :: "(pystr \<times> json) list"
  ae_duration_ms :: int
  ae_success :: bool
  ae_tables :: "pystr list"
  ae_row_count :: "int option"
  ae_result_summary :: "pystr option"
  ae_error_message :: "pystr option"
  ae_caller_roles :: "pystr list"

end
