(* ===== verification/PyRegex.thy ===== *)
theory PyRegex
  imports PyStr
begin

text \<open>
  The fragment of Python's \<open>re\<close> the source uses: literals with and without \<open>IGNORECASE\<close>,
  character classes, alternation, concatenation, greedy repetition of one class
  (\<open>\<^verbatim>\<open>\s+\<close>\<close>, \<open>\<^verbatim>\<open>.{0,40}\<close>\<close>), \<open>\<^verbatim>\<open>\b\<close>\<close> and the anchors.

  A position in the subject is the character before it (if any) and the text after it.
  \<open>ends\<close> is the matcher: all positions where a match that starts here can stop, in the
  order a backtracking matcher tries them.  \<open>rx_lang\<close> says declaratively which piece of
  text matches in which context, and \<open>ends_iff\<close> / \<open>rx_search_Some\<close> / \<open>rx_search_None\<close> prove that the
  matcher finds exactly those.
\<close>

section \<open>Patterns\<close>

datatype cls =
    Any                         \<comment> \<open>\<open>.\<close> with DOTALL\<close>
  | Chr int                     \<comment> \<open>this character\<close>
  | ChrI int                    \<comment> \<open>this character, IGNORECASE\<close>
  | Space                       \<comment> \<open>\<open>\<^verbatim>\<open>\s\<close>\<close>\<close>
  | Among "(int \<times> int) list"    \<comment> \<open>a set of ranges\<close>
  | NotChr int                  \<comment> \<open>\<open>[^c]\<close>\<close>

datatype rx =
    Eps
  | Sym cls
  | Cat rx rx
  | Alt rx rx
  | Many nat "nat option" cls   \<comment> \<open>\<open>k{lo,hi}\<close>, greedy; no \<open>hi\<close> is unbounded\<close>
  | WordB                       \<comment> \<open>\<open>\<^verbatim>\<open>\b\<close>\<close>\<close>
  | AtStart                     \<comment> \<open>\<open>^\<close>\<close>
  | AtEnd                       \<comment> \<open>the end of the subject\<close>

text \<open>
  How \<open>re\<close> compares characters under \<open>IGNORECASE\<close> with an ASCII letter of the pattern:
  by lower case, where the dotted and dotless i, the long s and the Kelvin sign count as
  \<open>i\<close>, \<open>s\<close> and \<open>k\<close> (as the \<open>re\<close> documentation lists).
\<close>

definition fold_ci :: "int \<Rightarrow> int" where
  "fold_ci c =
     (if c = 304 \<or> c = 305 then 105 else if c = 383 then 115 else if c = 8490 then 107
      else ascii_lower1 c)"

fun cls_match :: "cls \<Rightarrow> int \<Rightarrow> bool" where
  "cls_match Any c \<longleftrightarrow> True"
| "cls_match (Chr d) c \<longleftrightarrow> c = d"
| "cls_match (ChrI d) c \<longleftrightarrow> fold_ci c = fold_ci d"
| "cls_match Space c \<longleftrightarrow> is_space c"
| "cls_match (Among rs) c \<longleftrightarrow> list_ex (\<lambda>(lo, hi). lo \<le> c \<and> c \<le> hi) rs"
| "cls_match (NotChr d) c \<longleftrightarrow> c \<noteq> d"

text \<open>A word written out, the alternation of several, an optional part.\<close>

definition rx_word :: "string \<Rightarrow> rx" where
  "rx_word w = foldr (\<lambda>c r. Cat (Sym (ChrI (of_char c))) r) w Eps"

definition rx_text :: "string \<Rightarrow> rx" where
  "rx_text w = foldr (\<lambda>c r. Cat (Sym (Chr (of_char c))) r) w Eps"

fun rx_alts :: "rx list \<Rightarrow> rx" where
  "rx_alts [] = Sym (Among [])"
| "rx_alts [r] = r"
| "rx_alts (r # q # rs) = Alt r (rx_alts (q # rs))"

fun rx_seq :: "rx list \<Rightarrow> rx" where
  "rx_seq [] = Eps"
| "rx_seq [r] = r"
| "rx_seq (r # q # rs) = Cat r (rx_seq (q # rs))"

definition rx_opt :: "rx \<Rightarrow> rx" where
  "rx_opt r = Alt r Eps"

section \<open>The matcher\<close>

type_synonym rpos = "int option \<times> pystr"

text \<open>\<open>\<^verbatim>\<open>\w\<close>\<close>: alphanumeric or underscore; no character is not one.\<close>

definition is_word :: "ucd \<Rightarrow> int \<Rightarrow> bool" where
  "is_word U c \<longleftrightarrow> u_alnum U c \<or> c = 95"

definition word_at :: "ucd \<Rightarrow> int option \<Rightarrow> bool" where
  "word_at U o1 = (case o1 of None \<Rightarrow> False | Some c \<Rightarrow> is_word U c)"

definition next_char :: "pystr \<Rightarrow> int option" where
  "next_char s = (case s of [] \<Rightarrow> None | c # _ \<Rightarrow> Some c)"

fun run_ends :: "cls \<Rightarrow> nat option \<Rightarrow> int option \<Rightarrow> pystr \<Rightarrow> rpos list" where
  "run_ends k lim p [] = [(p, [])]"
| "run_ends k lim p (c # s) =
     (p, c # s) #
     (if lim \<noteq> Some 0 \<and> cls_match k c
      then run_ends k (map_option (\<lambda>n. n - 1) lim) (Some c) s else [])"

primrec ends :: "ucd \<Rightarrow> rx \<Rightarrow> rpos \<Rightarrow> rpos list" where
  "ends U Eps z = [z]"
| "ends U (Sym k) z =
     (case snd z of [] \<Rightarrow> [] | c # s \<Rightarrow> if cls_match k c then [(Some c, s)] else [])"
| "ends U (Cat r q) z = concat (map (ends U q) (ends U r z))"
| "ends U (Alt r q) z = ends U r z @ ends U q z"
| "ends U (Many lo hi k) z = rev (drop lo (run_ends k hi (fst z) (snd z)))"
| "ends U WordB z = (if word_at U (fst z) \<noteq> word_at U (next_char (snd z)) then [z] else [])"
| "ends U AtStart z = (if fst z = None then [z] else [])"
| "ends U AtEnd z = (if snd z = [] then [z] else [])"

text \<open>\<open>pattern.match(s)\<close>: a match that starts here; the matched text and the rest.\<close>

definition rx_match_here :: "ucd \<Rightarrow> rx \<Rightarrow> int option \<Rightarrow> pystr \<Rightarrow> (pystr \<times> pystr) option" where
  "rx_match_here U r p s =
     (case ends U r (p, s) of [] \<Rightarrow> None
      | (q, t) # _ \<Rightarrow> Some (take (length s - length t) s, t))"

text \<open>\<open>pattern.search(s)\<close>: the leftmost match; the text before it, the match, the rest.\<close>

fun rx_search_from :: "ucd \<Rightarrow> rx \<Rightarrow> int option \<Rightarrow> pystr \<Rightarrow> (pystr \<times> pystr \<times> pystr) option" where
  "rx_search_from U r p [] =
     (case rx_match_here U r p [] of Some (m, t) \<Rightarrow> Some ([], m, t) | None \<Rightarrow> None)"
| "rx_search_from U r p (c # s) =
     (case rx_match_here U r p (c # s) of
        Some (m, t) \<Rightarrow> Some ([], m, t)
      | None \<Rightarrow>
          (case rx_search_from U r (Some c) s of
             Some (a, m, t) \<Rightarrow> Some (c # a, m, t) | None \<Rightarrow> None))"

definition rx_search :: "ucd \<Rightarrow> rx \<Rightarrow> pystr \<Rightarrow> (pystr \<times> pystr \<times> pystr) option" where
  "rx_search U r s = rx_search_from U r None s"

definition rx_found :: "ucd \<Rightarrow> rx \<Rightarrow> pystr \<Rightarrow> bool" where
  "rx_found U r s \<longleftrightarrow> rx_search U r s \<noteq> None"

section \<open>What a pattern means\<close>

definition prev_after :: "int option \<Rightarrow> pystr \<Rightarrow> int option" where
  "prev_after p m = (if m = [] then p else Some (last m))"

text \<open>\<open>rx_lang U r p m b\<close>: the text \<open>m\<close>, preceded by \<open>p\<close> and followed by \<open>b\<close>, matches \<open>r\<close>.\<close>

primrec rx_lang :: "ucd \<Rightarrow> rx \<Rightarrow> int option \<Rightarrow> pystr \<Rightarrow> pystr \<Rightarrow> bool" where
  "rx_lang U Eps p m b \<longleftrightarrow> m = []"
| "rx_lang U (Sym k) p m b \<longleftrightarrow> (\<exists>c. m = [c] \<and> cls_match k c)"
| "rx_lang U (Cat r q) p m b \<longleftrightarrow>
     (\<exists>m1 m2. m = m1 @ m2 \<and> rx_lang U r p m1 (m2 @ b) \<and> rx_lang U q (prev_after p m1) m2 b)"
| "rx_lang U (Alt r q) p m b \<longleftrightarrow> rx_lang U r p m b \<or> rx_lang U q p m b"
| "rx_lang U (Many lo hi k) p m b \<longleftrightarrow>
     lo \<le> length m \<and> (\<forall>h. hi = Some h \<longrightarrow> length m \<le> h) \<and> list_all (cls_match k) m"
| "rx_lang U WordB p m b \<longleftrightarrow> m = [] \<and> word_at U p \<noteq> word_at U (next_char b)"
| "rx_lang U AtStart p m b \<longleftrightarrow> m = [] \<and> p = None"
| "rx_lang U AtEnd p m b \<longleftrightarrow> m = [] \<and> b = []"

lemma prev_after_simps [simp]:
  "prev_after p [] = p"
  "prev_after (prev_after p m) n = prev_after p (m @ n)"
  "prev_after p (c # m) = prev_after (Some c) m"
  by (simp_all add: prev_after_def)

lemma run_ends_nth:
  "n < length (run_ends k lim p s) \<longleftrightarrow>
     n \<le> length s \<and> (\<forall>h. lim = Some h \<longrightarrow> n \<le> h) \<and> list_all (cls_match k) (take n s)"
proof (induction k lim p s arbitrary: n rule: run_ends.induct)
  case (2 k lim p c s)
  show ?case
  proof (cases n)
    case (Suc m)
    show ?thesis
    proof (cases "lim \<noteq> Some 0 \<and> cls_match k c")
      case True
      with 2 have "m < length (run_ends k (map_option (\<lambda>n. n - 1) lim) (Some c) s) \<longleftrightarrow>
          m \<le> length s \<and> (\<forall>h. map_option (\<lambda>n. n - 1) lim = Some h \<longrightarrow> m \<le> h)
          \<and> list_all (cls_match k) (take m s)" by blast
      with True Suc show ?thesis by (cases lim) auto
    next
      case False
      with Suc show ?thesis by auto
    qed
  qed auto
qed auto

lemma run_ends_val:
  "n < length (run_ends k lim p s) \<Longrightarrow> run_ends k lim p s ! n = (prev_after p (take n s), drop n s)"
proof (induction k lim p s arbitrary: n rule: run_ends.induct)
  case (2 k lim p c s)
  then show ?case by (cases n) (auto split: if_splits)
qed simp

lemma run_ends_iff:
  "(q, b) \<in> set (drop lo (run_ends k lim p s)) \<longleftrightarrow>
     (\<exists>m. s = m @ b \<and> q = prev_after p m \<and> lo \<le> length m
          \<and> (\<forall>h. lim = Some h \<longrightarrow> length m \<le> h) \<and> list_all (cls_match k) m)"
  (is "?L \<longleftrightarrow> ?R")
proof
  let ?xs = "run_ends k lim p s"
  assume ?L
  then obtain i where "i < length ?xs - lo" "?xs ! (lo + i) = (q, b)"
    by (auto simp: in_set_conv_nth)
  then have i: "lo + i < length ?xs" "?xs ! (lo + i) = (q, b)" by simp_all
  then have "(q, b) = (prev_after p (take (lo + i) s), drop (lo + i) s)"
    by (simp add: run_ends_val)
  moreover have "lo + i \<le> length s" "\<forall>h. lim = Some h \<longrightarrow> lo + i \<le> h"
    "list_all (cls_match k) (take (lo + i) s)"
    using i(1) by (auto simp: run_ends_nth)
  ultimately show ?R
    by (intro exI [of _ "take (lo + i) s"]) auto
next
  let ?xs = "run_ends k lim p s"
  assume ?R
  then obtain m where m: "s = m @ b" "q = prev_after p m" "lo \<le> length m"
    "\<forall>h. lim = Some h \<longrightarrow> length m \<le> h" "list_all (cls_match k) m" by blast
  then have n: "length m < length ?xs" by (auto simp: run_ends_nth)
  then have "?xs ! length m = (q, b)" using m by (simp add: run_ends_val)
  with n m(3) show ?L
    by (auto simp: in_set_conv_nth intro!: exI [of _ "length m - lo"])
qed

text \<open>The matcher finds exactly the matches of the pattern.\<close>

lemma ends_iff:
  "(q, b) \<in> set (ends U r (p, s)) \<longleftrightarrow>
     (\<exists>m. s = m @ b \<and> q = prev_after p m \<and> rx_lang U r p m b)"
proof (induction r arbitrary: p s q b)
  case (Sym k)
  show ?case by (cases s) (auto simp: Cons_eq_append_conv)
next
  case (Cat r1 r2)
  have "(q, b) \<in> set (ends U (Cat r1 r2) (p, s)) \<longleftrightarrow>
     (\<exists>p1 s1. (p1, s1) \<in> set (ends U r1 (p, s)) \<and> (q, b) \<in> set (ends U r2 (p1, s1)))"
    by auto
  also have "\<dots> \<longleftrightarrow> (\<exists>m1 m2. s = m1 @ m2 @ b \<and> q = prev_after p (m1 @ m2)
      \<and> rx_lang U r1 p m1 (m2 @ b) \<and> rx_lang U r2 (prev_after p m1) m2 b)"
    unfolding Cat.IH by fastforce
  also have "\<dots> \<longleftrightarrow> (\<exists>m. s = m @ b \<and> q = prev_after p m \<and> rx_lang U (Cat r1 r2) p m b)"
    by (simp) (metis append.assoc)
  finally show ?case .
next
  case (Alt r1 r2)
  then show ?case by (simp only: ends.simps set_append Un_iff rx_lang.simps) blast
next
  case (Many lo hi k)
  have "(q, b) \<in> set (ends U (Many lo hi k) (p, s)) \<longleftrightarrow> (q, b) \<in> set (drop lo (run_ends k hi p s))"
    by simp
  then show ?case unfolding run_ends_iff by simp
qed auto

lemma rx_match_here_Some:
  assumes "rx_match_here U r p s = Some (m, t)"
  shows "s = m @ t" "rx_lang U r p m t"
proof -
  obtain q rest where e: "ends U r (p, s) = (q, t) # rest" "m = take (length s - length t) s"
    using assms by (auto simp: rx_match_here_def split: list.splits prod.splits)
  then have "(q, t) \<in> set (ends U r (p, s))" by simp
  then obtain n where "s = n @ t" "rx_lang U r p n t" unfolding ends_iff by blast
  with e(2) show "s = m @ t" "rx_lang U r p m t" by simp_all
qed

lemma rx_match_here_None:
  "rx_match_here U r p s = None \<longleftrightarrow> (\<forall>m t. s = m @ t \<longrightarrow> \<not> rx_lang U r p m t)"
proof -
  have "rx_match_here U r p s = None \<longleftrightarrow> ends U r (p, s) = []"
    by (auto simp: rx_match_here_def split: list.splits)
  also have "\<dots> \<longleftrightarrow> (\<forall>q t. (q, t) \<notin> set (ends U r (p, s)))"
    by (metis list.set_intros(1) all_not_in_conv set_empty surj_pair)
  finally show ?thesis unfolding ends_iff by blast
qed

lemma rx_search_from_Some:
  "rx_search_from U r p s = Some (a, m, t) \<Longrightarrow>
     s = a @ m @ t \<and> rx_lang U r (prev_after p a) m t
     \<and> (\<forall>a' m' t'. s = a' @ m' @ t' \<longrightarrow> length a' < length a \<longrightarrow> \<not> rx_lang U r (prev_after p a') m' t')"
proof (induction U r p s arbitrary: a m t rule: rx_search_from.induct)
  case (1 U r p)
  then show ?case by (auto split: option.splits dest: rx_match_here_Some)
next
  case (2 U r p c s)
  show ?case
  proof (cases "rx_match_here U r p (c # s)")
    case (Some z)
    with 2 show ?thesis by (cases z) (auto dest: rx_match_here_Some)
  next
    case None
    with 2 obtain a' where a: "a = c # a'" "rx_search_from U r (Some c) s = Some (a', m, t)"
      by (auto split: option.splits)
    from 2(1) [OF None a(2)] a(1) None show ?thesis
      by (auto simp: rx_match_here_None Cons_eq_append_conv)
  qed
qed

lemma all_splits_Cons:
  "(\<forall>a m t. c # s = a @ m @ t \<longrightarrow> P a m t) \<longleftrightarrow>
     (\<forall>m t. c # s = m @ t \<longrightarrow> P [] m t) \<and> (\<forall>a m t. s = a @ m @ t \<longrightarrow> P (c # a) m t)"
  (is "?L \<longleftrightarrow> ?R")
proof
  assume ?L
  then show ?R by simp
next
  assume R: ?R
  show ?L
  proof (intro allI impI)
    fix a m t assume "c # s = a @ m @ t"
    with R show "P a m t" by (cases a) auto
  qed
qed

lemma rx_search_from_None:
  "rx_search_from U r p s = None \<longleftrightarrow>
     (\<forall>a m t. s = a @ m @ t \<longrightarrow> \<not> rx_lang U r (prev_after p a) m t)"
proof (induction U r p s rule: rx_search_from.induct)
  case (1 U r p)
  show ?case
  proof (cases "rx_match_here U r p []")
    case (Some z)
    then show ?thesis by (cases z) (auto dest: rx_match_here_Some)
  next
    case None
    then have "\<not> rx_lang U r p [] []" by (simp add: rx_match_here_None)
    with None show ?thesis by simp
  qed
next
  case (2 U r p c s)
  show ?case
  proof (cases "rx_match_here U r p (c # s)")
    case (Some z)
    then obtain m t where z: "rx_match_here U r p (c # s) = Some (m, t)" by (cases z) auto
    then have "c # s = [] @ m @ t" "rx_lang U r (prev_after p []) m t"
      by (auto dest: rx_match_here_Some)
    moreover have "rx_search_from U r p (c # s) \<noteq> None" by (simp add: z)
    ultimately show ?thesis by blast
  next
    case None
    have "rx_search_from U r p (c # s) = None \<longleftrightarrow> rx_search_from U r (Some c) s = None"
      using None by (auto split: option.splits)
    then show ?thesis
      unfolding all_splits_Cons using 2 [OF None] None by (simp only: prev_after_simps rx_match_here_None) blast
  qed
qed

lemma rx_search_Some:
  assumes "rx_search U r s = Some (a, m, t)"
  shows "s = a @ m @ t" "rx_lang U r (prev_after None a) m t"
  using rx_search_from_Some [OF assms [unfolded rx_search_def]] by auto

lemma rx_search_None:
  "rx_search U r s = None \<longleftrightarrow>
     (\<forall>a m t. s = a @ m @ t \<longrightarrow> \<not> rx_lang U r (prev_after None a) m t)"
  unfolding rx_search_def by (rule rx_search_from_None)

text \<open>Searching is complete: every text in which the pattern occurs is found, and only those.\<close>

lemma rx_found_iff:
  "rx_found U r s \<longleftrightarrow> (\<exists>a m t. s = a @ m @ t \<and> rx_lang U r (prev_after None a) m t)"
  unfolding rx_found_def by (subst rx_search_None) blast

section \<open>Words and alternatives\<close>

text \<open>\<open>same_ci w m\<close>: \<open>m\<close> reads as the ASCII word \<open>w\<close> when case is ignored.\<close>

definition same_ci :: "string \<Rightarrow> pystr \<Rightarrow> bool" where
  "same_ci w m \<longleftrightarrow> map fold_ci m = map fold_ci (lit w)"

lemma rx_lang_cat_sym:
  "rx_lang U (Cat (Sym k) q) p m b \<longleftrightarrow>
     (\<exists>c m2. m = c # m2 \<and> cls_match k c \<and> rx_lang U q (Some c) m2 b)"
  by (simp, metis append_Cons append_Nil prev_after_simps(1,3))

lemma rx_lang_word [simp]: "rx_lang U (rx_word w) p m b \<longleftrightarrow> same_ci w m"
proof (induction w arbitrary: p m)
  case (Cons c w)
  have "rx_word (c # w) = Cat (Sym (ChrI (of_char c))) (rx_word w)" by (simp add: rx_word_def)
  then have "rx_lang U (rx_word (c # w)) p m b \<longleftrightarrow>
      (\<exists>d m2. m = d # m2 \<and> fold_ci d = fold_ci (of_char c) \<and> same_ci w m2)"
    using Cons by (simp only: rx_lang_cat_sym cls_match.simps)
  also have "\<dots> \<longleftrightarrow> same_ci (c # w) m"
    by (cases m) (auto simp: same_ci_def)
  finally show ?case .
qed (simp add: rx_word_def same_ci_def)

lemma rx_lang_alts [simp]:
  "rs \<noteq> [] \<Longrightarrow> rx_lang U (rx_alts rs) p m b \<longleftrightarrow> (\<exists>r\<in>set rs. rx_lang U r p m b)"
  by (induction rs rule: rx_alts.induct) auto

lemma rx_lang_opt [simp]: "rx_lang U (rx_opt r) p m b \<longleftrightarrow> rx_lang U r p m b \<or> m = []"
  by (simp add: rx_opt_def)

text \<open>One of some words, standing alone: \<open>\<^verbatim>\<open>\b(w1|w2|...)\b\<close>\<close>.\<close>

definition rx_whole_word :: "string list \<Rightarrow> rx" where
  "rx_whole_word ws = rx_seq [WordB, rx_alts (map rx_word ws), WordB]"

text \<open>\<open>stands_alone U a m b\<close>: \<open>m\<close>, between \<open>a\<close> and \<open>b\<close>, has a word boundary on both sides.\<close>

definition stands_alone :: "ucd \<Rightarrow> pystr \<Rightarrow> pystr \<Rightarrow> pystr \<Rightarrow> bool" where
  "stands_alone U a m b \<longleftrightarrow>
     word_at U (prev_after None a) \<noteq> word_at U (next_char (m @ b))
     \<and> word_at U (prev_after None (a @ m)) \<noteq> word_at U (next_char b)"

lemma rx_found_whole_word:
  assumes "ws \<noteq> []"
  shows "rx_found U (rx_whole_word ws) s \<longleftrightarrow>
     (\<exists>a m b. s = a @ m @ b \<and> (\<exists>w\<in>set ws. same_ci w m) \<and> stands_alone U a m b)"
  using assms by (auto simp: rx_found_iff rx_whole_word_def stands_alone_def)

end
