(* ===== verification/Validator.thy ===== *)
theory Validator
  imports Models PyRegex
begin

text \<open>
  \<open>services/query_validator.py\<close>: whether a piece of SQL may be run, and which tables it
  reads.  The three layers of the module are here in its order: masking of comments and
  quoted text with the keyword checks on what is left, the structure check on sqlglot's
  parse, and the extraction of table names.  sqlglot is not part of the repository: its
  parser and scope analysis are the record \<open>sqlglot\<close>, an argument of \<open>validate\<close>.

  The source walks the SQL with an index \<open>i\<close>; here the position is the character before
  it (\<open>sql[i-1]\<close>, if any) and the text from it on (\<open>sql[i:]\<close>).
\<close>

section \<open>Constants of the module\<close>

definition sqlglot_dialects :: "pystr \<Rightarrow> pystr option" where
  "sqlglot_dialects d =
     (if d = lit ''postgresql'' then Some (lit ''postgres'')
      else if d = lit ''mysql'' then Some (lit ''mysql'')
      else if d = lit ''mssql'' then Some (lit ''tsql'')
      else if d = lit ''sqlite'' then Some (lit ''sqlite'')
      else None)"

definition forbidden_keywords :: "string list" where
  "forbidden_keywords =
     [''drop'', ''delete'', ''update'', ''alter'', ''insert'', ''truncate'', ''grant'',
      ''revoke'', ''create'', ''merge'', ''into'', ''call'', ''exec'', ''execute'',
      ''attach'', ''detach'', ''pragma'', ''vacuum'', ''copy'', ''reindex'']"

definition dangerous_functions :: "string list" where
  "dangerous_functions =
     [''pg_sleep'', ''pg_read_file'', ''pg_read_binary_file'', ''pg_ls_dir'',
      ''pg_terminate_backend'', ''pg_cancel_backend'', ''pg_reload_conf'', ''set_config'',
      ''lo_import'', ''lo_export'', ''dblink'', ''load_extension'', ''load_file'',
      ''xp_cmdshell'', ''openrowset'', ''opendatasource'', ''sp_executesql'', ''sp_oacreate'']"

definition forbidden_re :: rx where
  "forbidden_re = rx_whole_word forbidden_keywords"

definition function_re :: rx where
  "function_re = rx_whole_word dangerous_functions"

definition locking_re :: rx where
  "locking_re =
     rx_seq [WordB, rx_word ''for'', Many 1 None Space,
       rx_opt (rx_seq [rx_word ''no'', Many 1 None Space, rx_word ''key'', Many 1 None Space]),
       rx_word ''share'', WordB]"

definition starts_like_query_re :: rx where
  "starts_like_query_re =
     rx_seq [AtStart, Many 0 None (Chr 40), Many 0 None Space,
       rx_alts [rx_word ''select'', rx_word ''with''], WordB]"

definition dollar_tag_re :: rx where
  "dollar_tag_re =
     rx_seq [Sym (Chr 36), Many 0 None (Among [(65, 90), (97, 122), (95, 95)]), Sym (Chr 36)]"

definition write_node_names :: "pystr list" where
  "write_node_names =
     map lit [''Insert'', ''Update'', ''Delete'', ''Merge'', ''Create'', ''Drop'', ''Alter'',
       ''Command'', ''Into'', ''TruncateTable'', ''Grant'', ''Revoke'', ''Copy'', ''Set'',
       ''LoadData'', ''Use'']"

section \<open>Masking comments and quoted text\<close>

definition rejected :: "pystr \<Rightarrow> exn" where
  "rejected m = McpSqlError QueryRejected m"

text \<open>\<open>_skip_to_line_end\<close>: the text from the next newline on.\<close>

definition skip_to_line_end :: "pystr \<Rightarrow> pystr" where
  "skip_to_line_end s = dropWhile (\<lambda>c. c \<noteq> 10) s"

text \<open>
  \<open>_skip_quoted\<close>: given the text after the opening quote, what follows the closing one.  A
  doubled closing quote is part of the text; a backslash or a missing close is refused.
\<close>

fun skip_quoted :: "int \<Rightarrow> pystr \<Rightarrow> exn + pystr" where
  "skip_quoted close [] = Inl (rejected (lit ''The SQL has an unterminated quoted string or identifier.''))"
| "skip_quoted close (ch # s) =
     (if ch = 92 then
        Inl (rejected (lit ''Backslashes inside quoted text are not supported. Rewrite the query without them.''))
      else if ch = close then
        (case s of
           [] \<Rightarrow> Inr []
         | d # s' \<Rightarrow> if d = close then skip_quoted close s' else Inr s)
      else skip_quoted close s)"

text \<open>\<open>sql[i-1]\<close> once \<open>i\<close> has moved from the start of \<open>s\<close> to the start of its suffix \<open>rest\<close>.\<close>

definition prev_char :: "pystr \<Rightarrow> pystr \<Rightarrow> int option" where
  "prev_char s rest = Some (last (take (length s - length rest) s))"

lemma skip_quoted_length: "skip_quoted q s = Inr r \<Longrightarrow> length r < length s"
proof (induction q s rule: skip_quoted.induct)
  case (2 q c s)
  show ?case
  proof (cases "c = q")
    case True
    with 2 show ?thesis by (cases s) (fastforce split: if_splits)+
  next
    case False
    with 2 show ?thesis by (fastforce split: if_splits)
  qed
qed simp

lemma skip_to_line_end_length: "length (skip_to_line_end s) \<le> length s"
  by (simp add: skip_to_line_end_def length_dropWhile_le)

lemma dollar_tag_match:
  assumes "rx_match_here U dollar_tag_re p s = Some (tag, rest)"
  shows "s = tag @ rest" "2 \<le> length tag" "hd tag = 36" "last tag = 36"
proof -
  from rx_match_here_Some [OF assms] show "s = tag @ rest" by simp
  from rx_match_here_Some(2) [OF assms] show "2 \<le> length tag" "hd tag = 36" "last tag = 36"
    by (auto simp: dollar_tag_re_def)
qed

lemma skip_line_shorter:
  "c \<noteq> 10 \<Longrightarrow> length (skip_to_line_end (c # s)) < length (c # s)"
  using length_dropWhile_le [of "\<lambda>c. c \<noteq> 10" s] by (simp add: skip_to_line_end_def)

text \<open>The loop of \<open>_mask_comments_and_quotes\<close>.\<close>

function mask_from :: "ucd \<Rightarrow> pystr \<Rightarrow> int option \<Rightarrow> pystr \<Rightarrow> exn + pystr" where
  "mask_from U dialect p [] = Inr []"
| "mask_from U dialect p (c # s) =
     (if starts_with (c # s) (lit ''--'') then
        (if dialect = lit ''mysql''
            \<and> (case drop 2 (c # s) of [] \<Rightarrow> False | d # _ \<Rightarrow> d \<notin> {32, 9, 13, 10})
         then Inl (rejected (lit ''Put a space after '' @ quoted (lit ''--'') @ lit '' to start a comment.''))
         else res_bind (mask_from U dialect (prev_char (c # s) (skip_to_line_end (c # s)))
                          (skip_to_line_end (c # s)))
                (\<lambda>out. Inr (32 # out)))
      else if c = cp CHR ''#'' \<and> dialect = lit ''mysql'' then
        res_bind (mask_from U dialect (prev_char (c # s) (skip_to_line_end (c # s)))
                    (skip_to_line_end (c # s)))
          (\<lambda>out. Inr (32 # out))
      else if starts_with (c # s) (lit ''/*'') then
        (if starts_with (drop 2 (c # s)) (lit ''!'')
         then Inl (rejected (lit ''MySQL executable comments (/*! ... */) are not allowed.''))
         else case cut_after (lit ''*/'') (drop 2 (c # s)) of
             None \<Rightarrow> Inl (rejected (lit ''The SQL has an unterminated comment.''))
           | Some rest \<Rightarrow>
               res_bind (mask_from U dialect (prev_char (c # s) rest) rest) (\<lambda>out. Inr (32 # out)))
      else if c \<in> {39, 34, 96} \<or> (c = 91 \<and> dialect = lit ''mssql'') then
        (case skip_quoted (if c = 91 then 93 else c) s of
           Inl e \<Rightarrow> Inl e
         | Inr rest \<Rightarrow>
             res_bind (mask_from U dialect (prev_char (c # s) rest) rest) (\<lambda>out. Inr (63 # out)))
      else if c = 36 \<and> \<not> word_at U p then
        (case rx_match_here U dollar_tag_re p (c # s) of
           None \<Rightarrow> res_bind (mask_from U dialect (Some c) s) (\<lambda>out. Inr (c # out))
         | Some (tag, after) \<Rightarrow>
             (case cut_after tag after of
                None \<Rightarrow> Inl (rejected (lit ''The SQL has an unterminated dollar-quoted string.''))
              | Some rest \<Rightarrow>
                  res_bind (mask_from U dialect (prev_char (c # s) rest) rest)
                    (\<lambda>out. Inr (63 # out))))
      else res_bind (mask_from U dialect (Some c) s) (\<lambda>out. Inr (c # out)))"
  by pat_completeness auto

termination
proof (relation "measure (\<lambda>(U, dialect, p, s). length s)", goal_cases)
  case 1
  then show ?case by simp
next
  case (2 U dialect p c s)
  then have "c \<noteq> 10" by (auto simp: starts_with_def)
  then show ?case using skip_line_shorter by simp
next
  case (3 U dialect p c s)
  then show ?case using skip_line_shorter [of c s] by simp
next
  case (4 U dialect p c s rest)
  then show ?case using cut_after_length [of "lit ''*/''" "drop 2 (c # s)" rest] by simp
next
  case (5 U dialect p c s rest)
  then show ?case using skip_quoted_length by fastforce
next
  case (6 U dialect p c s)
  then show ?case by simp
next
  case (7 U dialect p c s z tag after rest)
  then have "length (c # s) = length (tag @ after)" "2 \<le> length tag"
    using dollar_tag_match by metis+
  moreover have "length rest \<le> length after" using 7 cut_after_length by fastforce
  ultimately show ?case by simp
next
  case (8 U dialect p c s)
  then show ?case by simp
qed

declare mask_from.simps(2) [simp del]

definition mask_comments_and_quotes :: "ucd \<Rightarrow> pystr \<Rightarrow> pystr \<Rightarrow> exn + pystr" where
  "mask_comments_and_quotes U sql dialect = mask_from U dialect None sql"

section \<open>Layer 1: the text of the query\<close>

definition check_text :: "ucd \<Rightarrow> pystr \<Rightarrow> exn + unit" where
  "check_text U code =
     (if cp CHR '';'' \<in> set code then
        Inl (rejected (lit ''Only a single SQL statement is allowed.''))
      else if rx_match_here U starts_like_query_re None code = None then
        Inl (rejected (lit ''Only read-only SELECT queries are allowed (SELECT or WITH ... SELECT).''))
      else case rx_search U forbidden_re code of
          Some (a, m, b) \<Rightarrow>
            Inl (rejected (lit ''The keyword '' @ u_upper U m @ lit '' is not allowed. ''
                           @ lit ''Only read-only SELECT queries can be run.''))
        | None \<Rightarrow>
            (if rx_found U locking_re code then
               Inl (rejected (lit ''Row-locking clauses (FOR SHARE / FOR UPDATE) are not allowed.''))
             else case rx_search U function_re code of
                 Some (a, m, b) \<Rightarrow> Inl (rejected (lit ''The function '' @ m @ lit '' is not allowed.''))
               | None \<Rightarrow> Inr ()))"

section \<open>Layer 2: the structure of the query\<close>

text \<open>
  What the module uses of sqlglot.  A scope's sources are tables (with the catalog,
  schema and name written in the query, empty where absent, and whether \<open>source.this\<close> is
  an identifier, which a table-valued function's is not) or other scopes.
\<close>

datatype source = TableSource pystr pystr pystr bool | ScopeSource

record 'q sqlglot =
  sg_parse :: "pystr \<Rightarrow> pystr option \<Rightarrow> unit + 'q option list"  \<comment> \<open>\<open>Inl\<close>: SqlglotError\<close>
  sg_is_query :: "'q \<Rightarrow> bool"
  sg_has_class :: "pystr \<Rightarrow> bool"                              \<comment> \<open>\<open>hasattr(exp, name)\<close>\<close>
  sg_find :: "'q \<Rightarrow> pystr list \<Rightarrow> bool"                         \<comment> \<open>a node of one of these classes\<close>
  sg_scopes :: "'q \<Rightarrow> unit + source list list"                \<comment> \<open>\<open>traverse_scope\<close>\<close>

definition write_nodes :: "'q sqlglot \<Rightarrow> pystr list" where
  "write_nodes G = filter (sg_has_class G) write_node_names"

definition parse :: "'q sqlglot \<Rightarrow> pystr \<Rightarrow> pystr \<Rightarrow> exn + 'q" where
  "parse G sql dialect =
     (case sg_parse G sql (sqlglot_dialects dialect) of
        Inl _ \<Rightarrow> Inl (rejected (lit ''The SQL could not be parsed as a single SELECT query. ''
                               @ lit ''Check the syntax, or simplify the query.''))
      | Inr statements \<Rightarrow>
          (case List.map_filter id statements of
             [tree] \<Rightarrow>
               (if \<not> sg_is_query G tree then
                  Inl (rejected (lit ''Only read-only SELECT queries are allowed.''))
                else if sg_find G tree (write_nodes G) then
                  Inl (rejected (lit ''The query contains a data-changing or structural statement.''))
                else Inr tree)
           | _ \<Rightarrow> Inl (rejected (lit ''Only a single SQL statement is allowed.''))))"

section \<open>Layer 3: the tables it reads\<close>

definition canonical_table_name ::
  "ucd \<Rightarrow> pystr \<Rightarrow> pystr \<Rightarrow> pystr \<Rightarrow> pystr option \<Rightarrow> pystr" where
  "canonical_table_name U catalog db name default_schema =
     (let parts = filter (\<lambda>p. p \<noteq> []) [catalog, db, name];
          parts = (case default_schema of
                     None \<Rightarrow> parts
                   | Some d \<Rightarrow>
                       if length parts = 2 \<and> d \<noteq> [] \<and> casefold U (hd parts) = casefold U d
                       then tl parts else parts)
      in join (lit ''.'') parts)"

definition extract_tables :: "ucd \<Rightarrow> 'q sqlglot \<Rightarrow> 'q \<Rightarrow> pystr option \<Rightarrow> exn + pystr set" where
  "extract_tables U G tree default_schema =
     (case sg_scopes G tree of
        Inl _ \<Rightarrow> Inl (rejected (lit ''The query'' @ squote
                               @ lit ''s tables could not be determined. Try a simpler query.''))
      | Inr scopes \<Rightarrow>
          Inr (set (List.map_filter
                 (\<lambda>s. case s of
                    TableSource catalog db name ident \<Rightarrow>
                      if ident then Some (canonical_table_name U catalog db name default_schema)
                      else None
                  | ScopeSource \<Rightarrow> None)
                 (concat scopes))))"

section \<open>The whole check\<close>

record validated_query =
  vq_sql :: pystr
  vq_tables :: "pystr set"

definition strip_trailing_semicolon :: "pystr \<Rightarrow> pystr" where
  "strip_trailing_semicolon sql =
     (let stripped = rstrip sql
      in if ends_with stripped (lit '';'') then rstrip (butlast stripped) else stripped)"

text \<open>The text the keyword checks look at.\<close>

definition code_of :: "pystr \<Rightarrow> pystr" where
  "code_of masked = strip (rstrip_char (cp CHR '';'') (strip masked))"

definition validate ::
  "ucd \<Rightarrow> 'q sqlglot \<Rightarrow> nat \<Rightarrow> pystr \<Rightarrow> pystr \<Rightarrow> pystr option \<Rightarrow> exn + validated_query" where
  "validate U G max_length sql dialect default_schema =
     (if sql = [] \<or> strip sql = [] then Inl (rejected (lit ''The SQL is empty.''))
      else if max_length < length sql then
        Inl (rejected (lit ''The SQL is longer than the '' @ str_of_nat max_length
                       @ lit ''-character limit.''))
      else if 0 \<in> set sql then Inl (rejected (lit ''The SQL contains a null character.''))
      else
        res_bind (mask_comments_and_quotes U sql dialect) (\<lambda>masked.
        res_bind (check_text U (code_of masked)) (\<lambda>_.
        res_bind (parse G sql dialect) (\<lambda>tree.
        res_bind (extract_tables U G tree default_schema) (\<lambda>tables.
          Inr \<lparr>vq_sql = strip_trailing_semicolon sql, vq_tables = tables\<rparr>)))))"

lemma extract_tables_finite: "extract_tables U G tree schema = Inr T \<Longrightarrow> finite T"
  by (cases "sg_scopes G tree") (auto simp: extract_tables_def)

lemma validate_finite: "validate U G n sql dialect schema = Inr vq \<Longrightarrow> finite (vq_tables vq)"
  by (auto simp: validate_def res_bind_Inr_iff dest: extract_tables_finite split: if_splits)

end
