(* ===== verification/ValidatorLex.thy ===== *)
theory ValidatorLex
  imports Validator
begin

text \<open>
  What masking does, stated without the loop.  \<open>lexed\<close> is the grammar of the SQL text the
  module accepts as unambiguous: code characters, line and block comments, quoted text and
  dollar-quoted text, each with the conditions under which it starts and ends.  Masking
  succeeds exactly on the texts this grammar derives, and its output has one character per
  segment: the character itself for code, a space for a comment, \<open>?\<close> for quoted text.
\<close>

section \<open>Segments\<close>

datatype seg =
    Code int
  | LineComment pystr
  | BlockComment pystr
  | Quoted int int pystr     \<comment> \<open>opening and closing quote, text between\<close>
  | Dollar pystr pystr       \<comment> \<open>tag, text between\<close>

fun seg_src :: "seg \<Rightarrow> pystr" where
  "seg_src (Code c) = [c]"
| "seg_src (LineComment t) = t"
| "seg_src (BlockComment b) = lit ''/*'' @ b @ lit ''*/''"
| "seg_src (Quoted a q b) = a # b @ [q]"
| "seg_src (Dollar tag b) = tag @ b @ tag"

fun seg_shown :: "seg \<Rightarrow> int" where
  "seg_shown (Code c) = c"
| "seg_shown (LineComment t) = 32"
| "seg_shown (BlockComment b) = 32"
| "seg_shown (Quoted a q b) = 63"
| "seg_shown (Dollar tag b) = 63"

text \<open>Text between quotes: no backslash, and the closing quote only doubled.\<close>

fun quoted_body :: "int \<Rightarrow> pystr \<Rightarrow> bool" where
  "quoted_body q [] \<longleftrightarrow> True"
| "quoted_body q (c # s) \<longleftrightarrow>
     c \<noteq> 92 \<and> (if c = q then (case s of [] \<Rightarrow> False | d # s' \<Rightarrow> d = q \<and> quoted_body q s')
              else quoted_body q s)"

definition opens_quote :: "pystr \<Rightarrow> int \<Rightarrow> bool" where
  "opens_quote dialect c \<longleftrightarrow> c \<in> {39, 34, 96} \<or> (c = 91 \<and> dialect = lit ''mssql'')"

definition closer :: "int \<Rightarrow> int" where
  "closer c = (if c = 91 then 93 else c)"

definition tag_letter :: "int \<Rightarrow> bool" where
  "tag_letter c \<longleftrightarrow> ascii_upper c \<or> ascii_lower c \<or> c = 95"

definition dollar_tag :: "pystr \<Rightarrow> bool" where
  "dollar_tag t \<longleftrightarrow> (\<exists>x. t = 36 # x @ [36] \<and> list_all tag_letter x)"

definition mysql_dash_ok :: "pystr \<Rightarrow> pystr \<Rightarrow> bool" where
  "mysql_dash_ok dialect s \<longleftrightarrow>
     \<not> (dialect = lit ''mysql'' \<and> (case drop 2 s of [] \<Rightarrow> False | d # _ \<Rightarrow> d \<notin> {32, 9, 13, 10}))"

definition starts_line_comment :: "pystr \<Rightarrow> pystr \<Rightarrow> bool" where
  "starts_line_comment dialect s \<longleftrightarrow>
     starts_with s (lit ''--'') \<and> mysql_dash_ok dialect s
     \<or> starts_with s (lit ''#'') \<and> dialect = lit ''mysql''"

text \<open>A code character: nothing else starts here.\<close>

definition plain_code :: "ucd \<Rightarrow> pystr \<Rightarrow> int option \<Rightarrow> pystr \<Rightarrow> bool" where
  "plain_code U dialect p s \<longleftrightarrow>
     \<not> starts_with s (lit ''--'') \<and> \<not> (starts_with s (lit ''#'') \<and> dialect = lit ''mysql'')
     \<and> \<not> starts_with s (lit ''/*'') \<and> \<not> opens_quote dialect (hd s)
     \<and> (word_at U p \<or> \<not> (\<exists>t r. s = t @ r \<and> dollar_tag t))"

text \<open>\<open>lexed U dialect p s segs\<close>: \<open>s\<close>, preceded by \<open>p\<close>, reads as the segments \<open>segs\<close>.\<close>

inductive lexed :: "ucd \<Rightarrow> pystr \<Rightarrow> int option \<Rightarrow> pystr \<Rightarrow> seg list \<Rightarrow> bool"
  for U :: ucd and dialect :: pystr where
  lexed_nil: "lexed U dialect p [] []"
| lexed_line:
    "t \<noteq> [] \<Longrightarrow> starts_line_comment dialect (t @ r) \<Longrightarrow> 10 \<notin> set t \<Longrightarrow> r = [] \<or> hd r = 10 \<Longrightarrow>
     lexed U dialect (Some (last t)) r segs \<Longrightarrow>
     lexed U dialect p (t @ r) (LineComment t # segs)"
| lexed_block:
    "\<not> starts_with b (lit ''!'') \<Longrightarrow> \<not> contains (lit ''*/'') (b @ lit ''*'') \<Longrightarrow>
     lexed U dialect (Some (cp CHR ''/'')) r segs \<Longrightarrow>
     lexed U dialect p (lit ''/*'' @ b @ lit ''*/'' @ r) (BlockComment b # segs)"
| lexed_quote:
    "opens_quote dialect a \<Longrightarrow> quoted_body (closer a) b \<Longrightarrow> r = [] \<or> hd r \<noteq> closer a \<Longrightarrow>
     lexed U dialect (Some (closer a)) r segs \<Longrightarrow>
     lexed U dialect p (a # b @ closer a # r) (Quoted a (closer a) b # segs)"
| lexed_dollar:
    "\<not> word_at U p \<Longrightarrow> dollar_tag t \<Longrightarrow> \<not> contains t (b @ butlast t) \<Longrightarrow>
     lexed U dialect (Some 36) r segs \<Longrightarrow>
     lexed U dialect p (t @ b @ t @ r) (Dollar t b # segs)"
| lexed_code:
    "plain_code U dialect p (c # s) \<Longrightarrow> lexed U dialect (Some c) s segs \<Longrightarrow>
     lexed U dialect p (c # s) (Code c # segs)"

lemma lexed_src: "lexed U dialect p s segs \<Longrightarrow> s = concat (map seg_src segs)"
  by (induction rule: lexed.induct) auto

section \<open>The helpers of the loop\<close>

lemma skip_quoted_Inr:
  "skip_quoted q s = Inr r \<Longrightarrow> \<exists>b. s = b @ q # r \<and> quoted_body q b \<and> (r = [] \<or> hd r \<noteq> q)"
proof (induction q s rule: skip_quoted.induct)
  case (2 q c s)
  then have c: "c \<noteq> 92" by auto
  show ?case
  proof (cases "c = q")
    case True
    show ?thesis
    proof (cases s)
      case Nil
      with 2 True c show ?thesis by (intro exI [of _ "[]"]) simp
    next
      case (Cons d s')
      show ?thesis
      proof (cases "d = q")
        case True
        with 2 \<open>c = q\<close> c Cons obtain b where "s' = b @ q # r" "quoted_body q b" "r = [] \<or> hd r \<noteq> q"
          by auto
        with \<open>c = q\<close> True Cons c show ?thesis by (intro exI [of _ "q # q # b"]) simp
      next
        case False
        with 2 \<open>c = q\<close> c Cons show ?thesis by (intro exI [of _ "[]"]) auto
      qed
    qed
  next
    case False
    with 2 c obtain b where "s = b @ q # r" "quoted_body q b" "r = [] \<or> hd r \<noteq> q" by auto
    with False c show ?thesis by (intro exI [of _ "c # b"]) simp
  qed
qed simp

lemma skip_quoted_complete:
  "quoted_body q b \<Longrightarrow> q \<noteq> 92 \<Longrightarrow> r = [] \<or> hd r \<noteq> q \<Longrightarrow> skip_quoted q (b @ q # r) = Inr r"
proof (induction q b rule: quoted_body.induct)
  case (1 q)
  then show ?case by (cases r) auto
next
  case (2 q c s)
  then show ?case by (cases s) (auto split: if_splits)
qed

lemma skip_to_line_end_split:
  "\<exists>t. s = t @ skip_to_line_end s \<and> 10 \<notin> set t
       \<and> (skip_to_line_end s = [] \<or> hd (skip_to_line_end s) = 10)"
proof -
  let ?P = "\<lambda>c. c \<noteq> (10::int)"
  have "s = takeWhile ?P s @ dropWhile ?P s" by simp
  moreover have "10 \<notin> set (takeWhile ?P s)" by (auto dest: set_takeWhileD)
  moreover have "dropWhile ?P s = [] \<or> hd (dropWhile ?P s) = 10"
    using hd_dropWhile [of ?P s] by blast
  ultimately show ?thesis unfolding skip_to_line_end_def by blast
qed

lemma skip_to_line_end_append:
  "10 \<notin> set t \<Longrightarrow> r = [] \<or> hd r = 10 \<Longrightarrow> skip_to_line_end (t @ r) = r"
  unfolding skip_to_line_end_def by (induction t) (cases r, auto)

lemma prev_char_append [simp]: "t \<noteq> [] \<Longrightarrow> prev_char (t @ r) r = Some (last t)"
  by (simp add: prev_char_def)

lemma cut_after_complete:
  "p \<noteq> [] \<Longrightarrow> \<not> contains p (a @ butlast p) \<Longrightarrow> cut_after p (a @ p @ r) = Some r"
proof (induction a)
  case Nil
  then show ?case by (cases p) (auto simp: starts_with_iff)
next
  case (Cons c a)
  have "\<not> starts_with (c # a @ p @ r) p"
  proof
    assume "starts_with (c # a @ p @ r) p"
    then have "p = take (length p) (c # a @ butlast p)"
      by (cases p rule: rev_cases) (auto simp: starts_with_def take_append)
    then have "starts_with (c # a @ butlast p) p" by (simp add: starts_with_def)
    with Cons.prems show False by simp
  qed
  with Cons show ?case by simp
qed

lemma dollar_tag_re_lang:
  "rx_lang U dollar_tag_re p m b \<longleftrightarrow> dollar_tag m"
proof -
  have k: "cls_match (Among [(65, 90), (97, 122), (95, 95)]) = tag_letter"
    by (auto simp: fun_eq_iff tag_letter_def ascii_defs)
  show ?thesis
    by (auto simp: dollar_tag_re_def dollar_tag_def k)
qed

lemma dollar_tag_unique:
  assumes "dollar_tag t" "dollar_tag u" "t @ r = u @ v"
  shows "t = u \<and> r = v"
proof -
  obtain x y where xy: "t = 36 # x @ [36]" "u = 36 # y @ [36]" "list_all tag_letter x" "list_all tag_letter y"
    using assms(1,2) by (auto simp: dollar_tag_def)
  then have eq: "x @ 36 # r = y @ 36 # v" using assms(3) by simp
  have n: "36 \<notin> set x" "36 \<notin> set y"
    using xy(3,4) by (auto simp: list_all_iff tag_letter_def ascii_defs)
  have "takeWhile (\<lambda>c. c \<noteq> 36) (x @ 36 # r) = x" "takeWhile (\<lambda>c. c \<noteq> 36) (y @ 36 # v) = y"
    using n by (auto simp: takeWhile_tail takeWhile_append)
  with eq xy show ?thesis by simp
qed

lemma dollar_tag_here:
  "rx_match_here U dollar_tag_re p s = Some (t, r) \<longleftrightarrow> s = t @ r \<and> dollar_tag t"
proof
  assume "rx_match_here U dollar_tag_re p s = Some (t, r)"
  from rx_match_here_Some [OF this] show "s = t @ r \<and> dollar_tag t"
    by (simp add: dollar_tag_re_lang)
next
  assume s: "s = t @ r \<and> dollar_tag t"
  then have "rx_match_here U dollar_tag_re p s \<noteq> None"
    unfolding rx_match_here_None by (auto simp: dollar_tag_re_lang)
  then obtain u v where uv: "rx_match_here U dollar_tag_re p s = Some (u, v)" by auto
  from rx_match_here_Some [OF uv] s have "t = u \<and> r = v"
    by (metis dollar_tag_re_lang dollar_tag_unique)
  with uv show "rx_match_here U dollar_tag_re p s = Some (t, r)" by simp
qed

lemma dollar_tag_not_here:
  "rx_match_here U dollar_tag_re p s = None \<longleftrightarrow> \<not> (\<exists>t r. s = t @ r \<and> dollar_tag t)"
  unfolding rx_match_here_None dollar_tag_re_lang by blast


section \<open>Masking computes the lexing\<close>

text \<open>One equation per kind of segment.\<close>

definition emit :: "int \<Rightarrow> exn + pystr \<Rightarrow> exn + pystr" where
  "emit c r = res_bind r (\<lambda>out. Inr (c # out))"

lemma emit_Inr [simp]: "emit c r = Inr out \<longleftrightarrow> (\<exists>o1. r = Inr o1 \<and> out = c # o1)"
  by (auto simp: emit_def res_bind_Inr_iff)

lemma starts_with_short [simp]:
  "starts_with (c # s) [a, b] \<longleftrightarrow> c = a \<and> (\<exists>r. s = b # r)"
  "starts_with (c # s) [a] \<longleftrightarrow> c = a"
  by (cases s; auto simp: starts_with_def)+

lemma mask_line:
  assumes "starts_line_comment dialect (c # s)" "skip_to_line_end (c # s) = r"
  shows "mask_from U dialect p (c # s) = emit 32 (mask_from U dialect (prev_char (c # s) r) r)"
  using assms
  by (subst mask_from.simps(2)) (auto simp: starts_line_comment_def mysql_dash_ok_def emit_def)

lemma mask_block:
  assumes "\<not> starts_with b (lit ''!'')" "\<not> contains (lit ''*/'') (b @ lit ''*'')"
  shows "mask_from U dialect p (lit ''/*'' @ b @ lit ''*/'' @ r) =
         emit 32 (mask_from U dialect (Some (cp CHR ''/'')) r)"
proof -
  let ?s = "cp CHR ''*'' # b @ lit ''*/'' @ r"
  have cut: "cut_after (lit ''*/'') (b @ lit ''*/'' @ r) = Some r"
    using assms(2) by (intro cut_after_complete) simp_all
  have ex: "\<not> starts_with (b @ lit ''*/'' @ r) (lit ''!'')"
    using assms(1) by (cases b) (simp_all add: starts_with_def)
  have prev: "prev_char (cp CHR ''/'' # ?s) r = Some (cp CHR ''/'')"
    using prev_char_append [of "cp CHR ''/'' # cp CHR ''*'' # b @ lit ''*/''" r] by simp
  show ?thesis using cut ex prev
    by (simp add: mask_from.simps(2) emit_def)
qed

lemma mask_quote:
  assumes "opens_quote dialect a" "quoted_body (closer a) b" "r = [] \<or> hd r \<noteq> closer a"
  shows "mask_from U dialect p (a # b @ closer a # r) =
         emit 63 (mask_from U dialect (Some (closer a)) r)"
proof -
  have "closer a \<noteq> 92" using assms(1) by (auto simp: opens_quote_def closer_def)
  then have sk: "skip_quoted (closer a) (b @ closer a # r) = Inr r"
    using assms(2,3) by (intro skip_quoted_complete)
  have prev: "prev_char (a # b @ closer a # r) r = Some (closer a)"
    using prev_char_append [of "a # b @ [closer a]" r] by simp
  have a: "a \<in> {39, 34, 96} \<or> (a = 91 \<and> dialect = lit ''mssql'')"
    using assms(1) by (simp add: opens_quote_def)
  show ?thesis
    using a sk prev by (subst mask_from.simps(2)) (auto simp: closer_def emit_def)
qed

lemma mask_dollar:
  assumes "\<not> word_at U p" "dollar_tag t" "\<not> contains t (b @ butlast t)"
  shows "mask_from U dialect p (t @ b @ t @ r) = emit 63 (mask_from U dialect (Some 36) r)"
proof -
  obtain x where x: "t = 36 # x @ [36]" using assms(2) by (auto simp: dollar_tag_def)
  have here: "rx_match_here U dollar_tag_re p (t @ b @ t @ r) = Some (t, b @ t @ r)"
    using assms(2) by (simp add: dollar_tag_here)
  have cut: "cut_after t (b @ t @ r) = Some r"
    using assms(3) x by (intro cut_after_complete) simp_all
  have prev: "prev_char (t @ b @ t @ r) r = Some 36"
    using prev_char_append [of "t @ b @ t" r] x by simp
  have s: "t @ b @ t @ r = 36 # (x @ [36] @ b @ t @ r)" using x by simp
  show ?thesis
    using here cut prev assms(1) unfolding s
    by (subst mask_from.simps(2)) (simp add: emit_def)
qed

lemma mask_code:
  assumes "plain_code U dialect p (c # s)"
  shows "mask_from U dialect p (c # s) = emit c (mask_from U dialect (Some c) s)"
proof -
  have no: "\<not> starts_with (c # s) (lit ''--'')" "\<not> (c = cp CHR ''#'' \<and> dialect = lit ''mysql'')"
    "\<not> starts_with (c # s) (lit ''/*'')"
    "\<not> (c \<in> {39, 34, 96} \<or> (c = 91 \<and> dialect = lit ''mssql''))"
    using assms by (auto simp: plain_code_def opens_quote_def)
  have tag: "word_at U p \<or> rx_match_here U dollar_tag_re p (c # s) = None"
    using assms unfolding dollar_tag_not_here by (simp add: plain_code_def)
  show ?thesis
    using tag by (simp only: mask_from.simps(2) no if_False emit_def) auto
qed

lemma mask_from_complete:
  "lexed U dialect p s segs \<Longrightarrow> mask_from U dialect p s = Inr (map seg_shown segs)"
proof (induction rule: lexed.induct)
  case (lexed_line t r segs p)
  then obtain c s where cs: "t @ r = c # s" by (cases t) auto
  moreover have "skip_to_line_end (t @ r) = r"
    using lexed_line.hyps(3,4) by (rule skip_to_line_end_append)
  moreover have "prev_char (t @ r) r = Some (last t)" using lexed_line.hyps(1) by simp
  ultimately show ?case
    using lexed_line.hyps(2) lexed_line.IH mask_line [of dialect c s r U p]
    by (simp add: emit_def)
next
  case (lexed_block b r segs p)
  then show ?case by (subst mask_block) (simp_all add: emit_def)
qed (simp_all add: mask_quote mask_dollar mask_code emit_def)

lemma mask_from_sound:
  "mask_from U dialect p s = Inr out \<Longrightarrow>
     \<exists>segs. lexed U dialect p s segs \<and> out = map seg_shown segs"
proof (induction s arbitrary: p out rule: length_induct)
  case (1 s)
  note IH = 1(1) [rule_format]
  show ?case
  proof (cases s)
    case Nil
    with 1(2) show ?thesis by (auto intro!: exI [of _ "[]"] lexed.intros)
  next
    case (Cons c s')
    have go: "\<exists>segs. lexed U dialect p s segs \<and> out = map seg_shown segs"
      if "mask_from U dialect p s = emit (seg_shown g) (mask_from U dialect q r)"
      "length r < length s" "\<And>segs. lexed U dialect q r segs \<Longrightarrow> lexed U dialect p s (g # segs)"
      for g q r
    proof -
      from 1(2) that(1) obtain o1 where "mask_from U dialect q r = Inr o1" "out = seg_shown g # o1"
        by auto
      with IH [OF that(2)] that(3) show ?thesis
        by (metis list.simps(9))
    qed
    consider (line) "starts_line_comment dialect s"
      | (dash) "starts_with s (lit ''--'')" "\<not> mysql_dash_ok dialect s"
      | (block) r where "s = lit ''/*'' @ r"
      | (quote) "opens_quote dialect c"
      | (dollar) t r where "\<not> word_at U p" "dollar_tag t" "s = t @ r"
      | (code) "plain_code U dialect p s"
    proof -
      have h: "starts_with s (lit ''#'') \<and> dialect = lit ''mysql'' \<Longrightarrow> starts_line_comment dialect s"
        "starts_with s (lit ''--'') \<Longrightarrow> mysql_dash_ok dialect s \<Longrightarrow> starts_line_comment dialect s"
        "starts_with s (lit ''/*'') \<Longrightarrow> \<exists>r. s = lit ''/*'' @ r" "hd s = c"
        by (simp_all add: starts_line_comment_def starts_with_iff Cons)
      then show thesis using that unfolding plain_code_def by metis
    qed
    then show ?thesis
    proof cases
      case line
      let ?r = "skip_to_line_end s"
      obtain t where t: "s = t @ ?r" "10 \<notin> set t" "?r = [] \<or> hd ?r = 10"
        using skip_to_line_end_split by blast
      have "c \<noteq> 10" using line Cons by (auto simp: starts_line_comment_def)
      then have "length ?r < length s" using Cons skip_line_shorter by simp
      with t(1) have "t \<noteq> []" by (metis append_Nil less_irrefl)
      with t line have "lexed U dialect p s (LineComment t # segs)"
        if "lexed U dialect (Some (last t)) ?r segs" for segs
        using lexed_line [of t dialect ?r U segs p] that by metis
      moreover have "prev_char s ?r = Some (last t)" using t(1) \<open>t \<noteq> []\<close> by (metis prev_char_append)
      ultimately show ?thesis
        using go [of "LineComment t" "Some (last t)" ?r] \<open>length ?r < length s\<close>
          mask_line [of dialect c s' ?r U p] line Cons by simp
    next
      case dash
      with Cons 1(2) show ?thesis by (auto simp: mask_from.simps(2) mysql_dash_ok_def)
    next
      case (block r)
      have nb: "\<not> starts_with r (lit ''!'')" and "cut_after (lit ''*/'') r \<noteq> None"
        using 1(2) unfolding block
        by (auto simp: mask_from.simps(2) split: if_splits option.splits)
      then obtain w where w: "cut_after (lit ''*/'') r = Some w" by blast
      from cut_after_Some [OF this] obtain b where
        b: "r = b @ lit ''*/'' @ w" "\<not> contains (lit ''*/'') (b @ lit ''*'')" by auto
      have "\<not> starts_with b (lit ''!'')" using nb b(1) by (auto simp: starts_with_iff)
      with b show ?thesis
        using mask_block [of b U dialect p w] lexed_block [of b U dialect w _ p]
        by (intro go [of "BlockComment b" "Some (cp CHR ''/'')" w]) (simp_all add: block)
    next
      case quote
      have q: "c \<in> {39, 34, 96} \<or> (c = 91 \<and> dialect = lit ''mssql'')"
        using quote by (simp add: opens_quote_def)
      then obtain r where "skip_quoted (closer c) s' = Inr r"
        using 1(2) Cons by (cases "skip_quoted (closer c) s'")
          (auto simp: mask_from.simps(2) closer_def)
      from skip_quoted_Inr [OF this] obtain b where
        b: "s' = b @ closer c # r" "quoted_body (closer c) b" "r = [] \<or> hd r \<noteq> closer c" by blast
      with quote show ?thesis
        using mask_quote [of dialect c b r U p] lexed_quote [of dialect c b r U _ p]
        by (intro go [of "Quoted c (closer c) b" "Some (closer c)" r]) (simp_all add: Cons)
    next
      case (dollar t r)
      obtain x where x: "t = 36 # x @ [36]" using dollar(2) by (auto simp: dollar_tag_def)
      have here: "rx_match_here U dollar_tag_re p s = Some (t, r)"
        using dollar by (simp add: dollar_tag_here)
      have "c = 36" using dollar(3) x Cons by simp
      then obtain w where w: "cut_after t r = Some w"
        using 1(2) here dollar(1) Cons
        by (cases "cut_after t r") (auto simp: mask_from.simps(2))
      from cut_after_Some [OF this] x obtain b where
        b: "r = b @ t @ w" "\<not> contains t (b @ butlast t)" by auto
      with dollar show ?thesis
        using mask_dollar [of U p t b dialect w] lexed_dollar [of U p t b dialect w]
        by (intro go [of "Dollar t b" "Some 36" w]) (simp_all add: x)
    next
      case code
      with Cons show ?thesis
        using mask_code [of U dialect p c s'] lexed_code [of U dialect p c s']
        by (intro go [of "Code c" "Some c" s']) simp_all
    qed
  qed
qed

lemma mask_from_iff:
  "mask_from U dialect p s = Inr out \<longleftrightarrow>
     (\<exists>segs. lexed U dialect p s segs \<and> out = map seg_shown segs)"
  using mask_from_sound mask_from_complete by blast

lemma skip_quoted_error: "skip_quoted q s = Inl e \<Longrightarrow> exn_is QueryRejected e"
  by (induction q s rule: skip_quoted.induct)
    (auto simp: rejected_def split: if_splits list.splits)

text \<open>Every failure of the masking loop is a \<open>QueryRejected\<close>.\<close>

definition only_rejects :: "exn + 'a \<Rightarrow> bool" where
  "only_rejects r \<longleftrightarrow> (\<forall>e. r = Inl e \<longrightarrow> exn_is QueryRejected e)"

lemma only_rejects_intros:
  "only_rejects (Inr x)"
  "only_rejects (Inl (rejected m))"
  "only_rejects r \<Longrightarrow> only_rejects (res_bind r (\<lambda>out. Inr (g out)))"
  "(b \<Longrightarrow> only_rejects r) \<Longrightarrow> (\<not> b \<Longrightarrow> only_rejects q) \<Longrightarrow> only_rejects (if b then r else q)"
  "(z = None \<Longrightarrow> only_rejects r) \<Longrightarrow> (\<And>y. z = Some y \<Longrightarrow> only_rejects (h y)) \<Longrightarrow>
     only_rejects (case z of None \<Rightarrow> r | Some y \<Rightarrow> h y)"
  "(\<And>y w. yw = (y, w) \<Longrightarrow> only_rejects (k y w)) \<Longrightarrow> only_rejects (case yw of (y, w) \<Rightarrow> k y w)"
  by (auto simp: only_rejects_def rejected_def res_bind_Inl_iff split: option.splits prod.splits)

lemma only_rejects_skip:
  "(\<And>rest. skip_quoted q s = Inr rest \<Longrightarrow> only_rejects (h rest)) \<Longrightarrow>
   only_rejects (case skip_quoted q s of Inl e \<Rightarrow> Inl e | Inr rest \<Rightarrow> h rest)"
  by (auto simp: only_rejects_def dest: skip_quoted_error split: sum.splits)

lemma mask_from_only_rejects: "only_rejects (mask_from U dialect p s)"
proof (induction U dialect p s rule: mask_from.induct)
  case (2 U dialect p c s)
  show ?case
    unfolding mask_from.simps(2)
    by (intro only_rejects_intros only_rejects_skip; ((rule 2; assumption) | (hypsubst, rule 2; (assumption | rule refl)))?)
qed (simp add: only_rejects_intros)

lemma mask_from_error: "mask_from U dialect p s = Inl e \<Longrightarrow> exn_is QueryRejected e"
  using mask_from_only_rejects unfolding only_rejects_def by blast

end
