(* ===== verification/ValidatorProps.thy ===== *)
theory ValidatorProps
  imports ValidatorLex
begin

text \<open>
  What the validator promises.  The first part restates layer 1 without regular
  expressions (\<open>read_only_text\<close>) and the extraction of tables without the loop
  (\<open>tables_read\<close>); the properties then say exactly which SQL is accepted, what is sent to
  the database, and how tables are named.  The last section records where the text layer
  reads a query differently from the engine.
\<close>

section \<open>Layer 1 without regular expressions\<close>


definition spaces1 :: "pystr \<Rightarrow> bool" where
  "spaces1 s \<longleftrightarrow> s \<noteq> [] \<and> list_all is_space s"

definition no_key :: "pystr \<Rightarrow> bool" where
  "no_key m \<longleftrightarrow> (\<exists>n s k t. m = n @ s @ k @ t \<and> same_ci ''no'' n \<and> spaces1 s \<and> same_ci ''key'' k \<and> spaces1 t)"

definition for_share :: "pystr \<Rightarrow> bool" where
  "for_share m \<longleftrightarrow> (\<exists>f s mid sh. m = f @ s @ mid @ sh \<and> same_ci ''for'' f \<and> spaces1 s
     \<and> (no_key mid \<or> mid = []) \<and> same_ci ''share'' sh)"

lemma rx_lang_spaces1 [simp]: "rx_lang U (Many (Suc 0) None Space) p m b \<longleftrightarrow> spaces1 m"
proof -
  have "cls_match Space = is_space" by (simp add: fun_eq_iff)
  then show ?thesis by (cases m) (auto simp: spaces1_def)
qed

lemma rx_lang_no_key [simp]:
  "rx_lang U (rx_seq [rx_word ''no'', Many 1 None Space, rx_word ''key'', Many 1 None Space]) p m b
     \<longleftrightarrow> no_key m" (is "?L \<longleftrightarrow> _")
proof
  have L: "?L \<longleftrightarrow> (\<exists>n m1. m = n @ m1 \<and> same_ci ''no'' n \<and> (\<exists>s m2. m1 = s @ m2 \<and> spaces1 s
      \<and> (\<exists>k t. m2 = k @ t \<and> same_ci ''key'' k \<and> spaces1 t)))"
    unfolding rx_seq.simps rx_lang.simps(3) One_nat_def rx_lang_word rx_lang_spaces1 ..
  show "no_key m" if ?L
    using that unfolding L no_key_def by blast
  show ?L if "no_key m"
    using that unfolding L no_key_def by blast
qed

lemma rx_lang_share:
  "rx_lang U (rx_seq [rx_word ''share'', WordB]) p m b \<longleftrightarrow>
     same_ci ''share'' m \<and> word_at U (prev_after p m) \<noteq> word_at U (next_char b)"
  by auto

lemma locking_lang:
  "rx_lang U locking_re p m b \<longleftrightarrow>
     for_share m \<and> word_at U p \<noteq> word_at U (next_char (m @ b))
     \<and> word_at U (prev_after p m) \<noteq> word_at U (next_char b)" (is "_ \<longleftrightarrow> ?R")
proof
  define Q where "Q = rx_opt (rx_seq [rx_word ''no'', Many 1 None Space, rx_word ''key'', Many 1 None Space])"
  define S where "S = rx_seq [rx_word ''share'', WordB]"
  have eq: "locking_re = Cat WordB (Cat (rx_word ''for'') (Cat (Many (Suc 0) None Space) (Cat Q S)))"
    by (simp add: locking_re_def Q_def S_def)
  have Q: "rx_lang U Q p m b \<longleftrightarrow> no_key m \<or> m = []" for p m b
    unfolding Q_def rx_lang_opt rx_lang_no_key ..
  have S: "rx_lang U S p m b \<longleftrightarrow> same_ci ''share'' m \<and> word_at U (prev_after p m) \<noteq> word_at U (next_char b)"
    for p m b by (simp add: S_def)
  have L: "rx_lang U locking_re p m b \<longleftrightarrow>
     word_at U p \<noteq> word_at U (next_char (m @ b)) \<and>
     (\<exists>f m1. m = f @ m1 \<and> same_ci ''for'' f \<and> (\<exists>s m2. m1 = s @ m2 \<and> spaces1 s \<and>
       (\<exists>mid sh. m2 = mid @ sh \<and> (no_key mid \<or> mid = []) \<and> same_ci ''share'' sh \<and>
          word_at U (prev_after p (f @ s @ mid @ sh)) \<noteq> word_at U (next_char b))))"
    unfolding eq rx_lang.simps(3) rx_lang_word rx_lang_spaces1 Q S by (simp del: rx_lang_spaces1)
  show ?R if "rx_lang U locking_re p m b"
    using that unfolding L for_share_def by blast
  show "rx_lang U locking_re p m b" if ?R
    using that unfolding L for_share_def by blast
qed


definition starts_like_query :: "ucd \<Rightarrow> pystr \<Rightarrow> bool" where
  "starts_like_query U code \<longleftrightarrow>
     (\<exists>a b w c. code = a @ b @ w @ c \<and> set a \<subseteq> {cp CHR ''(''} \<and> list_all is_space b
        \<and> (same_ci ''select'' w \<or> same_ci ''with'' w)
        \<and> word_at U (Some (last w)) \<noteq> word_at U (next_char c))"

definition read_only_text :: "ucd \<Rightarrow> pystr \<Rightarrow> bool" where
  "read_only_text U code \<longleftrightarrow>
     cp CHR '';'' \<notin> set code \<and> starts_like_query U code
     \<and> (\<forall>a m b. code = a @ m @ b \<longrightarrow> stands_alone U a m b \<longrightarrow>
          \<not> for_share m \<and> (\<forall>w\<in>set (forbidden_keywords @ dangerous_functions). \<not> same_ci w m))"

lemma rx_lang_many0 [simp]:
  "rx_lang U (Many 0 None k) p m b \<longleftrightarrow> list_all (cls_match k) m"
  by simp

lemma starts_like_query_iff:
  "rx_match_here U starts_like_query_re None code \<noteq> None \<longleftrightarrow> starts_like_query U code"
proof -
  define Q where "Q = rx_alts [rx_word ''select'', rx_word ''with'']"
  have Q: "rx_lang U Q p m b \<longleftrightarrow> same_ci ''select'' m \<or> same_ci ''with'' m" for p m b
    by (simp add: Q_def)
  have ne: "prev_after p w = Some (last w)" if "same_ci ''select'' w \<or> same_ci ''with'' w" for w p
    using that by (auto simp: prev_after_def same_ci_def)
  have k: "list_all (cls_match (Chr 40)) a \<longleftrightarrow> set a \<subseteq> {cp CHR ''(''}"
    "list_all (cls_match Space) a \<longleftrightarrow> list_all is_space a" for a
    by (auto simp: list_all_iff)
  have L: "rx_lang U starts_like_query_re None m c \<longleftrightarrow>
      (\<exists>a m1. m = a @ m1 \<and> set a \<subseteq> {cp CHR ''(''} \<and> (\<exists>b w. m1 = b @ w \<and> list_all is_space b
         \<and> (same_ci ''select'' w \<or> same_ci ''with'' w)
         \<and> word_at U (prev_after None (a @ b @ w)) \<noteq> word_at U (next_char c)))" for m c
    unfolding starts_like_query_re_def Q_def [symmetric] rx_seq.simps rx_lang.simps(3) rx_lang_many0 Q k
    by simp
  have L: "rx_lang U starts_like_query_re None m c \<longleftrightarrow>
      (\<exists>a b w. m = a @ b @ w \<and> set a \<subseteq> {cp CHR ''(''} \<and> list_all is_space b
         \<and> (same_ci ''select'' w \<or> same_ci ''with'' w)
         \<and> word_at U (Some (last w)) \<noteq> word_at U (next_char c))" for m c
  proof -
    have h: "(same_ci ''select'' w \<or> same_ci ''with'' w)
         \<and> word_at U (prev_after None (a @ b @ w)) \<noteq> word_at U (next_char c) \<longleftrightarrow>
         (same_ci ''select'' w \<or> same_ci ''with'' w)
         \<and> word_at U (Some (last w)) \<noteq> word_at U (next_char c)" for a b w
      using ne [of w "prev_after None (a @ b)"] by auto
    show ?thesis unfolding L by (simp only: h) blast
  qed
  have "rx_match_here U starts_like_query_re None code \<noteq> None \<longleftrightarrow>
      (\<exists>m c. code = m @ c \<and> rx_lang U starts_like_query_re None m c)"
    unfolding rx_match_here_None by blast
  also have "\<dots> \<longleftrightarrow> starts_like_query U code"
  proof
    assume "\<exists>m c. code = m @ c \<and> rx_lang U starts_like_query_re None m c"
    then obtain m c a b w where "code = m @ c" "m = a @ b @ w" "set a \<subseteq> {cp CHR ''(''}"
      "list_all is_space b" "same_ci ''select'' w \<or> same_ci ''with'' w"
      "word_at U (Some (last w)) \<noteq> word_at U (next_char c)"
      unfolding L by blast
    moreover from this have "code = a @ b @ w @ c" by simp
    ultimately show "starts_like_query U code" unfolding starts_like_query_def by blast
  next
    assume "starts_like_query U code"
    then obtain a b w c where "code = a @ b @ w @ c" "set a \<subseteq> {cp CHR ''(''}"
      "list_all is_space b" "same_ci ''select'' w \<or> same_ci ''with'' w"
      "word_at U (Some (last w)) \<noteq> word_at U (next_char c)"
      unfolding starts_like_query_def by blast
    moreover from this have "code = (a @ b @ w) @ c" by simp
    ultimately show "\<exists>m c. code = m @ c \<and> rx_lang U starts_like_query_re None m c"
      unfolding L by blast
  qed
  finally show ?thesis .
qed

lemma check_text_iff: "check_text U code = Inr u \<longleftrightarrow> read_only_text U code"
proof -
  have lock: "\<not> rx_found U locking_re code \<longleftrightarrow>
      (\<forall>a m b. code = a @ m @ b \<longrightarrow> stands_alone U a m b \<longrightarrow> \<not> for_share m)"
    unfolding rx_found_iff locking_lang stands_alone_def by (metis prev_after_simps(2))
  have word: "rx_search U (rx_whole_word ws) code = None \<longleftrightarrow>
      (\<forall>a m b. code = a @ m @ b \<longrightarrow> stands_alone U a m b \<longrightarrow> (\<forall>w\<in>set ws. \<not> same_ci w m))"
    if "ws \<noteq> []" for ws
    using rx_found_whole_word [OF that, of U code] unfolding rx_found_def by blast
  have "check_text U code = Inr u \<longleftrightarrow>
      cp CHR '';'' \<notin> set code \<and> rx_match_here U starts_like_query_re None code \<noteq> None
      \<and> rx_search U forbidden_re code = None \<and> \<not> rx_found U locking_re code
      \<and> rx_search U function_re code = None"
    by (simp add: check_text_def split: option.splits if_splits)
  also have "\<dots> \<longleftrightarrow> read_only_text U code"
    unfolding starts_like_query_iff lock forbidden_re_def function_re_def read_only_text_def
      word [of forbidden_keywords, OF forbidden_keywords_def [THEN arg_cong, of "\<lambda>x. x \<noteq> []", simplified]]
      word [of dangerous_functions, OF dangerous_functions_def [THEN arg_cong, of "\<lambda>x. x \<noteq> []", simplified]]
    by auto
  finally show ?thesis .
qed

lemma parse_iff:
  "parse G sql dialect = Inr tree \<longleftrightarrow>
     (\<exists>sts. sg_parse G sql (sqlglot_dialects dialect) = Inr sts \<and> List.map_filter id sts = [tree])
     \<and> sg_is_query G tree \<and> \<not> sg_find G tree (write_nodes G)"
  by (auto simp: parse_def split: sum.splits list.splits)

definition tables_read :: "ucd \<Rightarrow> source list list \<Rightarrow> pystr option \<Rightarrow> pystr set" where
  "tables_read U scopes schema =
     {canonical_table_name U cat db name schema | cat db name scope.
        scope \<in> set scopes \<and> TableSource cat db name True \<in> set scope}"

lemma set_map_filter: "y \<in> set (List.map_filter f xs) \<longleftrightarrow> (\<exists>x\<in>set xs. f x = Some y)"
  by (induction xs) (auto simp: map_filter_simps split: option.splits)

lemma extract_tables_iff:
  "extract_tables U G tree schema = Inr T \<longleftrightarrow>
     (\<exists>scopes. sg_scopes G tree = Inr scopes \<and> T = tables_read U scopes schema)"
proof -
  define f where "f = (\<lambda>s. case s of
      TableSource catalog db name ident \<Rightarrow>
        if ident then Some (canonical_table_name U catalog db name schema) else None
    | ScopeSource \<Rightarrow> None)"
  have f: "f s = Some y \<longleftrightarrow>
      (\<exists>cat db name. s = TableSource cat db name True \<and> y = canonical_table_name U cat db name schema)"
    for s y by (cases s) (auto simp: f_def)
  have "set (List.map_filter f (concat scopes)) = tables_read U scopes schema" for scopes
    by (rule set_eqI) (simp only: set_map_filter f set_concat tables_read_def mem_Collect_eq, blast)
  then show ?thesis by (auto simp: extract_tables_def f_def split: sum.splits)
qed


section \<open>Properties\<close>

text \<open>C16: masking succeeds exactly on the texts the grammar \<open>lexed\<close> derives, the segments
  concatenate to the input, and the result shows one character per segment: code as it is, a
  comment as a space, quoted text as \<open>?\<close>.\<close>

theorem mask_segments:
  "mask_comments_and_quotes U sql dialect = Inr out \<longleftrightarrow>
     (\<exists>segs. lexed U dialect None sql segs \<and> sql = concat (map seg_src segs)
        \<and> out = map seg_shown segs)"
  unfolding mask_comments_and_quotes_def mask_from_iff using lexed_src by blast

text \<open>C6: what is accepted, and what is returned: SQL that is not blank, within the limit and
  without a null character, whose code (comments and quoted text aside) holds no semicolon,
  starts like a query and has no forbidden keyword, dangerous function or share lock standing
  alone, that parses as exactly one query without write nodes, and whose tables are the
  identifier sources of all its scopes.\<close>

theorem validate_iff:
  "validate U G max_length sql dialect schema = Inr vq \<longleftrightarrow>
     strip sql \<noteq> [] \<and> length sql \<le> max_length \<and> 0 \<notin> set sql
     \<and> (\<exists>segs. lexed U dialect None sql segs \<and> read_only_text U (code_of (map seg_shown segs)))
     \<and> (\<exists>sts tree scopes. sg_parse G sql (sqlglot_dialects dialect) = Inr sts
          \<and> List.map_filter id sts = [tree]
          \<and> sg_is_query G tree \<and> \<not> sg_find G tree (write_nodes G)
          \<and> sg_scopes G tree = Inr scopes
          \<and> vq = \<lparr>vq_sql = strip_trailing_semicolon sql, vq_tables = tables_read U scopes schema\<rparr>)"
proof -
  have e: "sql = [] \<or> strip sql = [] \<longleftrightarrow> strip sql = []" by auto
  show ?thesis
    unfolding validate_def mask_comments_and_quotes_def e
    by (simp add: res_bind_Inr_iff mask_from_iff check_text_iff parse_iff extract_tables_iff not_less)
      blast
qed

text \<open>Every refusal is a \<open>QueryRejected\<close>, whatever layer it comes from.\<close>

theorem validate_error_kind:
  "case validate U G max_length sql dialect schema of
     Inl e \<Rightarrow> exn_is QueryRejected e | Inr vq \<Rightarrow> True"
proof -
  have check: "check_text U code = Inl e \<Longrightarrow> exn_is QueryRejected e" for code e
    by (auto simp: check_text_def rejected_def split: if_splits option.splits)
  have parse: "parse G sql dialect = Inl e \<Longrightarrow> exn_is QueryRejected e" for e
    by (auto simp: parse_def rejected_def split: sum.splits list.splits if_splits)
  have ext: "extract_tables U G tree schema = Inl e \<Longrightarrow> exn_is QueryRejected e" for tree e
    by (auto simp: extract_tables_def rejected_def split: sum.splits)
  have mask: "mask_comments_and_quotes U sql dialect = Inl e \<Longrightarrow> exn_is QueryRejected e" for e
    unfolding mask_comments_and_quotes_def by (rule mask_from_error)
  show ?thesis
    by (auto simp: validate_def rejected_def res_bind_def dest: check parse ext mask
        split: sum.splits)
qed

text \<open>The SQL sent to the database is the caller's text without its trailing white space and
  at most one trailing semicolon; nothing in front is changed.\<close>

theorem strip_trailing_semicolon_spec:
  "\<exists>tail. sql = strip_trailing_semicolon sql @ tail
     \<and> filter (\<lambda>c. \<not> is_space c) tail \<in> {[], lit '';''}
     \<and> rstrip (strip_trailing_semicolon sql) = strip_trailing_semicolon sql"
proof -
  have fix_: "rstrip (rstrip u) = rstrip u" for u
    unfolding rstrip_def using rstrip_by_last [of is_space u] by (intro rstrip_by_fix) auto
  obtain t where t: "sql = rstrip sql @ t" "list_all is_space t"
    unfolding rstrip_def using rstrip_by_prefix by blast
  show ?thesis
  proof (cases "ends_with (rstrip sql) (lit '';'')")
    case True
    then obtain u where u: "rstrip sql = u @ [59]" by (auto simp: ends_with_iff)
    obtain v where v: "u = rstrip u @ v" "list_all is_space v"
      unfolding rstrip_def using rstrip_by_prefix by blast
    have "sql = rstrip u @ (v @ [59] @ t)" using t(1) u v(1) by simp
    moreover have "filter (\<lambda>c. \<not> is_space c) (v @ [59] @ t) = [59]"
      using t(2) v(2) by (auto simp: list_all_iff is_space_def filter_empty_conv)
    moreover have "strip_trailing_semicolon sql = rstrip u"
      using True u by (simp add: strip_trailing_semicolon_def)
    ultimately show ?thesis using fix_ [of u] by auto
  next
    case False
    then have "strip_trailing_semicolon sql = rstrip sql"
      by (simp add: strip_trailing_semicolon_def)
    moreover have "filter (\<lambda>c. \<not> is_space c) t = []"
      using t(2) by (auto simp: list_all_iff filter_empty_conv)
    ultimately show ?thesis using t(1) fix_ [of sql] by auto
  qed
qed

section \<open>Where the text layer and the engine read differently\<close>

text \<open>
  PostgreSQL allows digits in a dollar-quote tag, the module's pattern does not: here the
  engine reads a string, a second statement and a comment, the module one string literal.
\<close>

theorem alnum_dollar_tag_hides_statement:
  "mask_comments_and_quotes ascii_ucd
     (lit ''SELECT $a1$'' @ squote @ lit ''$a1$; DROP TABLE orders; --'' @ squote) (lit ''postgresql'')
     = Inr (lit ''SELECT $a1$?'')"
  "check_text ascii_ucd (code_of (lit ''SELECT $a1$?'')) = Inr ()"
  unfolding mask_comments_and_quotes_def by code_simp+

text \<open>PostgreSQL nests block comments, the module ends one at the first \<open>*/\<close>.\<close>

theorem nested_comment_hides_statement:
  "mask_comments_and_quotes ascii_ucd
     (lit ''SELECT 1 /* /* */ '' @ squote @ lit '' */; DROP TABLE orders; --'' @ squote) (lit ''postgresql'')
     = Inr (lit ''SELECT 1   ?'')"
  "check_text ascii_ucd (code_of (lit ''SELECT 1   ?'')) = Inr ()"
  unfolding mask_comments_and_quotes_def by code_simp+

text \<open>MySQL, SQL Server and SQLite have no dollar quotes, yet \<open>$$\<close> hides what is between.\<close>

theorem dollar_quotes_in_every_dialect:
  "mask_comments_and_quotes ascii_ucd (lit ''SELECT $$; DROP TABLE orders; $$'') (lit ''mysql'')
     = Inr (lit ''SELECT ?'')"
  unfolding mask_comments_and_quotes_def by code_simp

text \<open>Two trailing semicolons are accepted, and only one of them is removed.\<close>

theorem second_trailing_semicolon_kept:
  "strip_trailing_semicolon (lit ''SELECT 1;;'') = lit ''SELECT 1;''"
  "check_text ascii_ucd (code_of (lit ''SELECT 1;;'')) = Inr ()"
  by code_simp+

text \<open>A quoted identifier that holds a dot is named like a table of another schema.\<close>

theorem dotted_identifier_collides:
  "canonical_table_name ascii_ucd [] [] (lit ''hr.salaries'') None =
   canonical_table_name ascii_ucd [] (lit ''hr'') (lit ''salaries'') None"
  by code_simp

end
