(* ===== verification/MaskLoop.thy ===== *)
theory MaskLoop
  imports ValidatorLex
begin

text \<open>
  The loops of \<open>_mask_comments_and_quotes\<close> as the source runs them: an index into the text, moved
  by \<open>find\<close>, a regular expression or an inner loop, and the pieces collected so far.  Nothing in them
  bounds the index, so they are \<open>partial_function\<close>s, where a loop that never ends has no value;
  the theorem at the end says that they always end, and that the result is the one of the
  definitions over the rest of the text.
\<close>

section \<open>Positions\<close>

text \<open>\<open>sql.find(p, start)\<close>, with \<open>None\<close> for \<open>-1\<close>.\<close>

definition find_from :: "pystr \<Rightarrow> pystr \<Rightarrow> nat \<Rightarrow> nat option" where
  "find_from sql p start = find (\<lambda>k. starts_with (drop k sql) p) [start..<Suc (length sql)]"

definition before :: "pystr \<Rightarrow> nat \<Rightarrow> int option" where
  "before sql i = (if i = 0 then None else Some (sql ! (i - 1)))"

lemma find_from_step:
  "start \<le> length sql \<Longrightarrow>
   find_from sql p start = (if starts_with (drop start sql) p then Some start else find_from sql p (Suc start))"
  "length sql < start \<Longrightarrow> find_from sql p start = None"
  by (simp_all add: find_from_def upt_rec)

lemma find_from_cut:
  assumes "p \<noteq> []" "start \<le> length sql"
  shows "cut_after p (drop start sql) = map_option (\<lambda>k. drop (k + length p) sql) (find_from sql p start)"
  using assms(2)
proof (induction "length sql - start" arbitrary: start)
  case 0
  with assms(1) show ?case by (simp add: find_from_step starts_with_def)
next
  case (Suc d)
  then have here: "drop start sql = sql ! start # drop (Suc start) sql" by (simp add: Cons_nth_drop_Suc)
  then have cut: "cut_after p (drop start sql) = (if starts_with (drop start sql) p
      then Some (drop (length p) (drop start sql)) else cut_after p (drop (Suc start) sql))"
    by (simp only: cut_after.simps)
  show ?case
  proof (cases "starts_with (drop start sql) p")
    case True
    with Suc.prems cut show ?thesis by (simp add: find_from_step add.commute [of start])
  next
    case False
    with Suc.hyps(1) [of "Suc start"] Suc.hyps(2) Suc.prems cut show ?thesis by (simp add: find_from_step)
  qed
qed

lemma find_from_bounds:
  assumes "find_from sql p start = Some k"
  shows "start \<le> k" "k + length p \<le> length sql"
proof -
  define ks where "ks = [start..<Suc (length sql)]"
  from assms have "k \<in> set ks" "starts_with (drop k sql) p"
    unfolding find_from_def ks_def [symmetric] by (auto simp: find_Some_iff)
  then have "start \<le> k" "k \<le> length sql" "starts_with (drop k sql) p" by (auto simp: ks_def)
  then show "start \<le> k" "k + length p \<le> length sql"
    by (auto simp: starts_with_def dest: arg_cong [where f = length])
qed

lemma prev_before:
  assumes "i < k" "k \<le> length sql"
  shows "prev_char (drop i sql) (drop k sql) = before sql k"
proof -
  have "take (k - i) (drop i sql) \<noteq> []" using assms by simp
  then show ?thesis using assms by (simp add: prev_char_def before_def last_conv_nth)
qed

section \<open>The loops\<close>

text \<open>\<open>_skip_to_line_end\<close>.\<close>

definition line_end_at :: "pystr \<Rightarrow> nat \<Rightarrow> nat" where
  "line_end_at sql start = (case find_from sql [10] start of None \<Rightarrow> length sql | Some e \<Rightarrow> e)"

text \<open>\<open>_skip_quoted\<close>: the loop over \<open>j\<close>.\<close>

partial_function (option) skip_quoted_loop :: "pystr \<Rightarrow> int \<Rightarrow> nat \<Rightarrow> (exn + nat) option" where
  "skip_quoted_loop sql close j =
     (if j < length sql then
        (if sql ! j = 92 then
           Some (Inl (rejected (lit ''Backslashes inside quoted text are not supported. Rewrite the query without them.'')))
         else if sql ! j = close then
           (if j + 1 < length sql \<and> sql ! (j + 1) = close then skip_quoted_loop sql close (j + 2)
            else Some (Inr (j + 1)))
         else skip_quoted_loop sql close (j + 1))
      else Some (Inl (rejected (lit ''The SQL has an unterminated quoted string or identifier.''))))"

text \<open>One turn of the outer loop: the index it moves to and the character it shows.\<close>

definition mask_step :: "ucd \<Rightarrow> pystr \<Rightarrow> pystr \<Rightarrow> nat \<Rightarrow> (exn + nat \<times> int) option" where
  "mask_step U dialect sql i =
     (let c = sql ! i; two = take 2 (drop i sql) in
      if two = lit ''--'' then
        (if dialect = lit ''mysql'' \<and> i + 2 < length sql \<and> sql ! (i + 2) \<notin> {32, 9, 13, 10}
         then Some (Inl (rejected (lit ''Put a space after '' @ quoted (lit ''--'') @ lit '' to start a comment.'')))
         else Some (Inr (line_end_at sql i, 32)))
      else if c = cp CHR ''#'' \<and> dialect = lit ''mysql'' then Some (Inr (line_end_at sql i, 32))
      else if two = lit ''/*'' then
        (if take 1 (drop (i + 2) sql) = lit ''!''
         then Some (Inl (rejected (lit ''MySQL executable comments (/*! ... */) are not allowed.'')))
         else case find_from sql (lit ''*/'') (i + 2) of
             None \<Rightarrow> Some (Inl (rejected (lit ''The SQL has an unterminated comment.'')))
           | Some e \<Rightarrow> Some (Inr (e + 2, 32)))
      else if c \<in> {39, 34, 96} \<or> (c = 91 \<and> dialect = lit ''mssql'') then
        Option.bind (skip_quoted_loop sql (if c = 91 then 93 else c) (i + 1)) (\<lambda>r.
          case r of Inl e \<Rightarrow> Some (Inl e) | Inr k \<Rightarrow> Some (Inr (k, 63)))
      else if c = 36 \<and> \<not> (0 < i \<and> is_word U (sql ! (i - 1))) then
        (case rx_match_here U dollar_tag_re (before sql i) (drop i sql) of
           None \<Rightarrow> Some (Inr (i + 1, c))
         | Some (tag, _) \<Rightarrow>
             (case find_from sql tag (i + length tag) of
                None \<Rightarrow> Some (Inl (rejected (lit ''The SQL has an unterminated dollar-quoted string.'')))
              | Some e \<Rightarrow> Some (Inr (e + length tag, 63))))
      else Some (Inr (i + 1, c)))"

partial_function (option) mask_loop :: "ucd \<Rightarrow> pystr \<Rightarrow> pystr \<Rightarrow> nat \<Rightarrow> pystr \<Rightarrow> (exn + pystr) option" where
  "mask_loop U dialect sql i out =
     (if i < length sql then
        Option.bind (mask_step U dialect sql i) (\<lambda>r.
          case r of
            Inl e \<Rightarrow> Some (Inl e)
          | Inr (k, c) \<Rightarrow> mask_loop U dialect sql k (out @ [c]))
      else Some (Inr out))"

section \<open>The inner loops end\<close>

lemma line_end_at_drop:
  assumes "start \<le> length sql"
  shows "skip_to_line_end (drop start sql) = drop (line_end_at sql start) sql \<and> start \<le> line_end_at sql start
    \<and> line_end_at sql start \<le> length sql"
  using assms
proof (induction "length sql - start" arbitrary: start)
  case 0
  then show ?case by (simp add: line_end_at_def find_from_step skip_to_line_end_def starts_with_def)
next
  case (Suc d)
  then have here: "drop start sql = sql ! start # drop (Suc start) sql" by (simp add: Cons_nth_drop_Suc)
  then have found: "starts_with (drop start sql) [10] \<longleftrightarrow> sql ! start = 10" by (simp add: starts_with_def)
  show ?case
  proof (cases "sql ! start = 10")
    case True
    with Suc.prems here found show ?thesis by (simp add: line_end_at_def find_from_step skip_to_line_end_def)
  next
    case False
    with Suc.prems found have "line_end_at sql start = line_end_at sql (Suc start)"
      by (simp add: line_end_at_def find_from_step)
    moreover have "skip_to_line_end (drop start sql) = skip_to_line_end (drop (Suc start) sql)"
      using here False by (simp add: skip_to_line_end_def)
    moreover have "d = length sql - Suc start" "Suc start \<le> length sql" using Suc.hyps(2) by simp_all
    note Suc.hyps(1) [OF this]
    ultimately show ?thesis by simp
  qed
qed

lemma skip_quoted_loop_ends:
  assumes "j \<le> length sql"
  shows "\<exists>r. skip_quoted_loop sql close j = Some r
     \<and> (case r of Inl e \<Rightarrow> skip_quoted close (drop j sql) = Inl e
        | Inr k \<Rightarrow> skip_quoted close (drop j sql) = Inr (drop k sql) \<and> j < k \<and> k \<le> length sql)"
  using assms
proof (induction "length sql - j" arbitrary: j rule: less_induct)
  case less
  show ?case
  proof (cases "j < length sql")
    case False
    with less.prems show ?thesis by (subst skip_quoted_loop.simps) simp
  next
    case True
    then have here: "drop j sql = sql ! j # drop (Suc j) sql" by (simp add: Cons_nth_drop_Suc)
    consider "sql ! j = 92" | "sql ! j \<noteq> 92" "sql ! j \<noteq> close" | "sql ! j \<noteq> 92" "sql ! j = close" by blast
    then show ?thesis
    proof cases
      case 1
      with True here show ?thesis by (subst skip_quoted_loop.simps) simp
    next
      case 2
      with True have step: "skip_quoted_loop sql close j = skip_quoted_loop sql close (Suc j)"
        by (subst skip_quoted_loop.simps) simp
      from 2 here have "skip_quoted close (drop j sql) = skip_quoted close (drop (Suc j) sql)" by simp
      with step True less.hyps [of "Suc j"] show ?thesis by (fastforce split: sum.splits)
    next
      case 3
      show ?thesis
      proof (cases "Suc j < length sql \<and> sql ! Suc j = close")
        case True
        then have after: "drop (Suc j) sql = close # drop (j + 2) sql" by (simp add: Cons_nth_drop_Suc [symmetric])
        from True 3 have step: "skip_quoted_loop sql close j = skip_quoted_loop sql close (j + 2)"
          by (subst skip_quoted_loop.simps) simp
        from 3 here after have "skip_quoted close (drop j sql) = skip_quoted close (drop (j + 2) sql)" by simp
        with step True less.hyps [of "j + 2"] show ?thesis by (fastforce split: sum.splits)
      next
        case False
        with 3 \<open>j < length sql\<close> have step: "skip_quoted_loop sql close j = Some (Inr (Suc j))"
          by (subst skip_quoted_loop.simps) auto
        have "skip_quoted close (drop j sql) = Inr (drop (Suc j) sql)"
        proof (cases "drop (Suc j) sql")
          case Nil
          with 3 here show ?thesis by simp
        next
          case (Cons d s)
          then have "Suc j < length sql" "sql ! Suc j = d" by (auto simp: nth_via_drop intro: ccontr)
          with 3 here False Cons show ?thesis by simp
        qed
        with step \<open>j < length sql\<close> show ?thesis by simp
      qed
    qed
  qed
qed

section \<open>One turn of the loop\<close>

text \<open>What a turn must be for the definition over the rest of the text.\<close>

definition turn_ok :: "ucd \<Rightarrow> pystr \<Rightarrow> pystr \<Rightarrow> nat \<Rightarrow> exn + nat \<times> int \<Rightarrow> bool" where
  "turn_ok U dialect sql i r \<longleftrightarrow>
     (case r of
        Inl e \<Rightarrow> mask_from U dialect (before sql i) (drop i sql) = Inl e
      | Inr (k, c) \<Rightarrow> i < k \<and> k \<le> length sql
          \<and> mask_from U dialect (before sql i) (drop i sql) = emit c (mask_from U dialect (before sql k) (drop k sql)))"

lemma before_word: "word_at U (before sql i) \<longleftrightarrow> 0 < i \<and> is_word U (sql ! (i - 1))"
  by (simp add: before_def word_at_def)

lemma before_Suc: "before sql (Suc i) = Some (sql ! i)"
  by (simp add: before_def)

lemma mask_step_turn:
  assumes i: "i < length sql"
  shows "\<exists>r. mask_step U dialect sql i = Some r \<and> turn_ok U dialect sql i r"
proof -
  let ?s = "drop (Suc i) sql" and ?c = "sql ! i" and ?p = "before sql i"
  have here: "drop i sql = ?c # ?s" using i by (simp add: Cons_nth_drop_Suc)
  have dash: "take 2 (drop i sql) = lit ''--'' \<longleftrightarrow> starts_with (?c # ?s) (lit ''--'')"
    and block: "take 2 (drop i sql) = lit ''/*'' \<longleftrightarrow> starts_with (?c # ?s) (lit ''/*'')"
    unfolding here starts_with_def by simp_all
  have third: "(case drop 2 (?c # ?s) of [] \<Rightarrow> False | d # _ \<Rightarrow> d \<notin> {32, 9, 13, 10})
      \<longleftrightarrow> i + 2 < length sql \<and> sql ! (i + 2) \<notin> {32, 9, 13, 10}"
  proof (cases "i + 2 < length sql")
    case True
    then have "drop 2 (?c # ?s) = sql ! (i + 2) # drop (i + 3) sql" by (simp add: Cons_nth_drop_Suc numeral_eq_Suc)
    with True show ?thesis by (simp only: list.case) simp
  next
    case False
    then have "drop 2 (?c # ?s) = []" by simp
    with False show ?thesis by (simp only: list.case) simp
  qed
  have line: "skip_to_line_end (?c # ?s) = drop (line_end_at sql i) sql" "i \<le> line_end_at sql i" "line_end_at sql i \<le> length sql"
    using line_end_at_drop [of i sql] i by (simp_all add: here)
  have moved: "i < line_end_at sql i" if "?c \<noteq> 10"
  proof -
    have "length (skip_to_line_end (?c # ?s)) < length (?c # ?s)" by (rule skip_line_shorter [OF that])
    with line i show ?thesis by simp
  qed
  note prev = prev_before [of i _ sql, unfolded here]
  note eq = mask_from.simps(2) emit_def
  note step = mask_step_def Let_def dash block third [symmetric]
  note turn = turn_ok_def here mask_from.simps(2) emit_def
  consider (dash) "starts_with (?c # ?s) (lit ''--'')"
    | (hash) "\<not> starts_with (?c # ?s) (lit ''--'')" "?c = cp CHR ''#'' \<and> dialect = lit ''mysql''"
    | (block) "\<not> starts_with (?c # ?s) (lit ''--'')" "\<not> (?c = cp CHR ''#'' \<and> dialect = lit ''mysql'')" "starts_with (?c # ?s) (lit ''/*'')"
    | (rest) "\<not> starts_with (?c # ?s) (lit ''--'')" "\<not> (?c = cp CHR ''#'' \<and> dialect = lit ''mysql'')" "\<not> starts_with (?c # ?s) (lit ''/*'')"
    by blast
  then show ?thesis
  proof cases
    case dash
    then have nl: "?c \<noteq> 10" by (auto simp: starts_with_def)
    show ?thesis using moved [OF nl] dash line prev [of "line_end_at sql i"]
      unfolding step unfolding turn by simp
  next
    case hash
    then have nl: "?c \<noteq> 10" by auto
    show ?thesis using moved [OF nl] hash line prev [of "line_end_at sql i"]
      unfolding step unfolding turn by simp
  next
    case block
    then have c: "?c = 47" "starts_with ?s (lit ''*'')" by (auto simp: starts_with_def)
    then have long: "i + 2 \<le> length sql" using i by (cases ?s) (auto simp: starts_with_def dest: arg_cong [where f = length])
    have bang: "take 1 (drop (i + 2) sql) = lit ''!'' \<longleftrightarrow> starts_with (drop 2 (?c # ?s)) (lit ''!'')"
      by (simp add: starts_with_def)
    have cut: "cut_after (lit ''*/'') (drop 2 (?c # ?s)) = map_option (\<lambda>k. drop (k + 2) sql) (find_from sql (lit ''*/'') (i + 2))"
      using find_from_cut [OF _ long, of "lit ''*/''"] by simp
    show ?thesis
    proof (cases "find_from sql (lit ''*/'') (i + 2)")
      case None
      show ?thesis using None block c unfolding step bang unfolding turn cut by simp
    next
      case (Some k)
      from find_from_bounds [OF this] have k: "i + 2 \<le> k" "k + 2 \<le> length sql" by simp_all
      show ?thesis using k Some block c prev [of "k + 2"] unfolding step bang unfolding turn cut by simp
    qed
  next
    case rest
    consider (quote) "?c \<in> {39, 34, 96} \<or> (?c = 91 \<and> dialect = lit ''mssql'')"
      | (dollar) "\<not> (?c \<in> {39, 34, 96} \<or> (?c = 91 \<and> dialect = lit ''mssql''))" "?c = 36 \<and> \<not> word_at U ?p"
      | (plain) "\<not> (?c \<in> {39, 34, 96} \<or> (?c = 91 \<and> dialect = lit ''mssql''))" "\<not> (?c = 36 \<and> \<not> word_at U ?p)"
      by blast
    then show ?thesis
    proof cases
      case quote
      let ?close = "if ?c = 91 then 93 else ?c"
      from i have "i + 1 \<le> length sql" by simp
      from skip_quoted_loop_ends [OF this, of ?close] obtain r where loop: "skip_quoted_loop sql ?close (i + 1) = Some r"
          "case r of Inl e \<Rightarrow> skip_quoted ?close (drop (i + 1) sql) = Inl e
           | Inr k \<Rightarrow> skip_quoted ?close (drop (i + 1) sql) = Inr (drop k sql) \<and> i + 1 < k \<and> k \<le> length sql"
        by blast
      define q where "q = ?close"
      have conds: "starts_with (?c # ?s) (lit ''--'') = False" "(?c = cp CHR ''#'' \<and> dialect = lit ''mysql'') = False"
          "starts_with (?c # ?s) (lit ''/*'') = False" "(?c \<in> {39, 34, 96} \<or> (?c = 91 \<and> dialect = lit ''mssql'')) = True"
        using quote rest by simp_all
      show ?thesis
      proof (cases r)
        case (Inl e)
        with loop have "skip_quoted_loop sql q (i + 1) = Some (Inl e)" "skip_quoted q ?s = Inl e" by (simp_all add: q_def)
        then show ?thesis unfolding step unfolding turn conds if_True if_False q_def [symmetric] by simp
      next
        case (Inr k)
        with loop have "skip_quoted_loop sql q (i + 1) = Some (Inr k)" "skip_quoted q ?s = Inr (drop k sql)" "i < k" "k \<le> length sql"
          by (simp_all add: q_def)
        then show ?thesis using prev [of k] unfolding step unfolding turn conds if_True if_False q_def [symmetric] by simp
      qed
    next
      case dollar
      show ?thesis
      proof (cases "rx_match_here U dollar_tag_re ?p (?c # ?s)")
        case None
        then show ?thesis using dollar rest i unfolding step unfolding turn before_word by (simp add: before_Suc)
      next
        case (Some m)
        then obtain tag after where m: "rx_match_here U dollar_tag_re ?p (?c # ?s) = Some (tag, after)" by (cases m) simp
        from dollar_tag_match [OF this] have tag: "?c # ?s = tag @ after" "tag \<noteq> []" by auto
        have "i + length tag \<le> length sql" using arg_cong [OF tag(1), of length] i by simp
        moreover have "after = drop (i + length tag) sql"
          using arg_cong [OF tag(1), of "drop (length tag)"] unfolding here [symmetric] by (simp add: add.commute)
        ultimately have cut: "cut_after tag after = map_option (\<lambda>k. drop (k + length tag) sql) (find_from sql tag (i + length tag))"
          using find_from_cut [OF tag(2)] by simp
        show ?thesis
        proof (cases "find_from sql tag (i + length tag)")
          case None
          then show ?thesis using dollar rest m cut unfolding step unfolding turn before_word by simp
        next
          case (Some k)
          from find_from_bounds [OF this] tag(2) have "i < k + length tag" "k + length tag \<le> length sql"
            by (cases tag, simp_all)
          then show ?thesis using Some dollar rest m cut prev [of "k + length tag"]
            unfolding step unfolding turn before_word by simp
        qed
      qed
    next
      case plain
            have conds: "starts_with (?c # ?s) (lit ''--'') = False" "(?c = cp CHR ''#'' \<and> dialect = lit ''mysql'') = False"
          "starts_with (?c # ?s) (lit ''/*'') = False" "(?c \<in> {39, 34, 96} \<or> (?c = 91 \<and> dialect = lit ''mssql'')) = False"
          "(?c = 36 \<and> \<not> word_at U ?p) = False"
        using plain rest by blast+
      show ?thesis using i unfolding step before_word [symmetric] unfolding turn conds if_True if_False by (simp add: before_Suc)
    qed
  qed
qed

section \<open>The loop ends\<close>

lemma mask_loop_from:
  assumes "i \<le> length sql"
  shows "mask_loop U dialect sql i out =
     Some (case mask_from U dialect (before sql i) (drop i sql) of Inl e \<Rightarrow> Inl e | Inr shown \<Rightarrow> Inr (out @ shown))"
  using assms
proof (induction "length sql - i" arbitrary: i out rule: less_induct)
  case less
  show ?case
  proof (cases "i < length sql")
    case False
    with less.prems show ?thesis by (subst mask_loop.simps) simp
  next
    case True
    from mask_step_turn [OF True] obtain r where r: "mask_step U dialect sql i = Some r" "turn_ok U dialect sql i r" by blast
    show ?thesis
    proof (cases r)
      case (Inl e)
      with r True show ?thesis by (subst mask_loop.simps) (simp add: turn_ok_def)
    next
      case (Inr kc)
      then obtain k c where kc: "r = Inr (k, c)" by (cases kc) simp
      with r have k: "i < k" "k \<le> length sql"
          "mask_from U dialect (before sql i) (drop i sql) = emit c (mask_from U dialect (before sql k) (drop k sql))"
        by (simp_all add: turn_ok_def)
      have "mask_loop U dialect sql i out = mask_loop U dialect sql k (out @ [c])"
        using r(1) kc True by (subst mask_loop.simps) simp
      also have "\<dots> = Some (case mask_from U dialect (before sql k) (drop k sql) of Inl e \<Rightarrow> Inl e
          | Inr shown \<Rightarrow> Inr ((out @ [c]) @ shown))"
        using k True by (intro less.hyps) simp_all
      finally show ?thesis
        by (cases "mask_from U dialect (before sql k) (drop k sql)") (simp_all add: k(3) emit_def)
    qed
  qed
qed

text \<open>C17: the loop of the mask ends on every text and in every dialect, and with it the loop over quoted
  text inside it: the index moves forward in every turn and never past the end.  What it returns,
  the text or the refusal, is what the definition over the rest of the text computes.\<close>

theorem mask_loop_ends:
  "mask_loop U dialect sql 0 [] = Some (mask_comments_and_quotes U sql dialect)
   \<and> (\<exists>r. skip_quoted_loop sql close j = Some r)"
proof -
  have "\<exists>r. skip_quoted_loop sql close j = Some r"
  proof (cases "j \<le> length sql")
    case True
    with skip_quoted_loop_ends show ?thesis by blast
  next
    case False
    then show ?thesis by (subst skip_quoted_loop.simps) simp
  qed
  then show ?thesis
    by (simp add: mask_loop_from mask_comments_and_quotes_def before_def split: sum.split)
qed

end
