(* ===== verification/Sanitizer.thy ===== *)
theory Sanitizer
  imports Models PyRegex
begin

text \<open>
  \<open>services/sanitizer.py\<close>: what happens to every text that came out of a database before
  a caller sees it.  The rules are the module's regular expressions; the invisible
  characters are the categories Cc, Cf, Cs and Co of Unicode 15 written out as ranges.
\<close>

section \<open>The rules\<close>

definition tool_names :: "string list" where
  "tool_names =
     [''list_connections'', ''list_tables'', ''describe_table'', ''search_schema'',
      ''get_relationships'', ''run_query'', ''explain_query'', ''get_sample_rows'']"

abbreviation words :: "string list \<Rightarrow> rx" where
  "words ws \<equiv> rx_alts (map rx_word ws)"

abbreviation gap40 :: rx where
  "gap40 \<equiv> Many 0 (Some 40) Any"

abbreviation spaces_some :: rx where
  "spaces_some \<equiv> Many 1 None Space"

abbreviation spaces_any :: rx where
  "spaces_any \<equiv> Many 0 None Space"

abbreviation opt_s :: rx where
  "opt_s \<equiv> rx_opt (rx_word ''s'')"

abbreviation one_quote :: rx where
  "one_quote \<equiv> Sym (Among [(34, 34), (39, 39)])"

definition ignore_verbs :: "string list" where
  "ignore_verbs = [''ignore'', ''disregard'', ''forget'', ''override'']"

definition ignore_scopes :: "string list" where
  "ignore_scopes = [''previous'', ''prior'', ''above'', ''earlier'', ''all'', ''any'', ''your'']"

definition ignore_objects :: "string list" where
  "ignore_objects = [''instruction'', ''prompt'', ''rule'', ''direction'', ''guideline'']"

definition ignore_re :: rx where
  "ignore_re =
     rx_seq [WordB, words ignore_verbs, WordB, gap40, WordB, words ignore_scopes, WordB, gap40,
       WordB, words ignore_objects, opt_s, WordB]"

definition assistant_re :: rx where
  "assistant_re =
     rx_alts
      [rx_seq [WordB, words [''system'', ''assistant'', ''developer'', ''admin''], spaces_some,
         words [''notice'', ''message'', ''prompt'', ''instruction'', ''note'', ''override''], WordB],
       rx_seq [WordB, words [''note'', ''message'', ''notice'', ''instruction''], opt_s, spaces_some,
         words [''to'', ''for''], spaces_some, rx_opt (rx_seq [rx_word ''the'', spaces_some]),
         words [''assistant'', ''ai'', ''model'', ''llm'', ''agent''], WordB],
       rx_seq [WordB, rx_word ''you'', spaces_some,
         rx_alts [rx_word ''must'', rx_word ''should'',
           rx_seq [rx_word ''are'', spaces_some, rx_word ''required'', spaces_some, rx_word ''to''],
           rx_seq [rx_word ''have'', spaces_some, rx_word ''to'']],
         spaces_some, words [''now'', ''immediately''], WordB]]"

definition markup_re :: rx where
  "markup_re =
     rx_alts
      [rx_seq [rx_text ''<'', spaces_any, rx_opt (rx_text ''/''), spaces_any,
         words [''tool_call'', ''tool_use'', ''function_call'', ''function_calls'', ''invoke'', ''tool_result''],
         WordB],
       rx_seq [WordB, words tool_names, spaces_any, rx_text ''(''],
       rx_seq [one_quote, rx_word ''name'', one_quote, spaces_any, rx_text '':'', spaces_any,
         one_quote, words tool_names, one_quote]]"

definition template_re :: rx where
  "template_re =
     rx_alts
      [rx_seq [rx_text ''<|'', spaces_any,
         words [''im_start'', ''im_end'', ''system'', ''user'', ''assistant'', ''endoftext''],
         spaces_any, rx_text ''|>''],
       rx_seq [rx_text ''['', rx_opt (rx_text ''/''), rx_word ''INST'', rx_text '']''],
       rx_seq [rx_text ''<<'', spaces_any, rx_opt (rx_text ''/''), rx_word ''SYS'', spaces_any, rx_text ''>>''],
       rx_seq [AtStart, spaces_any, Many 2 None (Chr 35), spaces_any,
         words [''system'', ''instruction''], opt_s, WordB]]"

definition rules :: "(pystr \<times> rx) list" where
  "rules =
     [(lit ''ignore_instructions'', ignore_re),
      (lit ''addresses_the_assistant'', assistant_re),
      (lit ''tool_call_markup'', markup_re),
      (lit ''chat_template_tokens'', template_re)]"

section \<open>Characters a reader cannot see\<close>

definition invisible_ranges :: "(int \<times> int) list" where
  "invisible_ranges =
     [(0, 31), (127, 159),
      (173, 173), (1536, 1541), (1564, 1564), (1757, 1757), (1807, 1807), (2192, 2193),
      (2274, 2274), (6158, 6158), (8203, 8207), (8234, 8238), (8288, 8292), (8294, 8303),
      (65279, 65279), (65529, 65531), (69821, 69821), (69837, 69837), (78896, 78911),
      (113824, 113827), (119155, 119162), (917505, 917505), (917536, 917631),
      (55296, 57343),
      (57344, 63743), (983040, 1048573), (1048576, 1114109)]"

definition invisible :: "int \<Rightarrow> bool" where
  "invisible c \<longleftrightarrow> list_ex (\<lambda>(lo, hi). lo \<le> c \<and> c \<le> hi) invisible_ranges"

definition kept_char :: "int \<Rightarrow> bool" where
  "kept_char c \<longleftrightarrow> c = 9 \<or> c = 10 \<or> \<not> invisible c"

definition strip_invisible :: "pystr \<Rightarrow> pystr" where
  "strip_invisible text = filter kept_char text"

section \<open>Normalising and matching\<close>

text \<open>\<open>re.sub(r"\s+", " ", s)\<close>.\<close>

fun collapse_spaces :: "pystr \<Rightarrow> pystr" where
  "collapse_spaces [] = []"
| "collapse_spaces (c # s) =
     (if is_space c then
        (case s of
           [] \<Rightarrow> [32]
         | d # _ \<Rightarrow> if is_space d then collapse_spaces s else 32 # collapse_spaces s)
      else c # collapse_spaces s)"

definition normalise :: "ucd \<Rightarrow> pystr \<Rightarrow> pystr" where
  "normalise U text = collapse_spaces (u_nfkc U text)"

fun first_rule_in :: "ucd \<Rightarrow> (pystr \<times> rx) list \<Rightarrow> pystr \<Rightarrow> pystr option" where
  "first_rule_in U [] s = None"
| "first_rule_in U ((name, pattern) # rs) s =
     (if rx_found U pattern s then Some name else first_rule_in U rs s)"

definition first_matching_rule :: "ucd \<Rightarrow> pystr \<Rightarrow> pystr option" where
  "first_matching_rule U text = first_rule_in U rules (normalise U text)"

section \<open>The sanitizer\<close>

definition placeholder :: "pystr \<Rightarrow> pystr" where
  "placeholder rule = lit ''[content withheld: text resembling instructions to an AI ('' @ rule @ lit '')]''"

definition truncated_text :: "nat \<Rightarrow> pystr \<Rightarrow> pystr" where
  "truncated_text n s =
     take n s @ lit ''... [truncated, '' @ str_of_nat (length s) @ lit '' characters in total]''"

text \<open>Every step takes the flags collected so far and returns them extended.\<close>

definition clean_text ::
  "ucd \<Rightarrow> nat \<Rightarrow> pystr \<Rightarrow> pystr \<Rightarrow> security_flag list \<Rightarrow> pystr \<times> security_flag list" where
  "clean_text U max_cell_chars text location flags =
     (let cleaned = strip_invisible text
      in case first_matching_rule U cleaned of
           Some rule \<Rightarrow> (placeholder rule, flags @ [\<lparr>sf_location = location, sf_rule = rule\<rparr>])
         | None \<Rightarrow>
             (if max_cell_chars < length cleaned then (truncated_text max_cell_chars cleaned, flags)
              else (cleaned, flags)))"

fun clean_value ::
    "ucd \<Rightarrow> nat \<Rightarrow> json \<Rightarrow> pystr \<Rightarrow> security_flag list \<Rightarrow> json \<times> security_flag list"
  and clean_values ::
    "ucd \<Rightarrow> nat \<Rightarrow> json list \<Rightarrow> pystr \<Rightarrow> security_flag list \<Rightarrow> json list \<times> security_flag list"
  and clean_items ::
    "ucd \<Rightarrow> nat \<Rightarrow> (pystr \<times> json) list \<Rightarrow> pystr \<Rightarrow> (pystr \<times> json) list \<Rightarrow> security_flag list
       \<Rightarrow> (pystr \<times> json) list \<times> security_flag list" where
  "clean_value U n (JStr s) loc fl = (case clean_text U n s loc fl of (t, fl) \<Rightarrow> (JStr t, fl))"
| "clean_value U n (JList xs) loc fl = (case clean_values U n xs loc fl of (ys, fl) \<Rightarrow> (JList ys, fl))"
| "clean_value U n (JDict d) loc fl = (case clean_items U n d loc [] fl of (e, fl) \<Rightarrow> (JDict e, fl))"
| "clean_value U n JNull loc fl = (JNull, fl)"
| "clean_value U n (JBool b) loc fl = (JBool b, fl)"
| "clean_value U n (JInt i) loc fl = (JInt i, fl)"
| "clean_value U n (JFloat f) loc fl = (JFloat f, fl)"
| "clean_values U n [] loc fl = ([], fl)"
| "clean_values U n (x # xs) loc fl =
     (case clean_value U n x loc fl of (y, fl) \<Rightarrow>
        (case clean_values U n xs loc fl of (ys, fl) \<Rightarrow> (y # ys, fl)))"
| "clean_items U n [] loc acc fl = (acc, fl)"
| "clean_items U n ((k, v) # d) loc acc fl =
     (case clean_text U n k loc fl of (k, fl) \<Rightarrow>
        (case clean_value U n v loc fl of (v, fl) \<Rightarrow>
           clean_items U n d loc (dict_set k v acc) fl))"

end
