(* ===== verification/SanitizerProps.thy ===== *)
theory SanitizerProps
  imports Sanitizer
begin

text \<open>
  What the sanitizer guarantees about the values it returns: no invisible character, a
  placeholder that fires no rule in place of every text that fires one, a flag for each of
  them, nothing changed that needed no cleaning, and, for the first rule, exactly which texts
  it withholds.
\<close>

section \<open>Rules on plain ASCII text\<close>

text \<open>Matching depends only on which characters of the text are alphanumeric.\<close>


lemma word_at_cong: "(\<forall>c. p = Some c \<longrightarrow> u_alnum U c = u_alnum V c) \<Longrightarrow> word_at U p = word_at V p"
  by (cases p) (simp_all add: word_at_def is_word_def)

definition same_alnum :: "ucd \<Rightarrow> ucd \<Rightarrow> int option \<Rightarrow> pystr \<Rightarrow> bool" where
  "same_alnum U V p s \<longleftrightarrow> (\<forall>c. p = Some c \<or> c \<in> set s \<longrightarrow> u_alnum U c = u_alnum V c)"

lemma rx_lang_cong:
  "same_alnum U V p (m @ b) \<Longrightarrow> rx_lang U r p m b = rx_lang V r p m b"
proof (induction r arbitrary: p m b)
  case (Cat r q)
  have "rx_lang U r p m1 (m2 @ b) = rx_lang V r p m1 (m2 @ b)"
    "rx_lang U q (prev_after p m1) m2 b = rx_lang V q (prev_after p m1) m2 b"
    if "m = m1 @ m2" for m1 m2
    using Cat.prems that
    by (intro Cat.IH; auto simp: same_alnum_def prev_after_def)+
  then show ?case by (simp only: rx_lang.simps) metis
next
  case (Alt r q)
  then show ?case by simp
next
  case WordB
  have "word_at U p = word_at V p" using WordB by (intro word_at_cong) (auto simp: same_alnum_def)
  moreover have "m = [] \<Longrightarrow> word_at U (next_char b) = word_at V (next_char b)"
    using WordB by (intro word_at_cong) (auto simp: same_alnum_def next_char_def split: list.splits)
  ultimately show ?case by auto
qed auto

lemma rx_found_cong:
  assumes "\<forall>c\<in>set s. u_alnum U c = u_alnum V c"
  shows "rx_found U r s = rx_found V r s"
proof -
  have "rx_lang U r (prev_after None a) m t = rx_lang V r (prev_after None a) m t"
    if "s = a @ m @ t" for a m t
    using assms that by (intro rx_lang_cong) (auto simp: same_alnum_def prev_after_def split: if_splits)
  then show ?thesis unfolding rx_found_iff by metis
qed

definition rule_names :: "pystr list" where
  "rule_names = map fst rules"

lemma first_rule_in_name: "first_rule_in U rs s = Some r \<Longrightarrow> r \<in> fst ` set rs"
  by (induction rs) (auto split: if_splits)

lemma first_rule_in_cong:
  "\<forall>c\<in>set s. u_alnum U c = u_alnum V c \<Longrightarrow> first_rule_in U rs s = first_rule_in V rs s"
  by (induction rs) (auto simp: rx_found_cong [of s U V])

lemma placeholder_quiet_1:
  "first_rule_in ascii_ucd rules (placeholder (lit ''ignore_instructions'')) = None"
  by code_simp

lemma placeholder_quiet_2:
  "first_rule_in ascii_ucd rules (placeholder (lit ''addresses_the_assistant'')) = None"
  by code_simp

lemma placeholder_quiet_3:
  "first_rule_in ascii_ucd rules (placeholder (lit ''tool_call_markup'')) = None"
  by code_simp

lemma placeholder_quiet_4:
  "first_rule_in ascii_ucd rules (placeholder (lit ''chat_template_tokens'')) = None"
  by code_simp

lemma placeholder_plain_1:
  "list_all is_ascii (placeholder (lit ''ignore_instructions''))"
  "strip_invisible (placeholder (lit ''ignore_instructions'')) = placeholder (lit ''ignore_instructions'')"
  "collapse_spaces (placeholder (lit ''ignore_instructions'')) = placeholder (lit ''ignore_instructions'')"
  by code_simp+

lemma placeholder_plain_2:
  "list_all is_ascii (placeholder (lit ''addresses_the_assistant''))"
  "strip_invisible (placeholder (lit ''addresses_the_assistant'')) = placeholder (lit ''addresses_the_assistant'')"
  "collapse_spaces (placeholder (lit ''addresses_the_assistant'')) = placeholder (lit ''addresses_the_assistant'')"
  by code_simp+

lemma placeholder_plain_3:
  "list_all is_ascii (placeholder (lit ''tool_call_markup''))"
  "strip_invisible (placeholder (lit ''tool_call_markup'')) = placeholder (lit ''tool_call_markup'')"
  "collapse_spaces (placeholder (lit ''tool_call_markup'')) = placeholder (lit ''tool_call_markup'')"
  by code_simp+

lemma placeholder_plain_4:
  "list_all is_ascii (placeholder (lit ''chat_template_tokens''))"
  "strip_invisible (placeholder (lit ''chat_template_tokens'')) = placeholder (lit ''chat_template_tokens'')"
  "collapse_spaces (placeholder (lit ''chat_template_tokens'')) = placeholder (lit ''chat_template_tokens'')"
  by code_simp+

lemmas placeholder_facts =
  placeholder_quiet_1 placeholder_quiet_2 placeholder_quiet_3 placeholder_quiet_4
  placeholder_plain_1 placeholder_plain_2 placeholder_plain_3 placeholder_plain_4

declare collapse_spaces.simps(2) [simp del]

lemma collapse_spaces_step:
  "\<not> is_space c \<Longrightarrow> collapse_spaces (c # s) = c # collapse_spaces s"
  "is_space c \<Longrightarrow> s \<noteq> [] \<Longrightarrow> is_space (hd s) \<Longrightarrow> collapse_spaces (c # s) = collapse_spaces s"
  "is_space c \<Longrightarrow> s = [] \<or> \<not> is_space (hd s) \<Longrightarrow> collapse_spaces (c # s) = 32 # collapse_spaces s"
  by (cases s; simp add: collapse_spaces.simps(2))+

lemma set_collapse: "set (collapse_spaces s) \<subseteq> insert 32 (set s)"
proof (induction s)
  case (Cons c s)
  consider "\<not> is_space c" | "is_space c" "s \<noteq> []" "is_space (hd s)"
    | "is_space c" "s = [] \<or> \<not> is_space (hd s)" by blast
  then show ?case using Cons by cases (auto simp: collapse_spaces_step)
qed simp

lemma first_matching_rule_ascii:
  assumes U: "ucd_ok U" and a: "list_all is_ascii s"
  shows "first_matching_rule U s = first_rule_in ascii_ucd rules (collapse_spaces s)"
proof -
  have "u_nfkc U s = s" using U a by (simp add: ucd_ok_def)
  moreover have "\<forall>c\<in>set (collapse_spaces s). u_alnum U c = u_alnum ascii_ucd c"
    using set_collapse [of s] U a
    by (auto simp: ucd_ok_def ascii_ucd_def list_all_iff ascii_defs dest!: subsetD)
  ultimately show ?thesis
    unfolding first_matching_rule_def normalise_def by (simp add: first_rule_in_cong)
qed

lemma placeholder_quiet:
  assumes "ucd_ok U" "r \<in> set rule_names"
  shows "first_matching_rule U (placeholder r) = None" "strip_invisible (placeholder r) = placeholder r"
proof -
  have r: "r = lit ''ignore_instructions'' \<or> r = lit ''addresses_the_assistant''
      \<or> r = lit ''tool_call_markup'' \<or> r = lit ''chat_template_tokens''"
    using assms(2) by (simp add: rule_names_def rules_def)
  then have "list_all is_ascii (placeholder r)"
    "first_rule_in ascii_ucd rules (collapse_spaces (placeholder r)) = None"
    by (elim disjE; simp only: placeholder_facts)+
  then show "first_matching_rule U (placeholder r) = None"
    by (simp only: first_matching_rule_ascii [OF assms(1)])
  show "strip_invisible (placeholder r) = placeholder r"
    using r by (elim disjE; simp only: placeholder_facts)
qed

section \<open>Cleaned text\<close>


fun json_texts :: "json \<Rightarrow> pystr list" where
  "json_texts (JStr s) = [s]"
| "json_texts (JList xs) = concat (map json_texts xs)"
| "json_texts (JDict d) = concat (map (\<lambda>(k, v). k # json_texts v) d)"
| "json_texts _ = []"

text \<open>
  What becomes of one text \<open>s\<close>: nothing invisible is left, and if the visible text fires a rule, that
  rule's placeholder stands for it, which fires none; otherwise it is the visible text, cut when
  it is longer than \<open>n\<close>, with its length.  A cut text is not checked again.
\<close>

definition came_from :: "ucd \<Rightarrow> nat \<Rightarrow> pystr \<Rightarrow> pystr \<Rightarrow> bool" where
  "came_from U n s t \<longleftrightarrow>
     list_all kept_char t
     \<and> (case first_matching_rule U (filter kept_char s) of
          Some r \<Rightarrow> t = placeholder r \<and> first_matching_rule U t = None
        | None \<Rightarrow>
            if length (filter kept_char s) \<le> n then t = filter kept_char s
            else t = take n (filter kept_char s) @ lit ''... [truncated, ''
                   @ str_of_nat (length (filter kept_char s)) @ lit '' characters in total]'')"

text \<open>The rules that fire on the texts of a value, in order.\<close>

definition rules_fired :: "ucd \<Rightarrow> json \<Rightarrow> pystr list" where
  "rules_fired U v = List.map_filter (\<lambda>s. first_matching_rule U (filter kept_char s)) (json_texts v)"

lemma strip_invisible_append: "strip_invisible (s @ t) = strip_invisible s @ strip_invisible t"
  by (simp add: strip_invisible_def)

lemma strip_invisible_idem [simp]: "strip_invisible (strip_invisible s) = strip_invisible s"
  by (simp add: strip_invisible_def)

lemma strip_invisible_take:
  "strip_invisible s = s \<Longrightarrow> strip_invisible (take n s) = take n s"
  by (auto simp: strip_invisible_def filter_id_conv dest: in_set_takeD)

lemma nat_digits_range: "c \<in> set (nat_digits n) \<Longrightarrow> 48 \<le> c \<and> c \<le> 57"
  by (induction n rule: nat_digits.induct) (subst (asm) (2) nat_digits.simps, auto split: if_splits)

lemma strip_invisible_digits: "strip_invisible (str_of_nat n) = str_of_nat n"
proof -
  have "kept_char c" if "c \<in> set (nat_digits n)" for c
    using nat_digits_range [OF that] by (auto simp: kept_char_def invisible_def invisible_ranges_def)
  then show ?thesis by (simp add: strip_invisible_def str_of_nat_def)
qed

lemma truncated_text_visible:
  assumes "strip_invisible s = s" shows "strip_invisible (truncated_text n s) = truncated_text n s"
proof -
  have "strip_invisible (lit ''... [truncated, '') = lit ''... [truncated, ''"
    "strip_invisible (lit '' characters in total]'') = lit '' characters in total]''"
    by code_simp+
  with assms show ?thesis
    by (simp only: truncated_text_def strip_invisible_append strip_invisible_digits strip_invisible_take)
qed

lemma first_matching_rule_name: "first_matching_rule U s = Some r \<Longrightarrow> r \<in> set rule_names"
  unfolding first_matching_rule_def rule_names_def using first_rule_in_name by force

lemma visible_iff: "strip_invisible s = s \<longleftrightarrow> list_all kept_char s"
  by (simp add: strip_invisible_def filter_id_conv list_all_iff)

lemma clean_text_out:
  assumes U: "ucd_ok U" and run: "clean_text U n text loc fl = (t, fl')"
  shows "came_from U n text t"
    "fl' = fl @ map (\<lambda>r. \<lparr>sf_location = loc, sf_rule = r\<rparr>) (rules_fired U (JStr text))"
proof -
  show "came_from U n text t"
    using run placeholder_quiet [OF U first_matching_rule_name]
      truncated_text_visible [of "strip_invisible text" n] strip_invisible_idem [of "text"]
    unfolding visible_iff came_from_def
    by (auto simp: clean_text_def strip_invisible_def truncated_text_def Let_def split: option.splits if_splits)
  show "fl' = fl @ map (\<lambda>r. \<lparr>sf_location = loc, sf_rule = r\<rparr>) (rules_fired U (JStr text))"
    using run by (auto simp: clean_text_def strip_invisible_def rules_fired_def map_filter_simps Let_def
        split: option.splits if_splits)
qed

lemma json_texts_dict_set:
  "set (json_texts (JDict (dict_set k v d))) \<subseteq> insert k (set (json_texts v) \<union> set (json_texts (JDict d)))"
  using set_dict_set [of k v d] by fastforce

abbreviation texts_from :: "ucd \<Rightarrow> nat \<Rightarrow> pystr set \<Rightarrow> json \<Rightarrow> bool" where
  "texts_from U n X v \<equiv> (\<forall>t\<in>set (json_texts v). \<exists>s\<in>X. came_from U n s t)"

lemma clean_value_out:
  "ucd_ok U \<Longrightarrow> set (json_texts v) \<subseteq> X \<Longrightarrow> texts_from U n X (fst (clean_value U n v loc fl))"
  "ucd_ok U \<Longrightarrow> set (json_texts (JList xs)) \<subseteq> X \<Longrightarrow> texts_from U n X (JList (fst (clean_values U n xs loc fl)))"
  "ucd_ok U \<Longrightarrow> set (json_texts (JDict d)) \<subseteq> X \<Longrightarrow> texts_from U n X (JDict acc) \<Longrightarrow>
   texts_from U n X (JDict (fst (clean_items U n d loc acc fl)))"
proof (induction U n v loc fl and U n xs loc fl and U n d loc acc fl
    rule: clean_value_clean_values_clean_items.induct)
  case (11 U n k v d loc acc fl)
  obtain k' fl1 where k: "clean_text U n k loc fl = (k', fl1)" by force
  obtain v' fl2 where v: "clean_value U n v loc fl1 = (v', fl2)" by force
  have sub: "k \<in> X" "set (json_texts v) \<subseteq> X" "set (json_texts (JDict d)) \<subseteq> X" using 11(4) by auto
  have "texts_from U n X (JDict (dict_set k' v' acc))"
    using json_texts_dict_set [of k' v' acc] clean_text_out(1) [OF 11(3) k] sub(1)
      11(1) [OF k [symmetric] 11(3) sub(2)] v 11(5) by fastforce
  with 11(2) [OF k [symmetric] v [symmetric] 11(3) sub(3)] k v show ?case by simp
qed (auto split: prod.splits dest: clean_text_out(1))

lemma rules_fired_simps [simp]:
  "rules_fired U (JList (x # xs)) = rules_fired U x @ rules_fired U (JList xs)"
  "rules_fired U (JDict ((k, v) # d)) = rules_fired U (JStr k) @ rules_fired U v @ rules_fired U (JDict d)"
  "rules_fired U (JList []) = []" "rules_fired U (JDict []) = []"
  "rules_fired U JNull = []" "rules_fired U (JBool b) = []" "rules_fired U (JInt i) = []" "rules_fired U (JFloat f) = []"
  by (simp_all add: rules_fired_def map_filter_def)

lemma clean_value_flags:
  "ucd_ok U \<Longrightarrow> snd (clean_value U n v loc fl) = fl @ map (\<lambda>r. \<lparr>sf_location = loc, sf_rule = r\<rparr>) (rules_fired U v)"
  "ucd_ok U \<Longrightarrow> snd (clean_values U n xs loc fl) = fl @ map (\<lambda>r. \<lparr>sf_location = loc, sf_rule = r\<rparr>) (rules_fired U (JList xs))"
  "ucd_ok U \<Longrightarrow> snd (clean_items U n d loc acc fl) = fl @ map (\<lambda>r. \<lparr>sf_location = loc, sf_rule = r\<rparr>) (rules_fired U (JDict d))"
proof (induction U n v loc fl and U n xs loc fl and U n d loc acc fl
    rule: clean_value_clean_values_clean_items.induct)
  case (11 U n k v d loc acc fl)
  obtain k' fl1 where k: "clean_text U n k loc fl = (k', fl1)" by force
  obtain v' fl2 where v: "clean_value U n v loc fl1 = (v', fl2)" by force
  have "fl2 = fl1 @ map (\<lambda>r. \<lparr>sf_location = loc, sf_rule = r\<rparr>) (rules_fired U v)"
    using 11(1) [OF k [symmetric] 11(3)] v by simp
  then show ?case
    using 11(2) [OF k [symmetric] v [symmetric] 11(3)] k v clean_text_out(2) [OF 11(3) k] by (simp del: map_append) simp
qed (auto split: prod.splits dest: clean_text_out(2))

text \<open>A value in which nothing has to be cleaned is handed on as it is.\<close>

definition quiet_text :: "ucd \<Rightarrow> nat \<Rightarrow> pystr \<Rightarrow> bool" where
  "quiet_text U n t \<longleftrightarrow> strip_invisible t = t \<and> first_matching_rule U t = None \<and> length t \<le> n"

lemma clean_text_quiet: "quiet_text U n t \<Longrightarrow> clean_text U n t loc fl = (t, fl)"
  by (simp add: quiet_text_def clean_text_def)

lemma dict_set_fresh: "k \<notin> fst ` set d \<Longrightarrow> dict_set k v d = d @ [(k, v)]"
  by (induction k v d rule: dict_set.induct) auto

fun keys_once :: "json \<Rightarrow> bool" where
  "keys_once (JList xs) \<longleftrightarrow> list_all keys_once xs"
| "keys_once (JDict d) \<longleftrightarrow> distinct (map fst d) \<and> list_all (\<lambda>(k, v). keys_once v) d"
| "keys_once _ \<longleftrightarrow> True"

lemma clean_value_quiet:
  "keys_once v \<Longrightarrow> \<forall>t\<in>set (json_texts v). quiet_text U n t \<Longrightarrow> clean_value U n v loc fl = (v, fl)"
  "keys_once (JList xs) \<Longrightarrow> \<forall>t\<in>set (json_texts (JList xs)). quiet_text U n t \<Longrightarrow>
     clean_values U n xs loc fl = (xs, fl)"
  "keys_once (JDict (acc @ d)) \<Longrightarrow> \<forall>t\<in>set (json_texts (JDict d)). quiet_text U n t \<Longrightarrow>
     clean_items U n d loc acc fl = (acc @ d, fl)"
proof (induction U n v loc fl and U n xs loc fl and U n d loc acc fl
    rule: clean_value_clean_values_clean_items.induct)
  case (11 U n k v d loc acc fl)
  have "clean_text U n k loc fl = (k, fl)" using 11(4) by (intro clean_text_quiet) simp
  moreover have "clean_value U n v loc fl = (v, fl)"
    using 11(3,4) calculation by (intro 11(1)) auto
  moreover have "dict_set k v acc = acc @ [(k, v)]"
    using 11(3) by (intro dict_set_fresh) auto
  moreover have "clean_items U n d loc (acc @ [(k, v)]) fl = (acc @ (k, v) # d, fl)"
    using 11(2) [of k fl v fl] 11(3,4) calculation by simp
  ultimately show ?case by simp
qed (auto simp: clean_text_quiet)

lemma rx_lang_cat_wordb:
  "rx_lang U (Cat WordB q) p m b \<longleftrightarrow>
     word_at U p \<noteq> word_at U (next_char (m @ b)) \<and> rx_lang U q p m b"
  by auto

lemma rx_lang_words:
  "ws \<noteq> [] \<Longrightarrow> rx_lang U (words ws) p m b \<longleftrightarrow> (\<exists>w\<in>set ws. same_ci w m)"
  by auto

lemma rx_lang_gap40: "rx_lang U gap40 p m b \<longleftrightarrow> length m \<le> 40"
  by (simp add: list_all_iff)

text \<open>Two words with a word boundary around each, at most forty characters between.\<close>

definition ends_alone :: "ucd \<Rightarrow> pystr \<Rightarrow> pystr \<Rightarrow> bool" where
  "ends_alone U a b \<longleftrightarrow> word_at U (prev_after None a) \<noteq> word_at U (next_char b)"

lemma ignore_rule_iff:
  "rx_found U ignore_re s \<longleftrightarrow>
     (\<exists>a v g1 p g2 ob e b. s = a @ v @ g1 @ p @ g2 @ ob @ e @ b
        \<and> (\<exists>w\<in>set ignore_verbs. same_ci w v) \<and> (\<exists>w\<in>set ignore_scopes. same_ci w p)
        \<and> (\<exists>w\<in>set ignore_objects. same_ci w ob) \<and> (same_ci ''s'' e \<or> e = [])
        \<and> length g1 \<le> 40 \<and> length g2 \<le> 40
        \<and> stands_alone U a v (g1 @ p @ g2 @ ob @ e @ b)
        \<and> stands_alone U (a @ v @ g1) p (g2 @ ob @ e @ b)
        \<and> stands_alone U (a @ v @ g1 @ p @ g2) (ob @ e) b)"
proof -
  define V P Q where d: "V = words ignore_verbs" "P = words ignore_scopes" "Q = words ignore_objects"
  have V: "rx_lang U V p m b \<longleftrightarrow> (\<exists>w\<in>set ignore_verbs. same_ci w m)" for p m b
    unfolding d by (rule rx_lang_words) (simp add: ignore_verbs_def)
  have P: "rx_lang U P p m b \<longleftrightarrow> (\<exists>w\<in>set ignore_scopes. same_ci w m)" for p m b
    unfolding d by (rule rx_lang_words) (simp add: ignore_scopes_def)
  have Q: "rx_lang U Q p m b \<longleftrightarrow> (\<exists>w\<in>set ignore_objects. same_ci w m)" for p m b
    unfolding d by (rule rx_lang_words) (simp add: ignore_objects_def)
  have last: "rx_lang U (Cat opt_s WordB) p m b \<longleftrightarrow>
      (same_ci ''s'' m \<or> m = []) \<and> word_at U (prev_after p m) \<noteq> word_at U (next_char b)" for p m b
    by auto
  have L: "rx_lang U ignore_re (prev_after None a) m b \<longleftrightarrow>
      ends_alone U a (m @ b) \<and>
      (\<exists>v m1. m = v @ m1 \<and> (\<exists>w\<in>set ignore_verbs. same_ci w v) \<and> ends_alone U (a @ v) (m1 @ b) \<and>
      (\<exists>g1 m2. m1 = g1 @ m2 \<and> length g1 \<le> 40 \<and> ends_alone U (a @ v @ g1) (m2 @ b) \<and>
      (\<exists>p m3. m2 = p @ m3 \<and> (\<exists>w\<in>set ignore_scopes. same_ci w p) \<and> ends_alone U (a @ v @ g1 @ p) (m3 @ b) \<and>
      (\<exists>g2 m4. m3 = g2 @ m4 \<and> length g2 \<le> 40 \<and> ends_alone U (a @ v @ g1 @ p @ g2) (m4 @ b) \<and>
      (\<exists>ob e. m4 = ob @ e \<and> (\<exists>w\<in>set ignore_objects. same_ci w ob) \<and> (same_ci ''s'' e \<or> e = [])
         \<and> ends_alone U (a @ v @ g1 @ p @ g2 @ ob @ e) b)))))" for a m b
    unfolding ignore_re_def d [symmetric] rx_seq.simps rx_lang_cat_wordb rx_lang.simps(3) [of U V]
      rx_lang.simps(3) [of U gap40] rx_lang.simps(3) [of U P] rx_lang.simps(3) [of U Q]
      rx_lang_gap40 V P Q last ends_alone_def by simp
  have sa: "stands_alone U a m b \<longleftrightarrow> ends_alone U a (m @ b) \<and> ends_alone U (a @ m) b" for a m b
    by (simp add: stands_alone_def ends_alone_def)
  show ?thesis (is "_ = ?R")
  proof
    assume "rx_found U ignore_re s"
    then obtain a v g1 p g2 ob e b where
      "s = a @ (v @ g1 @ p @ g2 @ ob @ e) @ b"
      "\<exists>w\<in>set ignore_verbs. same_ci w v" "\<exists>w\<in>set ignore_scopes. same_ci w p"
      "\<exists>w\<in>set ignore_objects. same_ci w ob" "same_ci ''s'' e \<or> e = []"
      "length g1 \<le> 40" "length g2 \<le> 40"
      "ends_alone U a ((v @ g1 @ p @ g2 @ ob @ e) @ b)" "ends_alone U (a @ v) ((g1 @ p @ g2 @ ob @ e) @ b)"
      "ends_alone U (a @ v @ g1) ((p @ g2 @ ob @ e) @ b)" "ends_alone U (a @ v @ g1 @ p) ((g2 @ ob @ e) @ b)"
      "ends_alone U (a @ v @ g1 @ p @ g2) ((ob @ e) @ b)" "ends_alone U (a @ v @ g1 @ p @ g2 @ ob @ e) b"
      unfolding rx_found_iff L by blast
    then show ?R unfolding sa
      by (rule_tac x = a in exI, rule_tac x = v in exI, rule_tac x = g1 in exI, rule_tac x = p in exI,
          rule_tac x = g2 in exI, rule_tac x = ob in exI, rule_tac x = e in exI, rule_tac x = b in exI)
        simp
  next
    assume ?R
    then obtain a v g1 p g2 ob e b where
      h: "s = a @ v @ g1 @ p @ g2 @ ob @ e @ b"
      "\<exists>w\<in>set ignore_verbs. same_ci w v" "\<exists>w\<in>set ignore_scopes. same_ci w p"
      "\<exists>w\<in>set ignore_objects. same_ci w ob" "same_ci ''s'' e \<or> e = []"
      "length g1 \<le> 40" "length g2 \<le> 40"
      "stands_alone U a v (g1 @ p @ g2 @ ob @ e @ b)"
      "stands_alone U (a @ v @ g1) p (g2 @ ob @ e @ b)"
      "stands_alone U (a @ v @ g1 @ p @ g2) (ob @ e) b" by blast
    have "rx_lang U ignore_re (prev_after None a) (v @ g1 @ p @ g2 @ ob @ e) b"
      unfolding L using h(2-) unfolding sa
      by (rule_tac conjI, simp, rule_tac x = v in exI, rule_tac x = "g1 @ p @ g2 @ ob @ e" in exI, simp,
          rule_tac x = g1 in exI, rule_tac x = "p @ g2 @ ob @ e" in exI, simp,
          rule_tac x = p in exI, rule_tac x = "g2 @ ob @ e" in exI, simp,
          rule_tac x = g2 in exI, rule_tac x = "ob @ e" in exI, simp,
          rule_tac x = ob in exI, rule_tac x = e in exI, simp)
    with h(1) show "rx_found U ignore_re s" unfolding rx_found_iff by (metis append_assoc)
  qed
qed

section \<open>Properties\<close>

text \<open>C18: what is handed on of a value, at any depth of a list or object, keys included: every text in it
  is what \<open>came_from\<close> says of some text of the value.  No invisible character is left; a text
  whose visible characters fire a rule is replaced by that rule's placeholder, which fires none;
  one that fires none is handed on as its visible characters, or cut with its length when longer
  than the limit.  So the one text that can fire a rule is a cut one (\<open>truncation_can_fire_rule\<close>).
  And the flags grow by one per withheld text, in order, each with its rule and the location.\<close>

theorem clean_value_safe:
  assumes "ucd_ok U"
  shows "case clean_value U n v loc fl of (v', fl') \<Rightarrow>
     list_all (\<lambda>t. list_ex (\<lambda>s. came_from U n s t) (json_texts v)) (json_texts v')
     \<and> fl' = fl @ map (\<lambda>r. \<lparr>sf_location = loc, sf_rule = r\<rparr>) (rules_fired U v)"
  using clean_value_out(1) [OF assms order.refl, where n = n and loc = loc and fl = fl] clean_value_flags(1) [OF assms, of n v loc fl]
  by (auto simp: list_all_iff list_ex_iff split: prod.split)

theorem clean_value_safe_witness:
  "case clean_value ascii_ucd 2000 (JList [JStr (lit ''ok'')]) (lit ''row 1'') [] of (v', fl') \<Rightarrow>
     list_all (\<lambda>t. list_ex (\<lambda>s. came_from ascii_ucd 2000 s t) [lit ''ok'']) (json_texts v')
     \<and> fl' = [] @ map (\<lambda>r. \<lparr>sf_location = lit ''row 1'', sf_rule = r\<rparr>) (rules_fired ascii_ucd (JList [JStr (lit ''ok'')]))"
  using clean_value_safe [OF ascii_ucd_ok, where n = 2000 and v = "JList [JStr (lit ''ok'')]" and loc = "lit ''row 1''" and fl = "[]"] by simp

text \<open>C40: a value whose texts are visible, short enough and fire no rule (and whose dicts, as in Python, have
  every key once) is returned unchanged and raises no flag.\<close>

theorem clean_value_unchanged:
  assumes "keys_once v" "\<forall>t\<in>set (json_texts v). quiet_text U n t"
  shows "clean_value U n v loc fl = (v, fl)"
  using assms by (rule clean_value_quiet)

theorem clean_value_unchanged_witness:
  "clean_value ascii_ucd 50 (JDict [(lit ''note'', JStr (lit ''shipped''))]) [] [] =
     (JDict [(lit ''note'', JStr (lit ''shipped''))], [])"
proof (rule clean_value_unchanged)
  show "keys_once (JDict [(lit ''note'', JStr (lit ''shipped''))])" by simp
  show "\<forall>t\<in>set (json_texts (JDict [(lit ''note'', JStr (lit ''shipped''))])). quiet_text ascii_ucd 50 t"
    by code_simp
qed

text \<open>C36: on a (normalised) text the first rule fires exactly when the text holds a verb of its list, a
  scope word and an object word (perhaps plural), in this order, each standing alone, with at
  most forty characters between.\<close>

theorem ignore_rule_exact:
  "rx_found U ignore_re s \<longleftrightarrow>
     (\<exists>a v g1 p g2 ob e b. s = a @ v @ g1 @ p @ g2 @ ob @ e @ b
        \<and> (\<exists>w\<in>set ignore_verbs. same_ci w v) \<and> (\<exists>w\<in>set ignore_scopes. same_ci w p)
        \<and> (\<exists>w\<in>set ignore_objects. same_ci w ob) \<and> (same_ci ''s'' e \<or> e = [])
        \<and> length g1 \<le> 40 \<and> length g2 \<le> 40
        \<and> stands_alone U a v (g1 @ p @ g2 @ ob @ e @ b)
        \<and> stands_alone U (a @ v @ g1) p (g2 @ ob @ e @ b)
        \<and> stands_alone U (a @ v @ g1 @ p @ g2) (ob @ e) b)"
  by (rule ignore_rule_iff)

text \<open>Every withheld text is reported: cleaning a text returns the placeholder of a rule and one
  more flag with that rule and location exactly when a rule fires on the visible text, and no
  flag otherwise.\<close>

theorem clean_text_flags:
  "case first_matching_rule U (strip_invisible text) of
     Some r \<Rightarrow> r \<in> set rule_names
       \<and> clean_text U n text loc fl = (placeholder r, fl @ [\<lparr>sf_location = loc, sf_rule = r\<rparr>])
   | None \<Rightarrow> snd (clean_text U n text loc fl) = fl
       \<and> take n (fst (clean_text U n text loc fl)) = take n (strip_invisible text)"
  using first_matching_rule_name [of U "strip_invisible text"]
  by (auto simp: clean_text_def truncated_text_def Let_def split: option.splits)

text \<open>
  The cut is not checked again: a text that fires no rule because a word goes on can be cut
  exactly at the word's end, and the result fires the rule.
\<close>

theorem truncation_can_fire_rule:
  "first_matching_rule ascii_ucd (lit ''They could ignore all of the previous instructionsheet'') = None"
  "first_matching_rule ascii_ucd
     (fst (clean_text ascii_ucd 50 (lit ''They could ignore all of the previous instructionsheet'') [] []))
   = Some (lit ''ignore_instructions'')"
  by code_simp+

end
