(* ===== verification/Serialization.thy ===== *)
theory Serialization
  imports Models
begin

text \<open>
  \<open>services/serialization.py\<close>: database values turned into JSON-friendly ones.  A value is
  a constructor per branch of the source's type tests, carrying what the branch reads of it:
  a \<open>Decimal\<close> its nearest float, whether \<open>Decimal(repr(float(v))) == v\<close>, and \<open>str(v)\<close>; a date
  or time its \<open>isoformat()\<close>; bytes their number; a dict its \<open>str(key)\<close>s.  A signalling \<open>Decimal\<close> NaN,
  the one value \<open>float()\<close> refuses and which no driver returns, is left out.
\<close>

datatype pyval =
    PNone
  | PBool bool
  | PInt int
  | PStr pystr
  | PFloat pyfloat
  | PDecimal pyfloat bool pystr
  | PTemporal pystr             \<comment> \<open>\<open>datetime | date | time\<close>\<close>
  | PDelta pystr                \<comment> \<open>\<open>timedelta\<close>\<close>
  | PUuid pystr
  | PBytes nat                  \<comment> \<open>\<open>bytes | bytearray | memoryview\<close>\<close>
  | PSeq "pyval list"           \<comment> \<open>\<open>list | tuple | set | frozenset\<close>\<close>
  | PDict "(pystr \<times> pyval) list"
  | POther pystr

text \<open>\<open>str(f)\<close> of a float that is not finite.\<close>

definition str_of_nonfinite :: "pyfloat \<Rightarrow> pystr" where
  "str_of_nonfinite f =
     (case f of PosInf \<Rightarrow> lit ''inf'' | NegInf \<Rightarrow> lit ''-inf'' | _ \<Rightarrow> lit ''nan'')"

fun to_json_safe :: "pyval \<Rightarrow> json"
  and items_json_safe :: "(pystr \<times> pyval) list \<Rightarrow> (pystr \<times> json) list \<Rightarrow> (pystr \<times> json) list" where
  "to_json_safe PNone = JNull"
| "to_json_safe (PBool b) = JBool b"
| "to_json_safe (PInt i) = JInt i"
| "to_json_safe (PStr s) = JStr s"
| "to_json_safe (PFloat f) = (if isfinite f then JFloat f else JStr (str_of_nonfinite f))"
| "to_json_safe (PDecimal f exact s) = (if isfinite f \<and> exact then JFloat f else JStr s)"
| "to_json_safe (PTemporal s) = JStr s"
| "to_json_safe (PDelta s) = JStr s"
| "to_json_safe (PUuid s) = JStr s"
| "to_json_safe (PBytes n) = JStr (lit ''<binary, '' @ str_of_nat n @ lit '' bytes>'')"
| "to_json_safe (PSeq xs) = JList (map to_json_safe xs)"
| "to_json_safe (PDict d) = JDict (items_json_safe d [])"
| "to_json_safe (POther s) = JStr s"
| "items_json_safe [] acc = acc"
| "items_json_safe ((k, v) # d) acc = items_json_safe d (dict_set k (to_json_safe v) acc)"

text \<open>
  What the JSON encoder can write: no NaN, no infinity, and every key once.  (Lone surrogates in
  texts are another matter; the sanitizer takes them out afterwards.)
\<close>

fun json_ok :: "json \<Rightarrow> bool" where
  "json_ok (JFloat f) \<longleftrightarrow> isfinite f"
| "json_ok (JList xs) \<longleftrightarrow> list_all json_ok xs"
| "json_ok (JDict d) \<longleftrightarrow> distinct (map fst d) \<and> list_all (\<lambda>(k, v). json_ok v) d"
| "json_ok _ \<longleftrightarrow> True"

lemma json_ok_dict_set:
  assumes "json_ok (JDict d)" "json_ok v" shows "json_ok (JDict (dict_set k v d))"
  using assms set_dict_set [of k v d] distinct_dict_set [of d k v]
  by (auto simp: list_all_iff)

lemma to_json_safe_ok_aux:
  "json_ok (to_json_safe v)"
  "json_ok (JDict acc) \<Longrightarrow> json_ok (JDict (items_json_safe d acc))"
proof (induction v and d acc rule: to_json_safe_items_json_safe.induct)
  case (15 k v d acc)
  then show ?case using json_ok_dict_set [of acc "to_json_safe v" k] by simp
qed (auto simp: list_all_iff)

text \<open>C37: whatever a driver returns becomes a value the JSON encoder can write: no NaN or
  infinity at any depth, and no key twice in one object.\<close>

theorem to_json_safe_ok: "json_ok (to_json_safe v)"
  by (rule to_json_safe_ok_aux)

end
