(* ===== verification/Interfaces.thy ===== *)
theory Interfaces
  imports Models Serialization
begin

text \<open>
  The abstract base classes the services are written against: \<open>MetaStore\<close>
  (\<open>services/meta_store.py\<close>), \<open>DBAdapter\<close> (\<open>adapters/base.py\<close>), the \<open>AdapterProvider\<close>
  protocol (\<open>services/connection_registry.py\<close>) and \<open>Cache\<close> (\<open>cache/base.py\<close>).  An object
  is a record of its methods, each a function on the state \<open>'s\<close> of the system that may
  raise.  \<open>time.monotonic()\<close> is a \<open>clock\<close>: integer microseconds.
\<close>

type_synonym ('s, 'a) op = "(exn, 's, 'a) io"

type_synonym 's clock = "'s \<Rightarrow> int \<times> 's"

type_synonym desc_key = "pystr \<times> pystr option"

record 's meta_store =
  ms_list_connections :: "subject list \<Rightarrow> ('s, connection_record list) op"
  ms_get_connection :: "pystr \<Rightarrow> subject list \<Rightarrow> ('s, connection_record option) op"
  ms_allowed_tables :: "uuid \<Rightarrow> subject list \<Rightarrow> ('s, pystr set) op"
  ms_allowed_tools :: "subject list \<Rightarrow> ('s, pystr set) op"
  ms_descriptions :: "uuid \<Rightarrow> ('s, (desc_key \<times> pystr) list) op"
  ms_search_descriptions ::
    "uuid \<Rightarrow> pystr \<Rightarrow> pystr list \<Rightarrow> int \<Rightarrow> ('s, schema_search_hit list) op"
  ms_write_audit :: "audit_entry \<Rightarrow> ('s, unit) op"
  ms_close :: "('s, unit) op"

record 's adapter =
  ad_dialect_name :: pystr
  ad_default_schema :: "pystr option"
  ad_connect :: "('s, unit) op"
  ad_close :: "('s, unit) op"
  ad_list_tables :: "('s, table_info list) op"
  ad_describe_table :: "pystr \<Rightarrow> ('s, table_description) op"
  ad_execute :: "pystr \<Rightarrow> int \<Rightarrow> int \<Rightarrow> ('s, pyval raw_result) op"
  ad_explain :: "pystr \<Rightarrow> int \<Rightarrow> ('s, explain_result) op"
  ad_sample_rows :: "pystr \<Rightarrow> int \<Rightarrow> int \<Rightarrow> ('s, pyval raw_result) op"

type_synonym 's adapter_provider = "connection_record \<Rightarrow> ('s, 's adapter) op"

record 's cache =
  ca_get :: "pystr \<Rightarrow> ('s, pystr option) op"
  ca_set :: "pystr \<Rightarrow> pystr \<Rightarrow> int \<Rightarrow> ('s, unit) op"
  ca_version :: "pystr \<Rightarrow> ('s, int option) op"
  ca_bump :: "pystr \<Rightarrow> ('s, unit) op"
  ca_ping :: "('s, bool) op"
  ca_close :: "('s, unit) op"

definition META :: pystr where
  "META = lit ''meta''"

definition SCHEMA :: pystr where
  "SCHEMA = lit ''schema''"

text \<open>The cache that does nothing.\<close>

definition null_cache :: "'s cache" where
  "null_cache =
     \<lparr>ca_get = (\<lambda>key. io_return None), ca_set = (\<lambda>key v ttl. io_return ()),
      ca_version = (\<lambda>family. io_return None), ca_bump = (\<lambda>family. io_return ()),
      ca_ping = io_return False, ca_close = io_return ()\<rparr>"

end
