(* ===== verification/Permission.thy ===== *)
theory Permission
  imports Interfaces
begin

text \<open>
  \<open>services/permission_service.py\<close>: the three default-deny checks (tool, connection, table)
  over any \<open>MetaStore\<close>.
\<close>

definition TOOL_NAMES :: "pystr set" where
  "TOOL_NAMES =
     {lit ''list_connections'', lit ''list_tables'', lit ''describe_table'', lit ''search_schema'',
      lit ''get_relationships'', lit ''run_query'', lit ''explain_query'', lit ''get_sample_rows''}"

text \<open>\<open>ConnectionAccess\<close>: a usable connection and the case-folded tables on it.\<close>

record connection_access =
  acc_record :: connection_record
  acc_tables :: "pystr set"

definition allows :: "ucd \<Rightarrow> connection_access \<Rightarrow> pystr \<Rightarrow> bool" where
  "allows U access table \<longleftrightarrow> casefold U table \<in> acc_tables access"

definition table_not_found :: "pystr \<Rightarrow> exn" where
  "table_not_found table =
     McpSqlError TableNotFound (lit ''Table '' @ quoted table @ lit '' was not found or is not available to you.'')"

definition require_table :: "ucd \<Rightarrow> connection_access \<Rightarrow> pystr \<Rightarrow> exn + unit" where
  "require_table U access table = guard_res (allows U access table) (table_not_found table)"

definition tool_not_permitted :: "pystr \<Rightarrow> exn" where
  "tool_not_permitted tool =
     McpSqlError ToolNotPermitted (lit ''You are not permitted to use the '' @ quoted tool @ lit '' tool.'')"

definition require_tool :: "'s meta_store \<Rightarrow> caller \<Rightarrow> pystr \<Rightarrow> ('s, unit) op" where
  "require_tool M caller tool =
     io_bind (ms_allowed_tools M (subjects caller)) (\<lambda>granted.
       io_guard (tool \<in> granted) (tool_not_permitted tool))"

definition permitted_connections :: "'s meta_store \<Rightarrow> caller \<Rightarrow> ('s, connection_record list) op" where
  "permitted_connections M caller = ms_list_connections M (subjects caller)"

definition connection_not_found :: "pystr \<Rightarrow> exn" where
  "connection_not_found name =
     McpSqlError ConnectionNotFound (lit ''Connection '' @ quoted name @ lit '' was not found or is not available to you.'')"

definition open_connection ::
  "ucd \<Rightarrow> 's meta_store \<Rightarrow> caller \<Rightarrow> pystr \<Rightarrow> pystr \<Rightarrow> ('s, connection_access) op" where
  "open_connection U M caller tool name =
     io_then (require_tool M caller tool)
       (io_bind (ms_get_connection M name (subjects caller)) (\<lambda>found.
          case found of
            None \<Rightarrow> io_raise (connection_not_found name)
          | Some record \<Rightarrow>
              io_bind (ms_allowed_tables M (cr_id record) (subjects caller)) (\<lambda>granted.
                io_return \<lparr>acc_record = record, acc_tables = casefold U ` granted\<rparr>)))"

end
