(* ===== verification/Auditing.thy ===== *)
theory Auditing
  imports Interfaces
begin

text \<open>
  \<open>services/audit_service.py\<close>.  \<open>async with audit.record(...) as rec: body\<close> is \<open>record_audit\<close>
  applied to the body, a function on the recorder and the state.  Whatever way the body
  ends, one entry is built from the recorder and written; only if the body ended without an
  exception does a failed write turn into an \<open>AuditWriteError\<close>.
\<close>

definition max_error_chars :: nat where
  "max_error_chars = 1000"

record recorder =
  rec_connection_name :: "pystr option"
  rec_tables :: "pystr list"
  rec_row_count :: "int option"
  rec_summary :: "pystr option"

text \<open>\<open>_describe\<close>.\<close>

fun describe_error :: "exn \<Rightarrow> pystr" where
  "describe_error (McpSqlError k m) = take max_error_chars m"
| "describe_error (OtherError t) = lit ''internal error ('' @ t @ lit '')''"
| "describe_error (BaseError t) = lit ''internal error ('' @ t @ lit '')''"

text \<open>\<open>failure\<close>, set by \<open>except Exception\<close>.\<close>

definition caught :: "exn + 'a \<Rightarrow> exn option" where
  "caught r = (case r of Inl e \<Rightarrow> if is_exception e then Some e else None | Inr x \<Rightarrow> None)"

definition audit_entry_of ::
  "caller \<Rightarrow> pystr \<Rightarrow> (pystr \<times> json) list \<Rightarrow> recorder \<Rightarrow> int \<Rightarrow> exn option \<Rightarrow> audit_entry" where
  "audit_entry_of caller tool args rec duration_ms failure =
     \<lparr>ae_caller_sub = sub caller, ae_caller_name = cname caller, ae_tool_name = tool,
      ae_connection_name = rec_connection_name rec, ae_arguments = args,
      ae_duration_ms = duration_ms, ae_success = (failure = None), ae_tables = rec_tables rec,
      ae_row_count = rec_row_count rec, ae_result_summary = rec_summary rec,
      ae_error_message = map_option describe_error failure,
      ae_caller_roles = sorted_strs (roles caller)\<rparr>"

definition audit_write_error :: exn where
  "audit_write_error =
     McpSqlError AuditWriteError
       (lit ''The request could not be recorded in the audit log, ''
        @ lit ''so its result is being withheld. Try again later.'')"

definition record_audit ::
  "'s meta_store \<Rightarrow> 's clock \<Rightarrow> caller \<Rightarrow> pystr \<Rightarrow> (pystr \<times> json) list \<Rightarrow> pystr option
   \<Rightarrow> (recorder \<times> 's, 'a) op \<Rightarrow> ('s, 'a) op" where
  "record_audit M clk caller tool args conn body = (\<lambda>s.
     let rec = \<lparr>rec_connection_name = conn, rec_tables = [], rec_row_count = None, rec_summary = None\<rparr>;
         (started, s) = clk s
     in case body (rec, s) of (result, (rec, s)) \<Rightarrow>
       let (ended, s) = clk s;
           failure = caught result;
           entry = audit_entry_of caller tool args rec ((ended - started) div 1000) failure
       in case ms_write_audit M entry s of
            (Inr u, s) \<Rightarrow> (result, s)
          | (Inl e, s) \<Rightarrow>
              (if is_exception e
               then (if failure = None then (Inl audit_write_error, s) else (result, s))
               else (Inl e, s)))"

section \<open>What the wrapper does\<close>

definition fresh_recorder :: "pystr option \<Rightarrow> recorder" where
  "fresh_recorder conn =
     \<lparr>rec_connection_name = conn, rec_tables = [], rec_row_count = None, rec_summary = None\<rparr>"

text \<open>The result handed on once the write has answered \<open>w\<close>.\<close>

definition audited :: "exn + unit \<Rightarrow> exn + 'a \<Rightarrow> exn + 'a" where
  "audited w r =
     (case w of
        Inr u \<Rightarrow> r
      | Inl e \<Rightarrow> (if is_exception e then (if caught r = None then Inl audit_write_error else r) else Inl e))"

lemma record_audit_run:
  assumes "clk s = (n, s0)" "body (fresh_recorder conn, s0) = (r, (rec, s1))" "clk s1 = (n', s2)"
    "ms_write_audit M (audit_entry_of caller tool args rec ((n' - n) div 1000) (caught r)) s2 = (w, s3)"
  shows "record_audit M clk caller tool args conn body s = (audited w r, s3)"
  using assms by (auto simp: record_audit_def fresh_recorder_def audited_def Let_def split: sum.splits)

lemma record_audit_cases:
  obtains n s0 r rec s1 n' s2 w s3 where
    "clk s = (n, s0)" "body (fresh_recorder conn, s0) = (r, (rec, s1))" "clk s1 = (n', s2)"
    "ms_write_audit M (audit_entry_of caller tool args rec ((n' - n) div 1000) (caught r)) s2 = (w, s3)"
    "record_audit M clk caller tool args conn body s = (audited w r, s3)"
proof -
  obtain n s0 where s0: "clk s = (n, s0)" by (rule prod.exhaust)
  obtain r p where "body (fresh_recorder conn, s0) = (r, p)" by (rule prod.exhaust)
  moreover obtain rec s1 where "p = (rec, s1)" by (rule prod.exhaust)
  ultimately have b: "body (fresh_recorder conn, s0) = (r, (rec, s1))" by simp
  obtain n' s2 where s2: "clk s1 = (n', s2)" by (rule prod.exhaust)
  obtain w s3 where w: "ms_write_audit M
      (audit_entry_of caller tool args rec ((n' - n) div 1000) (caught r)) s2 = (w, s3)" by (rule prod.exhaust)
  show thesis by (rule that [OF s0 b s2 w record_audit_run [where body = body, OF s0 b s2 w]])
qed

lemma audited_Inr: "audited w r = Inr x \<longleftrightarrow> w = Inr () \<and> r = Inr x"
  by (auto simp: audited_def caught_def split: sum.splits if_splits)

lemma audited_refused:
  "is_exception e \<Longrightarrow> (\<And>e'. w = Inl e' \<Longrightarrow> is_exception e') \<Longrightarrow> audited w (Inl e) = Inl e"
  by (auto simp: audited_def caught_def split: sum.splits)

lemma record_audit_Inr:
  assumes "record_audit M clk caller tool args conn body s = (Inr x, s')"
  obtains n s0 rec s1 n' s2 where
    "clk s = (n, s0)" "body (fresh_recorder conn, s0) = (Inr x, (rec, s1))" "clk s1 = (n', s2)"
    "ms_write_audit M (audit_entry_of caller tool args rec ((n' - n) div 1000) None) s2 = (Inr (), s')"
proof (rule record_audit_cases [of clk s body conn M caller tool args])
  fix n s0 r rec s1 n' s2 w s3
  assume h: "clk s = (n, s0)" "body (fresh_recorder conn, s0) = (r, (rec, s1))" "clk s1 = (n', s2)"
    "ms_write_audit M (audit_entry_of caller tool args rec ((n' - n) div 1000) (caught r)) s2 = (w, s3)"
    "record_audit M clk caller tool args conn body s = (audited w r, s3)"
  then have "w = Inr ()" "r = Inr x" "s3 = s'" using assms audited_Inr by (metis prod.inject)+
  with h that show thesis by (simp add: caught_def)
qed

text \<open>The body keeps \<open>P\<close>; the write of the entry leads from \<open>P\<close> to \<open>Q\<close>.\<close>

lemma record_audit_post:
  assumes "io_keeps (\<lambda>p. P (snd p)) body" and "\<And>s. P s \<Longrightarrow> P (snd (clk s))"
    and "\<And>s e r s'. P s \<Longrightarrow> ms_write_audit M e s = (r, s') \<Longrightarrow> Q s'"
    and "P s"
  shows "Q (snd (record_audit M clk caller tool args conn body s))"
proof (rule record_audit_cases [of clk s body conn M caller tool args])
  fix n s0 r rec s1 n' s2 w s3
  assume h: "clk s = (n, s0)" "body (fresh_recorder conn, s0) = (r, (rec, s1))" "clk s1 = (n', s2)"
    "ms_write_audit M (audit_entry_of caller tool args rec ((n' - n) div 1000) (caught r)) s2 = (w, s3)"
    "record_audit M clk caller tool args conn body s = (audited w r, s3)"
  have "P s0" using assms(2,4) h(1) by (metis snd_conv)
  then have "P s1" using h(2) io_keepsD [OF assms(1)] by fastforce
  then have "P s2" using h(3) assms(2) by (metis snd_conv)
  then show ?thesis using h(4,5) assms(3) by simp
qed

end
