(* ===== verification/Config.thy ===== *)
theory Config
  imports Models
begin

text \<open>
  \<open>config.py\<close>: the governance limits and the settings they come from.  Durations that the
  code keeps as float seconds are integer milliseconds here.
\<close>

record query_limits =
  ql_timeout_ms :: int
  ql_default_rows :: int
  ql_max_rows :: int
  ql_max_sample_rows :: int
  ql_max_sql_length :: nat
  ql_max_cell_chars :: nat

definition default_limits :: query_limits where
  "default_limits =
     \<lparr>ql_timeout_ms = 5000, ql_default_rows = 500, ql_max_rows = 5000, ql_max_sample_rows = 100,
      ql_max_sql_length = 20000, ql_max_cell_chars = 2000\<rparr>"

definition split_list :: "pystr \<Rightarrow> pystr list" where
  "split_list value =
     map strip (filter (\<lambda>part. strip part \<noteq> []) (split_on (cp CHR '','') value))"

datatype token_verification = VerifyJwt | VerifyIntrospection

record settings =
  st_app_meta_url :: pystr
  st_connection_secret_keys :: pystr
  st_redis_url :: "pystr option"
  st_cache_ttl_s :: int
  st_permission_cache_ttl_s :: int
  st_default_query_timeout_ms :: int
  st_default_row_limit :: int
  st_max_row_limit :: int
  st_max_sample_rows :: int
  st_max_sql_length :: nat
  st_max_cell_chars :: nat
  st_stdio_sub :: "pystr option"
  st_stdio_name :: "pystr option"
  st_stdio_roles :: pystr
  st_http_host :: pystr
  st_http_port :: int
  st_public_url :: "pystr option"
  st_oauth_issuer :: "pystr option"
  st_oauth_jwks_url :: "pystr option"
  st_oauth_audience :: "pystr option"
  st_oauth_roles_claim :: pystr
  st_oauth_required_scopes :: pystr
  st_token_verification :: token_verification
  st_oauth_introspection_url :: "pystr option"
  st_oauth_introspection_client_id :: "pystr option"
  st_oauth_introspection_client_secret :: "pystr option"
  st_token_cache_ttl_s :: int

text \<open>The bounds pydantic checks when the settings are read.\<close>

definition settings_ok :: "settings \<Rightarrow> bool" where
  "settings_ok s \<longleftrightarrow>
     1 \<le> st_cache_ttl_s s \<and> 1 \<le> st_permission_cache_ttl_s s
     \<and> 0 < st_default_query_timeout_ms s \<and> st_default_query_timeout_ms s \<le> 60000
     \<and> 1 \<le> st_default_row_limit s \<and> 1 \<le> st_max_row_limit s \<and> 1 \<le> st_max_sample_rows s
     \<and> 1 \<le> st_max_sql_length s \<and> 50 \<le> st_max_cell_chars s
     \<and> 1 \<le> st_http_port s \<and> st_http_port s \<le> 65535 \<and> 1 \<le> st_token_cache_ttl_s s"

definition limits_of_settings :: "settings \<Rightarrow> query_limits" where
  "limits_of_settings s =
     \<lparr>ql_timeout_ms = st_default_query_timeout_ms s, ql_default_rows = st_default_row_limit s,
      ql_max_rows = st_max_row_limit s, ql_max_sample_rows = st_max_sample_rows s,
      ql_max_sql_length = st_max_sql_length s, ql_max_cell_chars = st_max_cell_chars s\<rparr>"

text \<open>The parts of a list setting are non-empty, hold no comma, and have no space around them.\<close>

lemma split_list_parts:
  "p \<in> set (split_list s) \<Longrightarrow> p \<noteq> [] \<and> strip p = p \<and> cp CHR '','' \<notin> set p"
  using set_strip split_on_no_sep by (fastforce simp: split_list_def)

end
