(* ===== verification/QueryService.thy ===== *)
theory QueryService
  imports Permission Auditing Validator Sanitizer Config
begin

text \<open>
  \<open>services/tool_service.py\<close> and \<open>services/query_service.py\<close>: \<open>run_query\<close>, \<open>explain_query\<close> and
  \<open>get_sample_rows\<close>, each a body over the audit recorder and the state, run inside
  \<open>record_audit\<close>.  \<open>services\<close> holds what the container wires into the service objects.
\<close>

record ('s, 'q) services =
  sv_store :: "'s meta_store"
  sv_adapters :: "'s adapter_provider"
  sv_clock :: "'s clock"
  sv_ucd :: ucd
  sv_sqlglot :: "'q sqlglot"
  sv_limits :: query_limits

abbreviation sv_max_cell :: "('s, 'q) services \<Rightarrow> nat" where
  "sv_max_cell S \<equiv> ql_max_cell_chars (sv_limits S)"

section \<open>Shared plumbing\<close>

text \<open>\<open>ToolService._open\<close>.\<close>

definition open_adapter ::
  "('s, 'q) services \<Rightarrow> caller \<Rightarrow> pystr \<Rightarrow> pystr \<Rightarrow> ('s, connection_access \<times> 's adapter) op" where
  "open_adapter S caller tool name =
     io_bind (open_connection (sv_ucd S) (sv_store S) caller tool name) (\<lambda>access.
     io_bind (sv_adapters S (acc_record access)) (\<lambda>adapter.
       io_return (access, adapter)))"

text \<open>\<open>time.monotonic()\<close> as a step.\<close>

definition read_clock :: "('s, 'q) services \<Rightarrow> ('s, int) op" where
  "read_clock S = (\<lambda>s. case sv_clock S s of (t, s') \<Rightarrow> (Inr t, s'))"

text \<open>\<open>async with self._audit.record(caller, tool, args, connection) as rec: body\<close>.\<close>

definition audited_call ::
  "('s, 'q) services \<Rightarrow> caller \<Rightarrow> string \<Rightarrow> (pystr \<times> json) list \<Rightarrow> pystr option
   \<Rightarrow> (recorder \<times> 's, 'a) op \<Rightarrow> ('s, 'a) op" where
  "audited_call S caller tool args conn body =
     record_audit (sv_store S) (sv_clock S) caller (lit tool) args conn body"

section \<open>Query results\<close>

definition withheld_note :: "security_flag list \<Rightarrow> pystr" where
  "withheld_note flags = str_of_nat (length flags) @ lit '' value(s) withheld by the sanitizer''"

text \<open>\<open>_result_summary\<close>.\<close>

definition result_summary :: "query_result \<Rightarrow> pystr" where
  "result_summary r =
     join (lit ''; '')
       ([str_of_int (qr_row_count r) @ lit '' rows'']
        @ (if qr_truncated r then [lit ''truncated at the row limit''] else [])
        @ (if qr_security_flags r \<noteq> [] then [withheld_note (qr_security_flags r)] else []))"

fun clean_columns ::
  "ucd \<Rightarrow> nat \<Rightarrow> pystr list \<Rightarrow> security_flag list \<Rightarrow> pystr list \<times> security_flag list" where
  "clean_columns U n [] fl = ([], fl)"
| "clean_columns U n (c # cs) fl =
     (case clean_text U n c (lit ''column name'') fl of (c', fl) \<Rightarrow>
        (case clean_columns U n cs fl of (cs', fl) \<Rightarrow> (c' # cs', fl)))"

definition cell_location :: "nat \<Rightarrow> pystr \<Rightarrow> pystr" where
  "cell_location r column = lit ''row '' @ str_of_nat r @ lit '', column '' @ column"

text \<open>The cells of row \<open>r\<close> from column \<open>c\<close> on; \<open>raw.columns[c]\<close> raises \<open>IndexError\<close> past the end.\<close>

fun clean_cells ::
  "ucd \<Rightarrow> nat \<Rightarrow> pystr list \<Rightarrow> nat \<Rightarrow> nat \<Rightarrow> pyval list \<Rightarrow> security_flag list
   \<Rightarrow> exn + json list \<times> security_flag list" where
  "clean_cells U n columns r c [] fl = Inr ([], fl)"
| "clean_cells U n columns r c (v # vs) fl =
     (if length columns \<le> c then Inl (OtherError (lit ''IndexError''))
      else case clean_value U n (to_json_safe v) (cell_location r (columns ! c)) fl of (v', fl) \<Rightarrow>
        res_bind (clean_cells U n columns r (c + 1) vs fl) (\<lambda>(vs', fl). Inr (v' # vs', fl)))"

fun clean_rows ::
  "ucd \<Rightarrow> nat \<Rightarrow> pystr list \<Rightarrow> nat \<Rightarrow> pyval list list \<Rightarrow> security_flag list
   \<Rightarrow> exn + json list list \<times> security_flag list" where
  "clean_rows U n columns r [] fl = Inr ([], fl)"
| "clean_rows U n columns r (row # rows) fl =
     res_bind (clean_cells U n columns r 0 row fl) (\<lambda>(row', fl).
     res_bind (clean_rows U n columns (r + 1) rows fl) (\<lambda>(rows', fl). Inr (row' # rows', fl)))"

text \<open>\<open>_to_result\<close>.\<close>

definition to_result :: "('s, 'q) services \<Rightarrow> pyval raw_result \<Rightarrow> int \<Rightarrow> ('s, query_result) op" where
  "to_result S raw started =
     (case clean_columns (sv_ucd S) (sv_max_cell S) (rr_columns raw) [] of (columns, fl) \<Rightarrow>
        io_bind (io_lift (clean_rows (sv_ucd S) (sv_max_cell S) (rr_columns raw) 1 (rr_rows raw) fl))
          (\<lambda>(rows, fl). io_bind (read_clock S) (\<lambda>now.
             io_return
               \<lparr>qr_columns = columns, qr_rows = rows, qr_row_count = int (length rows),
                qr_truncated = rr_truncated raw, qr_elapsed_ms = (now - started) div 1000,
                qr_security_flags = fl\<rparr>)))"

section \<open>Limits, validation and authorization\<close>

definition invalid_argument :: "pystr \<Rightarrow> exn" where
  "invalid_argument m = McpSqlError InvalidArgument m"

text \<open>\<open>_resolve_row_limit\<close>.\<close>

definition resolve_row_limit :: "query_limits \<Rightarrow> int option \<Rightarrow> exn + int" where
  "resolve_row_limit L requested =
     (case requested of
        None \<Rightarrow> Inr (ql_default_rows L)
      | Some n \<Rightarrow>
          (if \<not> (1 \<le> n \<and> n \<le> ql_max_rows L) then
             Inl (invalid_argument (lit ''row_limit must be between 1 and '' @ str_of_int (ql_max_rows L) @ lit ''.''))
           else Inr n))"

text \<open>\<open>_validate_and_authorize\<close>: the tables are recorded before they are checked.\<close>

definition validate_and_authorize ::
  "('s, 'q) services \<Rightarrow> pystr \<Rightarrow> 's adapter \<Rightarrow> connection_access \<Rightarrow> (recorder \<times> 's, validated_query) op" where
  "validate_and_authorize S sql adapter access =
     io_bind (io_lift (validate (sv_ucd S) (sv_sqlglot S) (ql_max_sql_length (sv_limits S)) sql
                (ad_dialect_name adapter) (ad_default_schema adapter))) (\<lambda>query.
     io_then (io_mod_fst (\<lambda>rec. rec\<lparr>rec_tables := sorted_strs (vq_tables query)\<rparr>))
       (io_then (io_each (\<lambda>table. io_guard (allows (sv_ucd S) access table) (table_not_found table))
                   (sorted_strs (vq_tables query)))
          (io_return query)))"

section \<open>The operations\<close>

definition json_of_limit :: "int option \<Rightarrow> json" where
  "json_of_limit l = (case l of None \<Rightarrow> JNull | Some n \<Rightarrow> JInt n)"

text \<open>What both row-returning operations do with the rows: clean them and note the outcome.\<close>

definition note_result :: "query_result \<Rightarrow> (recorder \<times> 's, query_result) op" where
  "note_result result =
     io_then (io_mod_fst (\<lambda>rec. rec\<lparr>rec_row_count := Some (qr_row_count result),
                                    rec_summary := Some (result_summary result)\<rparr>))
       (io_return result)"

definition run_query_body ::
  "('s, 'q) services \<Rightarrow> caller \<Rightarrow> pystr \<Rightarrow> pystr \<Rightarrow> int option \<Rightarrow> (recorder \<times> 's, query_result) op" where
  "run_query_body S caller connection_name sql row_limit =
     io_bind (io_on_snd (open_adapter S caller (lit ''run_query'') connection_name)) (\<lambda>(access, adapter).
     io_bind (io_lift (resolve_row_limit (sv_limits S) row_limit)) (\<lambda>limit.
     io_bind (validate_and_authorize S sql adapter access) (\<lambda>query.
     io_bind (io_on_snd (read_clock S)) (\<lambda>started.
     io_bind (io_on_snd (ad_execute adapter (vq_sql query) limit (ql_timeout_ms (sv_limits S)))) (\<lambda>raw.
     io_bind (io_on_snd (to_result S raw started)) note_result)))))"

definition run_query ::
  "('s, 'q) services \<Rightarrow> caller \<Rightarrow> pystr \<Rightarrow> pystr \<Rightarrow> int option \<Rightarrow> ('s, query_result) op" where
  "run_query S caller connection_name sql row_limit =
     audited_call S caller ''run_query''
       [(lit ''connection_name'', JStr connection_name), (lit ''sql'', JStr sql),
        (lit ''row_limit'', json_of_limit row_limit)]
       (Some connection_name) (run_query_body S caller connection_name sql row_limit)"

definition explain_query_body ::
  "('s, 'q) services \<Rightarrow> caller \<Rightarrow> pystr \<Rightarrow> pystr \<Rightarrow> (recorder \<times> 's, plan_result) op" where
  "explain_query_body S caller connection_name sql =
     io_bind (io_on_snd (open_adapter S caller (lit ''explain_query'') connection_name)) (\<lambda>(access, adapter).
     io_bind (validate_and_authorize S sql adapter access) (\<lambda>query.
     io_bind (io_on_snd (ad_explain adapter (vq_sql query) (ql_timeout_ms (sv_limits S)))) (\<lambda>explained.
       case clean_text (sv_ucd S) (sv_max_cell S) (er_plan explained) (lit ''query plan'') [] of
         (plan, flags) \<Rightarrow>
           io_then (io_mod_fst (\<lambda>rec. rec\<lparr>rec_summary := Some
                      (if flags = [] then lit ''plan returned''
                       else lit ''plan withheld by the sanitizer'')\<rparr>))
             (io_return \<lparr>pr_plan = plan, pr_estimated_cost = er_estimated_cost explained,
                         pr_estimated_rows = er_estimated_rows explained\<rparr>))))"

definition explain_query ::
  "('s, 'q) services \<Rightarrow> caller \<Rightarrow> pystr \<Rightarrow> pystr \<Rightarrow> ('s, plan_result) op" where
  "explain_query S caller connection_name sql =
     audited_call S caller ''explain_query''
       [(lit ''connection_name'', JStr connection_name), (lit ''sql'', JStr sql)]
       (Some connection_name) (explain_query_body S caller connection_name sql)"

definition get_sample_rows_body ::
  "('s, 'q) services \<Rightarrow> caller \<Rightarrow> pystr \<Rightarrow> pystr \<Rightarrow> int \<Rightarrow> (recorder \<times> 's, query_result) op" where
  "get_sample_rows_body S caller connection_name table n =
     io_bind (io_on_snd (open_adapter S caller (lit ''get_sample_rows'') connection_name)) (\<lambda>(access, adapter).
     io_then (io_guard (1 \<le> n \<and> n \<le> ql_max_sample_rows (sv_limits S))
                (invalid_argument (lit ''n must be between 1 and ''
                   @ str_of_int (ql_max_sample_rows (sv_limits S)) @ lit ''.'')))
     (io_then (io_lift (require_table (sv_ucd S) access table))
     (io_then (io_mod_fst (\<lambda>rec. rec\<lparr>rec_tables := [table]\<rparr>))
     (io_bind (io_on_snd (read_clock S)) (\<lambda>started.
      io_bind (io_on_snd (ad_sample_rows adapter table n (ql_timeout_ms (sv_limits S)))) (\<lambda>raw.
      io_bind (io_on_snd (to_result S raw started)) note_result))))))"

definition get_sample_rows ::
  "('s, 'q) services \<Rightarrow> caller \<Rightarrow> pystr \<Rightarrow> pystr \<Rightarrow> int \<Rightarrow> ('s, query_result) op" where
  "get_sample_rows S caller connection_name table n =
     audited_call S caller ''get_sample_rows''
       [(lit ''connection_name'', JStr connection_name), (lit ''table_name'', JStr table),
        (lit ''n'', JInt n)]
       (Some connection_name) (get_sample_rows_body S caller connection_name table n)"

end
