(* ===== verification/SchemaService.thy ===== *)
theory SchemaService
  imports QueryService
begin

text \<open>
  \<open>services/schema_service.py\<close>: discovery of connections, tables, columns and relationships,
  limited to what the caller may see.
\<close>

definition max_keyword_chars :: nat where
  "max_keyword_chars = 100"

definition max_search_results :: int where
  "max_search_results = 50"

text \<open>\<open>_fk_detail\<close> and \<open>_summary\<close>.\<close>

definition fk_detail :: "relationship \<Rightarrow> foreign_key_detail" where
  "fk_detail fk =
     \<lparr>fkd_from_table = rel_from_table fk, fkd_columns = rel_columns fk,
      fkd_to_table = rel_to_table fk, fkd_to_columns = rel_to_columns fk\<rparr>"

definition summary_text :: "pystr \<Rightarrow> security_flag list \<Rightarrow> pystr" where
  "summary_text t flags = (if flags = [] then t else t @ lit ''; '' @ withheld_note flags)"

definition note_summary :: "pystr \<Rightarrow> (recorder \<times> 's, unit) op" where
  "note_summary t = io_mod_fst (\<lambda>rec. rec\<lparr>rec_summary := Some t\<rparr>)"

definition note_tables :: "pystr list \<Rightarrow> (recorder \<times> 's, unit) op" where
  "note_tables ts = io_mod_fst (\<lambda>rec. rec\<lparr>rec_tables := ts\<rparr>)"

text \<open>\<open>self._sanitizer.clean_text\<close> with the flags threaded through.\<close>

definition clean_with ::
  "('s, 'q) services \<Rightarrow> pystr \<Rightarrow> pystr \<Rightarrow> security_flag list \<Rightarrow> pystr \<times> security_flag list" where
  "clean_with S text location fl = clean_text (sv_ucd S) (sv_max_cell S) text location fl"

text \<open>\<open>curated.get(key) or comment or ""\<close>.\<close>

definition described ::
  "(desc_key \<times> pystr) list \<Rightarrow> desc_key \<Rightarrow> pystr option \<Rightarrow> pystr" where
  "described curated key comment =
     (case map_of curated key of
        Some t \<Rightarrow> if t \<noteq> [] then t else (case comment of Some c \<Rightarrow> c | None \<Rightarrow> [])
      | None \<Rightarrow> (case comment of Some c \<Rightarrow> c | None \<Rightarrow> []))"

section \<open>list_connections\<close>

fun clean_connections ::
  "('s, 'q) services \<Rightarrow> connection_record list \<Rightarrow> security_flag list
   \<Rightarrow> connection_info list \<times> security_flag list" where
  "clean_connections S [] fl = ([], fl)"
| "clean_connections S (r # rs) fl =
     (case clean_with S (cr_description r) (lit ''description of '' @ cr_name r) fl of (d, fl) \<Rightarrow>
        (case clean_connections S rs fl of (cs, fl) \<Rightarrow>
           (\<lparr>cinf_name = cr_name r, cinf_engine = cr_engine r, cinf_description = d\<rparr> # cs, fl)))"

definition list_connections_body ::
  "('s, 'q) services \<Rightarrow> caller \<Rightarrow> (recorder \<times> 's, connection_info list) op" where
  "list_connections_body S caller =
     io_then (io_on_snd (require_tool (sv_store S) caller (lit ''list_connections'')))
     (io_bind (io_on_snd (permitted_connections (sv_store S) caller)) (\<lambda>records.
        case clean_connections S records [] of (connections, flags) \<Rightarrow>
          io_then (note_summary (summary_text
                     (str_of_nat (length connections) @ lit '' connections'') flags))
            (io_return connections)))"

definition list_connections ::
  "('s, 'q) services \<Rightarrow> caller \<Rightarrow> ('s, connection_info list) op" where
  "list_connections S caller =
     audited_call S caller ''list_connections'' [] None (list_connections_body S caller)"

section \<open>list_tables\<close>

fun clean_tables ::
  "('s, 'q) services \<Rightarrow> connection_access \<Rightarrow> (desc_key \<times> pystr) list \<Rightarrow> table_info list
   \<Rightarrow> security_flag list \<Rightarrow> table_summary list \<times> security_flag list" where
  "clean_tables S access curated [] fl = ([], fl)"
| "clean_tables S access curated (i # infos) fl =
     (if \<not> allows (sv_ucd S) access (ti_name i) then clean_tables S access curated infos fl
      else case clean_with S (ti_name i) (lit ''table name'') fl of (nm, fl) \<Rightarrow>
        (case clean_with S (described curated (casefold (sv_ucd S) (ti_name i), None) (ti_comment i))
                (lit ''description of '' @ ti_name i) fl of (d, fl) \<Rightarrow>
           (case clean_tables S access curated infos fl of (ts, fl) \<Rightarrow>
              (\<lparr>ts_name = nm, ts_kind = ti_kind i, ts_description = d\<rparr> # ts, fl))))"

definition list_tables_body ::
  "('s, 'q) services \<Rightarrow> caller \<Rightarrow> pystr \<Rightarrow> (recorder \<times> 's, table_summary list) op" where
  "list_tables_body S caller connection_name =
     io_bind (io_on_snd (open_adapter S caller (lit ''list_tables'') connection_name)) (\<lambda>(access, adapter).
     io_bind (io_on_snd (ms_descriptions (sv_store S) (cr_id (acc_record access)))) (\<lambda>descriptions.
     io_bind (io_on_snd (ad_list_tables adapter)) (\<lambda>infos.
       case clean_tables S access descriptions infos [] of (tables, flags) \<Rightarrow>
         io_then (note_tables (map ts_name tables))
         (io_then (note_summary (summary_text (str_of_nat (length tables) @ lit '' tables'') flags))
           (io_return tables)))))"

definition list_tables ::
  "('s, 'q) services \<Rightarrow> caller \<Rightarrow> pystr \<Rightarrow> ('s, table_summary list) op" where
  "list_tables S caller connection_name =
     audited_call S caller ''list_tables'' [(lit ''connection_name'', JStr connection_name)]
       (Some connection_name) (list_tables_body S caller connection_name)"

section \<open>describe_table\<close>

fun clean_column_details ::
  "('s, 'q) services \<Rightarrow> (desc_key \<times> pystr) list \<Rightarrow> pystr \<Rightarrow> column_info list
   \<Rightarrow> security_flag list \<Rightarrow> column_detail list \<times> security_flag list" where
  "clean_column_details S curated table [] fl = ([], fl)"
| "clean_column_details S curated table (c # cs) fl =
     (case clean_with S (ci_name c) (lit ''column name in '' @ table) fl of (nm, fl) \<Rightarrow>
        (case clean_with S
                (described curated
                   (casefold (sv_ucd S) table, Some (casefold (sv_ucd S) (ci_name c))) (ci_comment c))
                (lit ''description of '' @ table @ lit ''.'' @ ci_name c) fl of (d, fl) \<Rightarrow>
           (case clean_column_details S curated table cs fl of (ds, fl) \<Rightarrow>
              (\<lparr>cd_name = nm, cd_type = ci_type c, cd_nullable = ci_nullable c,
                cd_primary_key = ci_primary_key c, cd_description = d\<rparr> # ds, fl))))"

definition table_detail_of ::
  "('s, 'q) services \<Rightarrow> connection_access \<Rightarrow> (desc_key \<times> pystr) list \<Rightarrow> table_description
   \<Rightarrow> table_detail" where
  "table_detail_of S access curated desc =
     (case clean_with S (td_name desc) (lit ''table name'') [] of (nm, fl) \<Rightarrow>
        (case clean_with S (described curated (casefold (sv_ucd S) (td_name desc), None) (td_comment desc))
                (lit ''description of '' @ td_name desc) fl of (d, fl) \<Rightarrow>
           (case clean_column_details S curated (td_name desc) (td_columns desc) fl of (cols, fl) \<Rightarrow>
              \<lparr>tdt_name = nm, tdt_kind = td_kind desc, tdt_description = d, tdt_columns = cols,
               tdt_foreign_keys =
                 map fk_detail (filter (\<lambda>fk. allows (sv_ucd S) access (rel_to_table fk))
                                  (td_foreign_keys desc)),
               tdt_security_flags = fl\<rparr>)))"

definition describe_table_body ::
  "('s, 'q) services \<Rightarrow> caller \<Rightarrow> pystr \<Rightarrow> pystr \<Rightarrow> (recorder \<times> 's, table_detail) op" where
  "describe_table_body S caller connection_name table =
     io_bind (io_on_snd (open_adapter S caller (lit ''describe_table'') connection_name)) (\<lambda>(access, adapter).
     io_then (io_lift (require_table (sv_ucd S) access table))
     (io_then (note_tables [table])
     (io_bind (io_on_snd (ad_describe_table adapter table)) (\<lambda>description.
      io_bind (io_on_snd (ms_descriptions (sv_store S) (cr_id (acc_record access)))) (\<lambda>curated.
        let detail = table_detail_of S access curated description in
        io_then (note_summary (summary_text
                   (str_of_nat (length (tdt_columns detail)) @ lit '' columns'') (tdt_security_flags detail)))
          (io_return detail))))))"

definition describe_table ::
  "('s, 'q) services \<Rightarrow> caller \<Rightarrow> pystr \<Rightarrow> pystr \<Rightarrow> ('s, table_detail) op" where
  "describe_table S caller connection_name table =
     audited_call S caller ''describe_table''
       [(lit ''connection_name'', JStr connection_name), (lit ''table_name'', JStr table)]
       (Some connection_name) (describe_table_body S caller connection_name table)"

section \<open>get_relationships\<close>

text \<open>The loop over the other tables: skip views and hidden tables, keep the keys into the target.\<close>

fun keys_into ::
  "('s, 'q) services \<Rightarrow> connection_access \<Rightarrow> 's adapter \<Rightarrow> pystr \<Rightarrow> table_info list
   \<Rightarrow> ('s, relationship list) op" where
  "keys_into S access adapter target [] = io_return []"
| "keys_into S access adapter target (other # others) =
     (if ti_kind other \<noteq> KTable \<or> \<not> allows (sv_ucd S) access (ti_name other)
      then keys_into S access adapter target others
      else io_bind (ad_describe_table adapter (ti_name other)) (\<lambda>described.
           io_bind (keys_into S access adapter target others) (\<lambda>rest.
             io_return
               (filter (\<lambda>fk. casefold (sv_ucd S) (rel_to_table fk) = casefold (sv_ucd S) target)
                  (td_foreign_keys described) @ rest))))"

definition get_relationships_body ::
  "('s, 'q) services \<Rightarrow> caller \<Rightarrow> pystr \<Rightarrow> pystr \<Rightarrow> (recorder \<times> 's, table_relationships) op" where
  "get_relationships_body S caller connection_name table =
     io_bind (io_on_snd (open_adapter S caller (lit ''get_relationships'') connection_name)) (\<lambda>(access, adapter).
     io_then (io_lift (require_table (sv_ucd S) access table))
     (io_then (note_tables [table])
     (io_bind (io_on_snd (ad_describe_table adapter table)) (\<lambda>target.
      let references = filter (\<lambda>fk. allows (sv_ucd S) access (rel_to_table fk)) (td_foreign_keys target) in
      io_bind (io_on_snd (ad_list_tables adapter)) (\<lambda>others.
      io_bind (io_on_snd (keys_into S access adapter (td_name target) others)) (\<lambda>referenced_by.
        io_then (note_summary (str_of_nat (length references) @ lit '' references, ''
                   @ str_of_nat (length referenced_by) @ lit '' referenced by''))
          (io_return \<lparr>trl_table = td_name target, trl_references = map fk_detail references,
                      trl_referenced_by = map fk_detail referenced_by\<rparr>)))))))"

definition get_relationships ::
  "('s, 'q) services \<Rightarrow> caller \<Rightarrow> pystr \<Rightarrow> pystr \<Rightarrow> ('s, table_relationships) op" where
  "get_relationships S caller connection_name table =
     audited_call S caller ''get_relationships''
       [(lit ''connection_name'', JStr connection_name), (lit ''table_name'', JStr table)]
       (Some connection_name) (get_relationships_body S caller connection_name table)"

section \<open>search_schema\<close>

fun clean_hits ::
  "('s, 'q) services \<Rightarrow> schema_search_hit list \<Rightarrow> security_flag list
   \<Rightarrow> schema_search_hit list \<times> security_flag list" where
  "clean_hits S [] fl = ([], fl)"
| "clean_hits S (h # hs) fl =
     (case clean_with S (hit_table h) (lit ''table name'') fl of (t, fl) \<Rightarrow>
        (case (case hit_column h of
                 None \<Rightarrow> (None, fl)
               | Some c \<Rightarrow>
                   (if c = [] then (None, fl)
                    else case clean_with S c (lit ''column name'') fl of (c', fl) \<Rightarrow> (Some c', fl))) of
           (c, fl) \<Rightarrow>
             (case clean_with S (hit_description h) (lit ''description of '' @ hit_table h) fl of (d, fl) \<Rightarrow>
                (case clean_hits S hs fl of (hs', fl) \<Rightarrow>
                   (h\<lparr>hit_table := t, hit_column := c, hit_description := d\<rparr> # hs', fl)))))"

definition search_schema_body ::
  "('s, 'q) services \<Rightarrow> caller \<Rightarrow> pystr \<Rightarrow> pystr \<Rightarrow> int \<Rightarrow> (recorder \<times> 's, schema_search_hit list) op" where
  "search_schema_body S caller connection_name keyword limit =
     (let keyword = strip keyword in
      io_then (io_guard (keyword \<noteq> [] \<and> length keyword \<le> max_keyword_chars)
                 (invalid_argument (lit ''keyword must be between 1 and ''
                    @ str_of_nat max_keyword_chars @ lit '' characters.'')))
      (io_then (io_guard (1 \<le> limit \<and> limit \<le> max_search_results)
                  (invalid_argument (lit ''limit must be between 1 and ''
                     @ str_of_int max_search_results @ lit ''.'')))
      (io_bind (io_on_snd (open_adapter S caller (lit ''search_schema'') connection_name)) (\<lambda>(access, adapter).
       io_bind (io_on_snd (ms_search_descriptions (sv_store S) (cr_id (acc_record access)) keyword
                             (sorted_strs (acc_tables access)) limit)) (\<lambda>hits.
         case clean_hits S hits [] of (results, flags) \<Rightarrow>
           io_then (note_tables (sorted_strs (set (map hit_table results))))
           (io_then (note_summary (summary_text (str_of_nat (length results) @ lit '' matches'') flags))
             (io_return results)))))))"

definition search_schema ::
  "('s, 'q) services \<Rightarrow> caller \<Rightarrow> pystr \<Rightarrow> pystr \<Rightarrow> int \<Rightarrow> ('s, schema_search_hit list) op" where
  "search_schema S caller connection_name keyword limit =
     audited_call S caller ''search_schema''
       [(lit ''connection_name'', JStr connection_name), (lit ''keyword'', JStr keyword)]
       (Some connection_name) (search_schema_body S caller connection_name keyword limit)"

end
