(* ===== verification/Tools.thy ===== *)
theory Tools
  imports SchemaService
begin

text \<open>
  \<open>tools/mcp_tools.py\<close>: the eight tools.  \<open>guarded\<close> turns a domain error into a tool error with
  its message and any other exception into one fixed message; what is not an \<open>Exception\<close> passes
  through.  The integer ranges of \<open>row_limit\<close> and \<open>n\<close> are checked by the framework from the
  declared annotations before the function runs.
\<close>

datatype tool_outcome_error =
    ToolError pystr
  | InvalidParams             \<comment> \<open>refused by the framework's argument check\<close>
  | Uncaught pystr

definition internal_message :: pystr where
  "internal_message =
     lit ''Something went wrong on the server while handling this request. ''
     @ lit ''It has been logged; try again, or contact an administrator.''"

fun tool_error_of :: "exn \<Rightarrow> tool_outcome_error" where
  "tool_error_of (McpSqlError k m) = ToolError m"
| "tool_error_of (OtherError t) = ToolError internal_message"
| "tool_error_of (BaseError t) = Uncaught t"

definition guarded :: "('s, 'a) op \<Rightarrow> (tool_outcome_error, 's, 'a) io" where
  "guarded m = io_catch m (\<lambda>e. io_raise (tool_error_of e))"

text \<open>A request to one of the tools, with the arguments it takes, and what the tools answer.\<close>

datatype tool_request =
    ListConnections
  | ListTables pystr
  | DescribeTable pystr pystr
  | SearchSchema pystr pystr
  | GetRelationships pystr pystr
  | RunQuery pystr pystr "int option"
  | ExplainQuery pystr pystr
  | GetSampleRows pystr pystr "int option"

datatype tool_answer =
    Connections "connection_info list"
  | Tables "table_summary list"
  | Detail table_detail
  | Hits "schema_search_hit list"
  | Relationships table_relationships
  | Rows query_result
  | Plan plan_result

definition io_answer :: "('a \<Rightarrow> tool_answer) \<Rightarrow> ('e, 's, 'a) io \<Rightarrow> ('e, 's, tool_answer) io" where
  "io_answer f m = io_bind m (\<lambda>x. io_return (f x))"

text \<open>\<open>row_limit: Field(ge=1, le=5000) = 500\<close> and \<open>n: Field(ge=1, le=100) = 5\<close>.\<close>

definition row_limit_arg :: "int option \<Rightarrow> int" where
  "row_limit_arg l = (case l of None \<Rightarrow> 500 | Some n \<Rightarrow> n)"

definition sample_arg :: "int option \<Rightarrow> int" where
  "sample_arg l = (case l of None \<Rightarrow> 5 | Some n \<Rightarrow> n)"

fun params_ok :: "tool_request \<Rightarrow> bool" where
  "params_ok (RunQuery conn sql l) \<longleftrightarrow> 1 \<le> row_limit_arg l \<and> row_limit_arg l \<le> 5000"
| "params_ok (GetSampleRows conn table n) \<longleftrightarrow> 1 \<le> sample_arg n \<and> sample_arg n \<le> 100"
| "params_ok _ \<longleftrightarrow> True"

text \<open>The body of each tool: one call of a service.\<close>

fun serve :: "('s, 'q) services \<Rightarrow> caller \<Rightarrow> tool_request \<Rightarrow> ('s, tool_answer) op" where
  "serve S c ListConnections = io_answer Connections (list_connections S c)"
| "serve S c (ListTables conn) = io_answer Tables (list_tables S c conn)"
| "serve S c (DescribeTable conn table) = io_answer Detail (describe_table S c conn table)"
| "serve S c (SearchSchema conn keyword) = io_answer Hits (search_schema S c conn keyword 20)"
| "serve S c (GetRelationships conn table) = io_answer Relationships (get_relationships S c conn table)"
| "serve S c (RunQuery conn sql l) = io_answer Rows (run_query S c conn sql (Some (row_limit_arg l)))"
| "serve S c (ExplainQuery conn sql) = io_answer Plan (explain_query S c conn sql)"
| "serve S c (GetSampleRows conn table n) = io_answer Rows (get_sample_rows S c conn table (sample_arg n))"

text \<open>\<open>current_caller\<close> is called inside the guarded function.\<close>

definition call_tool ::
  "('s, 'q) services \<Rightarrow> ('s, caller) op \<Rightarrow> tool_request \<Rightarrow> (tool_outcome_error, 's, tool_answer) io" where
  "call_tool S current_caller req =
     io_then (io_guard (params_ok req) InvalidParams)
       (guarded (io_bind current_caller (\<lambda>c. serve S c req)))"

text \<open>The tool's name, as the services pass it on.\<close>

fun request_tool :: "tool_request \<Rightarrow> pystr" where
  "request_tool ListConnections = lit ''list_connections''"
| "request_tool (ListTables conn) = lit ''list_tables''"
| "request_tool (DescribeTable conn table) = lit ''describe_table''"
| "request_tool (SearchSchema conn keyword) = lit ''search_schema''"
| "request_tool (GetRelationships conn table) = lit ''get_relationships''"
| "request_tool (RunQuery conn sql l) = lit ''run_query''"
| "request_tool (ExplainQuery conn sql) = lit ''explain_query''"
| "request_tool (GetSampleRows conn table n) = lit ''get_sample_rows''"

fun request_connection :: "tool_request \<Rightarrow> pystr option" where
  "request_connection ListConnections = None"
| "request_connection (ListTables conn) = Some conn"
| "request_connection (DescribeTable conn table) = Some conn"
| "request_connection (SearchSchema conn keyword) = Some conn"
| "request_connection (GetRelationships conn table) = Some conn"
| "request_connection (RunQuery conn sql l) = Some conn"
| "request_connection (ExplainQuery conn sql) = Some conn"
| "request_connection (GetSampleRows conn table n) = Some conn"

end
