(* ===== verification/AppMeta.thy ===== *)
theory AppMeta
  imports Models
begin

text \<open>
  The \<open>app_meta\<close> database (\<open>db/migrations/versions\<close>, revisions 0001 and 0002): one record per
  table row, one list per table, and the constraints the DDL declares as an invariant.
  Generated ids are counters; \<open>now()\<close> is passed to the statements that use it.
\<close>

record connection_row =
  cn_id :: uuid
  cn_name :: pystr
  cn_engine :: pystr
  cn_description :: pystr
  cn_details :: "(pystr \<times> json) list"
  cn_secret :: "pystr option"
  cn_active :: bool
  cn_created_by :: "pystr option"
  cn_created_at :: datetime
  cn_updated_at :: datetime
  cn_last_checked_at :: "datetime option"
  cn_last_check_ok :: "bool option"
  cn_last_check_error :: "pystr option"

record access_row =
  ac_connection :: uuid
  ac_subject :: subject
  ac_granted_by :: "pystr option"
  ac_granted_at :: datetime

record table_perm_row =
  tp_connection :: uuid
  tp_subject :: subject
  tp_table :: pystr
  tp_granted_by :: "pystr option"
  tp_granted_at :: datetime

record tool_perm_row =
  tl_subject :: subject
  tl_tool :: pystr
  tl_granted_by :: "pystr option"
  tl_granted_at :: datetime

record description_row =
  ds_id :: nat
  ds_connection :: uuid
  ds_table :: pystr
  ds_column :: "pystr option"
  ds_description :: pystr
  ds_updated_by :: "pystr option"
  ds_created_at :: datetime
  ds_updated_at :: datetime

text \<open>A row of \<open>audit_log\<close>: its columns are the fields of the entry, without the caller's roles.\<close>

record audit_row =
  au_id :: nat
  au_occurred_at :: datetime
  au_entry :: audit_entry

record known_subject_row =
  kn_subject :: subject
  kn_display_name :: "pystr option"
  kn_first_seen_at :: datetime
  kn_last_seen_at :: datetime

record admin_log_row =
  al_id :: nat
  al_occurred_at :: datetime
  al_actor_sub :: pystr
  al_actor_name :: "pystr option"
  al_action :: pystr
  al_target_type :: pystr
  al_target :: "pystr option"
  al_details :: "(pystr \<times> json) list"

record report_row =
  rp_id :: uuid
  rp_name :: pystr
  rp_description :: pystr
  rp_connection :: uuid
  rp_sql :: pystr
  rp_chart_config :: "(pystr \<times> json) list"
  rp_owner_sub :: pystr
  rp_created_at :: datetime
  rp_updated_at :: datetime

record app_meta =
  am_connections :: "connection_row list"
  am_connection_access :: "access_row list"
  am_table_permissions :: "table_perm_row list"
  am_tool_permissions :: "tool_perm_row list"
  am_descriptions :: "description_row list"
  am_audit_log :: "audit_row list"
  am_known_subjects :: "known_subject_row list"
  am_admin_log :: "admin_log_row list"
  am_reports :: "report_row list"
  am_next_description :: nat
  am_next_audit :: nat
  am_next_admin :: nat

definition empty_meta :: app_meta where
  "empty_meta =
     \<lparr>am_connections = [], am_connection_access = [], am_table_permissions = [],
      am_tool_permissions = [], am_descriptions = [], am_audit_log = [], am_known_subjects = [],
      am_admin_log = [], am_reports = [],
      am_next_description = 1, am_next_audit = 1, am_next_admin = 1\<rparr>"

section \<open>The constraints of the schema\<close>

text \<open>\<open>CHECK (name ~ '^[a-z0-9][a-z0-9_-]{0,62}$')\<close>.\<close>

definition name_start_char :: "int \<Rightarrow> bool" where
  "name_start_char c \<longleftrightarrow> ascii_lower c \<or> ascii_digit c"

definition name_char :: "int \<Rightarrow> bool" where
  "name_char c \<longleftrightarrow> name_start_char c \<or> c = 95 \<or> c = 45"

definition connection_name_ok :: "pystr \<Rightarrow> bool" where
  "connection_name_ok n \<longleftrightarrow>
     (case n of [] \<Rightarrow> False | c # s \<Rightarrow> name_start_char c \<and> list_all name_char s \<and> length s \<le> 62)"

definition subject_ok :: "subject \<Rightarrow> bool" where
  "subject_ok s \<longleftrightarrow> (fst s = lit ''user'' \<or> fst s = lit ''role'') \<and> snd s \<noteq> []"

definition connections_ok :: "connection_row list \<Rightarrow> bool" where
  "connections_ok cs \<longleftrightarrow>
     distinct (map cn_id cs) \<and> distinct (map cn_name cs) \<and> list_all (\<lambda>c. connection_name_ok (cn_name c)) cs"

definition access_ok :: "uuid set \<Rightarrow> access_row list \<Rightarrow> bool" where
  "access_ok ids rs \<longleftrightarrow>
     distinct (map (\<lambda>r. (ac_connection r, ac_subject r)) rs)
     \<and> list_all (\<lambda>r. ac_connection r \<in> ids \<and> subject_ok (ac_subject r)) rs"

definition table_perms_ok :: "uuid set \<Rightarrow> table_perm_row list \<Rightarrow> bool" where
  "table_perms_ok ids rs \<longleftrightarrow>
     distinct (map (\<lambda>r. (tp_connection r, tp_subject r, tp_table r)) rs)
     \<and> list_all (\<lambda>r. tp_connection r \<in> ids \<and> subject_ok (tp_subject r) \<and> tp_table r \<noteq> []) rs"

definition tool_perms_ok :: "tool_perm_row list \<Rightarrow> bool" where
  "tool_perms_ok rs \<longleftrightarrow>
     distinct (map (\<lambda>r. (tl_subject r, tl_tool r)) rs)
     \<and> list_all (\<lambda>r. subject_ok (tl_subject r) \<and> tl_tool r \<noteq> []) rs"

definition descriptions_ok :: "uuid set \<Rightarrow> nat \<Rightarrow> description_row list \<Rightarrow> bool" where
  "descriptions_ok ids next rs \<longleftrightarrow>
     distinct (map ds_id rs)
     \<and> distinct (map (\<lambda>r. (ds_connection r, ds_table r, ds_column r)) rs)
     \<and> list_all (\<lambda>r. ds_id r < next \<and> ds_connection r \<in> ids \<and> ds_table r \<noteq> [] \<and> ds_column r \<noteq> Some []) rs"

definition audit_ok :: "nat \<Rightarrow> audit_row list \<Rightarrow> bool" where
  "audit_ok next rs \<longleftrightarrow>
     distinct (map au_id rs)
     \<and> list_all (\<lambda>r. au_id r < next \<and> 0 \<le> ae_duration_ms (au_entry r)) rs"

definition known_ok :: "known_subject_row list \<Rightarrow> bool" where
  "known_ok rs \<longleftrightarrow> distinct (map kn_subject rs) \<and> list_all (\<lambda>r. subject_ok (kn_subject r)) rs"

definition admin_log_ok :: "nat \<Rightarrow> admin_log_row list \<Rightarrow> bool" where
  "admin_log_ok next rs \<longleftrightarrow> distinct (map al_id rs) \<and> list_all (\<lambda>r. al_id r < next) rs"

definition reports_ok :: "uuid set \<Rightarrow> report_row list \<Rightarrow> bool" where
  "reports_ok ids rs \<longleftrightarrow>
     distinct (map rp_id rs) \<and> list_all (\<lambda>r. rp_name r \<noteq> [] \<and> rp_connection r \<in> ids) rs"

definition connection_ids :: "app_meta \<Rightarrow> uuid set" where
  "connection_ids m = cn_id ` set (am_connections m)"

definition app_meta_ok :: "app_meta \<Rightarrow> bool" where
  "app_meta_ok m \<longleftrightarrow>
     connections_ok (am_connections m)
     \<and> access_ok (connection_ids m) (am_connection_access m)
     \<and> table_perms_ok (connection_ids m) (am_table_permissions m)
     \<and> tool_perms_ok (am_tool_permissions m)
     \<and> descriptions_ok (connection_ids m) (am_next_description m) (am_descriptions m)
     \<and> audit_ok (am_next_audit m) (am_audit_log m)
     \<and> known_ok (am_known_subjects m)
     \<and> admin_log_ok (am_next_admin m) (am_admin_log m)
     \<and> reports_ok (connection_ids m) (am_reports m)"

lemma empty_meta_ok: "app_meta_ok empty_meta"
  by (simp add: app_meta_ok_def empty_meta_def connections_ok_def access_ok_def table_perms_ok_def
      tool_perms_ok_def descriptions_ok_def audit_ok_def known_ok_def admin_log_ok_def reports_ok_def)

section \<open>What a Postgres value can hold\<close>

text \<open>
  Neither \<open>text\<close> nor \<open>jsonb\<close> can store the null character or a lone surrogate: a statement
  with one in a parameter fails.
\<close>

definition storable :: "pystr \<Rightarrow> bool" where
  "storable s \<longleftrightarrow> list_all (\<lambda>c. c \<noteq> 0 \<and> \<not> (55296 \<le> c \<and> c \<le> 57343)) s"

fun json_storable :: "json \<Rightarrow> bool" where
  "json_storable (JStr s) \<longleftrightarrow> storable s"
| "json_storable (JFloat f) \<longleftrightarrow> isfinite f"
| "json_storable (JList xs) \<longleftrightarrow> list_all json_storable xs"
| "json_storable (JDict d) \<longleftrightarrow> list_all (\<lambda>(k, v). storable k \<and> json_storable v) d"
| "json_storable _ \<longleftrightarrow> True"

definition opt_storable :: "pystr option \<Rightarrow> bool" where
  "opt_storable o1 \<longleftrightarrow> (case o1 of None \<Rightarrow> True | Some s \<Rightarrow> storable s)"

end
