(* ===== verification/MetaStore.thy ===== *)
theory MetaStore
  imports Interfaces AppMeta
begin

text \<open>
  \<open>services/meta_store.py\<close>: \<open>PostgresMetaStore\<close> over the \<open>app_meta\<close> tables.  Each SQL statement
  is a function of the tables; a call first reaches the server, which may fail, and then
  runs its statement (a transaction that fails leaves the tables as they were).

  What the server itself supplies is the record \<open>pg\<close>: whether it answers, \<open>now()\<close>, \<open>lower()\<close>,
  the collation's sort key, and full-text search with its ranking.
\<close>

record 'x world =
  w_meta :: app_meta
  w_ext :: 'x

record 'x pg =
  pg_reach :: "'x \<Rightarrow> exn option \<times> 'x"
  pg_now :: "'x \<Rightarrow> datetime"
  pg_lower :: "pystr \<Rightarrow> pystr"
  pg_sort_key :: "pystr \<Rightarrow> pystr"
  pg_search :: "pystr \<Rightarrow> pystr \<Rightarrow> description_row list \<Rightarrow> (description_row \<times> pyfloat) list"

section \<open>The statements\<close>

text \<open>\<open>_MATCHES_A_SUBJECT\<close>.\<close>

definition matches_a_subject :: "subject list \<Rightarrow> subject \<Rightarrow> bool" where
  "matches_a_subject subs s \<longleftrightarrow> s \<in> set subs"

definition usable_connection :: "app_meta \<Rightarrow> subject list \<Rightarrow> connection_row \<Rightarrow> bool" where
  "usable_connection m subs c \<longleftrightarrow>
     cn_active c
     \<and> list_ex (\<lambda>a. ac_connection a = cn_id c \<and> matches_a_subject subs (ac_subject a))
         (am_connection_access m)"

definition connection_of_row :: "connection_row \<Rightarrow> connection_record" where
  "connection_of_row c =
     \<lparr>cr_id = cn_id c, cr_name = cn_name c, cr_engine = cn_engine c,
      cr_description = cn_description c, cr_details = cn_details c,
      cr_secret_encrypted = cn_secret c, cr_updated_at = cn_updated_at c\<rparr>"

text \<open>\<open>_LIST_CONNECTIONS\<close>: without the secret, ordered by name.\<close>

definition list_connections_q ::
  "(pystr \<Rightarrow> pystr) \<Rightarrow> subject list \<Rightarrow> app_meta \<Rightarrow> connection_record list" where
  "list_connections_q sort_by_key subs m =
     map (\<lambda>c. (connection_of_row c)\<lparr>cr_secret_encrypted := None\<rparr>)
       (sort_key (\<lambda>c. sort_by_key (cn_name c))
          (filter (usable_connection m subs) (am_connections m)))"

text \<open>\<open>_GET_CONNECTION\<close> and \<open>.first()\<close>.\<close>

definition get_connection_q ::
  "pystr \<Rightarrow> subject list \<Rightarrow> app_meta \<Rightarrow> connection_record option" where
  "get_connection_q name subs m =
     map_option connection_of_row
       (find (\<lambda>c. cn_name c = name \<and> usable_connection m subs c) (am_connections m))"

text \<open>\<open>_ALLOWED_TABLES\<close> and \<open>_ALLOWED_TOOLS\<close>.\<close>

definition allowed_tables_q :: "uuid \<Rightarrow> subject list \<Rightarrow> app_meta \<Rightarrow> pystr set" where
  "allowed_tables_q cid subs m =
     set (map tp_table
       (filter (\<lambda>p. tp_connection p = cid \<and> matches_a_subject subs (tp_subject p))
          (am_table_permissions m)))"

definition allowed_tools_q :: "subject list \<Rightarrow> app_meta \<Rightarrow> pystr set" where
  "allowed_tools_q subs m =
     set (map tl_tool
       (filter (\<lambda>p. matches_a_subject subs (tl_subject p)) (am_tool_permissions m)))"

text \<open>\<open>_DESCRIPTIONS\<close> and the dict comprehension over its rows.\<close>

definition descriptions_q ::
  "(pystr \<Rightarrow> pystr) \<Rightarrow> uuid \<Rightarrow> app_meta \<Rightarrow> (desc_key \<times> pystr) list" where
  "descriptions_q lower cid m =
     fold (\<lambda>r d. dict_set (lower (ds_table r), map_option lower (ds_column r)) (ds_description r) d)
       (filter (\<lambda>r. ds_connection r = cid \<and> ds_description r \<noteq> []) (am_descriptions m)) []"

text \<open>\<open>search_descriptions\<close>: the escaped \<open>ILIKE\<close> pattern, and \<open>_SEARCH\<close>.\<close>

definition like_pattern :: "pystr \<Rightarrow> pystr" where
  "like_pattern keyword =
     lit ''%''
     @ replace_char 95 [92, 95] (replace_char 37 [92, 37] (replace_char 92 [92, 92] keyword))
     @ lit ''%''"

definition search_q ::
  "(pystr \<Rightarrow> pystr) \<Rightarrow> (pystr \<Rightarrow> pystr \<Rightarrow> description_row list \<Rightarrow> (description_row \<times> pyfloat) list)
   \<Rightarrow> uuid \<Rightarrow> pystr \<Rightarrow> pystr list \<Rightarrow> int \<Rightarrow> app_meta \<Rightarrow> schema_search_hit list" where
  "search_q lower search cid keyword tables limit m =
     map (\<lambda>(r, score). \<lparr>hit_table = ds_table r, hit_column = ds_column r,
                        hit_description = ds_description r, hit_score = score\<rparr>)
       (take (nat limit)
          (search keyword (like_pattern keyword)
             (filter (\<lambda>r. ds_connection r = cid \<and> lower (ds_table r) \<in> set tables)
                (am_descriptions m))))"

section \<open>Writing the audit row\<close>

definition is_builtin_role :: "pystr \<Rightarrow> bool" where
  "is_builtin_role role \<longleftrightarrow>
     role \<in> {lit ''offline_access'', lit ''uma_authorization''}
     \<or> starts_with role (lit ''default-roles-'')"

text \<open>\<open>_NOTE_SUBJECT\<close>: insert, or on conflict refresh the row.\<close>

fun note_known ::
  "datetime \<Rightarrow> subject \<Rightarrow> pystr option \<Rightarrow> known_subject_row list \<Rightarrow> known_subject_row list" where
  "note_known now s name [] =
     [\<lparr>kn_subject = s, kn_display_name = name, kn_first_seen_at = now, kn_last_seen_at = now\<rparr>]"
| "note_known now s name (r # rs) =
     (if kn_subject r = s then
        r\<lparr>kn_last_seen_at := now,
          kn_display_name := (case name of None \<Rightarrow> kn_display_name r | Some n \<Rightarrow> Some n)\<rparr> # rs
      else r # note_known now s name rs)"

definition note_subject :: "datetime \<Rightarrow> subject \<times> pystr option \<Rightarrow> app_meta \<Rightarrow> exn + app_meta" where
  "note_subject now sn m =
     (if subject_ok (fst sn) \<and> storable (snd (fst sn)) \<and> opt_storable (snd sn)
      then Inr (m\<lparr>am_known_subjects := note_known now (fst sn) (snd sn) (am_known_subjects m)\<rparr>)
      else Inl (OtherError (lit ''DBAPIError'')))"

definition subjects_to_note :: "audit_entry \<Rightarrow> (subject \<times> pystr option) list" where
  "subjects_to_note e =
     ((lit ''user'', ae_caller_sub e), ae_caller_name e)
     # map (\<lambda>r. ((lit ''role'', r), None)) (filter (\<lambda>r. \<not> is_builtin_role r) (ae_caller_roles e))"

fun note_subjects ::
  "datetime \<Rightarrow> (subject \<times> pystr option) list \<Rightarrow> app_meta \<Rightarrow> exn + app_meta" where
  "note_subjects now [] m = Inr m"
| "note_subjects now (s # ss) m = res_bind (note_subject now s m) (note_subjects now ss)"

definition int4 :: "int \<Rightarrow> bool" where
  "int4 i \<longleftrightarrow> - (2 ^ 31) \<le> i \<and> i < 2 ^ 31"

definition audit_storable :: "audit_entry \<Rightarrow> bool" where
  "audit_storable e \<longleftrightarrow>
     storable (ae_caller_sub e) \<and> opt_storable (ae_caller_name e) \<and> storable (ae_tool_name e)
     \<and> opt_storable (ae_connection_name e) \<and> list_all storable (ae_tables e)
     \<and> json_storable (JDict (ae_arguments e)) \<and> opt_storable (ae_error_message e)
     \<and> (case ae_row_count e of None \<Rightarrow> True | Some n \<Rightarrow> int4 n)
     \<and> opt_storable (ae_result_summary e)
     \<and> int4 (ae_duration_ms e) \<and> 0 \<le> ae_duration_ms e"

text \<open>\<open>_WRITE_AUDIT\<close>.\<close>

definition insert_audit :: "datetime \<Rightarrow> audit_entry \<Rightarrow> app_meta \<Rightarrow> exn + app_meta" where
  "insert_audit now e m =
     (if audit_storable e
      then Inr (m\<lparr>am_audit_log := am_audit_log m @
                     [\<lparr>au_id = am_next_audit m, au_occurred_at = now,
                       au_entry = e\<lparr>ae_caller_roles := []\<rparr>\<rparr>],
                   am_next_audit := am_next_audit m + 1\<rparr>)
      else Inl (OtherError (lit ''DBAPIError'')))"

definition write_audit_tx :: "datetime \<Rightarrow> audit_entry \<Rightarrow> app_meta \<Rightarrow> exn + app_meta" where
  "write_audit_tx now e m = res_bind (note_subjects now (subjects_to_note e) m) (insert_audit now e)"

section \<open>The store\<close>

text \<open>One read: reach the server, then answer from the tables.\<close>

definition pg_read :: "'x pg \<Rightarrow> (app_meta \<Rightarrow> 'a) \<Rightarrow> ('x world, 'a) op" where
  "pg_read P q = (\<lambda>w. case pg_reach P (w_ext w) of
      (Some e, x) \<Rightarrow> (Inl e, w\<lparr>w_ext := x\<rparr>)
    | (None, x) \<Rightarrow> (Inr (q (w_meta w)), w\<lparr>w_ext := x\<rparr>))"

text \<open>The same with texts as parameters, which the driver refuses when they hold a null character or a surrogate.\<close>

definition pg_query :: "'x pg \<Rightarrow> pystr list \<Rightarrow> (app_meta \<Rightarrow> 'a) \<Rightarrow> ('x world, 'a) op" where
  "pg_query P texts q =
     io_bind (pg_read P q) (\<lambda>answer.
       if list_all storable texts then io_return answer else io_raise (OtherError (lit ''DBAPIError'')))"

text \<open>\<open>_subject_params\<close>.\<close>

definition subject_params :: "subject list \<Rightarrow> pystr list" where
  "subject_params subs = map fst subs @ map snd subs"

text \<open>One transaction: \<open>engine.begin()\<close>.\<close>

definition pg_write :: "'x pg \<Rightarrow> (datetime \<Rightarrow> app_meta \<Rightarrow> exn + app_meta) \<Rightarrow> ('x world, unit) op" where
  "pg_write P tx = (\<lambda>w. case pg_reach P (w_ext w) of
      (Some e, x) \<Rightarrow> (Inl e, w\<lparr>w_ext := x\<rparr>)
    | (None, x) \<Rightarrow>
        (case tx (pg_now P x) (w_meta w) of
           Inl e \<Rightarrow> (Inl e, w\<lparr>w_ext := x\<rparr>)
         | Inr m \<Rightarrow> (Inr (), w\<lparr>w_ext := x, w_meta := m\<rparr>)))"

definition postgres_meta_store :: "'x pg \<Rightarrow> 'x world meta_store" where
  "postgres_meta_store P =
     \<lparr>ms_list_connections = (\<lambda>subs. pg_query P (subject_params subs) (list_connections_q (pg_sort_key P) subs)),
      ms_get_connection = (\<lambda>name subs. pg_query P (name # subject_params subs) (get_connection_q name subs)),
      ms_allowed_tables = (\<lambda>cid subs. pg_query P (subject_params subs) (allowed_tables_q cid subs)),
      ms_allowed_tools = (\<lambda>subs. pg_query P (subject_params subs) (allowed_tools_q subs)),
      ms_descriptions = (\<lambda>cid. pg_read P (descriptions_q (pg_lower P) cid)),
      ms_search_descriptions = (\<lambda>cid keyword tables limit.
         pg_query P (keyword # tables) (search_q (pg_lower P) (pg_search P) cid keyword tables limit)),
      ms_write_audit = (\<lambda>e. pg_write P (\<lambda>now. write_audit_tx now e)),
      ms_close = io_return ()\<rparr>"

end
