(* ===== verification/Container.thy ===== *)
theory Container
  imports Tools MetaStore
begin

text \<open>
  The service layer on the \<open>app_meta\<close> tables (\<open>container.py\<close> with no cache configured).  The
  target databases, the clock and everything else outside are the state \<open>'x\<close>; what works on
  \<open>'x\<close> alone is lifted to the world, so it cannot touch \<open>app_meta\<close>.
\<close>

definition on_ext :: "('x, 'a) op \<Rightarrow> ('x world, 'a) op" where
  "on_ext m = (\<lambda>w. case m (w_ext w) of (r, x) \<Rightarrow> (r, w\<lparr>w_ext := x\<rparr>))"

definition lift_adapter :: "'x adapter \<Rightarrow> 'x world adapter" where
  "lift_adapter a =
     \<lparr>ad_dialect_name = ad_dialect_name a, ad_default_schema = ad_default_schema a,
      ad_connect = on_ext (ad_connect a), ad_close = on_ext (ad_close a),
      ad_list_tables = on_ext (ad_list_tables a),
      ad_describe_table = (\<lambda>t. on_ext (ad_describe_table a t)),
      ad_execute = (\<lambda>sql n tm. on_ext (ad_execute a sql n tm)),
      ad_explain = (\<lambda>sql tm. on_ext (ad_explain a sql tm)),
      ad_sample_rows = (\<lambda>t n tm. on_ext (ad_sample_rows a t n tm))\<rparr>"

definition lift_provider :: "'x adapter_provider \<Rightarrow> 'x world adapter_provider" where
  "lift_provider p = (\<lambda>r. io_bind (on_ext (p r)) (\<lambda>a. io_return (lift_adapter a)))"

definition lift_clock :: "'x clock \<Rightarrow> 'x world clock" where
  "lift_clock c = (\<lambda>w. case c (w_ext w) of (t, x) \<Rightarrow> (t, w\<lparr>w_ext := x\<rparr>))"

record ('x, 'q) deployment =
  dp_pg :: "'x pg"
  dp_adapters :: "'x adapter_provider"
  dp_clock :: "'x clock"
  dp_ucd :: ucd
  dp_sqlglot :: "'q sqlglot"
  dp_limits :: query_limits

text \<open>
  \<open>build_services\<close> with \<open>NullCache\<close>: the cached store is then the store itself, and the providers of
  adapters are a parameter, so that what is proved holds for any pool.  The wiring as the source
  has it, with \<open>CachedMetaStore\<close>, \<open>ConnectionRegistry\<close> and whichever cache, is \<open>wire_services\<close> (\<open>Wiring\<close>).
\<close>

definition build_services :: "('x, 'q) deployment \<Rightarrow> ('x world, 'q) services" where
  "build_services D =
     \<lparr>sv_store = postgres_meta_store (dp_pg D), sv_adapters = lift_provider (dp_adapters D),
      sv_clock = lift_clock (dp_clock D), sv_ucd = dp_ucd D, sv_sqlglot = dp_sqlglot D,
      sv_limits = dp_limits D\<rparr>"

end
