(* ===== verification/GuardedStore.thy ===== *)
theory GuardedStore
  imports MetaStore Permission
begin

text \<open>
  The contract between the permission service and its store, as a locale: the reads answer
  from the grants they are asked about and change nothing, the audit write leaves the grants
  alone.  Inside it, what \<open>require_tool\<close> and \<open>open_connection\<close> establish is proved once, for
  any store that keeps the contract; the Postgres store is the first interpretation.
\<close>

section \<open>The contract\<close>


definition same_grants :: "app_meta \<Rightarrow> app_meta \<Rightarrow> bool" where
  "same_grants m m' \<longleftrightarrow>
     am_connections m' = am_connections m \<and> am_connection_access m' = am_connection_access m
     \<and> am_table_permissions m' = am_table_permissions m
     \<and> am_tool_permissions m' = am_tool_permissions m \<and> am_descriptions m' = am_descriptions m"

definition opens_as ::
  "ucd \<Rightarrow> app_meta \<Rightarrow> caller \<Rightarrow> pystr \<Rightarrow> pystr \<Rightarrow> connection_access \<Rightarrow> bool" where
  "opens_as U m c tool name acc \<longleftrightarrow>
     tool \<in> allowed_tools_q (subjects c) m
     \<and> get_connection_q name (subjects c) m = Some (acc_record acc)
     \<and> acc_tables acc = casefold U ` allowed_tables_q (cr_id (acc_record acc)) (subjects c) m"

text \<open>\<open>answers ok view op q\<close>: \<open>op\<close> only reads, and what it returns is \<open>q\<close> of the tables.\<close>

definition answers ::
  "('s \<Rightarrow> bool) \<Rightarrow> ('s \<Rightarrow> app_meta) \<Rightarrow> ('s, 'a) op \<Rightarrow> (app_meta \<Rightarrow> 'a) \<Rightarrow> bool" where
  "answers ok view op q \<longleftrightarrow>
     (\<forall>m. triple (\<lambda>s. ok s \<and> view s = m) op (\<lambda>x s. (ok s \<and> view s = m) \<and> x = q m)
            (\<lambda>_ s. ok s \<and> view s = m))"

lemma answersD:
  "answers ok view op q \<Longrightarrow>
   triple (\<lambda>s. ok s \<and> view s = m) op (\<lambda>x s. (ok s \<and> view s = m) \<and> x = q m) (\<lambda>_ s. ok s \<and> view s = m)"
  by (simp add: answers_def)

lemma answers_bind:
  assumes "answers ok view op q"
    and "triple (\<lambda>s. ok s \<and> view s = m) (f (q m)) Q E" "\<And>e s. ok s \<Longrightarrow> view s = m \<Longrightarrow> E e s"
  shows "triple (\<lambda>s. ok s \<and> view s = m) (io_bind op f) Q E"
proof (rule triple_bind)
  show "triple (\<lambda>s. ok s \<and> view s = m) op (\<lambda>x s. (ok s \<and> view s = m) \<and> x = q m) E"
    using assms(3) by (intro triple_post [OF answersD [OF assms(1)]]) auto
  show "triple (\<lambda>s. (ok s \<and> view s = m) \<and> x = q m) (f x) Q E" for x
    using assms(2) by (intro triple_pure) simp
qed

locale guarded_store =
  fixes M :: "'s meta_store" and view :: "'s \<Rightarrow> app_meta" and ok :: "'s \<Rightarrow> bool"
    and collate :: "pystr \<Rightarrow> pystr" and lower :: "pystr \<Rightarrow> pystr"
    and search :: "pystr \<Rightarrow> pystr \<Rightarrow> description_row list \<Rightarrow> (description_row \<times> pyfloat) list"
    and known :: "subject list set"
  assumes list_connections: "subs \<in> known \<Longrightarrow> answers ok view (ms_list_connections M subs) (list_connections_q collate subs)"
    and get_connection: "subs \<in> known \<Longrightarrow> answers ok view (ms_get_connection M name subs) (get_connection_q name subs)"
    and allowed_tables: "subs \<in> known \<Longrightarrow> answers ok view (ms_allowed_tables M cid subs) (allowed_tables_q cid subs)"
    and allowed_tools: "subs \<in> known \<Longrightarrow> answers ok view (ms_allowed_tools M subs) (allowed_tools_q subs)"
    and descriptions: "answers ok view (ms_descriptions M cid) (descriptions_q lower cid)"
    and search_descriptions:
      "answers ok view (ms_search_descriptions M cid kw ts lim) (search_q lower search cid kw ts lim)"
    and write_audit:
      "ok s \<Longrightarrow> ms_write_audit M e s = (r, s') \<Longrightarrow> ok s' \<and> same_grants (view s) (view s')"
begin

lemma require_tool_triple:
  "subjects c \<in> known \<Longrightarrow> triple (\<lambda>s. ok s \<and> view s = m) (require_tool M c tool)
     (\<lambda>_ s. (ok s \<and> view s = m) \<and> tool \<in> allowed_tools_q (subjects c) m) (\<lambda>_ s. ok s \<and> view s = m)"
  unfolding require_tool_def
  by (rule answers_bind [OF allowed_tools]) (assumption | simp add: triple_def guard_res_def)+

lemma open_connection_triple:
  assumes known: "subjects c \<in> known"
  shows "triple (\<lambda>s. ok s \<and> view s = m) (open_connection U M c tool name)
     (\<lambda>acc s. (ok s \<and> view s = m) \<and> opens_as U m c tool name acc) (\<lambda>_ s. ok s \<and> view s = m)"
  unfolding open_connection_def
proof (rule triple_then [OF triple_pure require_tool_triple [OF known]])
  assume tool: "tool \<in> allowed_tools_q (subjects c) m"
  show "triple (\<lambda>s. ok s \<and> view s = m)
     (io_bind (ms_get_connection M name (subjects c)) (\<lambda>found.
        case found of None \<Rightarrow> io_raise (connection_not_found name)
        | Some record \<Rightarrow> io_bind (ms_allowed_tables M (cr_id record) (subjects c)) (\<lambda>granted.
            io_return \<lparr>acc_record = record, acc_tables = casefold U ` granted\<rparr>)))
     (\<lambda>acc s. (ok s \<and> view s = m) \<and> opens_as U m c tool name acc) (\<lambda>_ s. ok s \<and> view s = m)"
  proof (rule answers_bind [OF get_connection [OF known]], rule triple_option)
    fix rec assume "get_connection_q name (subjects c) m = Some rec"
    with tool show "triple (\<lambda>s. ok s \<and> view s = m)
        (io_bind (ms_allowed_tables M (cr_id rec) (subjects c)) (\<lambda>granted.
            io_return \<lparr>acc_record = rec, acc_tables = casefold U ` granted\<rparr>))
        (\<lambda>acc s. (ok s \<and> view s = m) \<and> opens_as U m c tool name acc) (\<lambda>_ s. ok s \<and> view s = m)"
      by (intro answers_bind [OF allowed_tables [OF known]]) (simp_all add: triple_def opens_as_def)
  qed (simp_all add: triple_def)
qed

end

section \<open>The Postgres store\<close>

lemma pg_read_answers:
  assumes "\<And>w. ok w \<Longrightarrow> ok (w\<lparr>w_ext := snd (pg_reach P (w_ext w))\<rparr>)"
  shows "answers ok w_meta (pg_read P q) q"
  using assms
  by (auto simp: answers_def triple_def pg_read_def split: prod.splits option.splits) (metis snd_conv)+

lemma pg_query_answers:
  assumes "\<And>w. ok w \<Longrightarrow> ok (w\<lparr>w_ext := snd (pg_reach P (w_ext w))\<rparr>)"
  shows "answers ok w_meta (pg_query P texts q) q"
proof -
  note read = pg_read_answers [where ok = ok and P = P and q = q, OF assms]
  show ?thesis
    unfolding answers_def pg_query_def
    by (intro allI triple_bind [OF triple_pure read [unfolded answers_def, rule_format]])
      (simp add: triple_def io_return_def io_raise_def)
qed

lemma note_subjects_grants: "note_subjects now ss m = Inr m' \<Longrightarrow> same_grants m m' \<and> am_audit_log m' = am_audit_log m
    \<and> am_next_audit m' = am_next_audit m"
proof (induction ss arbitrary: m)
  case (Cons s ss)
  then obtain m1 where m1: "note_subject now s m = Inr m1" "note_subjects now ss m1 = Inr m'"
    by (auto simp: res_bind_Inr_iff)
  from m1(1) have "same_grants m m1 \<and> am_audit_log m1 = am_audit_log m \<and> am_next_audit m1 = am_next_audit m"
    by (auto simp: note_subject_def same_grants_def split: if_splits)
  with Cons.IH [OF m1(2)] show ?case by (simp add: same_grants_def)
qed (simp add: same_grants_def)

lemma write_audit_tx_grants:
  "write_audit_tx now e m = Inr m' \<Longrightarrow> same_grants m m'"
  by (auto simp: write_audit_tx_def insert_audit_def res_bind_Inr_iff same_grants_def
      dest!: note_subjects_grants split: if_splits)

lemma pg_write_grants:
  assumes "\<And>w. ok w \<Longrightarrow> ok (w\<lparr>w_ext := snd (pg_reach P (w_ext w))\<rparr>)"
    and "\<And>w m. ok w \<Longrightarrow> ok (w\<lparr>w_meta := m\<rparr>)"
    and "ok w" "pg_write P (\<lambda>now. write_audit_tx now e) w = (r, w')"
  shows "ok w' \<and> same_grants (w_meta w) (w_meta w')"
proof -
  obtain z x where zx: "pg_reach P (w_ext w) = (z, x)" by (rule prod.exhaust)
  have k: "ok (w\<lparr>w_ext := x\<rparr>)" using assms(1) [OF assms(3)] zx by simp
  then have "ok (w\<lparr>w_ext := x\<rparr>\<lparr>w_meta := m\<rparr>)" for m by (rule assms(2))
  with k zx assms(4) show ?thesis
    by (auto simp: pg_write_def same_grants_def dest: write_audit_tx_grants split: option.splits sum.splits)
qed

interpretation plain_store: guarded_store "postgres_meta_store P" w_meta "\<lambda>_. True"
    "pg_sort_key P" "pg_lower P" "pg_search P" UNIV for P
proof (unfold_locales, goal_cases)
  case (7 s e r s')
  then show ?case using pg_write_grants [of "\<lambda>_. True" P s e r s'] by (simp add: postgres_meta_store_def)
qed (simp_all add: postgres_meta_store_def pg_read_answers pg_query_answers)

end
