(* ===== verification/Kept.thy ===== *)
theory Kept
  imports GuardedStore Tools
begin

text \<open>
  What the service bodies do to a state whose every operation they call keeps: nothing.  The locale
  \<open>kept_services\<close> asks of the store, the clock and the adapters that they keep some property of the
  state, and gives it back for all eight requests; what the last step, the audit write, then leaves
  is up to the property at hand.
\<close>

section \<open>Helpers\<close>

text \<open>The bodies of the services run beside a recorder, which does not matter here.\<close>

abbreviation on_rec :: "('s \<Rightarrow> bool) \<Rightarrow> recorder \<times> 's \<Rightarrow> bool" where
  "on_rec P \<equiv> \<lambda>p. P (snd p)"

lemma mod_fst_keeps: "io_keeps (on_rec P) (io_mod_fst f)"
  by (rule io_keeps_mod_fst)

lemma on_snd_keeps: "io_keeps P op \<Longrightarrow> io_keeps (on_rec P) (io_on_snd op)"
  by (rule io_keeps_on_snd)

lemma note_keeps:
  "io_keeps (on_rec P) (note_summary t)" "io_keeps (on_rec P) (note_tables ts)"
  "io_keeps (on_rec P) (note_result r)"
  unfolding note_summary_def note_tables_def note_result_def
  by (intro io_keeps_then mod_fst_keeps io_keeps_basic)+

lemma io_each_guards:
  "io_each (\<lambda>t. io_guard (p t) (e t)) ts s = (Inr u, s') \<longleftrightarrow> s' = s \<and> list_all p ts"
  by (induction ts) (auto simp: io_then_Inr_iff)

lemma authorize_keeps: "io_keeps (on_rec P) (validate_and_authorize S sql ad acc)"
  unfolding validate_and_authorize_def
  by (intro io_keeps_bind io_keeps_then io_keeps_each mod_fst_keeps io_keeps_basic)

lemma snd_io_answer: "snd (io_answer f op w) = snd (op w)"
  by (auto simp: io_answer_def io_bind_def io_return_def split: prod.splits sum.splits)

lemmas service_defs =
  list_connections_def list_tables_def describe_table_def search_schema_def get_relationships_def
  run_query_def explain_query_def get_sample_rows_def

lemmas body_defs =
  list_connections_body_def list_tables_body_def describe_table_body_def search_schema_body_def
  get_relationships_body_def run_query_body_def explain_query_body_def get_sample_rows_body_def

section \<open>Services that keep a property\<close>

definition kept_adapter :: "('s \<Rightarrow> bool) \<Rightarrow> 's adapter \<Rightarrow> bool" where
  "kept_adapter P a \<longleftrightarrow>
     io_keeps P (ad_list_tables a) \<and> (\<forall>t. io_keeps P (ad_describe_table a t))
     \<and> (\<forall>sql n tm. io_keeps P (ad_execute a sql n tm)) \<and> (\<forall>sql tm. io_keeps P (ad_explain a sql tm))
     \<and> (\<forall>t n tm. io_keeps P (ad_sample_rows a t n tm))"

locale kept_services =
  fixes S :: "('s, 'q) services" and P :: "'s \<Rightarrow> bool" and known :: "subject list set"
  assumes list_connections_keeps: "subs \<in> known \<Longrightarrow> io_keeps P (ms_list_connections (sv_store S) subs)"
    and get_connection_keeps: "subs \<in> known \<Longrightarrow> io_keeps P (ms_get_connection (sv_store S) name subs)"
    and allowed_tables_keeps: "subs \<in> known \<Longrightarrow> io_keeps P (ms_allowed_tables (sv_store S) cid subs)"
    and allowed_tools_keeps: "subs \<in> known \<Longrightarrow> io_keeps P (ms_allowed_tools (sv_store S) subs)"
    and descriptions_keeps: "io_keeps P (ms_descriptions (sv_store S) cid)"
    and search_keeps: "io_keeps P (ms_search_descriptions (sv_store S) cid kw ts lim)"
    and clock_keeps: "P s \<Longrightarrow> P (snd (sv_clock S s))"
    and provider_keeps: "io_keeps P (sv_adapters S rec)"
    and adapter_kept: "P s \<Longrightarrow> sv_adapters S rec s = (Inr a, t) \<Longrightarrow> kept_adapter P a"
begin

lemma kept_adapter_ops:
  assumes "kept_adapter P a"
  shows "io_keeps P (ad_list_tables a)" "io_keeps P (ad_describe_table a t)" "io_keeps P (ad_execute a sql n tm)"
    "io_keeps P (ad_explain a sql tm)" "io_keeps P (ad_sample_rows a t n tm)"
  using assms by (simp_all add: kept_adapter_def)

lemma read_clock_kept: "io_keeps P (read_clock S)"
  using clock_keeps by (force simp: io_keeps_def read_clock_def split: prod.splits)

lemma open_adapter_kept:
  assumes "subjects c \<in> known"
  shows "triple P (open_adapter S c tool name) (\<lambda>x s. P s \<and> kept_adapter P (snd x)) (\<lambda>_. P)"
proof -
  have "io_keeps P (open_connection (sv_ucd S) (sv_store S) c tool name)"
    unfolding open_connection_def require_tool_def
    by (intro io_keeps_then io_keeps_bind io_keeps_option io_keeps_basic allowed_tools_keeps get_connection_keeps
        allowed_tables_keeps assms)
  moreover have "triple P (sv_adapters S rec) (\<lambda>a s. P s \<and> kept_adapter P a) (\<lambda>_. P)" for rec
    using provider_keeps adapter_kept by (intro tripleI) (auto dest: io_keepsD)
  then have "triple P (io_bind (sv_adapters S (acc_record acc)) (\<lambda>a. io_return (acc, a)))
      (\<lambda>x s. P s \<and> kept_adapter P (snd x)) (\<lambda>_. P)" for acc
    by (rule triple_bind [rotated]) (simp add: triple_def)
  ultimately show ?thesis
    unfolding open_adapter_def io_keeps_triple by (rule triple_bind [rotated])
qed

lemma open_kept:
  assumes "subjects c \<in> known" "\<And>acc a. kept_adapter P a \<Longrightarrow> io_keeps (on_rec P) (f acc a)"
  shows "io_keeps (on_rec P) (io_bind (io_on_snd (open_adapter S c tool name)) (\<lambda>(acc, a). f acc a))"
proof (rule io_keeps_bind_info)
  show "triple (on_rec P) (io_on_snd (open_adapter S c tool name))
      (\<lambda>x p. on_rec P p \<and> kept_adapter P (snd x)) (\<lambda>_. on_rec P)"
    by (rule triple_on_snd [OF open_adapter_kept [OF assms(1)]])
qed (auto split: prod.splits intro: assms(2))

lemma to_result_kept: "io_keeps (on_rec P) (io_on_snd (to_result S raw started))"
  unfolding to_result_def
  by (intro on_snd_keeps io_keeps_prod io_keeps_bind io_keeps_basic read_clock_kept)

lemma keys_into_kept:
  assumes "kept_adapter P a"
  shows "io_keeps P (keys_into S acc a target infos)"
  by (induction infos)
    (simp_all only: keys_into.simps,
      (intro io_keeps_if io_keeps_bind kept_adapter_ops [OF assms] io_keeps_basic | assumption)+)

lemmas kept_intros =
  io_keeps_then io_keeps_bind io_keeps_prod io_keeps_basic on_snd_keeps list_connections_keeps allowed_tools_keeps
  descriptions_keeps search_keeps kept_adapter_ops note_keeps read_clock_kept authorize_keeps to_result_kept
  mod_fst_keeps keys_into_kept

lemma bodies_kept:
  assumes "subjects c \<in> known"
  shows "io_keeps (on_rec P) (list_connections_body S c)"
    "io_keeps (on_rec P) (list_tables_body S c conn)"
    "io_keeps (on_rec P) (describe_table_body S c conn t)"
    "io_keeps (on_rec P) (search_schema_body S c conn kw lim)"
    "io_keeps (on_rec P) (get_relationships_body S c conn t)"
    "io_keeps (on_rec P) (run_query_body S c conn sql l)"
    "io_keeps (on_rec P) (explain_query_body S c conn sql)"
    "io_keeps (on_rec P) (get_sample_rows_body S c conn t n)"
  unfolding body_defs require_tool_def permitted_connections_def Let_def
  by (intro kept_intros open_kept assms | assumption)+

text \<open>The property holds until the audit entry is written.\<close>

lemma served_post:
  assumes "subjects c \<in> known" "P s" "\<And>e u r t. P u \<Longrightarrow> ms_write_audit (sv_store S) e u = (r, t) \<Longrightarrow> Q t"
  shows "Q (snd (serve S c req s))"
proof -
  have run: "Q (snd (audited_call S caller tool args conn body s))" if "io_keeps (on_rec P) body"
    for caller tool args conn and body :: "(recorder \<times> 's, 'b) op"
    unfolding audited_call_def
    by (rule record_audit_post [where P = P and Q = Q]) (use that clock_keeps assms in blast)+
  show ?thesis
    by (cases req) (simp_all add: snd_io_answer service_defs run bodies_kept [OF assms(1)])
qed

end

end
