(* ===== verification/Monitor.thy ===== *)
theory Monitor
  imports Tools MetaStore
begin

text \<open>
  What reaches the target databases.  \<open>monitored\<close> runs services with a log beside their state:
  every call of an adapter writes what it does.  The log does not influence the run
  (\<open>Transparency\<close> proves it); it makes statements such as "only permitted SQL is executed" about
  the code expressible.
\<close>

datatype event =
    Opened connection_record
  | Closed
  | ListedTables connection_record
  | Described connection_record pystr
  | Executed connection_record pystr "pystr option" pystr int   \<comment> \<open>dialect, default schema, SQL, row cap\<close>
  | Explained connection_record pystr "pystr option" pystr
  | Sampled connection_record pystr int

definition logging :: "event \<Rightarrow> ('x, 'a) op \<Rightarrow> ('x \<times> event list, 'a) op" where
  "logging ev m = (\<lambda>(x, log). case m x of (r, x') \<Rightarrow> (r, (x', log @ [ev])))"

definition logged_adapter :: "connection_record \<Rightarrow> 'x adapter \<Rightarrow> ('x \<times> event list) adapter" where
  "logged_adapter rec a =
     \<lparr>ad_dialect_name = ad_dialect_name a, ad_default_schema = ad_default_schema a,
      ad_connect = logging (Opened rec) (ad_connect a), ad_close = logging Closed (ad_close a),
      ad_list_tables = logging (ListedTables rec) (ad_list_tables a),
      ad_describe_table = (\<lambda>t. logging (Described rec t) (ad_describe_table a t)),
      ad_execute = (\<lambda>sql n tm.
        logging (Executed rec (ad_dialect_name a) (ad_default_schema a) sql n) (ad_execute a sql n tm)),
      ad_explain = (\<lambda>sql tm.
        logging (Explained rec (ad_dialect_name a) (ad_default_schema a) sql) (ad_explain a sql tm)),
      ad_sample_rows = (\<lambda>t n tm. logging (Sampled rec t n) (ad_sample_rows a t n tm))\<rparr>"

definition logged_provider :: "'x adapter_provider \<Rightarrow> ('x \<times> event list) adapter_provider" where
  "logged_provider p =
     (\<lambda>rec. io_bind (logging (Opened rec) (p rec)) (\<lambda>a. io_return (logged_adapter rec a)))"

definition logged_store :: "'s meta_store \<Rightarrow> ('s \<times> event list) meta_store" where
  "logged_store M =
     \<lparr>ms_list_connections = (\<lambda>subs. io_on_fst (ms_list_connections M subs)),
      ms_get_connection = (\<lambda>name subs. io_on_fst (ms_get_connection M name subs)),
      ms_allowed_tables = (\<lambda>cid subs. io_on_fst (ms_allowed_tables M cid subs)),
      ms_allowed_tools = (\<lambda>subs. io_on_fst (ms_allowed_tools M subs)),
      ms_descriptions = (\<lambda>cid. io_on_fst (ms_descriptions M cid)),
      ms_search_descriptions = (\<lambda>cid keyword tables limit. io_on_fst (ms_search_descriptions M cid keyword tables limit)),
      ms_write_audit = (\<lambda>e. io_on_fst (ms_write_audit M e)),
      ms_close = io_on_fst (ms_close M)\<rparr>"

definition monitored :: "('s, 'q) services \<Rightarrow> ('s \<times> event list, 'q) services" where
  "monitored S =
     \<lparr>sv_store = logged_store (sv_store S), sv_adapters = logged_provider (sv_adapters S),
      sv_clock = (\<lambda>(s, log). case sv_clock S s of (t, s') \<Rightarrow> (t, (s', log))),
      sv_ucd = sv_ucd S, sv_sqlglot = sv_sqlglot S, sv_limits = sv_limits S\<rparr>"

lemma monitored_simps [simp]:
  "sv_store (monitored S) = logged_store (sv_store S)" "sv_adapters (monitored S) = logged_provider (sv_adapters S)"
  "sv_ucd (monitored S) = sv_ucd S" "sv_sqlglot (monitored S) = sv_sqlglot S" "sv_limits (monitored S) = sv_limits S"
  "sv_clock (monitored S) p = (case sv_clock S (fst p) of (t, s') \<Rightarrow> (t, (s', snd p)))"
  by (simp_all add: monitored_def case_prod_unfold)

section \<open>What a request may do\<close>

text \<open>The request's tool and connection are granted, and this is the connection's record.\<close>

definition granted_record :: "app_meta \<Rightarrow> caller \<Rightarrow> tool_request \<Rightarrow> connection_record \<Rightarrow> bool" where
  "granted_record m c req rec \<longleftrightarrow>
     request_tool req \<in> allowed_tools_q (subjects c) m
     \<and> (case request_connection req of
          None \<Rightarrow> False
        | Some name \<Rightarrow> get_connection_q name (subjects c) m = Some rec)"

definition granted_table :: "ucd \<Rightarrow> app_meta \<Rightarrow> caller \<Rightarrow> connection_record \<Rightarrow> pystr \<Rightarrow> bool" where
  "granted_table U m c rec t \<longleftrightarrow>
     casefold U t \<in> casefold U ` allowed_tables_q (cr_id rec) (subjects c) m"

text \<open>\<open>sql\<close> is what the validator makes of the request's SQL, and it reads only granted tables.\<close>

definition granted_sql ::
  "('s, 'q) services \<Rightarrow> app_meta \<Rightarrow> caller \<Rightarrow> connection_record \<Rightarrow> pystr \<Rightarrow> pystr option
   \<Rightarrow> pystr \<Rightarrow> pystr \<Rightarrow> bool" where
  "granted_sql S m c rec dialect schema user_sql sql \<longleftrightarrow>
     (\<exists>vq. validate (sv_ucd S) (sv_sqlglot S) (ql_max_sql_length (sv_limits S)) user_sql dialect schema = Inr vq
        \<and> sql = vq_sql vq \<and> (\<forall>t\<in>vq_tables vq. granted_table (sv_ucd S) m c rec t))"

fun permitted :: "('s, 'q) services \<Rightarrow> app_meta \<Rightarrow> caller \<Rightarrow> tool_request \<Rightarrow> event \<Rightarrow> bool" where
  "permitted S m c req (Opened rec) \<longleftrightarrow> granted_record m c req rec"
| "permitted S m c req Closed \<longleftrightarrow> False"
| "permitted S m c req (ListedTables rec) \<longleftrightarrow>
     granted_record m c req rec
     \<and> (case req of ListTables conn \<Rightarrow> True
        | GetRelationships conn t \<Rightarrow> granted_table (sv_ucd S) m c rec t | _ \<Rightarrow> False)"
| "permitted S m c req (Described rec table) \<longleftrightarrow>
     granted_record m c req rec \<and> granted_table (sv_ucd S) m c rec table
     \<and> (case req of DescribeTable conn t \<Rightarrow> t = table
        | GetRelationships conn t \<Rightarrow> granted_table (sv_ucd S) m c rec t | _ \<Rightarrow> False)"
| "permitted S m c req (Executed rec dialect schema sql n) \<longleftrightarrow>
     granted_record m c req rec
     \<and> (case req of
          RunQuery conn user_sql l \<Rightarrow>
            granted_sql S m c rec dialect schema user_sql sql
            \<and> n = row_limit_arg l \<and> 1 \<le> n \<and> n \<le> ql_max_rows (sv_limits S)
        | _ \<Rightarrow> False)"
| "permitted S m c req (Explained rec dialect schema sql) \<longleftrightarrow>
     granted_record m c req rec
     \<and> (case req of
          ExplainQuery conn user_sql \<Rightarrow> granted_sql S m c rec dialect schema user_sql sql
        | _ \<Rightarrow> False)"
| "permitted S m c req (Sampled rec table n) \<longleftrightarrow>
     granted_record m c req rec
     \<and> (case req of
          GetSampleRows conn t l \<Rightarrow>
            table = t \<and> granted_table (sv_ucd S) m c rec t
            \<and> n = sample_arg l \<and> 1 \<le> n \<and> n \<le> ql_max_sample_rows (sv_limits S)
        | _ \<Rightarrow> False)"

end
