(* ===== verification/Governed.thy ===== *)
theory Governed
  imports Kept Monitor
begin

text \<open>
  What requests do to the target databases, for every wiring of the services.  The locale
  \<open>governed_services\<close> is the contract: a store that answers from the grants, adapters and a clock
  that leave the tables alone.  Inside it every event any request causes is permitted by the
  grants in force when it started, and no service body touches \<open>app_meta\<close>.
\<close>

section \<open>Operations that leave the tables alone\<close>

definition quiet :: "('s \<Rightarrow> bool) \<Rightarrow> ('s \<Rightarrow> app_meta) \<Rightarrow> ('s, 'a) op \<Rightarrow> bool" where
  "quiet ok view op \<longleftrightarrow> (\<forall>m. io_keeps (\<lambda>s. ok s \<and> view s = m) op)"

definition quiet_adapter :: "('s \<Rightarrow> bool) \<Rightarrow> ('s \<Rightarrow> app_meta) \<Rightarrow> 's adapter \<Rightarrow> bool" where
  "quiet_adapter ok view a \<longleftrightarrow>
     quiet ok view (ad_list_tables a) \<and> (\<forall>t. quiet ok view (ad_describe_table a t))
     \<and> (\<forall>sql n tm. quiet ok view (ad_execute a sql n tm)) \<and> (\<forall>sql tm. quiet ok view (ad_explain a sql tm))
     \<and> (\<forall>t n tm. quiet ok view (ad_sample_rows a t n tm))"

lemma quiet_keeps: "quiet ok view op \<Longrightarrow> io_keeps (\<lambda>s. ok s \<and> view s = m) op"
  by (simp add: quiet_def)

lemma quietI:
  "(\<And>s r t. ok s \<Longrightarrow> op s = (r, t) \<Longrightarrow> ok t \<and> view t = view s) \<Longrightarrow> quiet ok view op"
  unfolding quiet_def io_keeps_def by (metis prod.collapse)

lemma answers_quiet: "answers ok view op q \<Longrightarrow> quiet ok view op"
  unfolding quiet_def answers_def io_keeps_triple by (blast intro: triple_post)

locale governed_services = guarded_store "sv_store S" view ok collate lower search known
  for S :: "('s, 'q) services" and view :: "'s \<Rightarrow> app_meta" and ok :: "'s \<Rightarrow> bool"
    and collate lower search known +
  assumes clock_quiet: "ok s \<Longrightarrow> ok (snd (sv_clock S s)) \<and> view (snd (sv_clock S s)) = view s"
    and provider_quiet: "quiet ok view (sv_adapters S rec)"
    and adapter_quiet: "ok s \<Longrightarrow> sv_adapters S rec s = (Inr a, t) \<Longrightarrow> quiet_adapter ok view a"

lemma allows_granted:
  "opens_as U m c tool name acc \<Longrightarrow> allows U acc t \<longleftrightarrow> granted_table U m c (acc_record acc) t"
  by (simp add: opens_as_def allows_def granted_table_def)

lemma require_table_step:
  assumes "opens_as U m c tool name acc" "granted_table U m c (acc_record acc) table \<Longrightarrow> io_keeps P k"
  shows "io_keeps P (io_then (io_lift (require_table U acc table)) k)"
proof (rule io_keeps_then_info)
  show "triple P (io_lift (require_table U acc table))
      (\<lambda>_ s. P s \<and> granted_table U m c (acc_record acc) table) (\<lambda>_. P)"
    using allows_granted [OF assms(1)]
    by (auto simp: triple_def require_table_def guard_res_def split: if_splits)
qed (rule assms(2))

lemma authorize_step:
  fixes S :: "('s, 'q) services" and S' :: "('t, 'q) services"
  assumes same: "sv_ucd S' = sv_ucd S" "sv_sqlglot S' = sv_sqlglot S" "sv_limits S' = sv_limits S"
    and acc: "opens_as (sv_ucd S) m c tool name acc"
    and k: "\<And>vq. granted_sql S m c (acc_record acc) (ad_dialect_name ad) (ad_default_schema ad) sql (vq_sql vq)
      \<Longrightarrow> io_keeps (on_rec P) (k vq)"
  shows "io_keeps (on_rec P) (io_bind (validate_and_authorize S' sql ad acc) k)"
proof (rule io_keeps_bind_info [OF _ k])
  let ?R = "\<lambda>vq. granted_sql S m c (acc_record acc) (ad_dialect_name ad) (ad_default_schema ad) sql (vq_sql vq)"
  show "triple (on_rec P) (validate_and_authorize S' sql ad acc) (\<lambda>vq p. on_rec P p \<and> ?R vq) (\<lambda>_. on_rec P)"
    unfolding validate_and_authorize_def same
  proof (rule triple_bind [OF triple_pure triple_lift_info])
    fix vq assume v: "validate (sv_ucd S) (sv_sqlglot S) (ql_max_sql_length (sv_limits S)) sql
        (ad_dialect_name ad) (ad_default_schema ad) = Inr vq"
    let ?loop = "io_each (\<lambda>table. io_guard (allows (sv_ucd S) acc table) (table_not_found table))
        (sorted_strs (vq_tables vq))"
    have fin: "finite (vq_tables vq)" using v by (rule validate_finite)
    have loop: "triple (on_rec P) ?loop (\<lambda>_ p. on_rec P p \<and> ?R vq) (\<lambda>_. on_rec P)"
    proof (rule tripleI)
      fix p u t assume p: "on_rec P p" "?loop p = (Inr u, t)"
      then have "list_all (allows (sv_ucd S) acc) (sorted_strs (vq_tables vq))" "t = p"
        by (simp_all add: io_each_guards)
      with p v fin show "on_rec P t \<and> ?R vq"
        unfolding granted_sql_def using allows_granted [OF acc] by (auto simp: list_all_iff)
    next
      fix p e t assume "on_rec P p" "?loop p = (Inl e, t)"
      moreover have "io_keeps (on_rec P) ?loop" by (intro io_keeps_each io_keeps_basic)
      ultimately show "on_rec P t" by (blast dest: io_keepsD)
    qed
    show "triple (on_rec P) (io_then (io_mod_fst (\<lambda>rec. rec\<lparr>rec_tables := sorted_strs (vq_tables vq)\<rparr>))
        (io_then ?loop (io_return vq))) (\<lambda>vq p. on_rec P p \<and> ?R vq) (\<lambda>_. on_rec P)"
    proof (rule triple_then)
      show "triple (on_rec P) (io_mod_fst (\<lambda>rec. rec\<lparr>rec_tables := sorted_strs (vq_tables vq)\<rparr>))
          (\<lambda>_. on_rec P) (\<lambda>_. on_rec P)"
        using mod_fst_keeps [of P] unfolding io_keeps_triple .
      show "triple (on_rec P) (io_then ?loop (io_return vq)) (\<lambda>vq p. on_rec P p \<and> ?R vq) (\<lambda>_. on_rec P)"
        by (rule triple_then [OF _ loop]) (simp add: triple_def)
    qed
  qed
qed

section \<open>The bodies leave the tables alone\<close>

context governed_services begin

abbreviation at_rest :: "app_meta \<Rightarrow> 's \<Rightarrow> bool" where
  "at_rest m s \<equiv> ok s \<and> view s = m"

lemma store_reads:
  "subs \<in> known \<Longrightarrow> io_keeps (at_rest m) (ms_list_connections (sv_store S) subs)"
  "subs \<in> known \<Longrightarrow> io_keeps (at_rest m) (ms_allowed_tools (sv_store S) subs)"
  "io_keeps (at_rest m) (ms_descriptions (sv_store S) cid)"
  "io_keeps (at_rest m) (ms_search_descriptions (sv_store S) cid kw ts lim)"
  by (rule quiet_keeps [OF answers_quiet],
      rule list_connections allowed_tools descriptions search_descriptions, assumption?)+

lemma adapter_keeps:
  assumes "quiet_adapter ok view a"
  shows "io_keeps (at_rest m) (ad_list_tables a)" "io_keeps (at_rest m) (ad_describe_table a t)"
    "io_keeps (at_rest m) (ad_execute a sql n tm)" "io_keeps (at_rest m) (ad_explain a sql tm)"
    "io_keeps (at_rest m) (ad_sample_rows a t n tm)"
  using assms by (simp_all add: quiet_adapter_def quiet_def)

lemma governed_kept: "kept_services S (at_rest m) known"
proof (unfold_locales, goal_cases)
  case (7 s)
  then show ?case using clock_quiet by simp
next
  case (9 s rec a t)
  with adapter_quiet have "quiet_adapter ok view a" by blast
  from adapter_keeps [OF this] show ?case by (simp add: kept_adapter_def)
qed (simp_all add: store_reads quiet_keeps [OF provider_quiet] quiet_keeps [OF answers_quiet [OF get_connection]]
    quiet_keeps [OF answers_quiet [OF allowed_tables]])

end

sublocale governed_services \<subseteq> kept: kept_services S "at_rest m" known for m
  by (rule governed_kept)

section \<open>Under the monitor\<close>

definition log_ok ::
  "('s, 'q) services \<Rightarrow> app_meta \<Rightarrow> caller \<Rightarrow> tool_request \<Rightarrow> event list \<Rightarrow> event list \<Rightarrow> bool" where
  "log_ok S m c req log0 log \<longleftrightarrow> (\<exists>evs. log = log0 @ evs \<and> list_all (permitted S m c req) evs)"

lemma log_ok_snoc: "log_ok S m c req log0 log \<Longrightarrow> permitted S m c req ev \<Longrightarrow> log_ok S m c req log0 (log @ [ev])"
proof -
  assume "log_ok S m c req log0 log" "permitted S m c req ev"
  then obtain evs where "log = log0 @ evs" "list_all (permitted S m c req) (evs @ [ev])"
    by (auto simp: log_ok_def)
  then show ?thesis unfolding log_ok_def by (intro exI [of _ "evs @ [ev]"]) simp
qed

lemma io_on_fst_keeps: "io_keeps P op \<Longrightarrow> io_keeps (\<lambda>p. P (fst p) \<and> Q (snd p)) (io_on_fst op)"
  by (auto simp: io_keeps_def io_on_fst_def split: prod.splits)

lemma io_on_fst_triple:
  "triple P op R E \<Longrightarrow>
   triple (\<lambda>p. P (fst p) \<and> Q (snd p)) (io_on_fst op) (\<lambda>x p. R x (fst p) \<and> Q (snd p)) (\<lambda>e p. E e (fst p) \<and> Q (snd p))"
  by (auto simp: triple_def io_on_fst_def split: prod.splits sum.splits)

context governed_services begin

text \<open>The state during a request: the tables as at its start, the log extended by permitted events.\<close>

definition serving :: "app_meta \<Rightarrow> caller \<Rightarrow> tool_request \<Rightarrow> event list \<Rightarrow> 's \<times> event list \<Rightarrow> bool" where
  "serving m c req log0 p \<longleftrightarrow> at_rest m (fst p) \<and> log_ok S m c req log0 (snd p)"

lemma quiet_serving: "io_keeps (at_rest m) op \<Longrightarrow> io_keeps (serving m c req log0) (io_on_fst op)"
  unfolding serving_def by (rule io_on_fst_keeps)

lemma logging_keeps:
  assumes op: "io_keeps (at_rest m) op" and ev: "permitted S m c req ev"
  shows "io_keeps (serving m c req log0) (logging ev op)"
  unfolding io_keeps_def
proof (intro allI impI)
  fix p assume p: "serving m c req log0 p"
  obtain s log where sl: "p = (s, log)" by (rule prod.exhaust)
  obtain r t where run: "op s = (r, t)" by (rule prod.exhaust)
  from p sl have "at_rest m s" "log_ok S m c req log0 log" by (simp_all add: serving_def)
  with io_keepsD [OF op _ run] log_ok_snoc [OF _ ev] have "at_rest m t" "log_ok S m c req log0 (log @ [ev])" by simp_all
  then show "serving m c req log0 (snd (logging ev op p))" by (simp add: serving_def logging_def sl run)
qed

lemma store_reads_serving:
  "subs \<in> known \<Longrightarrow> io_keeps (serving m c req log0) (ms_list_connections (logged_store (sv_store S)) subs)"
  "subs \<in> known \<Longrightarrow> io_keeps (serving m c req log0) (ms_allowed_tools (logged_store (sv_store S)) subs)"
  "io_keeps (serving m c req log0) (ms_descriptions (logged_store (sv_store S)) cid)"
  "io_keeps (serving m c req log0) (ms_search_descriptions (logged_store (sv_store S)) cid kw ts lim)"
  by (simp_all add: logged_store_def quiet_serving store_reads)

lemma logged_keeps:
  assumes "quiet_adapter ok view a"
  shows "permitted S m c req (ListedTables rec) \<Longrightarrow> io_keeps (serving m c req log0) (ad_list_tables (logged_adapter rec a))"
    "permitted S m c req (Described rec t) \<Longrightarrow> io_keeps (serving m c req log0) (ad_describe_table (logged_adapter rec a) t)"
    "permitted S m c req (Executed rec (ad_dialect_name a) (ad_default_schema a) sql n) \<Longrightarrow>
       io_keeps (serving m c req log0) (ad_execute (logged_adapter rec a) sql n tm)"
    "permitted S m c req (Explained rec (ad_dialect_name a) (ad_default_schema a) sql) \<Longrightarrow>
       io_keeps (serving m c req log0) (ad_explain (logged_adapter rec a) sql tm)"
    "permitted S m c req (Sampled rec t n) \<Longrightarrow> io_keeps (serving m c req log0) (ad_sample_rows (logged_adapter rec a) t n tm)"
  by (simp_all add: logged_adapter_def logging_keeps adapter_keeps [OF assms])

lemma clock_serving: "serving m c req log0 p \<Longrightarrow> serving m c req log0 (snd (sv_clock (monitored S) p))"
  using clock_quiet by (fastforce simp: serving_def split: prod.splits)

lemma read_clock_serving: "io_keeps (serving m c req log0) (read_clock (monitored S))"
  using clock_serving by (force simp: io_keeps_def read_clock_def split: prod.splits)

lemma open_adapter_serving:
  assumes known: "subjects c \<in> known" and req: "request_tool req = tool" "request_connection req = Some name"
  shows "triple (serving m c req log0) (open_adapter (monitored S) c tool name)
     (\<lambda>(acc, ad) p. serving m c req log0 p \<and> (opens_as (sv_ucd S) m c tool name acc
        \<and> (\<exists>a. ad = logged_adapter (acc_record acc) a \<and> quiet_adapter ok view a)))
     (\<lambda>_. serving m c req log0)"
proof -
  let ?K = "serving m c req log0"
  have same: "open_connection (sv_ucd S) (logged_store (sv_store S)) c tool name
      = io_on_fst (open_connection (sv_ucd S) (sv_store S) c tool name)"
    by (rule ext) (auto simp: open_connection_def require_tool_def logged_store_def io_then_def io_bind_def io_on_fst_def
        io_guard_def io_raise_def io_return_def split: prod.splits sum.splits option.splits)
  have op: "triple ?K (open_connection (sv_ucd S) (logged_store (sv_store S)) c tool name)
      (\<lambda>acc p. ?K p \<and> opens_as (sv_ucd S) m c tool name acc) (\<lambda>_. ?K)"
    unfolding same serving_def
    by (rule triple_post [OF io_on_fst_triple [OF open_connection_triple [OF known]]]) auto
  have prov: "triple ?K (logged_provider (sv_adapters S) rec)
      (\<lambda>ad p. ?K p \<and> (\<exists>a. ad = logged_adapter rec a \<and> quiet_adapter ok view a)) (\<lambda>_. ?K)"
    if "granted_record m c req rec" for rec
  proof -
    have ev: "permitted S m c req (Opened rec)" using that by simp
    have run: "?K p' \<and> (\<forall>a. r = Inr a \<longrightarrow> quiet_adapter ok view a)"
      if "?K p" "logging (Opened rec) (sv_adapters S rec) p = (r, p')" for p r p'
    proof
      show "?K p'" using io_keepsD [OF logging_keeps [OF quiet_keeps [OF provider_quiet] ev] that] .
      show "\<forall>a. r = Inr a \<longrightarrow> quiet_adapter ok view a"
        using that adapter_quiet by (auto simp: serving_def logging_def split: prod.splits)
    qed
    have "triple ?K (logging (Opened rec) (sv_adapters S rec)) (\<lambda>a p. ?K p \<and> quiet_adapter ok view a) (\<lambda>_. ?K)"
      using run by (intro tripleI) blast+
    then show ?thesis
      unfolding logged_provider_def by (intro triple_bind) (auto simp: triple_def)
  qed
  show ?thesis
    unfolding open_adapter_def monitored_simps
  proof (rule triple_bind [OF triple_pure op])
    fix acc assume acc: "opens_as (sv_ucd S) m c tool name acc"
    then have "granted_record m c req (acc_record acc)"
      using req by (simp add: opens_as_def granted_record_def)
    from prov [OF this] acc show "triple ?K (io_bind (logged_provider (sv_adapters S) (acc_record acc))
        (\<lambda>adapter. io_return (acc, adapter)))
      (\<lambda>(acc, ad) p. ?K p \<and> (opens_as (sv_ucd S) m c tool name acc
        \<and> (\<exists>a. ad = logged_adapter (acc_record acc) a \<and> quiet_adapter ok view a))) (\<lambda>_. ?K)"
      by (intro triple_bind) (auto simp: triple_def)
  qed
qed

lemma open_step:
  assumes "subjects c \<in> known" "request_tool req = tool" "request_connection req = Some name"
    and "\<And>acc a. opens_as (sv_ucd S) m c tool name acc \<Longrightarrow> granted_record m c req (acc_record acc) \<Longrightarrow>
      quiet_adapter ok view a \<Longrightarrow> io_keeps (on_rec (serving m c req log0)) (f acc (logged_adapter (acc_record acc) a))"
  shows "io_keeps (on_rec (serving m c req log0))
     (io_bind (io_on_snd (open_adapter (monitored S) c tool name)) (\<lambda>(acc, ad). f acc ad))"
proof (rule io_keeps_bind_info)
  let ?R = "\<lambda>acc ad. opens_as (sv_ucd S) m c tool name acc
      \<and> (\<exists>a. ad = logged_adapter (acc_record acc) a \<and> quiet_adapter ok view a)"
  show "triple (on_rec (serving m c req log0)) (io_on_snd (open_adapter (monitored S) c tool name))
     (\<lambda>x p. on_rec (serving m c req log0) p \<and> ?R (fst x) (snd x)) (\<lambda>_. on_rec (serving m c req log0))"
    using triple_on_snd [OF open_adapter_serving [OF assms(1-3), of m log0]] by (simp add: case_prod_unfold)
  fix x :: "connection_access \<times> ('s \<times> event list) adapter"
  assume "?R (fst x) (snd x)"
  then show "io_keeps (on_rec (serving m c req log0)) (case x of (acc, ad) \<Rightarrow> f acc ad)"
    using assms(2-4) by (auto simp: opens_as_def granted_record_def split: prod.splits)
qed

lemma to_result_serving:
  "io_keeps (on_rec (serving m c req log0)) (io_on_snd (to_result (monitored S) raw started))"
  unfolding to_result_def
  by (intro on_snd_keeps io_keeps_prod io_keeps_bind io_keeps_basic read_clock_serving)

lemmas serving_intros =
  io_keeps_then io_keeps_bind io_keeps_prod io_keeps_basic on_snd_keeps store_reads_serving logged_keeps
  note_keeps read_clock_serving to_result_serving mod_fst_keeps

lemmas authorize_monitored = authorize_step [where S = S and S' = "monitored S", OF monitored_simps(3-5)]

text \<open>One lemma per tool; in each the fact that lets its events through is the guard the code has.\<close>

lemma list_connections_serving:
  assumes "subjects c \<in> known"
  shows "io_keeps (on_rec (serving m c req log0)) (list_connections_body (monitored S) c)"
  unfolding list_connections_body_def monitored_simps require_tool_def permitted_connections_def
  by (intro serving_intros assms)

lemma list_tables_serving:
  assumes "subjects c \<in> known"
  shows "io_keeps (on_rec (serving m c (ListTables conn) log0)) (list_tables_body (monitored S) c conn)"
  unfolding list_tables_body_def monitored_simps
  by (rule open_step, rule assms, simp, simp) (intro serving_intros; simp)

lemma describe_table_serving:
  assumes "subjects c \<in> known"
  shows "io_keeps (on_rec (serving m c (DescribeTable conn t) log0)) (describe_table_body (monitored S) c conn t)"
  unfolding describe_table_body_def monitored_simps Let_def
  by (rule open_step, rule assms, simp, simp, rule require_table_step, assumption) (intro serving_intros; simp)

lemma search_schema_serving:
  assumes "subjects c \<in> known"
  shows "io_keeps (on_rec (serving m c (SearchSchema conn kw) log0)) (search_schema_body (monitored S) c conn kw lim)"
  unfolding search_schema_body_def monitored_simps Let_def
  by (intro io_keeps_then io_keeps_basic, rule open_step, rule assms, simp, simp) (intro serving_intros)

lemma keys_into_serving:
  assumes "granted_record m c (GetRelationships conn t) (acc_record acc)" "quiet_adapter ok view a"
    and acc: "opens_as (sv_ucd S) m c tool name acc" and "granted_table (sv_ucd S) m c (acc_record acc) t"
  shows "io_keeps (serving m c (GetRelationships conn t) log0)
     (keys_into (monitored S) acc (logged_adapter (acc_record acc) a) target infos)"
proof (induction infos)
  case (Cons i infos)
  show ?case
    unfolding keys_into.simps monitored_simps
    using Cons assms allows_granted [OF acc]
    by (intro io_keeps_if io_keeps_bind logged_keeps io_keeps_basic) auto
qed (simp only: keys_into.simps io_keeps_basic)

lemma get_relationships_serving:
  assumes "subjects c \<in> known"
  shows "io_keeps (on_rec (serving m c (GetRelationships conn t) log0)) (get_relationships_body (monitored S) c conn t)"
  unfolding get_relationships_body_def monitored_simps Let_def
proof (rule open_step, rule assms, simp, simp, rule require_table_step, assumption, goal_cases)
  case (1 acc a)
  then show ?case by (intro serving_intros keys_into_serving) auto
qed

lemma run_query_serving:
  assumes "subjects c \<in> known"
  shows "io_keeps (on_rec (serving m c (RunQuery conn sql l) log0))
     (run_query_body (monitored S) c conn sql (Some (row_limit_arg l)))"
  unfolding run_query_body_def monitored_simps
proof (rule open_step, rule assms, simp, simp, rule io_keeps_bind_info [OF triple_lift_info], rule authorize_monitored, assumption, goal_cases)
  case (1 acc a limit vq)
  then have "permitted S m c (RunQuery conn sql l) (Executed (acc_record acc) (ad_dialect_name a) (ad_default_schema a) (vq_sql vq) limit)"
    by (auto simp: resolve_row_limit_def logged_adapter_def split: if_splits)
  with 1 show ?case by (intro serving_intros)
qed

lemma explain_query_serving:
  assumes "subjects c \<in> known"
  shows "io_keeps (on_rec (serving m c (ExplainQuery conn sql) log0)) (explain_query_body (monitored S) c conn sql)"
  unfolding explain_query_body_def monitored_simps
proof (rule open_step, rule assms, simp, simp, rule authorize_monitored, assumption, goal_cases)
  case (1 acc a vq)
  then have "permitted S m c (ExplainQuery conn sql) (Explained (acc_record acc) (ad_dialect_name a) (ad_default_schema a) (vq_sql vq))"
    by (simp add: logged_adapter_def)
  with 1 show ?case by (intro serving_intros)
qed

lemma get_sample_rows_serving:
  assumes "subjects c \<in> known"
  shows "io_keeps (on_rec (serving m c (GetSampleRows conn table l) log0))
     (get_sample_rows_body (monitored S) c conn table (sample_arg l))"
  unfolding get_sample_rows_body_def monitored_simps
proof (rule open_step, rule assms, simp, simp, rule io_keeps_then_info [OF triple_guard_info], rule require_table_step,
    assumption, goal_cases)
  case (1 acc a)
  then show ?case by (intro serving_intros) auto
qed

section \<open>Every event is permitted\<close>

lemma audited_log_ok:
  assumes "io_keeps (on_rec (serving m c req log0)) body" "ok s" "view s = m"
  shows "log_ok S m c req log0 (snd (snd (audited_call (monitored S) caller tool args conn body (s, log0))))"
  unfolding audited_call_def
proof (rule record_audit_post [where P = "serving m c req log0" and Q = "\<lambda>p. log_ok S m c req log0 (snd p)"], rule assms(1))
  show "log_ok S m c req log0 (snd p')"
    if "serving m c req log0 p" "ms_write_audit (sv_store (monitored S)) e p = (r, p')" for p e r p'
    using that by (auto simp: serving_def logged_store_def io_on_fst_def split: prod.splits)
  show "serving m c req log0 (s, log0)" using assms(2,3) by (simp add: serving_def log_ok_def)
qed (rule clock_serving)

lemmas bodies_serving =
  list_connections_serving list_tables_serving describe_table_serving search_schema_serving
  get_relationships_serving run_query_serving explain_query_serving get_sample_rows_serving

lemma served_permitted:
  assumes "subjects c \<in> known" "ok s"
  shows "\<exists>evs. snd (snd (serve (monitored S) c req (s, log))) = log @ evs \<and> list_all (permitted S (view s) c req) evs"
proof -
  have "log_ok S (view s) c req log (snd (snd (serve (monitored S) c req (s, log))))"
    using assms by (cases req) (simp_all add: snd_io_answer service_defs audited_log_ok bodies_serving)
  then show ?thesis by (simp add: log_ok_def)
qed

text \<open>What a request leaves: the tables with the grants they had.\<close>

lemma served_ok:
  assumes "subjects c \<in> known" "ok s"
  shows "ok (snd (serve S c req s)) \<and> same_grants (view s) (view (snd (serve S c req s)))"
proof (rule kept.served_post [where m = "view s", OF assms(1)])
  show "ok t \<and> same_grants (view s) (view t)" if "at_rest (view s) u" "ms_write_audit (sv_store S) e u = (r, t)" for u e r t
    using write_audit [OF _ that(2)] that(1) by auto
qed (simp add: assms(2))

end

end
