(* ===== verification/Transparency.thy ===== *)
theory Transparency
  imports Governed
begin

text \<open>
  The monitor only watches: with the log left out, the monitored services do what the services
  do, answer for answer and state for state.  The proof follows the code: \<open>tracks\<close> relates an
  operation beside the log to the one without, up to a relation on what they return.
\<close>

definition tracks ::
  "('p \<Rightarrow> 's) \<Rightarrow> ('a \<Rightarrow> 'b \<Rightarrow> bool) \<Rightarrow> ('e, 'p, 'a) io \<Rightarrow> ('e, 's, 'b) io \<Rightarrow> bool" where
  "tracks drop_log R opm op \<longleftrightarrow>
     (\<forall>p. drop_log (snd (opm p)) = snd (op (drop_log p)) \<and> rel_sum (=) R (fst (opm p)) (fst (op (drop_log p))))"

lemma tracks_bind:
  assumes "tracks d R m m'" "\<And>x y. R x y \<Longrightarrow> tracks d Q (f x) (g y)"
  shows "tracks d Q (io_bind m f) (io_bind m' g)"
  unfolding tracks_def
proof
  fix p
  obtain r p' where m: "m p = (r, p')" by (rule prod.exhaust)
  obtain r' s' where m': "m' (d p) = (r', s')" by (rule prod.exhaust)
  have step: "d p' = s'" "rel_sum (=) R r r'" using assms(1) m m' by (auto simp: tracks_def dest: spec [of _ p])
  show "d (snd (io_bind m f p)) = snd (io_bind m' g (d p)) \<and> rel_sum (=) Q (fst (io_bind m f p)) (fst (io_bind m' g (d p)))"
  proof (cases r)
    case (Inl e)
    with step m m' show ?thesis by (auto simp: io_bind_def rel_sum_simps elim: rel_sum.cases)
  next
    case (Inr x)
    with step(2) obtain y where "r' = Inr y" "R x y" by (auto elim: rel_sum.cases)
    from assms(2) [OF this(2)] have "d (snd (f x p')) = snd (g y s')" "rel_sum (=) Q (fst (f x p')) (fst (g y s'))"
      by (simp_all add: tracks_def step(1) [symmetric])
    with Inr \<open>r' = Inr y\<close> m m' show ?thesis by (simp add: io_bind_def)
  qed
qed

lemma tracks_bind_eq:
  "tracks d (=) m m' \<Longrightarrow> (\<And>x. tracks d Q (f x) (g x)) \<Longrightarrow> tracks d Q (io_bind m f) (io_bind m' g)"
  by (rule tracks_bind [where R = "(=)"]) auto

lemma tracks_then: "tracks d (=) m m' \<Longrightarrow> tracks d Q k k' \<Longrightarrow> tracks d Q (io_then m k) (io_then m' k')"
  unfolding io_then_def by (rule tracks_bind_eq)

lemma tracks_basic:
  "tracks d (=) (io_return x) (io_return x)" "tracks d (=) (io_raise e) (io_raise e)"
  "tracks d (=) (io_lift r) (io_lift r)" "tracks d (=) (io_guard b e) (io_guard b e)"
  by (simp_all add: tracks_def sum.rel_eq)

lemma tracks_prod: "(\<And>a b. z = (a, b) \<Longrightarrow> tracks d R (f a b) (g a b)) \<Longrightarrow> tracks d R (case z of (a, b) \<Rightarrow> f a b) (case z of (a, b) \<Rightarrow> g a b)"
  by (cases z) simp

lemma tracks_if: "tracks d R m m' \<Longrightarrow> tracks d R k k' \<Longrightarrow> tracks d R (if b then m else k) (if b then m' else k')"
  by simp

lemma tracks_option:
  "tracks d R m m' \<Longrightarrow> (\<And>x. tracks d R (f x) (g x)) \<Longrightarrow>
   tracks d R (case z of None \<Rightarrow> m | Some x \<Rightarrow> f x) (case z of None \<Rightarrow> m' | Some x \<Rightarrow> g x)"
  by (cases z) simp_all

lemma tracks_each: "(\<And>x. tracks d (=) (f x) (g x)) \<Longrightarrow> tracks d (=) (io_each f xs) (io_each g xs)"
  by (induction xs) (simp_all add: tracks_basic tracks_then)

lemma tracks_logging: "tracks fst (=) (logging ev op) op"
  by (auto simp: tracks_def logging_def sum.rel_eq split: prod.splits)

lemma tracks_fst: "tracks fst (=) (io_on_fst op) op"
  by (auto simp: tracks_def io_on_fst_def sum.rel_eq split: prod.splits)

text \<open>The same beside a recorder.\<close>

abbreviation without_log :: "recorder \<times> ('s \<times> event list) \<Rightarrow> recorder \<times> 's" where
  "without_log \<equiv> map_prod (\<lambda>r. r) fst"

lemma tracks_on_snd: "tracks fst R m m' \<Longrightarrow> tracks without_log R (io_on_snd m) (io_on_snd m')"
  by (simp add: tracks_def io_on_snd_def case_prod_unfold)

lemma tracks_mod_fst: "tracks without_log (=) (io_mod_fst f) (io_mod_fst f)"
  by (auto simp: tracks_def io_mod_fst_def sum.rel_eq)

section \<open>The services\<close>

lemma tracks_reads:
  "tracks fst (=) (ms_list_connections (logged_store M) subs) (ms_list_connections M subs)"
  "tracks fst (=) (ms_get_connection (logged_store M) name subs) (ms_get_connection M name subs)"
  "tracks fst (=) (ms_allowed_tables (logged_store M) cid subs) (ms_allowed_tables M cid subs)"
  "tracks fst (=) (ms_allowed_tools (logged_store M) subs) (ms_allowed_tools M subs)"
  "tracks fst (=) (ms_descriptions (logged_store M) cid) (ms_descriptions M cid)"
  "tracks fst (=) (ms_search_descriptions (logged_store M) cid kw ts lim) (ms_search_descriptions M cid kw ts lim)"
  by (simp_all add: logged_store_def tracks_fst)

lemma tracks_adapter:
  "tracks fst (=) (ad_list_tables (logged_adapter rec a)) (ad_list_tables a)"
  "tracks fst (=) (ad_describe_table (logged_adapter rec a) t) (ad_describe_table a t)"
  "tracks fst (=) (ad_execute (logged_adapter rec a) sql n tm) (ad_execute a sql n tm)"
  "tracks fst (=) (ad_explain (logged_adapter rec a) sql tm) (ad_explain a sql tm)"
  "tracks fst (=) (ad_sample_rows (logged_adapter rec a) t n tm) (ad_sample_rows a t n tm)"
  by (simp_all add: logged_adapter_def tracks_logging)

lemma tracks_clock: "tracks fst (=) (read_clock (monitored S)) (read_clock S)"
  by (auto simp: tracks_def read_clock_def sum.rel_eq split: prod.splits)

lemma tracks_open:
  "tracks fst (\<lambda>x y. fst x = fst y \<and> snd x = logged_adapter (acc_record (fst y)) (snd y))
     (open_adapter (monitored S) c tool name) (open_adapter S c tool name)"
  unfolding open_adapter_def monitored_simps
proof (rule tracks_bind_eq)
  show "tracks fst (=) (open_connection (sv_ucd S) (logged_store (sv_store S)) c tool name)
      (open_connection (sv_ucd S) (sv_store S) c tool name)"
    unfolding open_connection_def require_tool_def
    by (intro tracks_then tracks_bind_eq tracks_option tracks_reads tracks_basic)
  fix acc
  show "tracks fst (\<lambda>x y. fst x = fst y \<and> snd x = logged_adapter (acc_record (fst y)) (snd y))
      (io_bind (logged_provider (sv_adapters S) (acc_record acc)) (\<lambda>ad. io_return (acc, ad)))
      (io_bind (sv_adapters S (acc_record acc)) (\<lambda>ad. io_return (acc, ad)))"
    unfolding logged_provider_def
    by (auto simp: tracks_def logging_def io_bind_def io_return_def split: prod.splits sum.splits)
qed

lemma tracks_opened:
  assumes "\<And>acc a. tracks without_log (=) (f acc (logged_adapter (acc_record acc) a)) (g acc a)"
  shows "tracks without_log (=) (io_bind (io_on_snd (open_adapter (monitored S) c tool name)) (\<lambda>(acc, ad). f acc ad))
     (io_bind (io_on_snd (open_adapter S c tool name)) (\<lambda>(acc, ad). g acc ad))"
  by (rule tracks_bind [OF tracks_on_snd [OF tracks_open]]) (auto simp: assms split: prod.splits)

lemma same_cleaning:
  "clean_with (monitored S) = clean_with S"
  by (intro ext) (simp add: clean_with_def)

lemma tracks_authorize:
  "tracks without_log (=) (validate_and_authorize (monitored S) sql (logged_adapter rec a) acc) (validate_and_authorize S sql a acc)"
proof -
  have "ad_dialect_name (logged_adapter rec a) = ad_dialect_name a" "ad_default_schema (logged_adapter rec a) = ad_default_schema a"
    by (simp_all add: logged_adapter_def)
  then show ?thesis
    unfolding validate_and_authorize_def monitored_simps
    by (simp only:) (intro tracks_bind_eq tracks_then tracks_each tracks_mod_fst tracks_basic)
qed

lemma tracks_notes:
  "tracks without_log (=) (note_summary t) (note_summary t)" "tracks without_log (=) (note_tables ts) (note_tables ts)"
  "tracks without_log (=) (note_result r) (note_result r)"
  unfolding note_summary_def note_tables_def note_result_def
  by (intro tracks_then tracks_mod_fst tracks_basic)+

lemma tracks_result: "tracks without_log (=) (io_on_snd (to_result (monitored S) raw started)) (io_on_snd (to_result S raw started))"
  unfolding to_result_def monitored_simps
  by (intro tracks_on_snd tracks_prod tracks_bind_eq tracks_clock tracks_basic)

text \<open>The pure parts do not look at the state, so they are the same for both.\<close>

lemma same_connections: "clean_connections (monitored S) rs fl = clean_connections S rs fl"
  by (induction rs arbitrary: fl) (simp_all add: same_cleaning split: prod.split)

lemma same_tables: "clean_tables (monitored S) acc cur infos fl = clean_tables S acc cur infos fl"
  by (induction infos arbitrary: fl) (simp_all add: same_cleaning split: prod.split)

lemma same_columns: "clean_column_details (monitored S) cur table cs fl = clean_column_details S cur table cs fl"
  by (induction cs arbitrary: fl) (simp_all add: same_cleaning split: prod.split)

lemma same_hits: "clean_hits (monitored S) hs fl = clean_hits S hs fl"
  by (induction hs arbitrary: fl) (simp_all add: same_cleaning split: prod.split option.split)

lemma same_detail: "table_detail_of (monitored S) acc cur desc = table_detail_of S acc cur desc"
  by (simp add: table_detail_of_def same_cleaning same_columns)

lemmas same_pure = same_connections same_tables same_hits same_detail

lemma tracks_keys_into:
  "tracks fst (=) (keys_into (monitored S) acc (logged_adapter rec a) target infos) (keys_into S acc a target infos)"
  by (induction infos)
    (simp_all only: keys_into.simps monitored_simps,
      (intro tracks_if tracks_bind_eq tracks_adapter tracks_basic | assumption)+)

lemmas tracks_intros =
  tracks_then tracks_bind_eq tracks_prod tracks_basic tracks_on_snd tracks_reads tracks_adapter tracks_notes
  tracks_clock tracks_authorize tracks_result tracks_mod_fst tracks_keys_into

lemma tracks_bodies:
  "tracks without_log (=) (list_connections_body (monitored S) c) (list_connections_body S c)"
  "tracks without_log (=) (list_tables_body (monitored S) c conn) (list_tables_body S c conn)"
  "tracks without_log (=) (describe_table_body (monitored S) c conn t) (describe_table_body S c conn t)"
  "tracks without_log (=) (search_schema_body (monitored S) c conn kw lim) (search_schema_body S c conn kw lim)"
  "tracks without_log (=) (get_relationships_body (monitored S) c conn t) (get_relationships_body S c conn t)"
  "tracks without_log (=) (run_query_body (monitored S) c conn sql l) (run_query_body S c conn sql l)"
  "tracks without_log (=) (explain_query_body (monitored S) c conn sql) (explain_query_body S c conn sql)"
  "tracks without_log (=) (get_sample_rows_body (monitored S) c conn t n) (get_sample_rows_body S c conn t n)"
  unfolding body_defs require_tool_def permitted_connections_def Let_def monitored_simps same_pure
  by (intro tracks_intros tracks_opened)+

lemma tracks_audited:
  assumes body: "tracks without_log (=) bm b"
  shows "tracks fst (=) (audited_call (monitored S) caller tool args conn bm) (audited_call S caller tool args conn b)"
  unfolding tracks_def
proof
  fix p :: "'a \<times> event list"
  obtain s l where p: "p = (s, l)" by (rule prod.exhaust)
  obtain n s0 r rec s1 n' s2 w s3 where h:
    "sv_clock S s = (n, s0)" "b (fresh_recorder conn, s0) = (r, (rec, s1))" "sv_clock S s1 = (n', s2)"
    "ms_write_audit (sv_store S) (audit_entry_of caller (lit tool) args rec ((n' - n) div 1000) (caught r)) s2 = (w, s3)"
    "record_audit (sv_store S) (sv_clock S) caller (lit tool) args conn b s = (audited w r, s3)"
    by (rule record_audit_cases)
  have "without_log (snd (bm (fresh_recorder conn, s0, l))) = (rec, s1)" "fst (bm (fresh_recorder conn, s0, l)) = r"
    using body h(2) by (auto simp: tracks_def sum.rel_eq dest!: spec [of _ "(fresh_recorder conn, s0, l)"])
  then obtain l1 where bm: "bm (fresh_recorder conn, s0, l) = (r, (rec, s1, l1))"
    by (metis (no_types, lifting) fst_conv map_prod_simp old.prod.exhaust prod.inject snd_conv)
  have "record_audit (sv_store (monitored S)) (sv_clock (monitored S)) caller (lit tool) args conn bm (s, l) = (audited w r, (s3, l1))"
  proof (rule record_audit_run [where body = bm, OF _ bm])
    show "ms_write_audit (sv_store (monitored S)) (audit_entry_of caller (lit tool) args rec ((n' - n) div 1000) (caught r)) (s2, l1)
        = (w, (s3, l1))"
      unfolding monitored_simps logged_store_def meta_store.simps io_on_fst_def prod.case h(4) by (rule refl)
  qed (simp_all add: h)
  then show "fst (snd (audited_call (monitored S) caller tool args conn bm p)) = snd (audited_call S caller tool args conn b (fst p))
      \<and> rel_sum (=) (=) (fst (audited_call (monitored S) caller tool args conn bm p)) (fst (audited_call S caller tool args conn b (fst p)))"
    by (simp add: audited_call_def p h(5) sum.rel_eq)
qed

lemma tracks_answer: "tracks d (=) m m' \<Longrightarrow> tracks d (=) (io_answer f m) (io_answer f m')"
  unfolding io_answer_def by (intro tracks_bind_eq tracks_basic)

lemma tracks_serve: "tracks fst (=) (serve (monitored S) c req) (serve S c req)"
  by (cases req) (simp_all add: service_defs tracks_answer tracks_audited tracks_bodies)

text \<open>With the log left out, a monitored request is the request.\<close>

theorem monitor_transparent:
  "serve S c req s = (fst (serve (monitored S) c req (s, log)), fst (snd (serve (monitored S) c req (s, log))))"
proof -
  have "fst (snd (serve (monitored S) c req (s, log))) = snd (serve S c req s)"
    "fst (serve (monitored S) c req (s, log)) = fst (serve S c req s)"
    using tracks_serve [of S c req] by (simp_all add: tracks_def sum.rel_eq)
  then show ?thesis by simp
qed

end
