(* ===== verification/Governance.thy ===== *)
theory Governance
  imports Container Transparency
begin

text \<open>
  The services without a cache keep the contract of \<open>Governed\<close>: the grants are read from the
  tables each time, and whatever works on the outside state cannot touch them.
\<close>

lemma on_ext_quiet: "quiet (\<lambda>_. True) w_meta (on_ext op)"
  by (rule quietI) (auto simp: on_ext_def split: prod.splits)

lemma lift_adapter_quiet: "quiet_adapter (\<lambda>_. True) w_meta (lift_adapter a)"
  by (simp add: quiet_adapter_def lift_adapter_def on_ext_quiet)

lemma built_simps [simp]:
  "sv_store (build_services D) = postgres_meta_store (dp_pg D)"
  "sv_ucd (build_services D) = dp_ucd D" "sv_sqlglot (build_services D) = dp_sqlglot D"
  "sv_limits (build_services D) = dp_limits D" "sv_clock (build_services D) = lift_clock (dp_clock D)"
  "sv_adapters (build_services D) = lift_provider (dp_adapters D)"
  by (simp_all add: build_services_def)

interpretation plain: governed_services "build_services D" w_meta "\<lambda>_. True"
    "pg_sort_key (dp_pg D)" "pg_lower (dp_pg D)" "pg_search (dp_pg D)" UNIV for D
proof (rule governed_services.intro)
  show "guarded_store (sv_store (build_services D)) w_meta (\<lambda>_. True)
      (pg_sort_key (dp_pg D)) (pg_lower (dp_pg D)) (pg_search (dp_pg D)) UNIV"
    by (simp add: plain_store.guarded_store_axioms)
  show "governed_services_axioms (build_services D) w_meta (\<lambda>_. True)"
  proof (unfold_locales, goal_cases)
    case (1 s)
    then show ?case by (simp add: lift_clock_def split: prod.split)
  next
    case (2 rec)
    show ?case by (rule quietI) (auto simp: lift_provider_def on_ext_def io_bind_def io_return_def split: prod.splits sum.splits)
  next
    case (3 s rec a t)
    then show ?case
      by (auto simp: lift_provider_def io_bind_def io_return_def lift_adapter_quiet split: prod.splits sum.splits)
  qed
qed

text \<open>C2: whoever asks for whatever, and however the databases behave: a target database is only
  opened, listed, described, queried, explained or sampled as the grants at the start of the
  request permit; SQL reaches it only as validated, with every table it reads granted, and
  with a row cap within the configured limit.\<close>

theorem only_permitted_events:
  "\<exists>evs. snd (snd (serve (monitored (build_services D)) c req (w, log))) = log @ evs
     \<and> list_all (permitted (build_services D) (w_meta w) c req) evs"
  by (rule plain.served_permitted [OF UNIV_I TrueI])

end
