(* ===== verification/AuditTrail.thy ===== *)
theory AuditTrail
  imports Governance
begin

text \<open>
  The audit trail: no service body touches \<open>app_meta\<close> (\<open>Governed\<close>), the recorder keeps the
  connection it was made for, and so every request leaves the row that \<open>on_record\<close> describes, for
  every wiring whose store writes an entry or fails.  The last section holds two cases the log
  does not show as intended.
\<close>

section \<open>The recorder keeps its connection\<close>

definition for_conn :: "pystr option \<Rightarrow> recorder \<times> 's \<Rightarrow> bool" where
  "for_conn conn p \<longleftrightarrow> rec_connection_name (fst p) = conn"

lemma on_snd_for: "io_keeps (for_conn conn) (io_on_snd op)"
  by (auto simp: io_keeps_def for_conn_def io_on_snd_def split: prod.splits)

lemma mod_fst_for:
  "(\<And>r. rec_connection_name (f r) = rec_connection_name r) \<Longrightarrow> io_keeps (for_conn conn) (io_mod_fst f)"
  by (auto simp: io_keeps_def for_conn_def io_mod_fst_def)

lemma notes_for:
  "io_keeps (for_conn conn) (note_summary t)" "io_keeps (for_conn conn) (note_tables ts)"
  "io_keeps (for_conn conn) (note_result res)"
  "io_keeps (for_conn conn) (validate_and_authorize S sql ad acc)"
  unfolding note_summary_def note_tables_def note_result_def validate_and_authorize_def
  by (intro io_keeps_then io_keeps_bind io_keeps_each io_keeps_basic mod_fst_for; simp)+

lemma bodies_for:
  "io_keeps (for_conn conn) (list_connections_body S c)"
  "io_keeps (for_conn conn) (list_tables_body S c nm)"
  "io_keeps (for_conn conn) (describe_table_body S c nm t)"
  "io_keeps (for_conn conn) (search_schema_body S c nm kw lim)"
  "io_keeps (for_conn conn) (get_relationships_body S c nm t)"
  "io_keeps (for_conn conn) (run_query_body S c nm sql l)"
  "io_keeps (for_conn conn) (explain_query_body S c nm sql)"
  "io_keeps (for_conn conn) (get_sample_rows_body S c nm t n)"
  unfolding body_defs Let_def
  by (intro io_keeps_then io_keeps_bind io_keeps_prod io_keeps_basic on_snd_for notes_for mod_fst_for; simp)+

section \<open>Every request is on record\<close>

fun request_args :: "tool_request \<Rightarrow> (pystr \<times> json) list" where
  "request_args ListConnections = []"
| "request_args (ListTables conn) = [(lit ''connection_name'', JStr conn)]"
| "request_args (DescribeTable conn t) =
     [(lit ''connection_name'', JStr conn), (lit ''table_name'', JStr t)]"
| "request_args (SearchSchema conn kw) =
     [(lit ''connection_name'', JStr conn), (lit ''keyword'', JStr kw)]"
| "request_args (GetRelationships conn t) =
     [(lit ''connection_name'', JStr conn), (lit ''table_name'', JStr t)]"
| "request_args (RunQuery conn sql l) =
     [(lit ''connection_name'', JStr conn), (lit ''sql'', JStr sql),
      (lit ''row_limit'', JInt (row_limit_arg l))]"
| "request_args (ExplainQuery conn sql) =
     [(lit ''connection_name'', JStr conn), (lit ''sql'', JStr sql)]"
| "request_args (GetSampleRows conn t n) =
     [(lit ''connection_name'', JStr conn), (lit ''table_name'', JStr t), (lit ''n'', JInt (sample_arg n))]"

text \<open>The entry names the caller, the tool, the connection and the arguments of the request.\<close>

definition entry_for :: "caller \<Rightarrow> tool_request \<Rightarrow> audit_entry \<Rightarrow> bool" where
  "entry_for c req e \<longleftrightarrow>
     ae_caller_sub e = sub c \<and> ae_caller_name e = cname c \<and> ae_tool_name e = request_tool req
     \<and> ae_connection_name e = request_connection req \<and> ae_arguments e = request_args req"

definition logged_entry :: "app_meta \<Rightarrow> app_meta \<Rightarrow> audit_entry \<Rightarrow> bool" where
  "logged_entry m m' e \<longleftrightarrow>
     (\<exists>now. am_audit_log m' = am_audit_log m @
        [\<lparr>au_id = am_next_audit m, au_occurred_at = now, au_entry = e\<lparr>ae_caller_roles := []\<rparr>\<rparr>])"

text \<open>
  What the log holds after a request that ended as \<open>r\<close>: with a result, one more row, and it
  says so; with a domain error or a bug, at most one more row, and it says so.
\<close>

definition on_record :: "caller \<Rightarrow> tool_request \<Rightarrow> app_meta \<Rightarrow> exn + 'a \<Rightarrow> app_meta \<Rightarrow> bool" where
  "on_record c req m r m' \<longleftrightarrow>
     (case r of
        Inr x \<Rightarrow> \<exists>e. logged_entry m m' e \<and> entry_for c req e \<and> ae_success e \<and> ae_error_message e = None
      | Inl err \<Rightarrow>
          am_audit_log m' = am_audit_log m
          \<or> (\<exists>e. logged_entry m m' e \<and> entry_for c req e
               \<and> (is_exception err \<longrightarrow> \<not> ae_success e \<and> ae_error_message e = Some (describe_error err))))"

text \<open>What the store must do with an entry, beside what \<open>governed_services\<close> asks of it.\<close>

locale audited_services = governed_services S view ok collate lower search known
  for S :: "('s, 'q) services" and view :: "'s \<Rightarrow> app_meta" and ok :: "'s \<Rightarrow> bool"
    and collate lower search known +
  assumes writes:
    "ok s \<Longrightarrow> ms_write_audit (sv_store S) e s = (r, s') \<Longrightarrow>
       r = Inr () \<and> logged_entry (view s) (view s') e
       \<or> (\<exists>err. r = Inl err) \<and> am_audit_log (view s') = am_audit_log (view s)"

lemma on_record_answer:
  "case op w of (r, w') \<Rightarrow> on_record c req m r (v w') \<Longrightarrow>
   case io_answer f op w of (r, w') \<Rightarrow> on_record c req m r (v w')"
  by (auto simp: io_answer_def io_bind_def io_return_def on_record_def split: prod.splits sum.splits)

context audited_services begin

lemma audited_on_record:
  fixes body :: "(recorder \<times> 's, 'b) op"
  assumes quiet: "io_keeps (on_rec (at_rest (view s))) body" and ok: "ok s"
    and conn: "io_keeps (for_conn (request_connection req)) body"
  shows "case audited_call S c tool (request_args req) (request_connection req) body s of
      (r, s') \<Rightarrow> lit tool = request_tool req \<longrightarrow> on_record c req (view s) r (view s')"
proof -
  let ?conn = "request_connection req"
  obtain n s0 r rec s1 n' s2 a s3 where h:
    "sv_clock S s = (n, s0)" "body (fresh_recorder ?conn, s0) = (r, (rec, s1))" "sv_clock S s1 = (n', s2)"
    "ms_write_audit (sv_store S) (audit_entry_of c (lit tool) (request_args req) rec ((n' - n) div 1000) (caught r)) s2 = (a, s3)"
    "record_audit (sv_store S) (sv_clock S) c (lit tool) (request_args req) ?conn body s = (audited a r, s3)"
    by (rule record_audit_cases)
  let ?e = "audit_entry_of c (lit tool) (request_args req) rec ((n' - n) div 1000) (caught r)"
  have "at_rest (view s) s0" using clock_quiet [OF ok] h(1) by simp
  then have "at_rest (view s) s1" using io_keepsD [OF quiet _ h(2)] by simp
  then have s2: "ok s2" "view s2 = view s" using clock_quiet [of s1] h(3) by simp_all
  have "rec_connection_name rec = ?conn"
    using io_keepsD [OF conn _ h(2)] by (simp add: for_conn_def fresh_recorder_def)
  then have e: "lit tool = request_tool req \<Longrightarrow> entry_for c req ?e"
    by (simp add: entry_for_def audit_entry_of_def)
  have cases_r: "(\<exists>x. r = Inr x \<and> caught r = None) \<or> (\<exists>err. r = Inl err \<and> is_exception err \<and> caught r = Some err)
      \<or> (\<exists>err. r = Inl err \<and> \<not> is_exception err \<and> caught r = None)"
    by (cases r) (auto simp: caught_def)
  from writes [OF s2(1) h(4)] s2(2)
  have "lit tool = request_tool req \<longrightarrow> on_record c req (view s) (audited a r) (view s3)"
    using e cases_r
    by (elim disjE exE conjE)
      (auto simp: on_record_def audited_def audit_entry_of_def split: sum.splits if_splits)
  then show ?thesis by (simp add: audited_call_def h(5))
qed

lemma answered_on_record:
  fixes body :: "(recorder \<times> 's, 'b) op"
  assumes "\<And>m. io_keeps (on_rec (at_rest m)) body" "\<And>cn. io_keeps (for_conn cn) body" "ok s"
    and "lit tool = request_tool req" "args = request_args req" "conn = request_connection req"
  shows "case io_answer f (audited_call S c tool args conn body) s of
      (r, s') \<Rightarrow> on_record c req (view s) r (view s')"
  using audited_on_record [where s = s and req = req and c = c and tool = tool, OF assms(1,3,2)]
    assms(4-6)
  by (intro on_record_answer) (simp split: prod.splits)

lemma served_on_record:
  assumes "subjects c \<in> known" "ok s"
  shows "case serve S c req s of (r, s') \<Rightarrow> on_record c req (view s) r (view s')"
proof (cases req)
  case ListConnections
  show ?thesis unfolding ListConnections serve.simps service_defs by (rule answered_on_record) (simp_all add: assms(2) kept.bodies_kept [OF assms(1)] bodies_for json_of_limit_def)
next
  case (ListTables conn)
  show ?thesis unfolding ListTables serve.simps service_defs by (rule answered_on_record) (simp_all add: assms(2) kept.bodies_kept [OF assms(1)] bodies_for json_of_limit_def)
next
  case (DescribeTable conn t)
  show ?thesis unfolding DescribeTable serve.simps service_defs by (rule answered_on_record) (simp_all add: assms(2) kept.bodies_kept [OF assms(1)] bodies_for json_of_limit_def)
next
  case (SearchSchema conn kw)
  show ?thesis unfolding SearchSchema serve.simps service_defs by (rule answered_on_record) (simp_all add: assms(2) kept.bodies_kept [OF assms(1)] bodies_for json_of_limit_def)
next
  case (GetRelationships conn t)
  show ?thesis unfolding GetRelationships serve.simps service_defs by (rule answered_on_record) (simp_all add: assms(2) kept.bodies_kept [OF assms(1)] bodies_for json_of_limit_def)
next
  case (RunQuery conn sql l)
  show ?thesis unfolding RunQuery serve.simps service_defs by (rule answered_on_record) (simp_all add: assms(2) kept.bodies_kept [OF assms(1)] bodies_for json_of_limit_def)
next
  case (ExplainQuery conn sql)
  show ?thesis unfolding ExplainQuery serve.simps service_defs by (rule answered_on_record) (simp_all add: assms(2) kept.bodies_kept [OF assms(1)] bodies_for json_of_limit_def)
next
  case (GetSampleRows conn t n)
  show ?thesis unfolding GetSampleRows serve.simps service_defs by (rule answered_on_record) (simp_all add: assms(2) kept.bodies_kept [OF assms(1)] bodies_for json_of_limit_def)
qed

end

section \<open>The services without a cache\<close>

lemma write_audit_log:
  assumes "ms_write_audit (postgres_meta_store P) e w = (r, w')"
  shows "r = Inr () \<and> logged_entry (w_meta w) (w_meta w') e
     \<or> (\<exists>err. r = Inl err) \<and> am_audit_log (w_meta w') = am_audit_log (w_meta w)"
  using assms
  by (auto simp: postgres_meta_store_def pg_write_def write_audit_tx_def insert_audit_def res_bind_Inr_iff
      logged_entry_def dest!: note_subjects_grants split: prod.splits option.splits sum.splits if_splits)

interpretation plain_audit: audited_services "build_services D" w_meta "\<lambda>_. True"
    "pg_sort_key (dp_pg D)" "pg_lower (dp_pg D)" "pg_search (dp_pg D)" UNIV for D
  by (intro audited_services.intro plain.governed_services_axioms audited_services_axioms.intro)
    (simp add: write_audit_log)

text \<open>C3: every request of every tool is on record when it is over.  A caller who got a result left
  exactly one new row with their id, the tool, the connection and the arguments, marked as a
  success; a refusal or a bug leaves a row with the error, or no row at all when the log could
  not be written, but then the caller has no result either.\<close>

theorem every_request_on_record:
  "case serve (build_services D) c req w of
     (r, w') \<Rightarrow> on_record c req (w_meta w) r (w_meta w')"
  by (rule plain_audit.served_on_record [OF UNIV_I TrueI])

section \<open>What the log misses\<close>

text \<open>
  A request cancelled while it runs ends with a \<open>CancelledError\<close>, which \<open>except Exception\<close> does
  not catch: \<open>failure\<close> stays \<open>None\<close>, and the entry says \<open>success\<close>.
\<close>

theorem cancelled_call_marked_success:
  assumes "body (fresh_recorder conn, snd (clk s)) = (Inl (BaseError t), (rec, s1))"
  shows "\<exists>e. ae_success e \<and> ae_error_message e = None
     \<and> snd (record_audit M clk c tool args conn body s) = snd (ms_write_audit M e (snd (clk s1)))"
proof (rule record_audit_cases [of clk s body conn M c tool args])
  fix n s0 r rec' s1' n' s2 w s3
  assume h: "clk s = (n, s0)" "body (fresh_recorder conn, s0) = (r, (rec', s1'))" "clk s1' = (n', s2)"
    "ms_write_audit M (audit_entry_of c tool args rec' ((n' - n) div 1000) (caught r)) s2 = (w, s3)"
    "record_audit M clk c tool args conn body s = (audited w r, s3)"
  then have "r = Inl (BaseError t)" "s1' = s1" using assms by simp_all
  with h show ?thesis
    by (intro exI [of _ "audit_entry_of c tool args rec' ((n' - n) div 1000) None"])
      (simp add: caught_def audit_entry_of_def)
qed

text \<open>
  A query with a null character is refused by the validator, but its audit row cannot be
  stored either (\<open>jsonb\<close> has no null character), and the failed write is swallowed because
  the call had already failed: the attempt leaves no trace.
\<close>

theorem null_character_attempt_not_logged:
  assumes "0 \<in> set sql"
  shows "am_audit_log (w_meta (snd (serve (build_services D) c (RunQuery conn sql l) w)))
     = am_audit_log (w_meta w)"
proof -
  let ?body = "run_query_body (build_services D) c conn sql (Some (row_limit_arg l))"
  let ?M = "postgres_meta_store (dp_pg D)" and ?args = "request_args (RunQuery conn sql l)"
  obtain n s0 r rec s1 n' s2 a s3 where h:
    "lift_clock (dp_clock D) w = (n, s0)" "?body (fresh_recorder (Some conn), s0) = (r, (rec, s1))"
    "lift_clock (dp_clock D) s1 = (n', s2)"
    "ms_write_audit ?M (audit_entry_of c (lit ''run_query'') ?args rec ((n' - n) div 1000) (caught r)) s2 = (a, s3)"
    "record_audit ?M (lift_clock (dp_clock D)) c (lit ''run_query'') ?args (Some conn) ?body w = (audited a r, s3)"
    by (rule record_audit_cases)
  have "w_meta s0 = w_meta w" using plain.clock_quiet [where s = w and D = D] h(1) by simp
  then have "w_meta s1 = w_meta w" using io_keepsD [OF plain.kept.bodies_kept(6) [OF UNIV_I] _ h(2)] by simp
  then have m: "w_meta s2 = w_meta w" using plain.clock_quiet [where s = s1 and D = D] h(3) by simp
  have "\<not> audit_storable (audit_entry_of c (lit ''run_query'') ?args rec d f)" for d f
    using assms by (auto simp: audit_storable_def audit_entry_of_def storable_def list_all_iff)
  then have "w_meta s3 = w_meta w"
    using h(4) m by (auto simp: postgres_meta_store_def pg_write_def write_audit_tx_def insert_audit_def
        res_bind_Inr_iff split: prod.splits option.splits sum.splits)
  then show ?thesis
    using h(5) by (simp add: snd_io_answer run_query_def audited_call_def built_simps json_of_limit_def)
qed

end
