(* ===== verification/Caching.thy ===== *)
theory Caching
  imports Interfaces Config
begin

text \<open>
  \<open>cache/redis_cache.py\<close> and \<open>cache/helpers.py\<close>: the Redis-backed cache with its circuit
  breaker, and the one pattern every cached lookup uses.  The Redis client is a record of
  operations on the outside state; \<open>redis_state\<close> adds the \<open>_down_until\<close> of the cache object.
  Times are integer microseconds.
\<close>

definition PREFIX :: pystr where
  "PREFIX = lit ''mcpsql''"

definition COOLDOWN_US :: int where
  "COOLDOWN_US = 10000000"

text \<open>\<open>_FAILURES\<close>: what the cache swallows.\<close>

definition cache_failure :: "exn \<Rightarrow> bool" where
  "cache_failure e \<longleftrightarrow>
     e \<in> {OtherError (lit ''RedisError''), OtherError (lit ''OSError''), OtherError (lit ''TimeoutError'')}"

record 'x redis_client =
  rd_get :: "pystr \<Rightarrow> ('x, pystr option) op"
  rd_set :: "pystr \<Rightarrow> pystr \<Rightarrow> int \<Rightarrow> ('x, unit) op"
  rd_incr :: "pystr \<Rightarrow> ('x, int) op"
  rd_ping :: "('x, bool) op"
  rd_aclose :: "('x, unit) op"

record 'x redis_state =
  rs_down_until :: int
  rs_ext :: 'x

definition on_redis :: "('x, 'a) op \<Rightarrow> ('x redis_state, 'a) op" where
  "on_redis m = (\<lambda>s. case m (rs_ext s) of (r, x) \<Rightarrow> (r, s\<lparr>rs_ext := x\<rparr>))"

definition now_us :: "'x clock \<Rightarrow> ('x redis_state, int) op" where
  "now_us clk = (\<lambda>s. case clk (rs_ext s) of (t, x) \<Rightarrow> (Inr t, s\<lparr>rs_ext := x\<rparr>))"

text \<open>\<open>_available\<close> and \<open>_failed\<close> (which asks \<open>_available\<close> only to decide about a log line).\<close>

definition redis_available :: "'x clock \<Rightarrow> ('x redis_state, bool) op" where
  "redis_available clk = io_bind (now_us clk) (\<lambda>t s. (Inr (rs_down_until s \<le> t), s))"

definition trip_breaker :: "'x clock \<Rightarrow> ('x redis_state, unit) op" where
  "trip_breaker clk = io_bind (now_us clk) (\<lambda>t. io_modify (\<lambda>s. s\<lparr>rs_down_until := t + COOLDOWN_US\<rparr>))"

definition redis_failed :: "'x clock \<Rightarrow> ('x redis_state, unit) op" where
  "redis_failed clk = io_bind (redis_available clk) (\<lambda>_. trip_breaker clk)"

definition prefixed :: "pystr \<Rightarrow> pystr" where
  "prefixed key = PREFIX @ lit '':'' @ key"

definition version_key :: "pystr \<Rightarrow> pystr" where
  "version_key family = lit ''version:'' @ family"

text \<open>\<open>int(value)\<close> of a decimal text, as \<open>INCR\<close> leaves it.\<close>

fun digits_value :: "pystr \<Rightarrow> int \<Rightarrow> int option" where
  "digits_value [] acc = Some acc"
| "digits_value (c # s) acc = (if ascii_digit c then digits_value s (10 * acc + (c - 48)) else None)"

definition parse_int :: "pystr \<Rightarrow> int option" where
  "parse_int s =
     (case s of
        [] \<Rightarrow> None
      | c # t \<Rightarrow>
          (if c = 45 then (if t = [] then None else map_option uminus (digits_value t 0))
           else digits_value s 0))"

text \<open>\<open>try: ... except _FAILURES: self._failed(...); return d\<close>.\<close>

definition swallow :: "'x clock \<Rightarrow> 'a \<Rightarrow> ('x redis_state, 'a) op \<Rightarrow> ('x redis_state, 'a) op" where
  "swallow clk d m =
     io_catch m (\<lambda>e. if cache_failure e then io_then (redis_failed clk) (io_return d) else io_raise e)"

definition redis_get :: "'x redis_client \<Rightarrow> 'x clock \<Rightarrow> pystr \<Rightarrow> ('x redis_state, pystr option) op" where
  "redis_get R clk key =
     io_bind (redis_available clk) (\<lambda>up.
       if \<not> up then io_return None
       else swallow clk None (on_redis (rd_get R (prefixed key))))"

definition redis_set ::
  "'x redis_client \<Rightarrow> 'x clock \<Rightarrow> pystr \<Rightarrow> pystr \<Rightarrow> int \<Rightarrow> ('x redis_state, unit) op" where
  "redis_set R clk key value ttl_s =
     io_bind (redis_available clk) (\<lambda>up.
       if \<not> up then io_return ()
       else swallow clk () (on_redis (rd_set R (prefixed key) value ttl_s)))"

definition redis_version :: "'x redis_client \<Rightarrow> 'x clock \<Rightarrow> pystr \<Rightarrow> ('x redis_state, int option) op" where
  "redis_version R clk family =
     io_bind (redis_available clk) (\<lambda>up.
       if \<not> up then io_return None
       else io_bind
              (swallow clk None
                 (io_bind (on_redis (rd_get R (prefixed (version_key family)))) (\<lambda>v. io_return (Some v))))
              (\<lambda>found. case found of
                 None \<Rightarrow> io_return None
               | Some None \<Rightarrow> io_return (Some 0)
               | Some (Some text) \<Rightarrow>
                   (case parse_int text of
                      Some n \<Rightarrow> io_return (Some n)
                    | None \<Rightarrow> io_raise (OtherError (lit ''ValueError'')))))"

text \<open>\<open>bump\<close> is tried even while the breaker is open; its failure trips the breaker.\<close>

definition redis_bump :: "'x redis_client \<Rightarrow> 'x clock \<Rightarrow> pystr \<Rightarrow> ('x redis_state, unit) op" where
  "redis_bump R clk family =
     io_catch (io_bind (on_redis (rd_incr R (prefixed (version_key family)))) (\<lambda>_. io_return ()))
       (\<lambda>e. if cache_failure e then trip_breaker clk else io_raise e)"

definition redis_ping :: "'x redis_client \<Rightarrow> ('x redis_state, bool) op" where
  "redis_ping R =
     io_catch (on_redis (rd_ping R)) (\<lambda>e. if cache_failure e then io_return False else io_raise e)"

definition redis_cache :: "'x redis_client \<Rightarrow> 'x clock \<Rightarrow> 'x redis_state cache" where
  "redis_cache R clk =
     \<lparr>ca_get = redis_get R clk, ca_set = redis_set R clk, ca_version = redis_version R clk,
      ca_bump = redis_bump R clk, ca_ping = redis_ping R, ca_close = on_redis (rd_aclose R)\<rparr>"

text \<open>\<open>create_cache\<close>: Redis if configured, otherwise a cache that does nothing.\<close>

definition create_cache ::
  "settings \<Rightarrow> (pystr \<Rightarrow> 'x redis_client) \<Rightarrow> 'x clock \<Rightarrow> 'x redis_state cache" where
  "create_cache st from_url clk =
     (case st_redis_url st of
        None \<Rightarrow> null_cache
      | Some url \<Rightarrow> redis_cache (from_url url) clk)"

section \<open>The cached lookup\<close>

text \<open>A pydantic \<open>TypeAdapter\<close>: \<open>dump_json\<close>, and \<open>validate_json\<close> which may fail.\<close>

record 'a codec =
  co_dump :: "'a \<Rightarrow> pystr"
  co_load :: "pystr \<Rightarrow> 'a option"

definition full_key :: "pystr \<Rightarrow> int \<Rightarrow> pystr \<Rightarrow> pystr" where
  "full_key family version key = family @ lit '':'' @ str_of_int version @ lit '':'' @ key"

definition cached_json ::
  "'s cache \<Rightarrow> pystr \<Rightarrow> pystr \<Rightarrow> int \<Rightarrow> 'a codec \<Rightarrow> ('s, 'a) op \<Rightarrow> ('s, 'a) op" where
  "cached_json C family key ttl_s adapter load =
     io_bind (ca_version C family) (\<lambda>version.
       case version of
         None \<Rightarrow> load
       | Some v \<Rightarrow>
           (let fk = full_key family v key;
                miss = io_bind load (\<lambda>value.
                         io_then (ca_set C fk (co_dump adapter value) ttl_s) (io_return value))
            in io_bind (ca_get C fk) (\<lambda>hit.
                 case hit of
                   None \<Rightarrow> miss
                 | Some text \<Rightarrow>
                     (case co_load adapter text of Some value \<Rightarrow> io_return value | None \<Rightarrow> miss))))"

text \<open>
  \<open>subjects_fingerprint\<close>: \<open>sorted(subjects)\<close> compares pairs of strings by code points; \<open>digest\<close>
  is the first 32 hexadecimal digits of SHA-256.
\<close>

definition sorted_subjects :: "subject list \<Rightarrow> subject list" where
  "sorted_subjects subs = sort_key fst (sort_key snd subs)"

definition fingerprint_text :: "subject list \<Rightarrow> pystr" where
  "fingerprint_text subs = join [10] (map (\<lambda>(kind, name). kind @ lit '':'' @ name) (sorted_subjects subs))"

definition subjects_fingerprint :: "(pystr \<Rightarrow> pystr) \<Rightarrow> subject list \<Rightarrow> pystr" where
  "subjects_fingerprint digest subs = digest (fingerprint_text subs)"

end
