(* ===== verification/CachedStore.thy ===== *)
theory CachedStore
  imports Caching
begin

text \<open>
  \<open>cache/cached_meta_store.py\<close> and \<open>cache/cached_adapter.py\<close>: the wrappers that put
  \<open>cached_json\<close> in front of a \<open>MetaStore\<close> and of a \<open>DBAdapter\<close>.
\<close>

record store_codecs =
  sc_records :: "connection_record list codec"
  sc_names :: "pystr list codec"
  sc_rows :: "(pystr \<times> pystr option \<times> pystr) list codec"

text \<open>\<open>_sorted\<close>: a set of names as a list, JSON has no sets.\<close>

definition load_sorted :: "('s, pystr set) op \<Rightarrow> ('s, pystr list) op" where
  "load_sorted op = io_bind op (\<lambda>names. io_return (sorted_strs names))"

definition rows_of_descriptions :: "(desc_key \<times> pystr) list \<Rightarrow> (pystr \<times> pystr option \<times> pystr) list" where
  "rows_of_descriptions d = map (\<lambda>((table, column), t). (table, column, t)) d"

definition descriptions_of_rows :: "(pystr \<times> pystr option \<times> pystr) list \<Rightarrow> (desc_key \<times> pystr) list" where
  "descriptions_of_rows rows = fold (\<lambda>(table, column, t) d. dict_set (table, column) t d) rows []"

definition connections_key :: "(pystr \<Rightarrow> pystr) \<Rightarrow> subject list \<Rightarrow> pystr" where
  "connections_key digest subs = lit ''connections:'' @ subjects_fingerprint digest subs"

definition tables_key :: "(pystr \<Rightarrow> pystr) \<Rightarrow> uuid \<Rightarrow> subject list \<Rightarrow> pystr" where
  "tables_key digest cid subs = lit ''tables:'' @ cid @ lit '':'' @ subjects_fingerprint digest subs"

definition tools_key :: "(pystr \<Rightarrow> pystr) \<Rightarrow> subject list \<Rightarrow> pystr" where
  "tools_key digest subs = lit ''tools:'' @ subjects_fingerprint digest subs"

definition descriptions_key :: "uuid \<Rightarrow> pystr" where
  "descriptions_key cid = lit ''descriptions:'' @ cid"

definition cached_meta_store ::
  "(pystr \<Rightarrow> pystr) \<Rightarrow> store_codecs \<Rightarrow> 's cache \<Rightarrow> int \<Rightarrow> int \<Rightarrow> 's meta_store \<Rightarrow> 's meta_store" where
  "cached_meta_store digest K C permission_ttl_s description_ttl_s M =
     \<lparr>ms_list_connections = (\<lambda>subs.
        cached_json C META (connections_key digest subs) permission_ttl_s (sc_records K)
          (ms_list_connections M subs)),
      ms_get_connection = ms_get_connection M,
      ms_allowed_tables = (\<lambda>cid subs.
        io_bind (cached_json C META (tables_key digest cid subs) permission_ttl_s (sc_names K)
                   (load_sorted (ms_allowed_tables M cid subs)))
          (\<lambda>names. io_return (set names))),
      ms_allowed_tools = (\<lambda>subs.
        io_bind (cached_json C META (tools_key digest subs) permission_ttl_s (sc_names K)
                   (load_sorted (ms_allowed_tools M subs)))
          (\<lambda>names. io_return (set names))),
      ms_descriptions = (\<lambda>cid.
        io_bind (cached_json C META (descriptions_key cid) description_ttl_s (sc_rows K)
                   (io_bind (ms_descriptions M cid) (\<lambda>found. io_return (rows_of_descriptions found))))
          (\<lambda>rows. io_return (descriptions_of_rows rows))),
      ms_search_descriptions = ms_search_descriptions M,
      ms_write_audit = ms_write_audit M,
      ms_close = io_then (ms_close M) (ca_close C)\<rparr>"

section \<open>The cached adapter\<close>

record adapter_codecs =
  kc_tables :: "table_info list codec"
  kc_description :: "table_description codec"

definition cached_adapter ::
  "ucd \<Rightarrow> adapter_codecs \<Rightarrow> 's cache \<Rightarrow> pystr \<Rightarrow> int \<Rightarrow> 's adapter \<Rightarrow> 's adapter" where
  "cached_adapter U K C namespace ttl_s inner =
     inner\<lparr>ad_list_tables :=
             cached_json C SCHEMA (namespace @ lit '':tables'') ttl_s (kc_tables K) (ad_list_tables inner),
           ad_describe_table := (\<lambda>table.
             cached_json C SCHEMA (namespace @ lit '':table:'' @ casefold U table) ttl_s
               (kc_description K) (ad_describe_table inner table))\<rparr>"

section \<open>A cache beside a store\<close>

text \<open>
  The cache (its client and breaker) and the world are two parts of one state: \<open>Cache\<close> works on
  the first, the plain store on the second, the cached store on both.
\<close>

definition lift_cache :: "'c cache \<Rightarrow> ('c \<times> 'w) cache" where
  "lift_cache C =
     \<lparr>ca_get = (\<lambda>key. io_on_fst (ca_get C key)),
      ca_set = (\<lambda>key v ttl. io_on_fst (ca_set C key v ttl)),
      ca_version = (\<lambda>family. io_on_fst (ca_version C family)),
      ca_bump = (\<lambda>family. io_on_fst (ca_bump C family)),
      ca_ping = io_on_fst (ca_ping C), ca_close = io_on_fst (ca_close C)\<rparr>"

definition lift_store :: "'w meta_store \<Rightarrow> ('c \<times> 'w) meta_store" where
  "lift_store M =
     \<lparr>ms_list_connections = (\<lambda>subs. io_on_snd (ms_list_connections M subs)),
      ms_get_connection = (\<lambda>name subs. io_on_snd (ms_get_connection M name subs)),
      ms_allowed_tables = (\<lambda>cid subs. io_on_snd (ms_allowed_tables M cid subs)),
      ms_allowed_tools = (\<lambda>subs. io_on_snd (ms_allowed_tools M subs)),
      ms_descriptions = (\<lambda>cid. io_on_snd (ms_descriptions M cid)),
      ms_search_descriptions = (\<lambda>cid keyword tables limit.
         io_on_snd (ms_search_descriptions M cid keyword tables limit)),
      ms_write_audit = (\<lambda>e. io_on_snd (ms_write_audit M e)),
      ms_close = io_on_snd (ms_close M)\<rparr>"

end
