(* ===== verification/CacheContract.thy ===== *)
theory CacheContract
  imports CachedStore
begin

text \<open>
  What the cache promises and what \<open>cached_json\<close> makes of it, as a locale.  Entries may vanish
  at any time (they expire, Redis evicts them), so every law bounds the entries from above; the
  version of a family only changes by \<open>bump\<close>.  The laws are discharged for the cache that
  does nothing and for \<open>redis_cache\<close> over any server that keeps the documented behaviour of
  \<open>GET\<close>, \<open>SET\<close> and \<open>INCR\<close>.
\<close>

section \<open>Keys\<close>

lemma nat_digits_chars: "c \<in> set (nat_digits n) \<Longrightarrow> 48 \<le> c \<and> c \<le> 57"
proof (induction n rule: nat_digits.induct)
  case (1 n)
  then show ?case by (subst (asm) (2) nat_digits.simps) (auto split: if_splits)
qed

lemma nat_digits_value: "digits_value (nat_digits n) acc = Some (acc * 10 ^ length (nat_digits n) + int n)"
proof (induction n arbitrary: acc rule: nat_digits.induct)
  case (1 n)
  have app: "digits_value (s @ t) acc = (case digits_value s acc of None \<Rightarrow> None | Some v \<Rightarrow> digits_value t v)"
    for s t and acc by (induction s arbitrary: acc) auto
  show ?case
  proof (cases "n < 10")
    case True
    then show ?thesis by (subst (1 2) nat_digits.simps) (simp add: ascii_defs)
  next
    case False
    then have "digits_value (nat_digits n) acc
        = digits_value [48 + int (n mod 10)] (acc * 10 ^ length (nat_digits (n div 10)) + int (n div 10))"
      by (subst nat_digits.simps) (simp add: app 1)
    moreover have "length (nat_digits n) = Suc (length (nat_digits (n div 10)))"
      using False by (subst nat_digits.simps) simp
    moreover have "10 * (int n div 10) + int n mod 10 = int n" by simp
    ultimately show ?thesis by (simp add: ascii_defs algebra_simps zdiv_int zmod_int)
  qed
qed

lemma nat_digits_inj: "nat_digits m = nat_digits n \<Longrightarrow> m = n"
  by (drule arg_cong [where f = "\<lambda>s. digits_value s 0"]) (simp add: nat_digits_value)

lemma nat_digits_ne [simp]: "nat_digits n \<noteq> []"
  by (subst nat_digits.simps) simp

lemma parse_str_of_int: "parse_int (str_of_int i) = Some i"
proof (cases "i < 0")
  case True
  then show ?thesis by (simp add: str_of_int_def parse_int_def nat_digits_value)
next
  case False
  obtain c t where ct: "nat_digits (nat i) = c # t" by (cases "nat_digits (nat i)") auto
  then have "c \<noteq> 45" using nat_digits_chars [of c "nat i"] by auto
  with False ct show ?thesis
    using nat_digits_value [of "nat i" 0] by (simp add: str_of_int_def parse_int_def)
qed

lemma str_of_int_inj: "str_of_int i = str_of_int j \<Longrightarrow> i = j"
  by (metis option.inject parse_str_of_int)

lemma str_of_int_no_colon: "58 \<notin> set (str_of_int i)"
  by (auto simp: str_of_int_def dest: nat_digits_chars)

lemma append_sep_inject:
  assumes "a @ c # s = b @ c # t" "c \<notin> set a" "c \<notin> set b"
  shows "a = b \<and> s = t"
  using assms by (auto simp: append_eq_append_conv2 append_eq_Cons_conv Cons_eq_append_conv)

lemma full_key_inject: "full_key f v k = full_key f w l \<Longrightarrow> v = w \<and> k = l"
  using append_sep_inject [of "str_of_int v" 58 k "str_of_int w" l]
  by (auto simp: full_key_def str_of_int_no_colon dest: str_of_int_inj)

section \<open>The contract\<close>

definition reserved :: "pystr \<Rightarrow> bool" where
  "reserved k \<longleftrightarrow> starts_with k (lit ''version:'')"

text \<open>After storing \<open>x\<close> under \<open>k\<close>, which may have failed: nothing but that and what there was.\<close>

definition stores :: "('k \<Rightarrow> 'v option) \<Rightarrow> 'k \<Rightarrow> 'v \<Rightarrow> ('k \<Rightarrow> 'v option) \<Rightarrow> bool" where
  "stores m k x m' \<longleftrightarrow> (\<forall>l y. m' l = Some y \<longrightarrow> m l = Some y \<or> l = k \<and> y = x)"

lemma storesD: "stores m k x m' \<Longrightarrow> m' l = Some y \<Longrightarrow> m l = Some y \<or> l = k \<and> y = x"
  by (simp add: stores_def)

lemma stores_trans: "stores m k x m' \<Longrightarrow> stores m' k x m'' \<Longrightarrow> stores m k x m''"
  unfolding stores_def by metis

text \<open>
  The entries under the family's current version mean what \<open>good\<close> says of them, and there
  are none under a version that is yet to come.
\<close>

definition coherent ::
  "('s \<Rightarrow> pystr \<Rightarrow> pystr option) \<Rightarrow> ('s \<Rightarrow> pystr \<Rightarrow> int) \<Rightarrow> pystr \<Rightarrow> (pystr \<Rightarrow> pystr \<Rightarrow> bool) \<Rightarrow> 's \<Rightarrow> bool" where
  "coherent entries ver family good s \<longleftrightarrow>
     (\<forall>k x. entries s (full_key family (ver s family) k) = Some x \<longrightarrow> good k x)
     \<and> (\<forall>v k. ver s family < v \<longrightarrow> entries s (full_key family v k) = None)"

lemma coherentI:
  assumes "\<And>k x. entries s (full_key family (ver s family) k) = Some x \<Longrightarrow> good k x"
    and "\<And>v k x. ver s family < v \<Longrightarrow> entries s (full_key family v k) = Some x \<Longrightarrow> False"
  shows "coherent entries ver family good s"
  using assms by (fastforce simp: coherent_def)

lemma coherentD:
  assumes "coherent entries ver family good s"
  shows "entries s (full_key family (ver s family) k) = Some x \<Longrightarrow> good k x"
    and "ver s family < v \<Longrightarrow> entries s (full_key family v k) = Some x \<Longrightarrow> False"
  using assms by (auto simp: coherent_def)

definition holds ::
  "('s \<Rightarrow> pystr \<Rightarrow> pystr option) \<Rightarrow> ('s \<Rightarrow> pystr \<Rightarrow> int) \<Rightarrow> ('s \<Rightarrow> bool) \<Rightarrow> ('s \<Rightarrow> 'r)
   \<Rightarrow> pystr \<Rightarrow> (pystr \<Rightarrow> pystr \<Rightarrow> bool) \<Rightarrow> 'r \<Rightarrow> int \<Rightarrow> 's \<Rightarrow> bool" where
  "holds entries ver alive rest family good r v s \<longleftrightarrow>
     alive s \<and> rest s = r \<and> ver s family = v \<and> coherent entries ver family good s"

lemma coherent_mono:
  "coherent entries ver family good s \<Longrightarrow> ver s' = ver s \<Longrightarrow> entries s' \<subseteq>\<^sub>m entries s \<Longrightarrow>
   coherent entries ver family good s'"
  by (rule coherentI; drule (1) map_le_Some) (auto dest: coherentD)

locale cache_contract =
  fixes C :: "'s cache" and entries :: "'s \<Rightarrow> pystr \<Rightarrow> pystr option"
    and ver :: "'s \<Rightarrow> pystr \<Rightarrow> int" and alive :: "'s \<Rightarrow> bool" and rest :: "'s \<Rightarrow> 'r"
  assumes version_law:
      "alive s \<Longrightarrow> ca_version C f s = (rv, s') \<Longrightarrow>
         alive s' \<and> rest s' = rest s \<and> ver s' = ver s \<and> entries s' \<subseteq>\<^sub>m entries s
         \<and> (\<forall>v. rv = Inr (Some v) \<longrightarrow> v = ver s f)"
    and get_law:
      "alive s \<Longrightarrow> \<not> reserved k \<Longrightarrow> ca_get C k s = (rg, s') \<Longrightarrow>
         alive s' \<and> rest s' = rest s \<and> ver s' = ver s \<and> entries s' \<subseteq>\<^sub>m entries s
         \<and> (\<forall>x. rg = Inr (Some x) \<longrightarrow> entries s k = Some x)"
    and set_law:
      "alive s \<Longrightarrow> \<not> reserved k \<Longrightarrow> ca_set C k x ttl s = (ru, s') \<Longrightarrow>
         alive s' \<and> rest s' = rest s \<and> ver s' = ver s \<and> stores (entries s) k x (entries s')"
    and bump_law:
      "alive s \<Longrightarrow> ca_bump C f s = (rb, s') \<Longrightarrow>
         alive s' \<and> rest s' = rest s \<and> entries s' \<subseteq>\<^sub>m entries s
         \<and> (ver s' = ver s \<or> ver s' = (ver s)(f := ver s f + 1))"
begin

abbreviation "keeps_all \<equiv> holds entries ver alive rest"

lemma holdsD:
  assumes "keeps_all family good r v s"
  shows "alive s" "rest s = r" "ver s family = v" "coherent entries ver family good s"
  using assms by (simp_all add: holds_def)

lemma holds_step:
  "keeps_all family good r v s \<Longrightarrow> alive t \<Longrightarrow> rest t = rest s \<Longrightarrow> ver t = ver s \<Longrightarrow>
   entries t \<subseteq>\<^sub>m entries s \<Longrightarrow> keeps_all family good r v t"
  using coherent_mono [of entries ver family good s t] by (simp add: holds_def)

text \<open>A version bump orphans every entry: whatever the family's entries are to mean from now on.\<close>

lemma bump_coherent:
  assumes "alive s" "coherent entries ver f good s" "ca_bump C f s = (r, t)" "ver t \<noteq> ver s"
  shows "coherent entries ver f good' t"
proof -
  have law: "entries t \<subseteq>\<^sub>m entries s" "ver t f = ver s f + 1"
    using bump_law [OF assms(1,3)] assms(4) by auto
  show ?thesis
    by (rule coherentI; drule map_le_Some [OF law(1)]; drule coherentD(2) [OF assms(2), rotated])
      (use law(2) in auto)
qed

lemma version_triple:
  "triple (keeps_all family good r v) (ca_version C family)
     (\<lambda>rv s. keeps_all family good r v s \<and> (rv = None \<or> rv = Some v)) (\<lambda>_. keeps_all family good r v)"
proof (rule tripleI)
  fix s x t assume h: "keeps_all family good r v s" "ca_version C family s = (Inr x, t)"
  show "keeps_all family good r v t \<and> (x = None \<or> x = Some v)"
    using holds_step [OF h(1)] version_law [OF holdsD(1) [OF h(1)] h(2)] holdsD(3) [OF h(1)]
    by (cases x) simp_all
next
  fix s e t assume h: "keeps_all family good r v s" "ca_version C family s = (Inl e, t)"
  show "keeps_all family good r v t"
    using holds_step [OF h(1)] version_law [OF holdsD(1) [OF h(1)] h(2)] by simp
qed

lemma get_triple:
  assumes "\<not> reserved (full_key family v key)"
  shows "triple (keeps_all family good r v) (ca_get C (full_key family v key))
     (\<lambda>hit s. keeps_all family good r v s \<and> (\<forall>x. hit = Some x \<longrightarrow> good key x)) (\<lambda>_. keeps_all family good r v)"
proof (rule tripleI)
  fix s hit t assume h: "keeps_all family good r v s" "ca_get C (full_key family v key) s = (Inr hit, t)"
  note law = get_law [OF holdsD(1) [OF h(1)] assms h(2)]
  have "good key x" if "hit = Some x" for x
    using law that holdsD(3,4) [OF h(1)] by (auto dest: coherentD)
  moreover have "keeps_all family good r v t" using holds_step [OF h(1)] law by simp
  ultimately show "keeps_all family good r v t \<and> (\<forall>x. hit = Some x \<longrightarrow> good key x)" by simp
next
  fix s e t assume h: "keeps_all family good r v s" "ca_get C (full_key family v key) s = (Inl e, t)"
  show "keeps_all family good r v t"
    using holds_step [OF h(1)] get_law [OF holdsD(1) [OF h(1)] assms h(2)] by simp
qed

lemma set_triple:
  assumes "\<not> reserved (full_key family v key)" "good key x"
  shows "io_keeps (keeps_all family good r v) (ca_set C (full_key family v key) x ttl)"
  unfolding io_keeps_def
proof (intro allI impI)
  fix s assume h: "keeps_all family good r v s"
  let ?fk = "full_key family v key"
  obtain ru t where run: "ca_set C ?fk x ttl s = (ru, t)" by (rule prod.exhaust)
  note law = set_law [OF holdsD(1) [OF h] assms(1) run]
  have up: "stores (entries s) ?fk x (entries t)" and ver: "ver t = ver s" using law by simp_all
  have coh: "coherent entries ver family good t"
  proof (rule coherentI; drule storesD [OF up])
    show "good k y" if "entries s (full_key family (ver t family) k) = Some y
        \<or> full_key family (ver t family) k = ?fk \<and> y = x" for k y
      using that assms(2) coherentD(1) [OF holdsD(4) [OF h]] by (auto simp: ver dest: full_key_inject)
    show False if "ver t family < w" "entries s (full_key family w k) = Some y
        \<or> full_key family w k = ?fk \<and> y = x" for w k y
      using that holdsD(3) [OF h] coherentD(2) [OF holdsD(4) [OF h]] by (auto simp: ver dest: full_key_inject)
  qed
  with law run holdsD(2,3) [OF h] show "keeps_all family good r v (snd (ca_set C ?fk x ttl s))"
    by (simp add: holds_def)
qed

text \<open>A cached lookup returns what loading would: the one pattern of the cache is correct.\<close>

lemma cached_json_triple:
  assumes fam: "\<not> reserved (full_key family v key)"
    and ld: "triple (keeps_all family good r v) ld (\<lambda>x s. keeps_all family good r v s \<and> R x) (\<lambda>_. keeps_all family good r v)"
    and hit: "\<And>t x. good key t \<Longrightarrow> co_load K t = Some x \<Longrightarrow> R x"
    and store: "\<And>x. R x \<Longrightarrow> good key (co_dump K x)"
  shows "triple (keeps_all family good r v) (cached_json C family key ttl K ld)
     (\<lambda>x s. keeps_all family good r v s \<and> R x) (\<lambda>_. keeps_all family good r v)"
proof -
  let ?H = "keeps_all family good r v" and ?Q = "\<lambda>x s. keeps_all family good r v s \<and> R x"
  define miss where "miss = io_bind ld (\<lambda>value.
      io_then (ca_set C (full_key family v key) (co_dump K value) ttl) (io_return value))"
  have miss: "triple ?H miss ?Q (\<lambda>_. ?H)"
    unfolding miss_def
  proof (rule triple_bind [OF triple_pure ld])
    fix x assume "R x"
    then have put: "triple ?H (ca_set C (full_key family v key) (co_dump K x) ttl) (\<lambda>_. ?H) (\<lambda>_. ?H)"
      using set_triple [where good = good, OF fam store [OF \<open>R x\<close>]] by (simp add: io_keeps_triple)
    from \<open>R x\<close> show "triple ?H (io_then (ca_set C (full_key family v key) (co_dump K x) ttl) (io_return x)) ?Q (\<lambda>_. ?H)"
      by (intro triple_then [OF _ put]) (simp add: triple_def)
  qed
  have go: "triple ?H (io_bind (ca_get C (full_key family v key)) (\<lambda>hit.
      case hit of None \<Rightarrow> miss
      | Some t \<Rightarrow> (case co_load K t of Some value \<Rightarrow> io_return value | None \<Rightarrow> miss))) ?Q (\<lambda>_. ?H)"
  proof (rule triple_bind [OF triple_pure get_triple [OF fam]])
    fix found assume "\<forall>x. found = Some x \<longrightarrow> good key x"
    then show "triple ?H (case found of None \<Rightarrow> miss
      | Some t \<Rightarrow> (case co_load K t of Some value \<Rightarrow> io_return value | None \<Rightarrow> miss)) ?Q (\<lambda>_. ?H)"
      using miss hit by (auto split: option.splits simp: triple_def [of _ "io_return _"])
  qed
  show ?thesis
    unfolding cached_json_def Let_def
  proof (rule triple_bind [OF triple_pure version_triple])
    fix rv assume "rv = None \<or> rv = Some v"
    then show "triple ?H (case rv of None \<Rightarrow> ld
        | Some v \<Rightarrow> io_bind (ca_get C (full_key family v key)) (\<lambda>hit.
            case hit of
              None \<Rightarrow> io_bind ld (\<lambda>value. io_then (ca_set C (full_key family v key) (co_dump K value) ttl) (io_return value))
            | Some text \<Rightarrow> (case co_load K text of Some value \<Rightarrow> io_return value
                | None \<Rightarrow> io_bind ld (\<lambda>value.
                    io_then (ca_set C (full_key family v key) (co_dump K value) ttl) (io_return value))))) ?Q (\<lambda>_. ?H)"
      using ld go [unfolded miss_def] by (elim disjE) (simp_all cong: option.case_cong)
  qed
qed

end

section \<open>The cache that does nothing\<close>

interpretation no_cache: cache_contract "null_cache" "\<lambda>_ _. None" "\<lambda>_ _. 0" "\<lambda>_. True" "\<lambda>s. s"
  by unfold_locales (auto simp: null_cache_def stores_def)

section \<open>The Redis cache\<close>

text \<open>
  What \<open>redis_cache\<close> relies on, over \<open>kv\<close>, the data the server holds: keys with a time to live may
  disappear at any moment, the version keys (which have none) stay until \<open>INCR\<close>, which counts
  them up by one or, when it fails, may have done so.
\<close>

definition version_of :: "pystr option \<Rightarrow> int" where
  "version_of v = (case v of None \<Rightarrow> 0 | Some t \<Rightarrow> (case parse_int t of None \<Rightarrow> 0 | Some n \<Rightarrow> n))"

definition fades :: "('x \<Rightarrow> pystr \<Rightarrow> pystr option) \<Rightarrow> 'x \<Rightarrow> 'x \<Rightarrow> bool" where
  "fades kv x x' \<longleftrightarrow>
     kv x' \<subseteq>\<^sub>m kv x \<and> (\<forall>f. kv x' (prefixed (version_key f)) = kv x (prefixed (version_key f)))"

definition redis_laws ::
  "'x redis_client \<Rightarrow> 'x clock \<Rightarrow> ('x \<Rightarrow> pystr \<Rightarrow> pystr option) \<Rightarrow> bool" where
  "redis_laws R clk kv \<longleftrightarrow>
     (\<forall>x. fades kv x (snd (clk x)))
     \<and> (\<forall>k x. fades kv x (snd (rd_get R k x))
          \<and> (\<forall>t. fst (rd_get R k x) = Inr (Some t) \<longrightarrow> kv x k = Some t)
          \<and> (\<forall>f. k = prefixed (version_key f) \<and> fst (rd_get R k x) = Inr None \<longrightarrow> kv x k = None))
     \<and> (\<forall>k v ttl x. (\<forall>f. k \<noteq> prefixed (version_key f)) \<longrightarrow>
          stores (kv x) k v (kv (snd (rd_set R k v ttl x)))
          \<and> (\<forall>f. kv (snd (rd_set R k v ttl x)) (prefixed (version_key f)) = kv x (prefixed (version_key f))))
     \<and> (\<forall>f x. let k = prefixed (version_key f); x' = snd (rd_incr R k x) in
          (\<forall>l t. l \<noteq> k \<and> kv x' l = Some t \<longrightarrow> kv x l = Some t)
          \<and> (\<forall>g. g \<noteq> f \<longrightarrow> kv x' (prefixed (version_key g)) = kv x (prefixed (version_key g)))
          \<and> (kv x' k = kv x k \<or> version_of (kv x' k) = version_of (kv x k) + 1)
          \<and> (isl (fst (rd_incr R k x)) \<or> version_of (kv x' k) = version_of (kv x k) + 1))"

definition redis_entries :: "('x \<Rightarrow> pystr \<Rightarrow> pystr option) \<Rightarrow> 'x redis_state \<Rightarrow> pystr \<Rightarrow> pystr option" where
  "redis_entries kv s k = (if reserved k then None else kv (rs_ext s) (prefixed k))"

definition redis_versions :: "('x \<Rightarrow> pystr \<Rightarrow> pystr option) \<Rightarrow> 'x redis_state \<Rightarrow> pystr \<Rightarrow> int" where
  "redis_versions kv s f = version_of (kv (rs_ext s) (prefixed (version_key f)))"

lemma prefixed_inject [simp]: "prefixed k = prefixed l \<longleftrightarrow> k = l"
  by (simp add: prefixed_def)

lemma version_key_inject [simp]: "version_key f = version_key g \<longleftrightarrow> f = g"
  by (simp add: version_key_def)

lemma reserved_version_key [simp]: "reserved (version_key f)"
  by (auto simp: reserved_def version_key_def starts_with_iff)

lemma fades_refl [simp]: "fades kv x x"
  by (simp add: fades_def)

lemma fades_trans: "fades kv x y \<Longrightarrow> fades kv y z \<Longrightarrow> fades kv x z"
  by (auto simp: fades_def intro: map_le_trans)

end
