(* ===== verification/RedisServer.thy ===== *)
theory RedisServer
  imports CacheContract
begin

text \<open>
  \<open>redis_cache\<close> keeps the contract of a cache over every server with \<open>redis_laws\<close>: neither the
  circuit breaker nor a failing server makes it return anything but what is stored, and the
  version it reports is the server's.  The in-memory server at the end has the laws.
\<close>

locale redis_server =
  fixes R :: "'x redis_client" and clk :: "'x clock" and kv :: "'x \<Rightarrow> pystr \<Rightarrow> pystr option"
  assumes laws: "redis_laws R clk kv"
begin

lemma tick: "clk x = (t, y) \<Longrightarrow> fades kv x y"
  using laws unfolding redis_laws_def by (metis snd_conv)

lemma get_server:
  assumes "rd_get R k x = (r, y)"
  shows "fades kv x y" "r = Inr (Some t) \<Longrightarrow> kv x k = Some t"
    "r = Inr None \<Longrightarrow> k = prefixed (version_key f) \<Longrightarrow> kv x k = None"
  using laws assms unfolding redis_laws_def by (metis fst_conv snd_conv)+

lemma set_server:
  assumes "rd_set R (prefixed k) v ttl x = (r, y)" "\<not> reserved k"
  shows "stores (kv x) (prefixed k) v (kv y)"
    "kv y (prefixed (version_key f)) = kv x (prefixed (version_key f))"
proof -
  have "\<forall>f. prefixed k \<noteq> prefixed (version_key f)"
    using assms(2) reserved_version_key by auto
  then show "stores (kv x) (prefixed k) v (kv y)"
    "kv y (prefixed (version_key f)) = kv x (prefixed (version_key f))"
    using laws assms(1) unfolding redis_laws_def by (metis snd_conv)+
qed

lemma incr_server:
  assumes "rd_incr R (prefixed (version_key f)) x = (r, y)"
  shows "l \<noteq> prefixed (version_key f) \<Longrightarrow> kv y l = Some t \<Longrightarrow> kv x l = Some t"
    "g \<noteq> f \<Longrightarrow> kv y (prefixed (version_key g)) = kv x (prefixed (version_key g))"
    "kv y (prefixed (version_key f)) = kv x (prefixed (version_key f))
     \<or> version_of (kv y (prefixed (version_key f))) = version_of (kv x (prefixed (version_key f))) + 1"
    "r = Inr n \<Longrightarrow> version_of (kv y (prefixed (version_key f))) = version_of (kv x (prefixed (version_key f))) + 1"
  using laws assms unfolding redis_laws_def Let_def by (metis fst_conv snd_conv sum.disc(2))+

text \<open>Whatever only asks the server or the clock leaves what was stored, or less.\<close>

abbreviation "since x s \<equiv> fades kv x (rs_ext s)"

lemma available_since: "io_keeps (since x) (redis_available clk)"
  by (auto simp: io_keeps_def redis_available_def now_us_def io_bind_def split: prod.splits
      intro: fades_trans tick)

lemma trip_since: "io_keeps (since x) (trip_breaker clk)"
  by (auto simp: io_keeps_def trip_breaker_def now_us_def io_bind_def split: prod.splits
      intro: fades_trans tick)

lemma failed_since: "io_keeps (since x) (redis_failed clk)"
  unfolding redis_failed_def by (intro io_keeps_bind available_since trip_since)

lemma get_op_since:
  "triple (since x) (on_redis (rd_get R (prefixed k)))
     (\<lambda>r s. since x s \<and> (\<forall>t. r = Some t \<longrightarrow> kv x (prefixed k) = Some t)
          \<and> (\<forall>f. r = None \<and> k = version_key f \<longrightarrow> kv x (prefixed k) = None)) (\<lambda>_. since x)"
proof (rule tripleI)
  fix s r t assume h: "since x s" "on_redis (rd_get R (prefixed k)) s = (Inr r, t)"
  then obtain y where y: "rd_get R (prefixed k) (rs_ext s) = (Inr r, y)" "t = s\<lparr>rs_ext := y\<rparr>"
    by (auto simp: on_redis_def split: prod.splits)
  have le: "kv (rs_ext s) \<subseteq>\<^sub>m kv x"
    "kv (rs_ext s) (prefixed (version_key f)) = kv x (prefixed (version_key f))" for f
    using h(1) by (auto simp: fades_def)
  have "kv x (prefixed k) = Some u" if "r = Some u" for u
    using get_server(2) [OF y(1), of u] that by (intro map_le_Some [OF le(1)]) simp
  moreover have "kv x (prefixed k) = None" if "r = None" "k = version_key f" for f
    using get_server(3) [OF y(1), of f] that le(2) by simp
  ultimately show "since x t \<and> (\<forall>t. r = Some t \<longrightarrow> kv x (prefixed k) = Some t)
          \<and> (\<forall>f. r = None \<and> k = version_key f \<longrightarrow> kv x (prefixed k) = None)"
    using fades_trans [OF h(1) get_server(1) [OF y(1)]] y(2) by auto
next
  fix s e t assume h: "since x s" "on_redis (rd_get R (prefixed k)) s = (Inl e, t)"
  then show "since x t"
    using get_server(1) [of "prefixed k" "rs_ext s"] fades_trans
    by (fastforce simp: on_redis_def split: prod.splits)
qed

lemma swallow_since:
  assumes "triple (since x) m (\<lambda>r s. since x s \<and> Q r) (\<lambda>_. since x)" "Q d"
  shows "triple (since x) (swallow clk d m) (\<lambda>r s. since x s \<and> Q r) (\<lambda>_. since x)"
proof (rule tripleI)
  fix s r t assume h: "since x s" "swallow clk d m s = (Inr r, t)"
  obtain q u where m: "m s = (q, u)" by (rule prod.exhaust)
  show "since x t \<and> Q r"
  proof (cases q)
    case (Inr a)
    then show ?thesis using h m tripleD_Inr [OF assms(1) h(1)] by (simp add: swallow_def)
  next
    case (Inl e)
    then have "since x u" using m tripleD_Inl [OF assms(1) h(1)] by simp
    with Inl h(2) m show ?thesis
      using assms(2) io_keepsD [OF failed_since, of x u]
      by (auto simp: swallow_def io_then_Inr_iff split: if_splits)
  qed
next
  fix s e t assume h: "since x s" "swallow clk d m s = (Inl e, t)"
  have "io_keeps (since x) m"
    by (rule triple_keeps [OF assms(1)])
  then have "io_keeps (since x) (swallow clk d m)"
    unfolding swallow_def by (intro io_keeps_catch io_keeps_if io_keeps_then failed_since io_keeps_basic)
  from io_keepsD [OF this h] show "since x t" .
qed

lemma when_up_since:
  assumes "triple (since x) m (\<lambda>r s. since x s \<and> Q r) (\<lambda>_. since x)" "Q d"
  shows "triple (since x) (io_bind (redis_available clk) (\<lambda>up. if \<not> up then io_return d else m))
     (\<lambda>r s. since x s \<and> Q r) (\<lambda>_. since x)"
proof (rule triple_bind [OF _ available_since [unfolded io_keeps_triple]])
  show "triple (since x) (if \<not> up then io_return d else m) (\<lambda>r s. since x s \<and> Q r) (\<lambda>_. since x)" for up
    using assms by (simp add: triple_def)
qed

lemma redis_get_since:
  "triple (since x) (redis_get R clk k)
     (\<lambda>r s. since x s \<and> (\<forall>t. r = Some t \<longrightarrow> kv x (prefixed k) = Some t)) (\<lambda>_. since x)"
  unfolding redis_get_def
  by (rule when_up_since, rule swallow_since, rule triple_post [OF get_op_since]) auto

lemma redis_version_since:
  "triple (since x) (redis_version R clk f)
     (\<lambda>r s. since x s \<and> (\<forall>v. r = Some v \<longrightarrow> v = version_of (kv x (prefixed (version_key f))))) (\<lambda>_. since x)"
  unfolding redis_version_def
proof (rule when_up_since)
  let ?k = "prefixed (version_key f)"
  define Q where "Q found \<longleftrightarrow> (\<forall>v. found = Some v \<longrightarrow> v = kv x ?k)" for found
  have ask: "triple (since x)
      (swallow clk None (io_bind (on_redis (rd_get R ?k)) (\<lambda>v. io_return (Some v))))
      (\<lambda>found s. since x s \<and> Q found) (\<lambda>_. since x)"
  proof (rule swallow_since, rule triple_bind [OF _ get_op_since])
    show "triple (\<lambda>s. since x s \<and> (\<forall>t. v = Some t \<longrightarrow> kv x ?k = Some t)
          \<and> (\<forall>fa. v = None \<and> version_key f = version_key fa \<longrightarrow> kv x ?k = None))
        (io_return (Some v)) (\<lambda>found s. since x s \<and> Q found) (\<lambda>_. since x)" for v
      by (cases v) (auto simp: triple_def Q_def)
  qed (simp add: Q_def)
  show "triple (since x)
     (io_bind (swallow clk None (io_bind (on_redis (rd_get R ?k)) (\<lambda>v. io_return (Some v))))
       (\<lambda>found. case found of None \<Rightarrow> io_return None | Some None \<Rightarrow> io_return (Some 0)
          | Some (Some text) \<Rightarrow> (case parse_int text of None \<Rightarrow> io_raise (OtherError (lit ''ValueError''))
               | Some n \<Rightarrow> io_return (Some n))))
     (\<lambda>r s. since x s \<and> (\<forall>v. r = Some v \<longrightarrow> v = version_of (kv x ?k))) (\<lambda>_. since x)"
    by (rule triple_bind [OF _ ask])
      (auto simp: triple_def Q_def version_of_def split: option.splits prod.splits sum.splits)
qed simp

lemma redis_set_stores:
  assumes res: "\<not> reserved k" and run: "redis_set R clk k v ttl s = (r, s')"
  shows "stores (kv (rs_ext s)) (prefixed k) v (kv (rs_ext s'))
    \<and> (\<forall>f. kv (rs_ext s') (prefixed (version_key f)) = kv (rs_ext s) (prefixed (version_key f)))"
proof -
  define I where "I t \<longleftrightarrow> stores (kv (rs_ext s)) (prefixed k) v (kv (rs_ext t))
    \<and> (\<forall>f. kv (rs_ext t) (prefixed (version_key f)) = kv (rs_ext s) (prefixed (version_key f)))"
    for t :: "'x redis_state"
  have step: "I u" if "I t" "since (rs_ext t) u" for t u
    using that by (auto simp: I_def fades_def stores_def dest: map_le_Some)
  have keeps: "io_keeps I m" if "\<And>x. io_keeps (since x) m" for m
    using step that [THEN io_keepsD, OF fades_refl] unfolding io_keeps_def by (metis prod.collapse)
  have put: "io_keeps I (on_redis (rd_set R (prefixed k) v ttl))"
    unfolding io_keeps_def
  proof (intro allI impI)
    fix t assume I: "I t"
    obtain q y where q: "rd_set R (prefixed k) v ttl (rs_ext t) = (q, y)" by (rule prod.exhaust)
    show "I (snd (on_redis (rd_set R (prefixed k) v ttl) t))"
      using I set_server(2) [OF q res] q
        stores_trans [of "kv (rs_ext s)" "prefixed k" v "kv (rs_ext t)", OF _ set_server(1) [OF q res]]
      by (simp add: I_def on_redis_def)
  qed
  have "io_keeps I (redis_set R clk k v ttl)"
    unfolding redis_set_def swallow_def
    by (intro io_keeps_bind io_keeps_if io_keeps_catch io_keeps_then put keeps failed_since available_since io_keeps_basic)
  moreover have "I s" by (simp add: I_def stores_def)
  ultimately have "I s'" using run by (rule io_keepsD)
  then show ?thesis by (simp add: I_def)
qed

lemma redis_bump_counts:
  assumes run: "redis_bump R clk f s = (r, s')"
  shows "redis_entries kv s' \<subseteq>\<^sub>m redis_entries kv s"
    and "redis_versions kv s' = redis_versions kv s
      \<or> redis_versions kv s' = (redis_versions kv s)(f := redis_versions kv s f + 1)"
    and "rd_incr R (prefixed (version_key f)) (rs_ext s) = (Inr n, y) \<Longrightarrow> redis_versions kv s' \<noteq> redis_versions kv s"
proof -
  let ?k = "prefixed (version_key f)"
  obtain q y where q: "rd_incr R ?k (rs_ext s) = (q, y)" by (rule prod.exhaust)
  have s': "fades kv y (rs_ext s')" and ok: "q = Inr n \<Longrightarrow> rs_ext s' = y" for n
    using run q tick
    by (auto simp: redis_bump_def io_catch_def io_bind_def on_redis_def trip_breaker_def now_us_def
        split: sum.splits prod.splits if_splits)
  have ver: "kv (rs_ext s') (prefixed (version_key g)) = kv y (prefixed (version_key g))" for g
    using s' by (simp add: fades_def)
  show "redis_entries kv s' \<subseteq>\<^sub>m redis_entries kv s"
    unfolding map_le_def
  proof
    fix a assume "a \<in> dom (redis_entries kv s')"
    then obtain t where a: "\<not> reserved a" "kv (rs_ext s') (prefixed a) = Some t"
      by (auto simp: redis_entries_def split: if_splits)
    then have "kv y (prefixed a) = Some t" using s' by (auto simp: fades_def dest: map_le_Some)
    moreover have "prefixed a \<noteq> ?k" using a(1) by auto
    ultimately have "kv (rs_ext s) (prefixed a) = Some t" by (intro incr_server(1) [OF q])
    with a show "redis_entries kv s' a = redis_entries kv s a" by (simp add: redis_entries_def)
  qed
  have other: "redis_versions kv s' g = redis_versions kv s g" if "g \<noteq> f" for g
    using incr_server(2) [OF q that] by (simp add: redis_versions_def ver)
  show "redis_versions kv s' = redis_versions kv s
      \<or> redis_versions kv s' = (redis_versions kv s)(f := redis_versions kv s f + 1)"
  proof (cases "redis_versions kv s' f = redis_versions kv s f")
    case True
    then show ?thesis using other by (metis ext)
  next
    case False
    then have "redis_versions kv s' f = redis_versions kv s f + 1"
      using incr_server(3) [OF q] by (auto simp: redis_versions_def ver)
    then show ?thesis using other by (simp add: fun_eq_iff)
  qed
  show "redis_versions kv s' \<noteq> redis_versions kv s"
    if "rd_incr R (prefixed (version_key f)) (rs_ext s) = (Inr n, y')" for n y'
  proof
    assume "redis_versions kv s' = redis_versions kv s"
    then have "redis_versions kv s' f = redis_versions kv s f" by simp
    then show False using incr_server(4) [OF q, of n] that q by (simp add: redis_versions_def ver)
  qed
qed

text \<open>Any server with the laws gives a cache that keeps the contract.\<close>

lemma redis_contract:
  "cache_contract (redis_cache R clk) (redis_entries kv) (redis_versions kv) (\<lambda>_. True) (\<lambda>_. ())"
proof (unfold_locales, goal_cases)
  case (1 s f rv s')
  then have run: "redis_version R clk f s = (rv, s')" by (simp add: redis_cache_def)
  have "fades kv (rs_ext s) (rs_ext s')"
    using run tripleD_Inl [OF redis_version_since fades_refl] tripleD_Inr [OF redis_version_since fades_refl]
    by (cases rv) blast+
  moreover have "rv = Inr (Some v) \<Longrightarrow> v = redis_versions kv s f" for v
    using run tripleD_Inr [OF redis_version_since fades_refl] by (auto simp: redis_versions_def)
  ultimately show ?case
    by (auto simp: fades_def redis_versions_def redis_entries_def map_le_def fun_eq_iff)
next
  case (2 s k rg s')
  then have run: "redis_get R clk k s = (rg, s')" by (simp add: redis_cache_def)
  have "fades kv (rs_ext s) (rs_ext s')"
    using run tripleD_Inl [OF redis_get_since fades_refl] tripleD_Inr [OF redis_get_since fades_refl]
    by (cases rg) blast+
  moreover have "rg = Inr (Some x) \<Longrightarrow> kv (rs_ext s) (prefixed k) = Some x" for x
    using run tripleD_Inr [OF redis_get_since fades_refl] by blast
  ultimately show ?case using 2(2)
    by (auto simp: fades_def redis_versions_def redis_entries_def map_le_def fun_eq_iff)
next
  case (3 s k x ttl ru s')
  then have st: "stores (kv (rs_ext s)) (prefixed k) x (kv (rs_ext s'))"
    and ver: "redis_versions kv s' = redis_versions kv s"
    using redis_set_stores [of k x ttl s ru s']
    by (auto simp: redis_cache_def redis_versions_def fun_eq_iff)
  then have "stores (redis_entries kv s) k x (redis_entries kv s')"
    unfolding stores_def [of "redis_entries kv s"] by (auto simp: redis_entries_def dest: storesD)
  with ver show ?case by simp
next
  case (4 s f rb s')
  then show ?case using redis_bump_counts(1,2) [of f s rb s'] by (simp add: redis_cache_def)
qed

end

sublocale redis_server \<subseteq> cache_contract "redis_cache R clk" "redis_entries kv" "redis_versions kv"
    "\<lambda>_. True" "\<lambda>_. ()"
  by (rule redis_contract)

section \<open>An in-memory server\<close>

type_synonym kv_data = "pystr \<Rightarrow> pystr option"

definition mem_redis :: "kv_data redis_client" where
  "mem_redis =
     \<lparr>rd_get = (\<lambda>k x. (Inr (x k), x)),
      rd_set = (\<lambda>k v ttl x. (Inr (), x(k \<mapsto> v))),
      rd_incr = (\<lambda>k x. (Inr (version_of (x k) + 1), x(k \<mapsto> str_of_int (version_of (x k) + 1)))),
      rd_ping = (\<lambda>x. (Inr True, x)),
      rd_aclose = (\<lambda>x. (Inr (), x))\<rparr>"

lemma version_of_str [simp]: "version_of (Some (str_of_int n)) = n"
  by (simp add: version_of_def parse_str_of_int)

lemma mem_redis_laws: "redis_laws mem_redis (\<lambda>x. (0, x)) (\<lambda>x. x)"
  by (auto simp: redis_laws_def mem_redis_def stores_def)

interpretation memory: redis_server mem_redis "\<lambda>x. (0, x)" "\<lambda>x. x"
  by unfold_locales (rule mem_redis_laws)

end
