(* ===== verification/CachedGrants.thy ===== *)
theory CachedGrants
  imports RedisServer GuardedStore
begin

text \<open>
  \<open>CachedMetaStore\<close> over any cache with the contract and any store with the contract is again a
  store with the contract: what it answers from the cache is what the tables hold.  The cache
  state and the world are the two parts of one state; each operation works on its own part.
\<close>

section \<open>Fingerprints\<close>

text \<open>Subjects that cannot be confused when joined: no name holds a line feed.\<close>

definition plain_subjects :: "subject list \<Rightarrow> bool" where
  "plain_subjects subs \<longleftrightarrow>
     subs \<noteq> [] \<and> list_all (\<lambda>(kind, name). (kind = lit ''user'' \<or> kind = lit ''role'') \<and> 10 \<notin> set name) subs"

lemma join_inject:
  assumes "\<forall>w \<in> set ws. c \<notin> set w" "\<forall>w \<in> set vs. c \<notin> set w" "ws \<noteq> []" "vs \<noteq> []"
    "join [c] ws = join [c] vs"
  shows "ws = vs"
  using assms by (metis split_on_join)

lemma subject_line_inject:
  "(k = lit ''user'' \<or> k = lit ''role'') \<Longrightarrow> (k' = lit ''user'' \<or> k' = lit ''role'') \<Longrightarrow>
   k @ lit '':'' @ n = k' @ lit '':'' @ n' \<Longrightarrow> k = k' \<and> n = n'"
  by (auto simp: lit_def)

lemma set_sorted_subjects [simp]: "set (sorted_subjects subs) = set subs"
  by (simp add: sorted_subjects_def)

lemma fingerprint_text_inject:
  assumes "plain_subjects a" "plain_subjects b" "fingerprint_text a = fingerprint_text b"
  shows "set a = set b"
proof -
  let ?line = "\<lambda>(kind, name). kind @ lit '':'' @ (name :: pystr)"
  have ok: "s \<in> set subs \<Longrightarrow> (fst s = lit ''user'' \<or> fst s = lit ''role'') \<and> 10 \<notin> set (snd s)"
    if "plain_subjects subs" for s subs
    using that by (auto simp: plain_subjects_def list_all_iff)
  have clean: "\<forall>w \<in> set (map ?line (sorted_subjects subs)). 10 \<notin> set w" if p: "plain_subjects subs" for subs
  proof
    fix w assume "w \<in> set (map ?line (sorted_subjects subs))"
    then obtain s where s: "s \<in> set subs" "w = fst s @ lit '':'' @ snd s" by auto
    from ok [OF p s(1)] show "10 \<notin> set w" by (auto simp: s(2) lit_def)
  qed
  have ne: "map ?line (sorted_subjects subs) \<noteq> []" if "plain_subjects subs" for subs
  proof -
    from that have "set (sorted_subjects subs) \<noteq> {}" by (simp add: plain_subjects_def)
    then show ?thesis by (simp only: map_is_Nil_conv set_empty not_False_eq_True)
  qed
  have same: "map ?line (sorted_subjects a) = map ?line (sorted_subjects b)"
    by (rule join_inject [OF clean [OF assms(1)] clean [OF assms(2)] ne [OF assms(1)] ne [OF assms(2)]])
      (use assms(3) in \<open>simp only: fingerprint_text_def\<close>)
  have img: "?line ` set a = ?line ` set b"
    using arg_cong [OF same, of set] by (simp only: set_map set_sorted_subjects)
  have inj: "inj_on ?line (set a \<union> set b)"
  proof (rule inj_onI)
    fix s t assume st: "s \<in> set a \<union> set b" "t \<in> set a \<union> set b" "?line s = ?line t"
    have "fst s = fst t \<and> snd s = snd t"
    proof (rule subject_line_inject)
      show "fst s = lit ''user'' \<or> fst s = lit ''role''" "fst t = lit ''user'' \<or> fst t = lit ''role''"
        using st(1,2) ok [OF assms(1)] ok [OF assms(2)] by blast+
      show "fst s @ lit '':'' @ snd s = fst t @ lit '':'' @ snd t" using st(3) by (simp only: case_prod_beta)
    qed
    then show "s = t" by (simp only: prod_eq_iff)
  qed
  from img inj show ?thesis by (simp add: inj_on_image_eq_iff)
qed

section \<open>What the entries mean\<close>

text \<open>Whatever an entry is read back as, it is this; and a codec that reads back what it wrote.\<close>

definition means :: "'a codec \<Rightarrow> pystr \<Rightarrow> 'a \<Rightarrow> bool" where
  "means K text x \<longleftrightarrow> (\<forall>y. co_load K text = Some y \<longrightarrow> y = x)"

definition faithful :: "'a codec \<Rightarrow> bool" where
  "faithful K \<longleftrightarrow> (\<forall>x. means K (co_dump K x) x)"

definition faithful_codecs :: "store_codecs \<Rightarrow> bool" where
  "faithful_codecs K \<longleftrightarrow> faithful (sc_records K) \<and> faithful (sc_names K) \<and> faithful (sc_rows K)"

text \<open>
  \<open>told_apart\<close>: the cache keys tell the callers in use apart.  The digest's part of it: it is hexadecimal, so
  it holds no colon, and no two of the joined texts in use collide (the first 32 digits of a SHA-256
  need not be injective: that no two callers collide is an idealisation).  The callers' part of it:
  no name holds a line feed, which the code does not enforce (\<open>line_feed_role_let_in\<close>).
\<close>

definition digest_ok :: "(pystr \<Rightarrow> pystr) \<Rightarrow> subject list set \<Rightarrow> bool" where
  "digest_ok digest known \<longleftrightarrow> (\<forall>t. 58 \<notin> set (digest t)) \<and> inj_on digest (fingerprint_text ` known)"

definition told_apart :: "(pystr \<Rightarrow> pystr) \<Rightarrow> subject list set \<Rightarrow> bool" where
  "told_apart digest known \<longleftrightarrow> digest_ok digest known \<and> (\<forall>subs \<in> known. plain_subjects subs)"

definition store_good ::
  "(pystr \<Rightarrow> pystr) \<Rightarrow> store_codecs \<Rightarrow> (pystr \<Rightarrow> pystr) \<Rightarrow> (pystr \<Rightarrow> pystr) \<Rightarrow> subject list set
   \<Rightarrow> app_meta \<Rightarrow> pystr \<Rightarrow> pystr \<Rightarrow> bool" where
  "store_good digest K collate lower known m key text \<longleftrightarrow>
     (\<forall>subs \<in> known. key = connections_key digest subs \<longrightarrow>
        means (sc_records K) text (list_connections_q collate subs m))
     \<and> (\<forall>subs \<in> known. \<forall>cid. key = tables_key digest cid subs \<longrightarrow>
        means (sc_names K) text (sorted_strs (allowed_tables_q cid subs m)))
     \<and> (\<forall>subs \<in> known. key = tools_key digest subs \<longrightarrow>
        means (sc_names K) text (sorted_strs (allowed_tools_q subs m)))
     \<and> (\<forall>cid. key = descriptions_key cid \<longrightarrow>
        means (sc_rows K) text (rows_of_descriptions (descriptions_q lower cid m)))"

lemma store_goodI:
  assumes "\<And>subs. subs \<in> known \<Longrightarrow> key = connections_key digest subs \<Longrightarrow>
      means (sc_records K) text (list_connections_q collate subs m)"
    and "\<And>subs cid. subs \<in> known \<Longrightarrow> key = tables_key digest cid subs \<Longrightarrow>
      means (sc_names K) text (sorted_strs (allowed_tables_q cid subs m))"
    and "\<And>subs. subs \<in> known \<Longrightarrow> key = tools_key digest subs \<Longrightarrow>
      means (sc_names K) text (sorted_strs (allowed_tools_q subs m))"
    and "\<And>cid. key = descriptions_key cid \<Longrightarrow>
      means (sc_rows K) text (rows_of_descriptions (descriptions_q lower cid m))"
  shows "store_good digest K collate lower known m key text"
  using assms unfolding store_good_def by blast

lemma same_fingerprint:
  assumes "told_apart digest known" "a \<in> known" "b \<in> known"
    "subjects_fingerprint digest a = subjects_fingerprint digest b"
  shows "set a = set b"
  using assms by (intro fingerprint_text_inject)
    (auto simp: told_apart_def digest_ok_def subjects_fingerprint_def dest: inj_onD)

lemma queries_by_set:
  assumes "set a = set b"
  shows "list_connections_q collate a = list_connections_q collate b"
    "allowed_tables_q cid a = allowed_tables_q cid b" "allowed_tools_q a = allowed_tools_q b"
  using assms
  by (auto simp: list_connections_q_def allowed_tables_q_def allowed_tools_q_def usable_connection_def
      matches_a_subject_def fun_eq_iff cong: filter_cong)

lemma append_last_sep_inject:
  assumes "s @ c # a = t @ c # b" "c \<notin> set a" "c \<notin> set b"
  shows "s = t \<and> a = b"
proof -
  have "rev a @ c # rev s = rev b @ c # rev t" using arg_cong [OF assms(1), of rev] by simp
  with assms(2,3) show ?thesis by (auto dest: append_sep_inject)
qed

lemma keys_differ:
  "connections_key digest a \<noteq> tables_key digest cid b" "connections_key digest a \<noteq> tools_key digest b"
  "connections_key digest a \<noteq> descriptions_key cid" "tables_key digest cid a \<noteq> tools_key digest b"
  "tables_key digest cid a \<noteq> descriptions_key cid'" "tools_key digest a \<noteq> descriptions_key cid'"
  by (simp_all add: connections_key_def tables_key_def tools_key_def descriptions_key_def)

lemma tables_key_inject:
  assumes "told_apart digest known" "tables_key digest cid a = tables_key digest cid' b"
  shows "cid = cid' \<and> subjects_fingerprint digest a = subjects_fingerprint digest b"
  using append_last_sep_inject [of cid 58 "subjects_fingerprint digest a" cid' "subjects_fingerprint digest b"] assms
  by (auto simp: tables_key_def told_apart_def digest_ok_def subjects_fingerprint_def)

text \<open>What a miss stores under its key is good.\<close>

lemma stored_good:
  assumes "told_apart digest known" "faithful_codecs K"
  shows "a \<in> known \<Longrightarrow> store_good digest K collate lower known m (connections_key digest a)
      (co_dump (sc_records K) (list_connections_q collate a m))"
    and "a \<in> known \<Longrightarrow> store_good digest K collate lower known m (tables_key digest cid a)
      (co_dump (sc_names K) (sorted_strs (allowed_tables_q cid a m)))"
    and "a \<in> known \<Longrightarrow> store_good digest K collate lower known m (tools_key digest a)
      (co_dump (sc_names K) (sorted_strs (allowed_tools_q a m)))"
    and "store_good digest K collate lower known m (descriptions_key cid)
      (co_dump (sc_rows K) (rows_of_descriptions (descriptions_q lower cid m)))"
proof -
  have dump: "means (sc_records K) (co_dump (sc_records K) x) x" "means (sc_names K) (co_dump (sc_names K) y) y"
    "means (sc_rows K) (co_dump (sc_rows K) z) z" for x y z
    using assms(2) by (auto simp: faithful_codecs_def faithful_def)
  have fp: "subjects_fingerprint digest b = subjects_fingerprint digest a"
    if "connections_key digest a = connections_key digest b \<or> tools_key digest a = tools_key digest b" for a b
    using that by (auto simp only: connections_key_def tools_key_def same_append_eq)
  have conn: "list_connections_q collate b = list_connections_q collate a"
    if "a \<in> known" "b \<in> known" "connections_key digest a = connections_key digest b" for a b
    by (rule queries_by_set [OF same_fingerprint [OF assms(1) that(2,1) fp [OF disjI1 [OF that(3)]]]])
  have tool: "allowed_tools_q b = allowed_tools_q a"
    if "a \<in> known" "b \<in> known" "tools_key digest a = tools_key digest b" for a b
    by (rule queries_by_set [OF same_fingerprint [OF assms(1) that(2,1) fp [OF disjI2 [OF that(3)]]]])
  have tab: "cid = cid' \<and> allowed_tables_q cid' b = allowed_tables_q cid a"
    if "a \<in> known" "b \<in> known" "tables_key digest cid a = tables_key digest cid' b" for a b cid cid'
    using tables_key_inject [OF assms(1) that(3)] queries_by_set(2) [OF same_fingerprint [OF assms(1) that(1,2)], of cid]
    by auto
  note other = keys_differ keys_differ [symmetric]
  show "store_good digest K collate lower known m (connections_key digest a)
      (co_dump (sc_records K) (list_connections_q collate a m))" if a: "a \<in> known"
  proof (rule store_goodI)
    fix subs assume "subs \<in> known" "connections_key digest a = connections_key digest subs"
    then show "means (sc_records K) (co_dump (sc_records K) (list_connections_q collate a m))
        (list_connections_q collate subs m)" by (simp only: conn [OF a] dump)
  qed (simp_all only: other)
  show "store_good digest K collate lower known m (tables_key digest cid a)
      (co_dump (sc_names K) (sorted_strs (allowed_tables_q cid a m)))" if a: "a \<in> known"
  proof (rule store_goodI)
    fix subs cid' assume "subs \<in> known" "tables_key digest cid a = tables_key digest cid' subs"
    with tab [OF a this] show "means (sc_names K) (co_dump (sc_names K) (sorted_strs (allowed_tables_q cid a m)))
        (sorted_strs (allowed_tables_q cid' subs m))" by (simp only: dump)
  qed (simp_all only: other)
  show "store_good digest K collate lower known m (tools_key digest a)
      (co_dump (sc_names K) (sorted_strs (allowed_tools_q a m)))" if a: "a \<in> known"
  proof (rule store_goodI)
    fix subs assume "subs \<in> known" "tools_key digest a = tools_key digest subs"
    then show "means (sc_names K) (co_dump (sc_names K) (sorted_strs (allowed_tools_q a m)))
        (sorted_strs (allowed_tools_q subs m))" by (simp only: tool [OF a] dump)
  qed (simp_all only: other)
  show "store_good digest K collate lower known m (descriptions_key cid)
      (co_dump (sc_rows K) (rows_of_descriptions (descriptions_q lower cid m)))"
  proof (rule store_goodI)
    fix cid' assume "descriptions_key cid = descriptions_key cid'"
    then have "cid' = cid" by (simp add: descriptions_key_def)
    then show "means (sc_rows K) (co_dump (sc_rows K) (rows_of_descriptions (descriptions_q lower cid m)))
        (rows_of_descriptions (descriptions_q lower cid' m))" by (simp only: dump)
  qed (simp_all only: other)
qed

end
