(* ===== verification/CachedService.thy ===== *)
theory CachedService
  imports CachedGrants
begin

text \<open>
  \<open>CachedMetaStore\<close> keeps the store's contract: over any cache and any store with theirs, its
  answers are those of the tables, from the cache or not; and after a change of the tables
  whose version bump got through, nothing that was cached before it is served.
\<close>

section \<open>Descriptions as rows\<close>

lemma fold_dict_set:
  "distinct (map fst d) \<Longrightarrow> fst ` set d \<inter> fst ` set e = {} \<Longrightarrow>
   fold (\<lambda>(k, v) d. dict_set k v d) d e = e @ d"
proof (induction d arbitrary: e)
  case (Cons p d)
  obtain k v where p: "p = (k, v)" by (rule prod.exhaust)
  have app: "k \<notin> fst ` set e \<Longrightarrow> dict_set k v e = e @ [(k, v)]" for e
    by (induction k v e rule: dict_set.induct) auto
  from Cons.prems have "k \<notin> fst ` set e" "fst ` set d \<inter> fst ` set (e @ [(k, v)]) = {}" "distinct (map fst d)"
    by (auto simp: p)
  then show ?case using Cons.IH [of "e @ [(k, v)]"] by (simp add: p app)
qed simp

lemma descriptions_rows_inverse:
  assumes "distinct (map fst d)"
  shows "descriptions_of_rows (rows_of_descriptions d) = d"
proof -
  have "descriptions_of_rows (rows_of_descriptions d) = fold (\<lambda>(k, v) d. dict_set k v d) d []"
    by (simp add: descriptions_of_rows_def rows_of_descriptions_def fold_map comp_def case_prod_unfold)
  also have "\<dots> = d" using fold_dict_set [OF assms, of "[]"] by simp
  finally show ?thesis .
qed

lemma descriptions_q_distinct: "distinct (map fst (descriptions_q lower cid m))"
proof -
  have "distinct (map fst d) \<Longrightarrow>
      distinct (map fst (fold (\<lambda>r d. dict_set (lower (ds_table r), map_option lower (ds_column r)) (ds_description r) d) rs d))"
    for rs d by (induction rs arbitrary: d) (simp_all add: distinct_dict_set)
  from this [of "[]"] show ?thesis unfolding descriptions_q_def by simp
qed

lemma sorted_allowed [simp]:
  "set (sorted_strs (allowed_tables_q cid subs m)) = allowed_tables_q cid subs m"
  "set (sorted_strs (allowed_tools_q subs m)) = allowed_tools_q subs m"
  by (simp_all add: allowed_tables_q_def allowed_tools_q_def)

lemma same_queries:
  assumes "same_grants m m'"
  shows "list_connections_q collate subs m' = list_connections_q collate subs m"
    "allowed_tables_q cid subs m' = allowed_tables_q cid subs m"
    "allowed_tools_q subs m' = allowed_tools_q subs m" "descriptions_q lower cid m' = descriptions_q lower cid m"
proof -
  have "usable_connection m' = usable_connection m"
    using assms by (simp add: same_grants_def usable_connection_def fun_eq_iff)
  then show "list_connections_q collate subs m' = list_connections_q collate subs m"
    "allowed_tables_q cid subs m' = allowed_tables_q cid subs m"
    "allowed_tools_q subs m' = allowed_tools_q subs m" "descriptions_q lower cid m' = descriptions_q lower cid m"
    using assms by (simp_all add: same_grants_def list_connections_q_def allowed_tables_q_def
        allowed_tools_q_def descriptions_q_def)
qed

lemma store_good_grants:
  "same_grants m m' \<Longrightarrow> store_good digest K collate lower known m' = store_good digest K collate lower known m"
  by (simp add: store_good_def same_queries fun_eq_iff)

lemma not_reserved_meta: "\<not> reserved (full_key META v key)"
  by (simp add: reserved_def full_key_def META_def starts_with_def)

lemma triple_some:
  "(\<And>v. triple (P v) m (\<lambda>x s. P v s \<and> R x) (\<lambda>_. P v)) \<Longrightarrow>
   triple (\<lambda>s. \<exists>v. P v s) m (\<lambda>x s. (\<exists>v. P v s) \<and> R x) (\<lambda>_ s. \<exists>v. P v s)"
  by (rule tripleI) (blast dest: tripleD_Inr tripleD_Inl)+

lemma bind_return: "io_bind op io_return = op"
  by (rule ext) (simp add: io_bind_def split: prod.split sum.split)

section \<open>The cached store\<close>

definition cache_current ::
  "('c \<Rightarrow> pystr \<Rightarrow> pystr option) \<Rightarrow> ('c \<Rightarrow> pystr \<Rightarrow> int) \<Rightarrow> ('w \<Rightarrow> app_meta) \<Rightarrow> (app_meta \<Rightarrow> pystr \<Rightarrow> pystr \<Rightarrow> bool)
   \<Rightarrow> 'c \<times> 'w \<Rightarrow> bool" where
  "cache_current entries ver view good s \<longleftrightarrow>
     coherent (\<lambda>p. entries (fst p)) (\<lambda>p. ver (fst p)) META (good (view (snd s))) s"

locale cached_store =
  cache: cache_contract C entries ver alive "\<lambda>_. ()"
  + store: guarded_store M view ok collate lower search known
  for C :: "'c cache" and entries ver alive and M :: "'w meta_store" and view ok collate lower search known
  + fixes digest :: "pystr \<Rightarrow> pystr" and K :: store_codecs and permission_ttl description_ttl :: int
  assumes digest: "told_apart digest known" and codecs: "faithful_codecs K"
begin

abbreviation "good \<equiv> store_good digest K collate lower known"
abbreviation "cached \<equiv> cached_meta_store digest K (lift_cache C) permission_ttl description_ttl (lift_store M)"
abbreviation "fresh s \<equiv> alive (fst s) \<and> ok (snd s) \<and> cache_current entries ver view good s"
abbreviation "tables s \<equiv> view (snd s)"

end

sublocale cached_store \<subseteq> both: cache_contract "lift_cache C" "\<lambda>p. entries (fst p)" "\<lambda>p. ver (fst p)"
    "\<lambda>p. alive (fst p) \<and> ok (snd p)" "\<lambda>p. view (snd p)"
proof (unfold_locales, goal_cases)
  case (1 s f rv s')
  then show ?case using cache.version_law [of "fst s" f rv]
    by (auto simp: lift_cache_def io_on_fst_def split: prod.splits)
next
  case (2 s k rg s')
  then show ?case using cache.get_law [of "fst s" k rg]
    by (auto simp: lift_cache_def io_on_fst_def split: prod.splits)
next
  case (3 s k x ttl ru s')
  then show ?case using cache.set_law [of "fst s" k x ttl ru]
    by (auto simp: lift_cache_def io_on_fst_def split: prod.splits)
next
  case (4 s f rb s')
  then show ?case using cache.bump_law [of "fst s" f rb]
    by (auto simp: lift_cache_def io_on_fst_def split: prod.splits)
qed

context cached_store
begin

lemma fresh_iff:
  "fresh s \<and> tables s = m \<longleftrightarrow> (\<exists>v. both.keeps_all META (good m) m v s)"
  by (auto simp: holds_def cache_current_def)

lemma load_triple:
  assumes "answers ok view op q"
  shows "triple (both.keeps_all family g m v) (io_on_snd op)
     (\<lambda>x s. both.keeps_all family g m v s \<and> x = q m) (\<lambda>_. both.keeps_all family g m v)"
proof (rule tripleI)
  fix s x t assume h: "both.keeps_all family g m v s" "io_on_snd op s = (Inr x, t)"
  then have "op (snd s) = (Inr x, snd t)" "fst t = fst s" by (auto simp: io_on_snd_iff)
  then show "both.keeps_all family g m v t \<and> x = q m"
    using h(1) tripleD_Inr [OF answersD [OF assms, of m], of "snd s" x "snd t"] by (simp add: holds_def coherent_def)
next
  fix s e t assume h: "both.keeps_all family g m v s" "io_on_snd op s = (Inl e, t)"
  then have "op (snd s) = (Inl e, snd t)" "fst t = fst s" by (auto simp: io_on_snd_iff)
  then show "both.keeps_all family g m v t"
    using h(1) tripleD_Inl [OF answersD [OF assms, of m], of "snd s" e "snd t"] by (simp add: holds_def coherent_def)
qed

lemma answers_lifted:
  assumes "answers ok view op q"
  shows "answers (\<lambda>s. fresh s) (\<lambda>s. tables s) (io_on_snd op) q"
  unfolding answers_def
proof (intro allI)
  fix m
  show "triple (\<lambda>s. fresh s \<and> tables s = m) (io_on_snd op)
      (\<lambda>x s. (fresh s \<and> tables s = m) \<and> x = q m) (\<lambda>_ s. fresh s \<and> tables s = m)"
    unfolding fresh_iff by (rule triple_some) (rule load_triple [OF assms])
qed

lemma answers_cached:
  assumes ld: "answers ok view op q"
    and hit: "\<And>m t x. good m key t \<Longrightarrow> co_load A t = Some x \<Longrightarrow> x = f (q m)"
    and store: "\<And>m. good m key (co_dump A (f (q m)))"
  shows "answers (\<lambda>s. fresh s) (\<lambda>s. tables s)
     (cached_json (lift_cache C) META key ttl A (io_bind (io_on_snd op) (\<lambda>x. io_return (f x)))) (\<lambda>m. f (q m))"
  unfolding answers_def
proof (intro allI)
  fix m
  have "triple (both.keeps_all META (good m) m v)
      (cached_json (lift_cache C) META key ttl A (io_bind (io_on_snd op) (\<lambda>x. io_return (f x))))
      (\<lambda>x s. both.keeps_all META (good m) m v s \<and> x = f (q m)) (\<lambda>_. both.keeps_all META (good m) m v)" for v
  proof (rule both.cached_json_triple [OF not_reserved_meta])
    show "triple (both.keeps_all META (good m) m v) (io_bind (io_on_snd op) (\<lambda>x. io_return (f x)))
       (\<lambda>x s. both.keeps_all META (good m) m v s \<and> x = f (q m)) (\<lambda>_. both.keeps_all META (good m) m v)"
      by (rule triple_bind [OF _ load_triple [OF ld]]) (simp add: triple_def)
    show "x = f (q m)" if "good m key t" "co_load A t = Some x" for t x using that by (rule hit)
    show "good m key (co_dump A x)" if "x = f (q m)" for x using store that by simp
  qed
  then show "triple (\<lambda>s. fresh s \<and> tables s = m)
      (cached_json (lift_cache C) META key ttl A (io_bind (io_on_snd op) (\<lambda>x. io_return (f x))))
      (\<lambda>x s. (fresh s \<and> tables s = m) \<and> x = f (q m)) (\<lambda>_ s. fresh s \<and> tables s = m)"
    unfolding fresh_iff by (rule triple_some)
qed

lemma answers_map:
  "answers k w op q \<Longrightarrow> answers k w (io_bind op (\<lambda>x. io_return (g x))) (\<lambda>m. g (q m))"
  by (subst answers_def) (intro allI, rule answers_bind, assumption, simp_all add: triple_def)

lemma read_hit:
  assumes "good m key t"
  shows "subs \<in> known \<Longrightarrow> key = connections_key digest subs \<Longrightarrow> co_load (sc_records K) t = Some x \<Longrightarrow>
      x = list_connections_q collate subs m"
    "subs \<in> known \<Longrightarrow> key = tables_key digest cid subs \<Longrightarrow> co_load (sc_names K) t = Some n \<Longrightarrow>
      n = sorted_strs (allowed_tables_q cid subs m)"
    "subs \<in> known \<Longrightarrow> key = tools_key digest subs \<Longrightarrow> co_load (sc_names K) t = Some n \<Longrightarrow>
      n = sorted_strs (allowed_tools_q subs m)"
    "key = descriptions_key cid \<Longrightarrow> co_load (sc_rows K) t = Some rows \<Longrightarrow>
      rows = rows_of_descriptions (descriptions_q lower cid m)"
  using assms by (auto simp: store_good_def means_def)

lemmas stored = stored_good [OF digest codecs]

lemma served_contract:
  "guarded_store cached (\<lambda>s. view (snd s)) (\<lambda>s. fresh s) collate lower search known"
proof (unfold_locales, goal_cases)
  case (1 subs)
  have "answers (\<lambda>s. fresh s) (\<lambda>s. tables s) (cached_json (lift_cache C) META (connections_key digest subs)
      permission_ttl (sc_records K) (io_bind (io_on_snd (ms_list_connections M subs)) (\<lambda>x. io_return x)))
      (list_connections_q collate subs)"
    by (rule answers_cached [OF store.list_connections [OF 1], where f = "\<lambda>x. x"])
      (use 1 in \<open>simp_all add: read_hit stored\<close>)
  then show ?case by (simp add: cached_meta_store_def lift_store_def bind_return)
next
  case (2 subs name)
  then show ?case
    using answers_lifted [OF store.get_connection] by (simp add: cached_meta_store_def lift_store_def)
next
  case (3 subs cid)
  have "answers (\<lambda>s. fresh s) (\<lambda>s. tables s) (cached_json (lift_cache C) META (tables_key digest cid subs)
      permission_ttl (sc_names K) (load_sorted (io_on_snd (ms_allowed_tables M cid subs))))
      (\<lambda>m. sorted_strs (allowed_tables_q cid subs m))"
    unfolding load_sorted_def
    by (rule answers_cached [OF store.allowed_tables [OF 3]]) (use 3 in \<open>simp_all add: read_hit stored\<close>)
  from answers_map [OF this, of set] show ?case by (simp add: cached_meta_store_def lift_store_def)
next
  case (4 subs)
  have "answers (\<lambda>s. fresh s) (\<lambda>s. tables s) (cached_json (lift_cache C) META (tools_key digest subs)
      permission_ttl (sc_names K) (load_sorted (io_on_snd (ms_allowed_tools M subs))))
      (\<lambda>m. sorted_strs (allowed_tools_q subs m))"
    unfolding load_sorted_def
    by (rule answers_cached [OF store.allowed_tools [OF 4]]) (use 4 in \<open>simp_all add: read_hit stored\<close>)
  from answers_map [OF this, of set] show ?case by (simp add: cached_meta_store_def lift_store_def)
next
  case (5 cid)
  have "answers (\<lambda>s. fresh s) (\<lambda>s. tables s) (cached_json (lift_cache C) META (descriptions_key cid)
      description_ttl (sc_rows K)
      (io_bind (io_on_snd (ms_descriptions M cid)) (\<lambda>x. io_return (rows_of_descriptions x))))
      (\<lambda>m. rows_of_descriptions (descriptions_q lower cid m))"
    by (rule answers_cached [OF store.descriptions]) (simp_all add: read_hit stored)
  from answers_map [OF this, of descriptions_of_rows] show ?case
    by (simp add: cached_meta_store_def lift_store_def descriptions_rows_inverse [OF descriptions_q_distinct])
next
  case (6 cid kw ts lim)
  then show ?case
    using answers_lifted [OF store.search_descriptions] by (simp add: cached_meta_store_def lift_store_def)
next
  case (7 s e r s')
  then obtain w where w: "ms_write_audit M e (snd s) = (r, w)" "s' = (fst s, w)"
    by (auto simp: cached_meta_store_def lift_store_def io_on_snd_iff)
  with 7 have "ok w \<and> same_grants (view (snd s)) (view w)" by (intro store.write_audit) auto
  with 7 w store_good_grants [of "view (snd s)" "view w"] show ?case
    by (auto simp: cache_current_def coherent_def)
qed

end

sublocale cached_store \<subseteq> served: guarded_store cached "\<lambda>s. view (snd s)" "\<lambda>s. fresh s" collate lower search known
  by (rule served_contract)

context cached_store
begin

text \<open>
  After the tables have changed in whatever way, and a bump of the family has got through, the
  cache is current again: nothing stored before the change is served after it.
\<close>

lemma bump_makes_fresh:
  assumes "fresh s" "ok w" "ca_bump C META (fst s) = (r, c)" "ver c \<noteq> ver (fst s)"
  shows "fresh (c, w)"
proof -
  have "both.keeps_all META (good (view w)) (view w) (ver c META) (c, w)
    \<longleftrightarrow> fresh (c, w)"
    by (auto simp: holds_def cache_current_def)
  moreover have "coherent (\<lambda>p. entries (fst p)) (\<lambda>p. ver (fst p)) META (good (view w)) (c, w)"
    using cache.bump_coherent [OF _ _ assms(3,4), of "good (view (snd s))" "good (view w)"] assms(1)
    by (auto simp: cache_current_def coherent_def)
  moreover have "alive c" using cache.bump_law [OF _ assms(3)] assms(1) by simp
  ultimately show ?thesis using assms(2) by (simp add: cache_current_def)
qed

end

end
