(* ===== verification/CacheProps.thy ===== *)
theory CacheProps
  imports CachedService
begin

text \<open>
  What the caches mean for permissions: with Redis in front of the Postgres store, opening a
  connection grants what the tables grant at that moment, and a change is in force as soon as
  its version bump has got through.  The instance at the start runs the whole stack on the
  in-memory server; the last theorem is the one gap, names that hold a line feed.
\<close>

section \<open>An instance\<close>

definition shift_digest :: "pystr \<Rightarrow> pystr" where
  "shift_digest t = map (\<lambda>c. if 58 \<le> c then c + 1 else c) t"

definition dump_names :: "pystr list \<Rightarrow> pystr" where
  "dump_names names = concat (map (\<lambda>n. int (length n) # n) names)"

fun load_names :: "pystr \<Rightarrow> pystr list option" where
  "load_names [] = Some []"
| "load_names (k # s) =
     (if 0 \<le> k \<and> nat k \<le> length s
      then map_option ((#) (take (nat k) s)) (load_names (drop (nat k) s)) else None)"

definition forgetful :: "'a codec" where
  "forgetful = \<lparr>co_dump = (\<lambda>_. []), co_load = (\<lambda>_. None)\<rparr>"

definition sample_codecs :: store_codecs where
  "sample_codecs =
     \<lparr>sc_records = forgetful, sc_names = \<lparr>co_dump = dump_names, co_load = load_names\<rparr>, sc_rows = forgetful\<rparr>"

lemma load_dump_names: "load_names (dump_names names) = Some names"
  by (induction names) (simp_all add: dump_names_def)

lemma sample_faithful: "faithful_codecs sample_codecs"
  by (simp add: faithful_codecs_def faithful_def means_def sample_codecs_def forgetful_def load_dump_names)

lemma shift_digest_inject: "shift_digest s = shift_digest t \<Longrightarrow> s = t"
proof (induction s arbitrary: t)
  case (Cons a s)
  then show ?case by (cases t) (auto simp: shift_digest_def split: if_splits)
qed (simp add: shift_digest_def)

lemma sample_digest: "told_apart shift_digest {subs. plain_subjects subs}"
  by (auto simp: told_apart_def digest_ok_def shift_digest_def inj_on_def dest!: shift_digest_inject [unfolded shift_digest_def]
      split: if_splits)

lemma postgres_guarded:
  "guarded_store (postgres_meta_store P) w_meta (\<lambda>_. True) (pg_sort_key P) (pg_lower P) (pg_search P) known"
proof (unfold_locales, goal_cases)
  case (7 s e r s')
  then show ?case by (rule plain_store.write_audit)
qed (simp_all add: postgres_meta_store_def pg_read_answers pg_query_answers)

lemma redis_cached_store:
  assumes "redis_laws R clk kv" "told_apart digest known" "faithful_codecs K"
  shows "cached_store (redis_cache R clk) (redis_entries kv) (redis_versions kv) (\<lambda>_. True)
     (postgres_meta_store P) w_meta (\<lambda>_. True) (pg_sort_key P) (pg_lower P) (pg_search P) known digest K"
  by (intro cached_store.intro redis_server.redis_contract redis_server.intro postgres_guarded
      cached_store_axioms.intro assms)

interpretation uncached: cached_store null_cache "\<lambda>_ _. None" "\<lambda>_ _. 0" "\<lambda>_. True"
    "postgres_meta_store P" w_meta "\<lambda>_. True" "pg_sort_key P" "pg_lower P" "pg_search P"
    "{subs. plain_subjects subs}" shift_digest sample_codecs t1 t2 for P t1 t2
  by (intro cached_store.intro postgres_guarded cached_store_axioms.intro sample_digest sample_faithful)
    (unfold_locales, auto simp: null_cache_def stores_def)

interpretation memory_cached: cached_store "redis_cache mem_redis (\<lambda>x. (0, x))" "redis_entries (\<lambda>x. x)"
    "redis_versions (\<lambda>x. x)" "\<lambda>_. True" "postgres_meta_store P" w_meta "\<lambda>_. True"
    "pg_sort_key P" "pg_lower P" "pg_search P" "{subs. plain_subjects subs}" shift_digest sample_codecs t1 t2
  for P t1 t2
  by (intro redis_cached_store mem_redis_laws sample_digest sample_faithful)

section \<open>Permissions behind the cache\<close>

text \<open>The store of \<open>build_services\<close> with Redis configured, and what its cache must be like.\<close>

definition redis_meta_store ::
  "'x redis_client \<Rightarrow> 'x clock \<Rightarrow> (pystr \<Rightarrow> pystr) \<Rightarrow> store_codecs \<Rightarrow> int \<Rightarrow> int \<Rightarrow> 'y pg
   \<Rightarrow> ('x redis_state \<times> 'y world) meta_store" where
  "redis_meta_store R clk digest K permission_ttl_s description_ttl_s P =
     cached_meta_store digest K (lift_cache (redis_cache R clk)) permission_ttl_s description_ttl_s
       (lift_store (postgres_meta_store P))"

definition redis_current ::
  "('x \<Rightarrow> pystr \<Rightarrow> pystr option) \<Rightarrow> (pystr \<Rightarrow> pystr) \<Rightarrow> store_codecs \<Rightarrow> 'y pg \<Rightarrow> subject list set
   \<Rightarrow> 'x redis_state \<times> 'y world \<Rightarrow> bool" where
  "redis_current kv digest K P known s \<longleftrightarrow>
     cache_current (redis_entries kv) (redis_versions kv) w_meta
       (store_good digest K (pg_sort_key P) (pg_lower P) known) s"

lemma empty_current: "kv (rs_ext c) = (\<lambda>_. None) \<Longrightarrow> redis_current kv digest K P known (c, w)"
  by (simp add: redis_current_def cache_current_def coherent_def redis_entries_def)

lemma redis_store_guarded:
  assumes "redis_laws R clk kv" "told_apart digest known" "faithful_codecs K"
  shows "guarded_store (redis_meta_store R clk digest K pt dt P) (\<lambda>s. w_meta (snd s))
      (redis_current kv digest K P known) (pg_sort_key P) (pg_lower P) (pg_search P) known"
proof -
  have "cached_store (redis_cache R clk) (redis_entries kv) (redis_versions kv) (\<lambda>_. True)
     (postgres_meta_store P) w_meta (\<lambda>_. True) (pg_sort_key P) (pg_lower P) (pg_search P) known digest K"
    by (rule redis_cached_store [OF assms])
  from cached_store.served_contract [OF this, of pt dt] show ?thesis
    by (simp add: redis_meta_store_def redis_current_def [abs_def])
qed

lemma redis_open_triple:
  assumes "redis_laws R clk kv" "told_apart digest known" "faithful_codecs K" "subjects c \<in> known"
  shows "triple (\<lambda>s. redis_current kv digest K P known s \<and> w_meta (snd s) = m)
     (open_connection U (redis_meta_store R clk digest K pt dt P) c tool name)
     (\<lambda>acc s. (redis_current kv digest K P known s \<and> w_meta (snd s) = m) \<and> opens_as U m c tool name acc)
     (\<lambda>_ s. redis_current kv digest K P known s \<and> w_meta (snd s) = m)"
  by (rule guarded_store.open_connection_triple [OF redis_store_guarded [OF assms(1-3)] assms(4)])

text \<open>A small instance: one caller, one connection, one table, the in-memory server.\<close>

definition sample_pg :: "unit pg" where
  "sample_pg = \<lparr>pg_reach = (\<lambda>x. (None, x)), pg_now = (\<lambda>_. 0), pg_lower = map ascii_lower1,
     pg_sort_key = (\<lambda>s. s), pg_search = (\<lambda>_ _ rs. map (\<lambda>r. (r, Fin 1 0)) rs)\<rparr>"

definition sample_connection :: connection_row where
  "sample_connection = \<lparr>cn_id = lit ''id1'', cn_name = lit ''shop'', cn_engine = lit ''sqlite'',
     cn_description = [], cn_details = [], cn_secret = None, cn_active = True, cn_created_by = None,
     cn_created_at = 0, cn_updated_at = 0, cn_last_checked_at = None, cn_last_check_ok = None,
     cn_last_check_error = None\<rparr>"

definition sample_subject :: subject where
  "sample_subject = (lit ''user'', lit ''alice'')"

definition sample_grants :: app_meta where
  "sample_grants = empty_meta\<lparr>am_connections := [sample_connection],
     am_connection_access := [\<lparr>ac_connection = lit ''id1'', ac_subject = sample_subject, ac_granted_by = None, ac_granted_at = 0\<rparr>],
     am_table_permissions := [\<lparr>tp_connection = lit ''id1'', tp_subject = sample_subject, tp_table = lit ''orders'', tp_granted_by = None, tp_granted_at = 0\<rparr>],
     am_tool_permissions := [\<lparr>tl_subject = sample_subject, tl_tool = lit ''run_query'', tl_granted_by = None, tl_granted_at = 0\<rparr>]\<rparr>"

definition sample_caller :: caller where
  "sample_caller = \<lparr>sub = lit ''alice'', cname = None, roles = {}\<rparr>"

definition sample_state :: "kv_data redis_state \<times> unit world" where
  "sample_state = (\<lparr>rs_down_until = 0, rs_ext = (\<lambda>_. None)\<rparr>, \<lparr>w_meta = sample_grants, w_ext = ()\<rparr>)"

definition sample_store :: "(kv_data redis_state \<times> unit world) meta_store" where
  "sample_store = redis_meta_store mem_redis (\<lambda>x. (0, x)) shift_digest sample_codecs 60 300 sample_pg"

definition sample_open :: "kv_data redis_state \<times> unit world \<Rightarrow> (exn + connection_access) \<times> kv_data redis_state \<times> unit world" where
  "sample_open = open_connection ascii_ucd sample_store sample_caller (lit ''run_query'') (lit ''shop'')"

definition sample_warm :: "kv_data redis_state \<times> unit world" where
  "sample_warm = snd (sample_open sample_state)"

text \<open>The grant of the table is withdrawn, and the version bumped.\<close>

definition sample_revoked :: app_meta where
  "sample_revoked = sample_grants\<lparr>am_table_permissions := []\<rparr>"

definition sample_bumped :: "kv_data redis_state" where
  "sample_bumped = snd (redis_bump mem_redis (\<lambda>x. (0, x)) META (fst sample_warm))"

lemma sample_known: "subjects sample_caller \<in> {subs. plain_subjects subs}"
  unfolding mem_Collect_eq by code_simp

lemmas sample_hyps = mem_redis_laws sample_digest sample_faithful sample_known

lemma sample_start: "redis_current (\<lambda>x. x) shift_digest sample_codecs sample_pg {subs. plain_subjects subs} sample_state"
  unfolding sample_state_def by (rule empty_current) simp

lemma sample_warm_current:
  "redis_current (\<lambda>x. x) shift_digest sample_codecs sample_pg {subs. plain_subjects subs} sample_warm
   \<and> w_meta (snd sample_warm) = sample_grants"
proof -
  have "io_keeps (\<lambda>s. redis_current (\<lambda>x. x) shift_digest sample_codecs sample_pg {subs. plain_subjects subs} s
      \<and> w_meta (snd s) = sample_grants) sample_open"
    unfolding sample_open_def sample_store_def by (rule triple_keeps [OF redis_open_triple [OF sample_hyps]])
  moreover have "w_meta (snd sample_state) = sample_grants" by (simp add: sample_state_def)
  ultimately show ?thesis
    using io_keepsD [of _ sample_open sample_state "fst (sample_open sample_state)" sample_warm] sample_start
    by (auto simp: sample_warm_def)
qed

lemma run_Inr: "\<not> isl (fst p) \<Longrightarrow> \<exists>x s. p = (Inr x, s)"
  by (cases p; cases "fst p") auto

lemma sample_second_open: "\<not> isl (fst (sample_open sample_warm))"
  by code_simp

lemma sample_last_open: "\<not> isl (fst (sample_open (sample_bumped, \<lparr>w_meta = sample_revoked, w_ext = ()\<rparr>)))"
  by code_simp

text \<open>The answers from the cache are current: with Redis in front of the store, and whatever a
  lookup takes from it, a connection is opened exactly as the grants of this moment say, and the
  cache stays current.\<close>

theorem cached_open_current:
  assumes "redis_laws R clk kv" "told_apart digest known" "faithful_codecs K" "subjects c \<in> known"
    and "redis_current kv digest K P known s"
    and "open_connection U (redis_meta_store R clk digest K pt dt P) c tool name s = (Inr acc, s')"
  shows "opens_as U (w_meta (snd s)) c tool name acc \<and> redis_current kv digest K P known s'"
  using tripleD_Inr [OF redis_open_triple [OF assms(1-4), where m = "w_meta (snd s)"] _ assms(6)] assms(5)
  by blast

theorem cached_open_current_witness:
  "\<exists>acc s'. sample_open sample_warm = (Inr acc, s')
     \<and> opens_as ascii_ucd sample_grants sample_caller (lit ''run_query'') (lit ''shop'') acc"
proof -
  obtain acc s' where run: "sample_open sample_warm = (Inr acc, s')" using run_Inr [OF sample_second_open] by blast
  then show ?thesis
    using cached_open_current [OF sample_hyps, of sample_pg sample_warm ascii_ucd 60 300 "lit ''run_query''" "lit ''shop''" acc s']
      sample_warm_current
    by (auto simp: sample_open_def sample_store_def)
qed

lemma bumped_open:
  assumes "redis_laws R clk kv" "told_apart digest known" "faithful_codecs K" "subjects c \<in> known"
    and "redis_current kv digest K P known (r, w)"
    and "redis_bump R clk META r = (u, r')" "rd_incr R (prefixed (version_key META)) (rs_ext r) = (Inr n, y)"
    and "open_connection U (redis_meta_store R clk digest K pt dt P) c tool name (r', w') = (Inr acc, s')"
  shows "opens_as U (w_meta w') c tool name acc"
proof -
  have bumped: "redis_versions kv r' \<noteq> redis_versions kv r"
    by (rule redis_server.redis_bump_counts(3) [OF redis_server.intro [OF assms(1)] assms(6,7)])
  have "cached_store (redis_cache R clk) (redis_entries kv) (redis_versions kv) (\<lambda>_. True)
     (postgres_meta_store P) w_meta (\<lambda>_. True) (pg_sort_key P) (pg_lower P) (pg_search P) known digest K"
    by (rule redis_cached_store [OF assms(1-3)])
  from cached_store.bump_makes_fresh [OF this, where s = "(r, w)" and w = w' and r = u and c = r'] bumped assms(5,6)
  have "redis_current kv digest K P known (r', w')"
    by (simp add: redis_current_def redis_cache_def)
  then show ?thesis
    using tripleD_Inr [OF redis_open_triple [OF assms(1-4), where m = "w_meta w'"] _ assms(8)] by simp
qed

text \<open>C5: a change of permissions is in force at once: however the tables have changed, once the
  \<open>INCR\<close> of the \<open>meta\<close> version has got through, every connection that is then opened with success is
  opened as the new tables say; nothing granted by the old ones alone survives in the cache.  It
  holds for callers whom the cache keys tell apart (\<open>told_apart\<close>: no line feed in a name).\<close>

theorem change_in_force_after_bump:
  assumes "redis_laws R clk kv" "told_apart digest known" "faithful_codecs K" "subjects c \<in> known"
    and "redis_current kv digest K P known (r, w)"
    and "redis_bump R clk META r = (u, r')" "rd_incr R (prefixed (version_key META)) (rs_ext r) = (Inr n, y)"
    and "open_connection U (redis_meta_store R clk digest K pt dt P) c tool name (r', w') = (Inr acc, s')"
  shows "opens_as U (w_meta w') c tool name acc"
  by (rule bumped_open [OF assms])

theorem change_in_force_after_bump_witness:
  "\<exists>acc s'. sample_open (sample_bumped, \<lparr>w_meta = sample_revoked, w_ext = ()\<rparr>) = (Inr acc, s')
     \<and> opens_as ascii_ucd sample_revoked sample_caller (lit ''run_query'') (lit ''shop'') acc"
proof -
  let ?w' = "\<lparr>w_meta = sample_revoked, w_ext = ()\<rparr>" and ?b = "redis_bump mem_redis (\<lambda>x. (0, x)) META (fst sample_warm)"
  obtain acc s' where run: "sample_open (sample_bumped, ?w') = (Inr acc, s')"
    using run_Inr [OF sample_last_open] by blast
  have bump: "?b = (fst ?b, sample_bumped)" by (simp add: sample_bumped_def prod.collapse)
  have incr: "rd_incr mem_redis (prefixed (version_key META)) (rs_ext (fst sample_warm))
      = (Inr (version_of (rs_ext (fst sample_warm) (prefixed (version_key META))) + 1),
         snd (rd_incr mem_redis (prefixed (version_key META)) (rs_ext (fst sample_warm))))"
    by (simp add: mem_redis_def)
  have "redis_current (\<lambda>x. x) shift_digest sample_codecs sample_pg {subs. plain_subjects subs} (fst sample_warm, snd sample_warm)"
    using sample_warm_current by simp
  from change_in_force_after_bump [OF sample_hyps this bump incr
      run [unfolded sample_open_def sample_store_def]] run
  show ?thesis by auto
qed

section \<open>Names that hold a line feed\<close>

text \<open>
  \<open>subjects_fingerprint\<close> joins \<open>kind:name\<close> lines with a line feed, so a role named
  \<open>a\nrole:b\<close> is fingerprinted like the two roles \<open>a\<close> and \<open>b\<close>.
\<close>

definition two_roles :: caller where
  "two_roles = \<lparr>sub = lit ''alice'', cname = None, roles = {lit ''a'', lit ''b''}\<rparr>"

definition one_odd_role :: caller where
  "one_odd_role = \<lparr>sub = lit ''alice'', cname = None, roles = {lit ''a'' @ 10 # lit ''role:b''}\<rparr>"

definition role_state :: "kv_data redis_state \<times> unit world" where
  "role_state = (\<lparr>rs_down_until = 0, rs_ext = (\<lambda>_. None)\<rparr>,
     \<lparr>w_meta = sample_grants\<lparr>am_tool_permissions :=
        [\<lparr>tl_subject = (lit ''role'', lit ''b''), tl_tool = lit ''run_query'', tl_granted_by = None, tl_granted_at = 0\<rparr>]\<rparr>,
      w_ext = ()\<rparr>)"

lemma same_fingerprint_text: "fingerprint_text (subjects two_roles) = fingerprint_text (subjects one_odd_role)"
  by code_simp

lemma odd_role_served:
  "fst (require_tool sample_store one_odd_role (lit ''run_query'')
      (snd (require_tool sample_store two_roles (lit ''run_query'') role_state))) = Inr ()"
  by code_simp

lemma odd_role_not_granted: "lit ''run_query'' \<notin> allowed_tools_q (subjects one_odd_role) (w_meta (snd role_state))"
  by code_simp

text \<open>Two callers with different grants can share a cache entry: once the caller with the roles
  \<open>a\<close> and \<open>b\<close> has been let in, the caller whose one role is the text \<open>a\<close>, line feed, \<open>role:b\<close> is let in
  from the cache to a tool that no grant gives them.\<close>

lemma line_feed_role_let_in:
  "(\<forall>digest. subjects_fingerprint digest (subjects two_roles) = subjects_fingerprint digest (subjects one_odd_role))
   \<and> lit ''run_query'' \<notin> allowed_tools_q (subjects one_odd_role) (w_meta (snd role_state))
   \<and> fst (require_tool sample_store one_odd_role (lit ''run_query'')
        (snd (require_tool sample_store two_roles (lit ''run_query'') role_state))) = Inr ()"
  by (simp only: subjects_fingerprint_def same_fingerprint_text odd_role_served odd_role_not_granted) simp

end
