(* ===== verification/Claims.thy ===== *)
theory Claims
  imports Interfaces Config
begin

text \<open>
  \<open>auth/caller.py\<close>: from the claims of an access token, or from the configuration, to the
  \<open>Caller\<close> the services work for.  \<open>str()\<close> of a float or of a container is Python's own rendering,
  the parameter \<open>R\<close>; every other value is rendered here.
\<close>

type_synonym claims = "(pystr \<times> json) list"

record access_token =
  at_token :: pystr
  at_client_id :: pystr
  at_scopes :: "pystr list"
  at_expires_at :: int
  at_resource :: pystr
  at_subject :: pystr
  at_claims :: claims

definition py_error :: "string \<Rightarrow> exn" where
  "py_error name = OtherError (lit name)"

text \<open>\<open>d.get(key)\<close>, with \<open>None\<close> for a missing key; \<open>a or b\<close>.\<close>

definition get_claim :: "claims \<Rightarrow> pystr \<Rightarrow> json" where
  "get_claim d k = (case map_of d k of None \<Rightarrow> JNull | Some v \<Rightarrow> v)"

definition or_else :: "json \<Rightarrow> json \<Rightarrow> json" where
  "or_else a b = (if truthy a then a else b)"

fun py_str :: "(json \<Rightarrow> pystr) \<Rightarrow> json \<Rightarrow> pystr" where
  "py_str R (JStr s) = s"
| "py_str R (JInt i) = str_of_int i"
| "py_str R (JBool b) = (if b then lit ''True'' else lit ''False'')"
| "py_str R JNull = lit ''None''"
| "py_str R v = R v"

text \<open>\<open>iter(v)\<close>: a dict yields its keys, a string its characters; numbers and \<open>None\<close> raise.\<close>

fun iterate :: "json \<Rightarrow> exn + json list" where
  "iterate (JList xs) = Inr xs"
| "iterate (JDict d) = Inr (map (\<lambda>(k, v). JStr k) d)"
| "iterate (JStr s) = Inr (map (\<lambda>c. JStr [c]) s)"
| "iterate v = Inl (py_error ''TypeError'')"

text \<open>\<open>claim_at_path\<close>.\<close>

fun descend :: "json \<Rightarrow> pystr list \<Rightarrow> json" where
  "descend value [] = value"
| "descend (JDict d) (part # parts) =
     (case map_of d part of None \<Rightarrow> JNull | Some v \<Rightarrow> descend v parts)"
| "descend value (part # parts) = JNull"

definition claim_at_path :: "claims \<Rightarrow> pystr \<Rightarrow> json" where
  "claim_at_path cl path = descend (JDict cl) (split_on (cp CHR ''.'') path)"

text \<open>The pydantic \<open>Caller\<close>: a non-empty \<open>sub\<close>, a name that is a string or absent.\<close>

definition make_caller :: "pystr \<Rightarrow> json \<Rightarrow> pystr set \<Rightarrow> exn + caller" where
  "make_caller s name rs =
     (if s = [] then Inl (py_error ''ValidationError'')
      else case name of
        JNull \<Rightarrow> Inr \<lparr>sub = s, cname = None, roles = rs\<rparr>
      | JStr n \<Rightarrow> Inr \<lparr>sub = s, cname = Some n, roles = rs\<rparr>
      | _ \<Rightarrow> Inl (py_error ''ValidationError''))"

definition split_roles :: "pystr \<Rightarrow> pystr list" where
  "split_roles s = filter (\<lambda>r. r \<noteq> []) (words_of (replace_char (cp CHR '','') [cp CHR '' ''] s))"

definition roles_of_claim :: "(json \<Rightarrow> pystr) \<Rightarrow> json \<Rightarrow> exn + pystr set" where
  "roles_of_claim R v =
     (let v' = (case v of JStr s \<Rightarrow> JList (map JStr (split_roles s)) | _ \<Rightarrow> v)
      in res_bind (iterate (or_else v' (JList []))) (\<lambda>rs. Inr (py_str R ` set rs)))"

definition caller_from_claims :: "(json \<Rightarrow> pystr) \<Rightarrow> claims \<Rightarrow> pystr \<Rightarrow> exn + caller" where
  "caller_from_claims R cl roles_claim =
     (case map_of cl (lit ''sub'') of
        None \<Rightarrow> Inl (py_error ''KeyError'')
      | Some s \<Rightarrow>
          res_bind (roles_of_claim R (claim_at_path cl roles_claim)) (\<lambda>rs.
            make_caller (py_str R s)
              (or_else (get_claim cl (lit ''name''))
                (or_else (get_claim cl (lit ''preferred_username'')) (get_claim cl (lit ''email''))))
              rs))"

definition stdio_caller :: "settings \<Rightarrow> exn + caller" where
  "stdio_caller st =
     (case st_stdio_sub st of
        None \<Rightarrow> Inl (py_error ''ValueError'')
      | Some s \<Rightarrow>
          (if s = [] then Inl (py_error ''ValueError'')
           else Inr \<lparr>sub = s, cname = st_stdio_name st, roles = set (split_list (st_stdio_roles st))\<rparr>))"

text \<open>\<open>token_caller\<close>: the access token of the request, if the middleware has put one there.\<close>

definition token_caller :: "(json \<Rightarrow> pystr) \<Rightarrow> pystr \<Rightarrow> access_token option \<Rightarrow> exn + caller" where
  "token_caller R roles_claim token =
     (case token of
        None \<Rightarrow> Inl (McpSqlError NotAuthenticated (lit ''Authentication is required.''))
      | Some t \<Rightarrow>
          (if at_claims t = [] then Inl (McpSqlError NotAuthenticated (lit ''Authentication is required.''))
           else caller_from_claims R (at_claims t) roles_claim))"

text \<open>\<open>access_token_from_claims\<close>: \<open>int(claims["exp"])\<close> of a number; \<open>AccessToken\<close> wants string scopes.\<close>

definition scopes_of :: "json \<Rightarrow> exn + pystr list" where
  "scopes_of scope =
     (case scope of
        JStr s \<Rightarrow> Inr (words_of s)
      | v \<Rightarrow> res_bind (iterate v) (\<lambda>xs.
               if list_all (\<lambda>x. case x of JStr s \<Rightarrow> True | _ \<Rightarrow> False) xs
               then Inr (map (\<lambda>x. case x of JStr s \<Rightarrow> s | _ \<Rightarrow> []) xs)
               else Inl (py_error ''ValidationError'')))"

definition float_trunc :: "int \<Rightarrow> int \<Rightarrow> int" where
  "float_trunc m e = (if 0 \<le> e then m * 2 ^ nat e else sgn m * (\<bar>m\<bar> div 2 ^ nat (- e)))"

definition py_int :: "(pystr \<Rightarrow> int option) \<Rightarrow> json \<Rightarrow> exn + int" where
  "py_int int_of_text v =
     (case v of
        JInt i \<Rightarrow> Inr i
      | JBool b \<Rightarrow> Inr (if b then 1 else 0)
      | JFloat (Fin m e) \<Rightarrow> Inr (float_trunc m e)
      | JFloat NaN \<Rightarrow> Inl (py_error ''ValueError'')
      | JFloat f \<Rightarrow> Inl (py_error ''OverflowError'')
      | JStr s \<Rightarrow> (case int_of_text s of Some i \<Rightarrow> Inr i | None \<Rightarrow> Inl (py_error ''ValueError''))
      | _ \<Rightarrow> Inl (py_error ''TypeError''))"

record py_text =
  pt_str :: "json \<Rightarrow> pystr"
  pt_int :: "pystr \<Rightarrow> int option"

definition claim_item :: "claims \<Rightarrow> pystr \<Rightarrow> exn + json" where
  "claim_item d k = (case map_of d k of None \<Rightarrow> Inl (py_error ''KeyError'') | Some v \<Rightarrow> Inr v)"

definition access_token_from_claims :: "py_text \<Rightarrow> pystr \<Rightarrow> claims \<Rightarrow> pystr \<Rightarrow> exn + access_token" where
  "access_token_from_claims T token cl audience =
     res_bind (scopes_of (case map_of cl (lit ''scope'') of None \<Rightarrow> JStr [] | Some v \<Rightarrow> v)) (\<lambda>scopes.
     res_bind (res_bind (claim_item cl (lit ''exp'')) (py_int (pt_int T))) (\<lambda>expires.
     res_bind (claim_item cl (lit ''sub'')) (\<lambda>s.
       Inr \<lparr>at_token = token,
            at_client_id = py_str (pt_str T)
              (or_else (get_claim cl (lit ''azp'')) (or_else (get_claim cl (lit ''client_id'')) (JStr []))),
            at_scopes = scopes, at_expires_at = expires, at_resource = audience,
            at_subject = py_str (pt_str T) s, at_claims = cl\<rparr>)))"

section \<open>Facts\<close>

lemma make_caller_valid: "make_caller s n rs = Inr c \<Longrightarrow> finite rs \<Longrightarrow> valid_caller c"
  by (auto simp: make_caller_def valid_caller_def split: if_splits json.splits)

lemma roles_of_claim_finite: "roles_of_claim R v = Inr rs \<Longrightarrow> finite rs"
  by (auto simp: roles_of_claim_def Let_def res_bind_Inr_iff)

lemma caller_from_claims_valid: "caller_from_claims R cl p = Inr c \<Longrightarrow> valid_caller c"
  by (auto simp: caller_from_claims_def res_bind_Inr_iff split: option.splits
      dest: make_caller_valid roles_of_claim_finite)

lemma stdio_caller_valid: "stdio_caller st = Inr c \<Longrightarrow> valid_caller c"
  by (auto simp: stdio_caller_def valid_caller_def split: option.splits if_splits)

lemma token_caller_valid: "token_caller R p t = Inr c \<Longrightarrow> valid_caller c"
  by (auto simp: token_caller_def split: option.splits if_splits dest: caller_from_claims_valid)

lemma words_of_nonempty: "filter (\<lambda>r. r \<noteq> []) (words_of s) = words_of s"
  using words_of_no_space by (auto simp: filter_id_conv)

end
