(* ===== verification/Tokens.thy ===== *)
theory Tokens
  imports Claims
begin

text \<open>
  \<open>auth/token_verifier.py\<close> and \<open>auth/introspection.py\<close>: the two verifiers of access tokens.
  PyJWT, the HTTP client, SHA-256 and the JSON codec are the fields of \<open>jwt_lib\<close> and
  \<open>oauth_http\<close>; the key set of the JWT verifier is explicit state.  Times are microseconds.
\<close>

text \<open>The two groups of exceptions \<open>verify_token\<close> catches.\<close>

definition jwt_error :: "exn \<Rightarrow> bool" where
  "jwt_error e \<longleftrightarrow> e = py_error ''PyJWTError''"

definition fetch_error :: "exn \<Rightarrow> bool" where
  "fetch_error e \<longleftrightarrow> e \<in> {py_error ''HTTPError'', py_error ''ValueError'', py_error ''KeyError''}"

section \<open>Signed tokens\<close>

definition ALLOWED_ALGORITHMS :: "pystr list" where
  "ALLOWED_ALGORITHMS =
     map lit [''RS256'', ''RS384'', ''RS512'', ''PS256'', ''PS384'', ''PS512'', ''ES256'', ''ES384'']"

definition MIN_JWKS_REFETCH_US :: int where
  "MIN_JWKS_REFETCH_US = 30000000"

definition JWKS_MAX_AGE_US :: int where
  "JWKS_MAX_AGE_US = 600000000"

text \<open>What \<open>jwt.decode\<close> is asked to check.\<close>

record decode_options =
  do_algorithms :: "pystr list"
  do_audience :: pystr
  do_issuer :: pystr
  do_leeway_s :: int
  do_require :: "pystr list"

record 'k jwt_lib =
  jl_header :: "pystr \<Rightarrow> exn + claims"
  jl_decode :: "pystr \<Rightarrow> 'k \<Rightarrow> decode_options \<Rightarrow> int \<Rightarrow> exn + claims"
  jl_from_dict :: "claims \<Rightarrow> exn + 'k"

text \<open>\<open>get(url)\<close>, \<open>raise_for_status()\<close> and \<open>json()\<close> in one.\<close>

record 'x oauth_http =
  oh_get :: "pystr \<Rightarrow> ('x, json) op"
  oh_post :: "pystr \<Rightarrow> claims \<Rightarrow> pystr \<times> pystr \<Rightarrow> ('x, json) op"

record jwt_config =
  jc_issuer :: pystr
  jc_audience :: pystr
  jc_leeway_s :: int

record ('k, 'x) jwt_state =
  js_keys :: "(json \<times> 'k) list"
  js_fetched_at :: int
  js_jwks_url :: "pystr option"
  js_ext :: 'x

definition on_js :: "('x, 'a) op \<Rightarrow> (('k, 'x) jwt_state, 'a) op" where
  "on_js m = (\<lambda>s. case m (js_ext s) of (r, x) \<Rightarrow> (r, s\<lparr>js_ext := x\<rparr>))"

definition js_now :: "'x clock \<Rightarrow> (('k, 'x) jwt_state, int) op" where
  "js_now clk = (\<lambda>s. case clk (js_ext s) of (t, x) \<Rightarrow> (Inr t, s\<lparr>js_ext := x\<rparr>))"

definition rstrip_slash :: "pystr \<Rightarrow> pystr" where
  "rstrip_slash s = rstrip_char (cp CHR ''/'') s"

text \<open>\<open>response.json()["jwks_uri"]\<close>, which an \<open>assert\<close> wants to be a string.\<close>

definition jwks_uri_of :: "json \<Rightarrow> exn + pystr" where
  "jwks_uri_of j =
     (case j of
        JDict d \<Rightarrow>
          (case map_of d (lit ''jwks_uri'') of
             None \<Rightarrow> Inl (py_error ''KeyError'')
           | Some (JStr url) \<Rightarrow> Inr url
           | Some _ \<Rightarrow> Inl (py_error ''AssertionError''))
      | _ \<Rightarrow> Inl (py_error ''TypeError''))"

definition discover_jwks_url :: "jwt_config \<Rightarrow> 'x oauth_http \<Rightarrow> (('k, 'x) jwt_state, pystr) op" where
  "discover_jwks_url C H =
     io_bind (on_js (oh_get H (rstrip_slash (jc_issuer C) @ lit ''/.well-known/openid-configuration''))) (\<lambda>j.
     io_bind (io_lift (jwks_uri_of j)) (\<lambda>url.
     io_then (io_modify (\<lambda>s. s\<lparr>js_jwks_url := Some url\<rparr>)) (io_return url)))"

text \<open>The loop over the published keys: signing keys with an id; unusable ones are skipped.\<close>

definition is_signing_key :: "claims \<Rightarrow> bool" where
  "is_signing_key d \<longleftrightarrow>
     (case map_of d (lit ''use'') of None \<Rightarrow> True | Some v \<Rightarrow> v = JStr (lit ''sig''))
     \<and> map_of d (lit ''kid'') \<noteq> None"

fun collect_keys ::
  "(claims \<Rightarrow> exn + 'k) \<Rightarrow> json list \<Rightarrow> (json \<times> 'k) list \<Rightarrow> exn + (json \<times> 'k) list" where
  "collect_keys from_dict [] keys = Inr keys"
| "collect_keys from_dict (JDict d # js) keys =
     (if is_signing_key d then
        (case from_dict d of
           Inl e \<Rightarrow> (if jwt_error e then collect_keys from_dict js keys else Inl e)
         | Inr k \<Rightarrow>
             (case get_claim d (lit ''kid'') of
                JList v \<Rightarrow> Inl (py_error ''TypeError'')
              | JDict v \<Rightarrow> Inl (py_error ''TypeError'')
              | kid \<Rightarrow> collect_keys from_dict js (dict_set kid k keys)))
      else collect_keys from_dict js keys)"
| "collect_keys from_dict (j # js) keys = Inl (py_error ''AttributeError'')"

definition keys_of_set :: "(claims \<Rightarrow> exn + 'k) \<Rightarrow> json \<Rightarrow> exn + (json \<times> 'k) list" where
  "keys_of_set from_dict j =
     (case j of
        JDict d \<Rightarrow>
          res_bind (iterate (case map_of d (lit ''keys'') of None \<Rightarrow> JList [] | Some v \<Rightarrow> v))
            (\<lambda>js. collect_keys from_dict js [])
      | _ \<Rightarrow> Inl (py_error ''AttributeError''))"

definition refresh_keys ::
  "'k jwt_lib \<Rightarrow> jwt_config \<Rightarrow> 'x oauth_http \<Rightarrow> 'x clock \<Rightarrow> (('k, 'x) jwt_state, unit) op" where
  "refresh_keys L C H clk =
     io_bind (io_gets js_jwks_url) (\<lambda>known.
     io_bind (case known of
                Some (c # u) \<Rightarrow> io_return (c # u)
              | _ \<Rightarrow> discover_jwks_url C H) (\<lambda>url.
     io_bind (on_js (oh_get H url)) (\<lambda>j.
     io_bind (io_lift (keys_of_set (jl_from_dict L) j)) (\<lambda>keys.
     io_bind (js_now clk) (\<lambda>t.
       io_modify (\<lambda>s. s\<lparr>js_keys := keys, js_fetched_at := t\<rparr>))))))"

text \<open>
  \<open>_key_for\<close>.  Under the lock it looks again, for a refresh another request may have made, and
  asks for the key set unless it did so recently and has keys.
\<close>

definition locked_key_for ::
  "'k jwt_lib \<Rightarrow> jwt_config \<Rightarrow> 'x oauth_http \<Rightarrow> 'x clock \<Rightarrow> pystr \<Rightarrow> (('k, 'x) jwt_state, 'k option) op" where
  "locked_key_for L C H clk kid =
     io_bind (io_gets js_keys) (\<lambda>keys.
     io_bind (io_gets js_fetched_at) (\<lambda>fetched_at.
     io_bind (if map_of keys (JStr kid) \<noteq> None
              then io_bind (js_now clk) (\<lambda>t. io_return (t - fetched_at \<le> JWKS_MAX_AGE_US))
              else io_return False) (\<lambda>usable.
       if usable then io_return (map_of keys (JStr kid))
       else
         io_bind (js_now clk) (\<lambda>t.
         io_then (if \<not> t - fetched_at < MIN_JWKS_REFETCH_US \<or> keys = [] then refresh_keys L C H clk
                  else io_return ())
           (io_gets (\<lambda>s. map_of (js_keys s) (JStr kid)))))))"

definition key_for ::
  "'k jwt_lib \<Rightarrow> jwt_config \<Rightarrow> 'x oauth_http \<Rightarrow> 'x clock \<Rightarrow> pystr option \<Rightarrow> (('k, 'x) jwt_state, 'k option) op" where
  "key_for L C H clk kid =
     (case kid of
        None \<Rightarrow> io_return None
      | Some k \<Rightarrow>
          io_bind (js_now clk) (\<lambda>t.
          io_bind (io_gets (\<lambda>s. JWKS_MAX_AGE_US < t - js_fetched_at s)) (\<lambda>stale.
          io_bind (io_gets (\<lambda>s. map_of (js_keys s) (JStr k))) (\<lambda>known.
            if known \<noteq> None \<and> \<not> stale then io_return known
            else locked_key_for L C H clk k))))"

definition header_kid :: "claims \<Rightarrow> pystr option" where
  "header_kid h = (case map_of h (lit ''kid'') of Some (JStr k) \<Rightarrow> Some k | _ \<Rightarrow> None)"

definition jwt_options :: "jwt_config \<Rightarrow> decode_options" where
  "jwt_options C =
     \<lparr>do_algorithms = ALLOWED_ALGORITHMS, do_audience = jc_audience C, do_issuer = jc_issuer C,
      do_leeway_s = jc_leeway_s C, do_require = map lit [''exp'', ''iss'', ''aud'', ''sub'']\<rparr>"

definition jwt_verify_token ::
  "py_text \<Rightarrow> 'k jwt_lib \<Rightarrow> jwt_config \<Rightarrow> 'x oauth_http \<Rightarrow> 'x clock \<Rightarrow> 'x clock \<Rightarrow> pystr
   \<Rightarrow> (('k, 'x) jwt_state, access_token option) op" where
  "jwt_verify_token T L C H clk wall token =
     io_bind
       (io_catch
          (io_bind (io_lift (jl_header L token)) (\<lambda>header.
           io_bind (key_for L C H clk (header_kid header)) (\<lambda>found.
             case found of
               None \<Rightarrow> io_return None
             | Some key \<Rightarrow>
                 io_bind (js_now wall) (\<lambda>now.
                 io_bind (io_lift (jl_decode L token key (jwt_options C) now)) (\<lambda>cl.
                   io_return (Some cl))))))
          (\<lambda>e. if jwt_error e \<or> fetch_error e then io_return None else io_raise e))
       (\<lambda>result. case result of
          None \<Rightarrow> io_return None
        | Some cl \<Rightarrow>
            io_bind (io_lift (access_token_from_claims T token cl (jc_audience C))) (\<lambda>t. io_return (Some t)))"

section \<open>Opaque tokens\<close>

definition NEGATIVE_TTL_S :: int where
  "NEGATIVE_TTL_S = 5"

record introspection_config =
  ic_url :: pystr
  ic_client_id :: pystr
  ic_client_secret :: pystr
  ic_audience :: pystr
  ic_issuer :: "pystr option"
  ic_cache_ttl_s :: int

record json_lib =
  jn_dumps :: "json \<Rightarrow> pystr"
  jn_loads :: "pystr \<Rightarrow> json option"
  jn_sha256 :: "pystr \<Rightarrow> pystr"

definition token_key :: "json_lib \<Rightarrow> pystr \<Rightarrow> pystr" where
  "token_key J token = lit ''token:'' @ jn_sha256 J token"

definition from_cache :: "json_lib \<Rightarrow> 's cache \<Rightarrow> pystr \<Rightarrow> ('s, claims option) op" where
  "from_cache J C key =
     io_bind (ca_get C key) (\<lambda>hit. io_return (case hit of
        None \<Rightarrow> None
      | Some text \<Rightarrow> (case jn_loads J text of Some (JDict d) \<Rightarrow> Some d | _ \<Rightarrow> None)))"

text \<open>\<open>isinstance(v, int)\<close>, which holds for \<open>bool\<close> too.\<close>

fun as_int :: "json \<Rightarrow> int option" where
  "as_int (JInt i) = Some i"
| "as_int (JBool b) = Some (if b then 1 else 0)"
| "as_int _ = None"

definition wall_seconds :: "'s clock \<Rightarrow> ('s, int) op" where
  "wall_seconds wall = (\<lambda>s. case wall s of (t, s') \<Rightarrow> (Inr (t div 1000000), s'))"

text \<open>The call of the provider; a failed one, or one that is no JSON, is no answer.\<close>

definition ask_provider :: "introspection_config \<Rightarrow> 's oauth_http \<Rightarrow> pystr \<Rightarrow> ('s, json option) op" where
  "ask_provider I H token =
     io_catch
       (io_bind (oh_post H (ic_url I)
                  [(lit ''token'', JStr token), (lit ''token_type_hint'', JStr (lit ''access_token''))]
                  (ic_client_id I, ic_client_secret I)) (\<lambda>j. io_return (Some j)))
       (\<lambda>e. if e \<in> {py_error ''HTTPError'', py_error ''ValueError''} then io_return None else io_raise e)"

text \<open>An active answer is kept for the configured time, but not past the token's own expiry.\<close>

definition answer_ttl :: "introspection_config \<Rightarrow> 's clock \<Rightarrow> claims \<Rightarrow> ('s, int) op" where
  "answer_ttl I wall cl =
     (case as_int (get_claim cl (lit ''exp'')) of
        Some expires \<Rightarrow>
          io_bind (wall_seconds wall) (\<lambda>now. io_return (min (ic_cache_ttl_s I) (expires - now)))
      | None \<Rightarrow> io_return (ic_cache_ttl_s I))"

definition remember_answer ::
  "introspection_config \<Rightarrow> json_lib \<Rightarrow> 's cache \<Rightarrow> 's clock \<Rightarrow> pystr \<Rightarrow> claims \<Rightarrow> ('s, unit) op" where
  "remember_answer I J C wall key cl =
     (if \<not> truthy (get_claim cl (lit ''active'')) then
        ca_set C key (jn_dumps J (JDict [(lit ''active'', JBool False)])) NEGATIVE_TTL_S
      else
        io_bind (answer_ttl I wall cl) (\<lambda>ttl.
          if 0 < ttl then ca_set C key (jn_dumps J (JDict cl)) ttl else io_return ()))"

definition introspect ::
  "introspection_config \<Rightarrow> json_lib \<Rightarrow> 's oauth_http \<Rightarrow> 's cache \<Rightarrow> 's clock \<Rightarrow> pystr \<Rightarrow> pystr
   \<Rightarrow> ('s, claims option) op" where
  "introspect I J H C wall token key =
     io_bind (ask_provider I H token) (\<lambda>answer.
       case answer of
         Some (JDict cl) \<Rightarrow> io_then (remember_answer I J C wall key cl) (io_return (Some cl))
       | _ \<Rightarrow> io_return None)"

text \<open>\<open>self._audience not in audiences\<close>.\<close>

definition audience_listed :: "pystr \<Rightarrow> json \<Rightarrow> exn + bool" where
  "audience_listed audience v =
     (case v of
        JStr s \<Rightarrow> Inr (s = audience)
      | JList xs \<Rightarrow> Inr (JStr audience \<in> set xs)
      | JDict d \<Rightarrow> Inr (map_of d audience \<noteq> None)
      | _ \<Rightarrow> Inl (py_error ''TypeError''))"

definition acceptable :: "introspection_config \<Rightarrow> 's clock \<Rightarrow> claims \<Rightarrow> ('s, bool) op" where
  "acceptable I wall cl =
     (if get_claim cl (lit ''active'') \<noteq> JBool True \<or> map_of cl (lit ''sub'') = None then io_return False
      else case as_int (get_claim cl (lit ''exp'')) of
        None \<Rightarrow> io_return False
      | Some expires \<Rightarrow>
          io_bind (wall_seconds wall) (\<lambda>now.
            if expires \<le> now then io_return False
            else
              io_bind (io_lift (audience_listed (ic_audience I)
                         (case map_of cl (lit ''aud'') of None \<Rightarrow> JList [] | Some v \<Rightarrow> v))) (\<lambda>listed.
                if \<not> listed then io_return False
                else io_return (case ic_issuer I of
                       None \<Rightarrow> True | Some iss \<Rightarrow> get_claim cl (lit ''iss'') = JStr iss))))"

definition introspection_verify_token ::
  "py_text \<Rightarrow> introspection_config \<Rightarrow> json_lib \<Rightarrow> 's oauth_http \<Rightarrow> 's cache \<Rightarrow> 's clock \<Rightarrow> pystr
   \<Rightarrow> ('s, access_token option) op" where
  "introspection_verify_token T I J H C wall token =
     io_bind (from_cache J C (token_key J token)) (\<lambda>cached.
     io_bind (case cached of
                None \<Rightarrow> introspect I J H C wall token (token_key J token)
              | Some cl \<Rightarrow> io_return (Some cl)) (\<lambda>found.
       case found of
         None \<Rightarrow> io_return None
       | Some cl \<Rightarrow>
           io_bind (acceptable I wall cl) (\<lambda>ok.
             if \<not> ok then io_return None
             else io_bind (io_lift (access_token_from_claims T token cl (ic_audience I)))
                    (\<lambda>t. io_return (Some t)))))"

section \<open>Which verifier\<close>

text \<open>One of the two, or a ready-made \<open>TokenVerifier\<close>; the introspection verifier keeps answers in a cache.\<close>

datatype 's verifier =
    JwtVerifier jwt_config "pystr option"
  | IntrospectionVerifier introspection_config "'s cache"
  | OtherVerifier "pystr \<Rightarrow> ('s, access_token option) op"

fun set_text :: "pystr option \<Rightarrow> bool" where
  "set_text None = False"
| "set_text (Some s) = (s \<noteq> [])"

definition build_token_verifier :: "settings \<Rightarrow> 's cache option \<Rightarrow> exn + 's verifier" where
  "build_token_verifier st cache =
     (case (st_oauth_issuer st, st_public_url st) of
        (Some issuer, Some url) \<Rightarrow>
          (if issuer = [] \<or> url = [] then Inl (py_error ''ValueError'')
           else
             (let audience = (if set_text (st_oauth_audience st) then the (st_oauth_audience st) else url) in
              case st_token_verification st of
                VerifyIntrospection \<Rightarrow>
                  (case (st_oauth_introspection_url st, st_oauth_introspection_client_id st,
                         st_oauth_introspection_client_secret st) of
                     (Some u, Some i, Some sec) \<Rightarrow>
                       (if u = [] \<or> i = [] \<or> sec = [] then Inl (py_error ''ValueError'')
                        else Inr (IntrospectionVerifier
                               \<lparr>ic_url = u, ic_client_id = i, ic_client_secret = sec, ic_audience = audience,
                                ic_issuer = Some issuer, ic_cache_ttl_s = st_token_cache_ttl_s st\<rparr>
                               (case cache of None \<Rightarrow> null_cache | Some C \<Rightarrow> C)))
                   | _ \<Rightarrow> Inl (py_error ''ValueError''))
              | VerifyJwt \<Rightarrow>
                  Inr (JwtVerifier \<lparr>jc_issuer = issuer, jc_audience = audience, jc_leeway_s = 30\<rparr>
                         (st_oauth_jwks_url st))))
      | _ \<Rightarrow> Inl (py_error ''ValueError''))"

end
