(* ===== verification/TokenProps.thy ===== *)
theory TokenProps
  imports Tokens CacheProps
begin

text \<open>
  What an accepted token is: one the provider vouched for, unexpired, from our issuer and for
  this server, whether the answer came from the provider or from the cache; and how often the
  JWT verifier asks for keys.
\<close>

section \<open>Introspection\<close>

text \<open>What makes claims acceptable at second \<open>now\<close>.\<close>

definition good_claims :: "introspection_config \<Rightarrow> int \<Rightarrow> claims \<Rightarrow> bool" where
  "good_claims I now cl \<longleftrightarrow>
     get_claim cl (lit ''active'') = JBool True \<and> map_of cl (lit ''sub'') \<noteq> None
     \<and> (case as_int (get_claim cl (lit ''exp'')) of None \<Rightarrow> False | Some e \<Rightarrow> now < e)
     \<and> audience_listed (ic_audience I) (case map_of cl (lit ''aud'') of None \<Rightarrow> JList [] | Some v \<Rightarrow> v) = Inr True
     \<and> (case ic_issuer I of None \<Rightarrow> True | Some iss \<Rightarrow> get_claim cl (lit ''iss'') = JStr iss)"

lemma acceptable_good:
  assumes "acceptable I wall cl s = (Inr True, s')" "\<And>s. earliest \<le> fst (wall s)"
  shows "good_claims I (earliest div 1000000) cl"
proof -
  have "earliest div 1000000 \<le> fst (wall s) div 1000000" by (rule zdiv_mono1 [OF assms(2)]) simp
  with assms(1) show ?thesis
    by (auto simp: acceptable_def good_claims_def wall_seconds_def io_bind_Inr_iff
        split: if_splits option.splits prod.splits)
qed

lemma token_from_claims: "access_token_from_claims T token cl aud = Inr t \<Longrightarrow> at_claims t = cl \<and> at_token t = token"
  by (auto simp: access_token_from_claims_def res_bind_Inr_iff)

text \<open>
  What the provider says of a token; the cache holds nothing else under the token's key.  \<open>alive\<close>
  and the entries are those of the cache contract.
\<close>

definition provider_says ::
  "introspection_config \<Rightarrow> 's oauth_http \<Rightarrow> (pystr \<Rightarrow> claims \<Rightarrow> bool) \<Rightarrow> bool" where
  "provider_says I H said \<longleftrightarrow>
     (\<forall>token s cl s'. oh_post H (ic_url I)
          [(lit ''token'', JStr token), (lit ''token_type_hint'', JStr (lit ''access_token''))]
          (ic_client_id I, ic_client_secret I) s = (Inr (JDict cl), s') \<longrightarrow> said token cl)"

definition trusted :: "(pystr \<Rightarrow> claims \<Rightarrow> bool) \<Rightarrow> pystr \<Rightarrow> claims \<Rightarrow> bool" where
  "trusted said token cl \<longleftrightarrow> said token cl \<or> \<not> truthy (get_claim cl (lit ''active''))"

definition vouched ::
  "json_lib \<Rightarrow> (pystr \<Rightarrow> claims \<Rightarrow> bool) \<Rightarrow> ('s \<Rightarrow> pystr \<Rightarrow> pystr option) \<Rightarrow> 's \<Rightarrow> bool" where
  "vouched J said entries s \<longleftrightarrow>
     (\<forall>token text cl. entries s (token_key J token) = Some text \<and> jn_loads J text = Some (JDict cl)
        \<longrightarrow> trusted said token cl)"

lemma vouchedD:
  "vouched J said entries s \<Longrightarrow> entries s (token_key J token) = Some text \<Longrightarrow>
   jn_loads J text = Some (JDict cl) \<Longrightarrow> trusted said token cl"
  by (auto simp: vouched_def)

definition json_lib_ok :: "json_lib \<Rightarrow> bool" where
  "json_lib_ok J \<longleftrightarrow> inj (jn_sha256 J) \<and> (\<forall>v w. jn_loads J (jn_dumps J v) = Some w \<longrightarrow> w = v)"

lemma token_key_not_reserved: "\<not> reserved (token_key J token)"
  by (simp add: reserved_def token_key_def starts_with_def)

context cache_contract
begin

abbreviation "tokens_ok J said s \<equiv> alive s \<and> vouched J said entries s"

lemma vouched_mono: "vouched J said entries s \<Longrightarrow> entries s' \<subseteq>\<^sub>m entries s \<Longrightarrow> vouched J said entries s'"
  unfolding vouched_def by (blast dest: map_le_Some)

lemma from_cache_triple:
  "triple (tokens_ok J said) (from_cache J C (token_key J token))
     (\<lambda>found s. tokens_ok J said s
        \<and> (\<forall>cl. found = Some cl \<longrightarrow> trusted said token cl))
     (\<lambda>_. tokens_ok J said)"
  unfolding from_cache_def
proof (rule triple_bind)
  let ?k = "token_key J token"
  show "triple (tokens_ok J said) (ca_get C ?k)
      (\<lambda>hit s. tokens_ok J said s \<and> (\<forall>text cl. hit = Some text \<and> jn_loads J text = Some (JDict cl) \<longrightarrow>
         trusted said token cl)) (\<lambda>_. tokens_ok J said)"
  proof (rule tripleI)
    fix s hit t assume s: "tokens_ok J said s" and run: "ca_get C ?k s = (Inr hit, t)"
    note law = get_law [OF conjunct1 [OF s] token_key_not_reserved run]
    show "tokens_ok J said t \<and> (\<forall>text cl. hit = Some text \<and> jn_loads J text = Some (JDict cl) \<longrightarrow>
         trusted said token cl)"
      using law s vouched_mono vouchedD [of J said entries s token] by auto
  next
    fix s e t assume s: "tokens_ok J said s" and run: "ca_get C ?k s = (Inl e, t)"
    show "tokens_ok J said t"
      using get_law [OF conjunct1 [OF s] token_key_not_reserved run] s vouched_mono by auto
  qed
qed (auto simp: triple_def split: option.splits json.splits)

lemma store_vouched:
  assumes J: "json_lib_ok J" and ok: "trusted said token cl"
  shows "io_keeps (tokens_ok J said) (ca_set C (token_key J token) (jn_dumps J (JDict cl)) ttl)"
  unfolding io_keeps_def
proof (intro allI impI)
  fix s assume s: "tokens_ok J said s"
  obtain r t where run: "ca_set C (token_key J token) (jn_dumps J (JDict cl)) ttl s = (r, t)" by (rule prod.exhaust)
  note law = set_law [OF conjunct1 [OF s] token_key_not_reserved run]
  have "vouched J said entries t"
    unfolding vouched_def
  proof (intro allI impI)
    fix tok x cl' assume h: "entries t (token_key J tok) = Some x \<and> jn_loads J x = Some (JDict cl')"
    have st: "entries s (token_key J tok) = Some x \<or> token_key J tok = token_key J token \<and> x = jn_dumps J (JDict cl)"
      using storesD [of "entries s" "token_key J token"] law h by blast
    show "trusted said tok cl'"
    proof (cases "entries s (token_key J tok) = Some x")
      case True
      show ?thesis by (rule vouchedD [OF conjunct2 [OF s] True conjunct2 [OF h]])
    next
      case False
      then have "tok = token" "cl' = cl"
        using J h st by (auto simp: json_lib_ok_def token_key_def dest: injD)
      then show ?thesis using ok by simp
    qed
  qed
  with law run show "tokens_ok J said (snd (ca_set C (token_key J token) (jn_dumps J (JDict cl)) ttl s))" by simp
qed

lemma ask_provider_triple:
  assumes H: "provider_says I H said"
    and post: "\<And>u d a. io_keeps (tokens_ok J said) (oh_post H u d a)"
  shows "triple (tokens_ok J said) (ask_provider I H token)
     (\<lambda>answer s. tokens_ok J said s \<and> (\<forall>cl. answer = Some (JDict cl) \<longrightarrow> said token cl)) (\<lambda>_. tokens_ok J said)"
proof (rule tripleI)
  fix s answer t assume s: "tokens_ok J said s" and run: "ask_provider I H token s = (Inr answer, t)"
  let ?ask = "oh_post H (ic_url I) [(lit ''token'', JStr token), (lit ''token_type_hint'', JStr (lit ''access_token''))]
      (ic_client_id I, ic_client_secret I)"
  obtain q u where q: "?ask s = (q, u)" by (rule prod.exhaust)
  have "tokens_ok J said u" by (rule io_keepsD [OF post s q])
  then show "tokens_ok J said t \<and> (\<forall>cl. answer = Some (JDict cl) \<longrightarrow> said token cl)"
    using run q H unfolding ask_provider_def by (cases q) (auto simp: provider_says_def split: if_splits)
next
  fix s e t assume s: "tokens_ok J said s" and run: "ask_provider I H token s = (Inl e, t)"
  have "io_keeps (tokens_ok J said) (ask_provider I H token)"
    unfolding ask_provider_def by (intro io_keeps_catch io_keeps_bind io_keeps_if post io_keeps_basic)
  from io_keepsD [OF this s run] show "tokens_ok J said t" .
qed

lemma wall_keeps:
  "(\<And>s. tokens_ok J said s \<Longrightarrow> tokens_ok J said (snd (wall s))) \<Longrightarrow> io_keeps (tokens_ok J said) (wall_seconds wall)"
  unfolding io_keeps_def wall_seconds_def by (simp add: case_prod_beta)

lemma remember_keeps:
  assumes J: "json_lib_ok J" and cl: "trusted said token cl"
    and wall: "\<And>s. tokens_ok J said s \<Longrightarrow> tokens_ok J said (snd (wall s))"
  shows "io_keeps (tokens_ok J said) (remember_answer I J C wall (token_key J token) cl)"
proof -
  have "trusted said token [(lit ''active'', JBool False)]" by (simp add: trusted_def get_claim_def)
  then show ?thesis
    unfolding remember_answer_def answer_ttl_def
    by (intro io_keeps_if io_keeps_bind io_keeps_option store_vouched [OF J] cl wall_keeps [OF wall] io_keeps_basic)
qed

lemma introspect_triple:
  assumes J: "json_lib_ok J" and H: "provider_says I H said"
    and post: "\<And>u d a. io_keeps (tokens_ok J said) (oh_post H u d a)"
    and wall: "\<And>s. tokens_ok J said s \<Longrightarrow> tokens_ok J said (snd (wall s))"
  shows "triple (tokens_ok J said) (introspect I J H C wall token (token_key J token))
     (\<lambda>found s. tokens_ok J said s \<and> (\<forall>cl. found = Some cl \<longrightarrow> trusted said token cl)) (\<lambda>_. tokens_ok J said)"
  unfolding introspect_def
proof (rule triple_bind [OF triple_pure ask_provider_triple [OF H post]])
  fix answer assume ans: "\<forall>cl. answer = Some (JDict cl) \<longrightarrow> said token cl"
  have "triple (tokens_ok J said) (io_then (remember_answer I J C wall (token_key J token) cl) (io_return (Some cl)))
      (\<lambda>found s. tokens_ok J said s \<and> (\<forall>cl. found = Some cl \<longrightarrow> trusted said token cl)) (\<lambda>_. tokens_ok J said)"
    if "answer = Some (JDict cl)" for cl
  proof -
    have tr: "trusted said token cl" using ans that by (simp add: trusted_def)
    show ?thesis
      by (rule triple_then [OF _ remember_keeps [OF J tr wall, unfolded io_keeps_triple]]) (use tr in \<open>auto simp: triple_def\<close>)
  qed
  then show "triple (tokens_ok J said)
     (case answer of Some (JDict cl) \<Rightarrow> io_then (remember_answer I J C wall (token_key J token) cl) (io_return (Some cl))
       | _ \<Rightarrow> io_return None)
     (\<lambda>found s. tokens_ok J said s \<and> (\<forall>cl. found = Some cl \<longrightarrow> trusted said token cl)) (\<lambda>_. tokens_ok J said)"
    by (auto simp: triple_def [of _ "io_return None"] split: option.splits json.splits)
qed

lemma accept_info:
  assumes wall: "\<And>s. tokens_ok J said s \<Longrightarrow> tokens_ok J said (snd (wall s))" and earliest: "\<And>s. earliest \<le> fst (wall s)"
  shows "triple (tokens_ok J said) (acceptable I wall cl)
     (\<lambda>ok s. tokens_ok J said s \<and> (ok \<longrightarrow> good_claims I (earliest div 1000000) cl)) (\<lambda>_. tokens_ok J said)"
proof (rule tripleI)
  have keeps: "io_keeps (tokens_ok J said) (acceptable I wall cl)"
    unfolding acceptable_def
    by (intro io_keeps_if io_keeps_option io_keeps_bind wall_keeps [OF wall] io_keeps_basic)
  fix s ok t assume s: "tokens_ok J said s" and run: "acceptable I wall cl s = (Inr ok, t)"
  show "tokens_ok J said t \<and> (ok \<longrightarrow> good_claims I (earliest div 1000000) cl)"
    using io_keepsD [OF keeps s run] acceptable_good [where I = I and cl = cl and s = s and s' = t, OF _ earliest] run by auto
next
  have keeps: "io_keeps (tokens_ok J said) (acceptable I wall cl)"
    unfolding acceptable_def
    by (intro io_keeps_if io_keeps_option io_keeps_bind wall_keeps [OF wall] io_keeps_basic)
  fix s e t assume s: "tokens_ok J said s" and run: "acceptable I wall cl s = (Inl e, t)"
  show "tokens_ok J said t" by (rule io_keepsD [OF keeps s run])
qed

text \<open>An accepted token: the provider said of it what its claims say, and those are good.\<close>

lemma introspection_triple:
  assumes J: "json_lib_ok J" and H: "provider_says I H said"
    and post: "\<And>u d a. io_keeps (tokens_ok J said) (oh_post H u d a)"
    and wall: "\<And>s. tokens_ok J said s \<Longrightarrow> tokens_ok J said (snd (wall s))" and earliest: "\<And>s. earliest \<le> fst (wall s)"
  shows "triple (tokens_ok J said) (introspection_verify_token T I J H C wall token)
     (\<lambda>r s. tokens_ok J said s \<and> (\<forall>t. r = Some t \<longrightarrow>
         said token (at_claims t) \<and> good_claims I (earliest div 1000000) (at_claims t) \<and> at_token t = token))
     (\<lambda>_. tokens_ok J said)"
  unfolding introspection_verify_token_def
proof (rule triple_bind [OF _ from_cache_triple], rule triple_pure)
  let ?P = "tokens_ok J said"
  let ?Q = "\<lambda>r s. ?P s \<and> (\<forall>t. r = Some t \<longrightarrow>
         said token (at_claims t) \<and> good_claims I (earliest div 1000000) (at_claims t) \<and> at_token t = token)"
  fix cached assume hit: "\<forall>cl. cached = Some cl \<longrightarrow> trusted said token cl"
  have found: "triple ?P (case cached of None \<Rightarrow> introspect I J H C wall token (token_key J token) | Some cl \<Rightarrow> io_return (Some cl))
      (\<lambda>found s. ?P s \<and> (\<forall>cl. found = Some cl \<longrightarrow> trusted said token cl)) (\<lambda>_. ?P)"
    using introspect_triple [OF J H post wall] hit
    by (cases cached) (auto simp: triple_def [of _ "io_return _"])
  show "triple ?P (io_bind (case cached of None \<Rightarrow> introspect I J H C wall token (token_key J token) | Some cl \<Rightarrow> io_return (Some cl))
       (\<lambda>found. case found of None \<Rightarrow> io_return None
          | Some cl \<Rightarrow> io_bind (acceptable I wall cl) (\<lambda>ok. if \<not> ok then io_return None
               else io_bind (io_lift (access_token_from_claims T token cl (ic_audience I))) (\<lambda>t. io_return (Some t)))))
     ?Q (\<lambda>_. ?P)"
  proof (rule triple_bind [OF triple_pure found], rule triple_option)
    fix found cl assume "\<forall>cl. found = Some cl \<longrightarrow> trusted said token cl" "found = Some cl"
    then have tr: "trusted said token cl" by simp
    show "triple ?P (io_bind (acceptable I wall cl) (\<lambda>ok. if \<not> ok then io_return None
          else io_bind (io_lift (access_token_from_claims T token cl (ic_audience I))) (\<lambda>t. io_return (Some t)))) ?Q (\<lambda>_. ?P)"
    proof (rule triple_bind [OF triple_pure accept_info [OF wall earliest]])
      fix ok assume ok: "ok \<longrightarrow> good_claims I (earliest div 1000000) cl"
      show "triple ?P (if \<not> ok then io_return None
          else io_bind (io_lift (access_token_from_claims T token cl (ic_audience I))) (\<lambda>t. io_return (Some t))) ?Q (\<lambda>_. ?P)"
        using ok tr token_from_claims [of T token cl "ic_audience I"]
        by (auto simp: triple_def io_bind_def trusted_def good_claims_def split: sum.splits)
    qed
  qed (simp add: triple_def)
qed

end

section \<open>The verifier over Redis\<close>

text \<open>The provider and the clock work on the world, beside the cache.\<close>

definition lift_http :: "'y oauth_http \<Rightarrow> ('c \<times> 'y) oauth_http" where
  "lift_http H = \<lparr>oh_get = (\<lambda>url. io_on_snd (oh_get H url)), oh_post = (\<lambda>url d a. io_on_snd (oh_post H url d a))\<rparr>"

definition lift_wall :: "'y clock \<Rightarrow> ('c \<times> 'y) clock" where
  "lift_wall wall = (\<lambda>(c, y). case wall y of (t, y') \<Rightarrow> (t, (c, y')))"

lemma lifted_contract:
  assumes "cache_contract C entries ver alive rest"
  shows "cache_contract (lift_cache C) (\<lambda>p. entries (fst p)) (\<lambda>p. ver (fst p)) (\<lambda>p. alive (fst p)) (\<lambda>p. rest (fst p))"
proof (unfold_locales, goal_cases)
  case (1 s f rv s')
  then show ?case using cache_contract.version_law [OF assms, of "fst s" f rv]
    by (auto simp: lift_cache_def io_on_fst_def split: prod.splits)
next
  case (2 s k rg s')
  then show ?case using cache_contract.get_law [OF assms, of "fst s" k rg]
    by (auto simp: lift_cache_def io_on_fst_def split: prod.splits)
next
  case (3 s k x ttl ru s')
  then show ?case using cache_contract.set_law [OF assms, of "fst s" k x ttl ru]
    by (auto simp: lift_cache_def io_on_fst_def split: prod.splits)
next
  case (4 s f rb s')
  then show ?case using cache_contract.bump_law [OF assms, of "fst s" f rb]
    by (auto simp: lift_cache_def io_on_fst_def split: prod.splits)
qed

text \<open>C13: a token is accepted by introspection only if the provider said of this very token what its
  claims say, whether the answer came from the provider or from the cache, and those claims
  are active, unexpired now, from the configured issuer and for this server.\<close>

theorem introspected_token_vouched:
  fixes R :: "'x redis_client" and H :: "'y oauth_http"
  assumes "redis_laws R clk kv" "json_lib_ok J" "provider_says I H said" "\<And>y. earliest \<le> fst (wall y)"
    and "vouched J said (redis_entries kv) r"
    and "introspection_verify_token T I J (lift_http H) (lift_cache (redis_cache R clk)) (lift_wall wall) token (r, y)
         = (Inr (Some t), (r', y'))"
  shows "said token (at_claims t) \<and> good_claims I (earliest div 1000000) (at_claims t) \<and> at_token t = token
    \<and> vouched J said (redis_entries kv) r'"
proof -
  have contract: "cache_contract (lift_cache (redis_cache R clk)) (\<lambda>p. redis_entries kv (fst p))
      (\<lambda>p. redis_versions kv (fst p)) (\<lambda>p. True) (\<lambda>p. ())"
    by (rule lifted_contract [OF redis_server.redis_contract [OF redis_server.intro [OF assms(1)]]])
  have vch: "vouched J said (\<lambda>p. redis_entries kv (fst p)) p \<longleftrightarrow> vouched J said (redis_entries kv) (fst p)" for p :: "'x redis_state \<times> 'y"
    by (simp add: vouched_def)
  have H: "provider_says I (lift_http H :: ('x redis_state \<times> 'y) oauth_http) said"
    using assms(3) by (auto simp: provider_says_def lift_http_def io_on_snd_iff)
  have post: "io_keeps (\<lambda>p. True \<and> vouched J said (\<lambda>p. redis_entries kv (fst p)) p) (oh_post (lift_http H) u d a)"
    for u d a
    by (auto simp: io_keeps_def lift_http_def io_on_snd_def vch split: prod.splits)
  have wall: "True \<and> vouched J said (\<lambda>p. redis_entries kv (fst p)) (snd (lift_wall wall p))"
    if "True \<and> vouched J said (\<lambda>p. redis_entries kv (fst p)) p" for p
    using that by (auto simp: lift_wall_def vch split: prod.splits)
  have earliest: "earliest \<le> fst (lift_wall wall p)" for p :: "'x redis_state \<times> 'y"
    using assms(4) by (simp add: lift_wall_def case_prod_beta)
  from tripleD_Inr [OF cache_contract.introspection_triple [OF contract assms(2) H post wall earliest] _ assms(6)]
  show ?thesis using assms(5) by (simp add: vch)
qed

section \<open>An instance\<close>

definition sample_claims :: claims where
  "sample_claims = [(lit ''active'', JBool True), (lit ''sub'', JStr (lit ''alice'')), (lit ''exp'', JInt 100),
     (lit ''aud'', JStr (lit ''mcp'')), (lit ''iss'', JStr (lit ''kc''))]"

definition sample_json :: json_lib where
  "sample_json =
     \<lparr>jn_dumps = (\<lambda>v. if v = JDict sample_claims then lit ''A'' else []),
      jn_loads = (\<lambda>t. if t = lit ''A'' then Some (JDict sample_claims) else None), jn_sha256 = (\<lambda>t. t)\<rparr>"

text \<open>A provider that answers once and is then down; the state counts the calls.\<close>

definition once_http :: "nat oauth_http" where
  "once_http =
     \<lparr>oh_get = (\<lambda>url n. (Inl (py_error ''HTTPError''), Suc n)),
      oh_post = (\<lambda>url d a n. (if n = 0 then Inr (JDict sample_claims) else Inl (py_error ''HTTPError''), Suc n))\<rparr>"

definition sample_introspection :: introspection_config where
  "sample_introspection =
     \<lparr>ic_url = lit ''u'', ic_client_id = lit ''i'', ic_client_secret = lit ''s'', ic_audience = lit ''mcp'',
      ic_issuer = Some (lit ''kc''), ic_cache_ttl_s = 60\<rparr>"

definition sample_text :: py_text where
  "sample_text = \<lparr>pt_str = (\<lambda>_. []), pt_int = (\<lambda>_. None)\<rparr>"

definition sample_verify :: "kv_data redis_state \<times> nat \<Rightarrow> (exn + access_token option) \<times> kv_data redis_state \<times> nat" where
  "sample_verify = introspection_verify_token sample_text sample_introspection sample_json (lift_http once_http)
     (lift_cache (redis_cache mem_redis (\<lambda>x. (0, x)))) (lift_wall (\<lambda>y. (40000000, y))) (lit ''tok'')"

definition verify_start :: "kv_data redis_state \<times> nat" where
  "verify_start = (\<lparr>rs_down_until = 0, rs_ext = (\<lambda>_. None)\<rparr>, 0)"

lemma sample_json_ok: "json_lib_ok sample_json"
  by (auto simp: json_lib_ok_def sample_json_def inj_def split: if_splits)

lemma once_says: "provider_says sample_introspection once_http (\<lambda>token cl. cl = sample_claims)"
  by (auto simp: provider_says_def once_http_def split: if_splits)

lemma sample_verified: "case fst (sample_verify verify_start) of Inr (Some t) \<Rightarrow> True | _ \<Rightarrow> False"
  by code_simp

lemma sample_verified_again:
  "case sample_verify (snd (sample_verify verify_start)) of (Inr (Some t), s) \<Rightarrow> snd s = 1 | _ \<Rightarrow> False"
  by code_simp

theorem introspected_token_vouched_witness:
  "\<exists>t r'. sample_verify (snd (sample_verify verify_start)) = (Inr (Some t), (r', 1))
     \<and> at_claims t = sample_claims \<and> good_claims sample_introspection 40 sample_claims"
proof -
  let ?said = "\<lambda>(token :: pystr) cl. cl = sample_claims"
  note rule = introspected_token_vouched [OF mem_redis_laws sample_json_ok once_says, where earliest = 40000000
      and wall = "\<lambda>y. (40000000, y)" and T = sample_text and token = "lit ''tok''", folded sample_verify_def]
  obtain t1 r1 y1 where first: "sample_verify verify_start = (Inr (Some t1), (r1, y1))"
    using sample_verified by (cases "sample_verify verify_start") (auto split: sum.splits option.splits)
  have start: "vouched sample_json ?said (redis_entries (\<lambda>x. x)) (fst verify_start)"
    by (simp add: vouched_def verify_start_def redis_entries_def)
  have v1: "vouched sample_json ?said (redis_entries (\<lambda>x. x)) r1"
    using rule [of "fst verify_start" "snd verify_start" t1 r1 y1] start first by simp
  obtain t r' where second: "sample_verify (r1, y1) = (Inr (Some t), (r', 1))"
    using sample_verified_again first
    by (cases "sample_verify (r1, y1)") (auto split: sum.splits option.splits)
  from rule [of r1 y1 t r' 1] v1 second first show ?thesis by auto
qed

end
