(* ===== verification/JwtProps.thy ===== *)
theory JwtProps
  imports Tokens
begin

text \<open>
  The JWT verifier: an accepted token was decoded with a published key that is no older than the
  maximal age, for our issuer and audience, with asymmetric algorithms only; and when it asks
  the identity provider for its keys.
\<close>

section \<open>Keys\<close>

text \<open>The keys in use were published: they are the result of a key set the provider sent.\<close>

definition published :: "'k jwt_lib \<Rightarrow> 'x oauth_http \<Rightarrow> (json \<times> 'k) list \<Rightarrow> bool" where
  "published L H keys \<longleftrightarrow>
     (\<exists>url x j x'. oh_get H url x = (Inr j, x') \<and> keys_of_set (jl_from_dict L) j = Inr keys)"

lemma refresh_published:
  assumes "refresh_keys L C H clk s = (Inr u, s')" and "\<And>x. earliest \<le> fst (clk x)"
  shows "published L H (js_keys s') \<and> earliest \<le> js_fetched_at s'"
proof -
  from assms(1) obtain url s1 j s2 k t s3 where get: "on_js (oh_get H url) s1 = (Inr j, s2)"
    and keys: "keys_of_set (jl_from_dict L) j = Inr k" and now: "js_now clk s2 = (Inr t, s3)"
    and s': "s' = s3\<lparr>js_keys := k, js_fetched_at := t\<rparr>"
    unfolding refresh_keys_def io_bind_Inr_iff by auto
  from get obtain x x' where "oh_get H url x = (Inr j, x')" by (auto simp: on_js_def split: prod.splits)
  with keys have "published L H k" by (auto simp: published_def)
  moreover have "earliest \<le> t" using now assms(2) by (auto simp: js_now_def split: prod.splits) (metis fst_conv)
  ultimately show ?thesis by (simp add: s')
qed

lemma js_now_state: "js_now clk s = (Inr t, s') \<Longrightarrow>
  js_keys s' = js_keys s \<and> js_fetched_at s' = js_fetched_at s \<and> t = fst (clk (js_ext s))"
  by (auto simp: js_now_def split: prod.splits)

text \<open>The key a token is checked with: published, and not older than the maximal age.\<close>

definition key_current :: "'k jwt_lib \<Rightarrow> 'x oauth_http \<Rightarrow> int \<Rightarrow> ('k, 'x) jwt_state \<Rightarrow> bool" where
  "key_current L H earliest s \<longleftrightarrow>
     published L H (js_keys s) \<and> earliest - js_fetched_at s \<le> JWKS_MAX_AGE_US"

definition keys_published :: "'k jwt_lib \<Rightarrow> 'x oauth_http \<Rightarrow> ('k, 'x) jwt_state \<Rightarrow> bool" where
  "keys_published L H s \<longleftrightarrow> js_keys s = [] \<or> published L H (js_keys s)"

lemma locked_key_current:
  assumes run: "locked_key_for L C H clk kid s = (Inr (Some key), s')" and clock: "\<And>x. earliest \<le> fst (clk x)"
    and pub: "keys_published L H s"
  shows "map_of (js_keys s') (JStr kid) = Some key \<and> key_current L H earliest s'"
proof -
  have have_keys: "published L H (js_keys s)" if "map_of (js_keys s) (JStr kid) = Some k" for k
    using pub that by (auto simp: keys_published_def)
  from run obtain usable s1 where u: "(if map_of (js_keys s) (JStr kid) \<noteq> None
              then io_bind (js_now clk) (\<lambda>t. io_return (t - js_fetched_at s \<le> JWKS_MAX_AGE_US))
              else io_return False) s = (Inr usable, s1)"
    and k: "(if usable then io_return (map_of (js_keys s) (JStr kid))
       else io_bind (js_now clk) (\<lambda>t.
         io_then (if \<not> t - js_fetched_at s < MIN_JWKS_REFETCH_US \<or> js_keys s = [] then refresh_keys L C H clk
                  else io_return ())
           (io_gets (\<lambda>s. map_of (js_keys s) (JStr kid))))) s1 = (Inr (Some key), s')"
    unfolding locked_key_for_def io_bind_Inr_iff by auto
  have s1: "js_keys s1 = js_keys s" "js_fetched_at s1 = js_fetched_at s"
    and age: "usable \<Longrightarrow> earliest - js_fetched_at s \<le> JWKS_MAX_AGE_US"
    using u clock by (auto simp: io_bind_Inr_iff dest!: js_now_state split: if_splits) (smt (verit))
  show ?thesis
  proof (cases usable)
    case True
    with k s1 age have_keys show ?thesis by (auto simp: key_current_def)
  next
    case False
    with k obtain t s2 u s3 where t: "js_now clk s1 = (Inr t, s2)"
      and r: "(if \<not> t - js_fetched_at s < MIN_JWKS_REFETCH_US \<or> js_keys s = [] then refresh_keys L C H clk
                  else io_return ()) s2 = (Inr u, s3)"
      and got: "map_of (js_keys s3) (JStr kid) = Some key" "s' = s3"
      by (auto simp: io_bind_Inr_iff io_then_Inr_iff)
    show ?thesis
    proof (cases "\<not> t - js_fetched_at s < MIN_JWKS_REFETCH_US \<or> js_keys s = []")
      case True
      then have "refresh_keys L C H clk s2 = (Inr u, s3)" using r by simp
      from refresh_published [OF this clock] got show ?thesis by (simp add: key_current_def JWKS_MAX_AGE_US_def)
    next
      case False
      then have "s3 = s2" using r by auto
      with False got js_now_state [OF t] s1 clock [of "js_ext s1"] have_keys show ?thesis
        by (auto simp: key_current_def JWKS_MAX_AGE_US_def MIN_JWKS_REFETCH_US_def)
    qed
  qed
qed

lemma key_for_current:
  assumes run: "key_for L C H clk (Some kid) s = (Inr (Some key), s')" and clock: "\<And>x. earliest \<le> fst (clk x)"
    and pub: "keys_published L H s"
  shows "map_of (js_keys s') (JStr kid) = Some key \<and> key_current L H earliest s'"
proof -
  from run obtain t s1 where t: "js_now clk s = (Inr t, s1)"
    and k: "(if map_of (js_keys s1) (JStr kid) \<noteq> None \<and> \<not> JWKS_MAX_AGE_US < t - js_fetched_at s1
       then io_return (map_of (js_keys s1) (JStr kid)) else locked_key_for L C H clk kid) s1 = (Inr (Some key), s')"
    by (auto simp: key_for_def io_bind_Inr_iff)
  note s1 = js_now_state [OF t]
  show ?thesis
  proof (cases "map_of (js_keys s1) (JStr kid) \<noteq> None \<and> \<not> JWKS_MAX_AGE_US < t - js_fetched_at s1")
    case True
    with k s1 clock [of "js_ext s"] pub show ?thesis by (auto simp: key_current_def keys_published_def)
  next
    case False
    with k have "locked_key_for L C H clk kid s1 = (Inr (Some key), s')" by auto
    from locked_key_current [OF this clock] pub s1 show ?thesis by (simp add: keys_published_def)
  qed
qed

text \<open>C14: a signed token is accepted only if PyJWT decoded it with the key its header names, a key the
  identity provider published in a key set no older than the maximal age, asked to check our
  issuer and audience and allowed asymmetric algorithms only.\<close>

theorem jwt_token_checked:
  assumes "jwt_verify_token T L C H clk wall token s = (Inr (Some t), s')" and "\<And>x. earliest \<le> fst (clk x)"
    and "keys_published L H s"
  shows "\<exists>header kid key now.
     jl_header L token = Inr header \<and> map_of header (lit ''kid'') = Some (JStr kid)
     \<and> map_of (js_keys s') (JStr kid) = Some key \<and> key_current L H earliest s'
     \<and> jl_decode L token key (jwt_options C) now = Inr (at_claims t)
     \<and> list_all (\<lambda>a. hd a \<in> {cp CHR ''R'', cp CHR ''P'', cp CHR ''E''}) (do_algorithms (jwt_options C))
     \<and> do_audience (jwt_options C) = jc_audience C \<and> do_issuer (jwt_options C) = jc_issuer C"
proof -
  from assms(1) obtain cl u where c: "io_catch
          (io_bind (io_lift (jl_header L token)) (\<lambda>header.
           io_bind (key_for L C H clk (header_kid header)) (\<lambda>found.
             case found of
               None \<Rightarrow> io_return None
             | Some key \<Rightarrow>
                 io_bind (js_now wall) (\<lambda>now.
                 io_bind (io_lift (jl_decode L token key (jwt_options C) now)) (\<lambda>cl. io_return (Some cl))))))
          (\<lambda>e. if jwt_error e \<or> fetch_error e then io_return None else io_raise e) s = (Inr (Some cl), u)"
    and t: "access_token_from_claims T token cl (jc_audience C) = Inr t" "s' = u"
    unfolding jwt_verify_token_def by (auto simp: io_bind_Inr_iff split: option.splits)
  then obtain header found u1 where h: "jl_header L token = Inr header"
    and f: "key_for L C H clk (header_kid header) s = (Inr found, u1)"
    and d: "(case found of None \<Rightarrow> io_return None
             | Some key \<Rightarrow> io_bind (js_now wall) (\<lambda>now.
                 io_bind (io_lift (jl_decode L token key (jwt_options C) now)) (\<lambda>cl. io_return (Some cl)))) u1
        = (Inr (Some cl), u)"
    by (auto simp: io_catch_def io_bind_Inr_iff split: prod.splits sum.splits if_splits)
  from d obtain key now where key: "found = Some key" "jl_decode L token key (jwt_options C) now = Inr cl"
    "js_keys u = js_keys u1" "js_fetched_at u = js_fetched_at u1"
    by (auto simp: io_bind_Inr_iff split: option.splits dest!: js_now_state)
  from f key(1) obtain kid where kid: "header_kid header = Some kid" "map_of header (lit ''kid'') = Some (JStr kid)"
    by (cases "header_kid header") (auto simp: key_for_def header_kid_def split: option.splits json.splits)
  have "map_of (js_keys u) (JStr kid) = Some key \<and> key_current L H earliest u"
    using key_for_current [OF f [unfolded key(1) kid(1)] assms(2,3)] key(3,4) by (simp add: key_current_def)
  moreover have "at_claims t = cl" using t(1) by (auto simp: access_token_from_claims_def res_bind_Inr_iff)
  ultimately show ?thesis using h kid(2) key(2) t(2)
    by (auto simp: jwt_options_def ALLOWED_ALGORITHMS_def)
qed

section \<open>How often the provider is asked\<close>

text \<open>C32: made-up key ids cause no requests: while the verifier has keys and fetched them less than the
  minimal interval ago, looking up any key id gives the same whatever the provider would answer,
  and leaves the keys as they are.\<close>

theorem recent_keys_no_request:
  assumes "js_keys s \<noteq> []" and "\<And>x. fst (clk x) - js_fetched_at s < MIN_JWKS_REFETCH_US"
  shows "key_for L C H clk kid s = key_for L C H' clk kid s
    \<and> js_keys (snd (key_for L C H clk kid s)) = js_keys s
    \<and> js_fetched_at (snd (key_for L C H clk kid s)) = js_fetched_at s"
proof (cases kid)
  case (Some k)
  obtain t s1 where t: "js_now clk s = (Inr t, s1)" by (cases "clk (js_ext s)") (simp add: js_now_def)
  note s1 = js_now_state [OF t]
  have locked: "locked_key_for L C G clk k s1 = locked_key_for L C H' clk k s1
     \<and> js_keys (snd (locked_key_for L C G clk k s1)) = js_keys s
     \<and> js_fetched_at (snd (locked_key_for L C G clk k s1)) = js_fetched_at s" for G
  proof -
    obtain t2 s2 where t2: "js_now clk s1 = (Inr t2, s2)" by (cases "clk (js_ext s1)") (simp add: js_now_def)
    obtain t3 s3 where t3: "js_now clk s2 = (Inr t3, s3)" by (cases "clk (js_ext s2)") (simp add: js_now_def)
    show ?thesis
      using assms t2 t3 js_now_state [OF t2] js_now_state [OF t3] s1
      by (auto simp: locked_key_for_def io_bind_def io_then_def)
  qed
  show ?thesis using t s1 locked [of H] by (auto simp: Some key_for_def io_bind_def)
qed (simp add: key_for_def)

text \<open>A client that keeps the addresses it asked, whatever the provider answers.\<close>

definition recording :: "'x oauth_http \<Rightarrow> (pystr list \<times> 'x) oauth_http" where
  "recording H =
     \<lparr>oh_get = (\<lambda>url (asked, x). case oh_get H url x of (r, x') \<Rightarrow> (r, (asked @ [url], x'))),
      oh_post = (\<lambda>url d a (asked, x). case oh_post H url d a x of (r, x') \<Rightarrow> (r, (asked @ [url], x')))\<rparr>"











text \<open>A provider that is down, and the verifier without keys that asks it at every look-up.\<close>

definition down_http :: "unit oauth_http" where
  "down_http =
     \<lparr>oh_get = (\<lambda>url x. (Inl (py_error ''HTTPError''), x)), oh_post = (\<lambda>url d a x. (Inl (py_error ''HTTPError''), x))\<rparr>"

definition keyless :: "pystr list \<Rightarrow> (nat, pystr list \<times> unit) jwt_state" where
  "keyless asked = \<lparr>js_keys = [], js_fetched_at = 0, js_jwks_url = Some (lit ''https://idp/keys''), js_ext = (asked, ())\<rparr>"

lemma keyless_lookup_always_asks:
  "key_for L C (recording down_http) (\<lambda>x. (now, x)) (Some kid) (keyless asked)
     = (Inl (py_error ''HTTPError''), keyless (asked @ [lit ''https://idp/keys'']))"
  by (simp add: key_for_def locked_key_for_def refresh_keys_def keyless_def js_now_def on_js_def down_http_def recording_def
      io_bind_def io_then_def lit_def)

section \<open>An instance\<close>

definition sample_lib :: "nat jwt_lib" where
  "sample_lib =
     \<lparr>jl_header = (\<lambda>t. Inr [(lit ''kid'', JStr (lit ''k1''))]),
      jl_decode = (\<lambda>t k opts now. if k = 7 then Inr [(lit ''sub'', JStr (lit ''alice'')), (lit ''exp'', JInt 100)]
                              else Inl (py_error ''PyJWTError'')),
      jl_from_dict = (\<lambda>d. Inr 7)\<rparr>"

definition key_set_http :: "unit oauth_http" where
  "key_set_http =
     \<lparr>oh_get = (\<lambda>url x. (Inr (JDict [(lit ''keys'', JList [JDict [(lit ''kid'', JStr (lit ''k1''))]])]), x)),
      oh_post = (\<lambda>url d a x. (Inl (py_error ''HTTPError''), x))\<rparr>"

definition sample_jwt :: jwt_config where
  "sample_jwt = \<lparr>jc_issuer = lit ''kc'', jc_audience = lit ''mcp'', jc_leeway_s = 30\<rparr>"


definition fresh_verifier :: "(nat, unit) jwt_state" where
  "fresh_verifier = \<lparr>js_keys = [], js_fetched_at = 0, js_jwks_url = Some (lit ''u''), js_ext = ()\<rparr>"

definition jwt_run :: "(exn + access_token option) \<times> (nat, unit) jwt_state" where
  "jwt_run = jwt_verify_token \<lparr>pt_str = (\<lambda>_. []), pt_int = (\<lambda>_. None)\<rparr> sample_lib sample_jwt key_set_http
     (\<lambda>x. (50000000, x)) (\<lambda>x. (40000000, x)) (lit ''tok'') fresh_verifier"

lemma jwt_run_accepts: "case fst jwt_run of Inr (Some t) \<Rightarrow> True | _ \<Rightarrow> False"
  by code_simp

theorem jwt_token_checked_witness:
  "\<exists>t s' key. jwt_run = (Inr (Some t), s') \<and> map_of (js_keys s') (JStr (lit ''k1'')) = Some key
     \<and> key_current sample_lib key_set_http 50000000 s'"
proof -
  obtain t s' where run: "jwt_run = (Inr (Some t), s')"
    using jwt_run_accepts by (cases "fst jwt_run") (auto split: option.splits simp: prod_eq_iff)
  have "keys_published sample_lib key_set_http fresh_verifier" by (simp add: keys_published_def fresh_verifier_def)
  from jwt_token_checked [OF run [unfolded jwt_run_def] _ this, of 50000000] run
  show ?thesis by (auto simp: sample_lib_def)
qed

definition keyed_verifier :: "(nat, unit) jwt_state" where
  "keyed_verifier = \<lparr>js_keys = [(JStr (lit ''k1''), 7)], js_fetched_at = 45000000, js_jwks_url = Some (lit ''u''), js_ext = ()\<rparr>"

theorem recent_keys_no_request_witness:
  "js_keys (snd (key_for sample_lib sample_jwt key_set_http (\<lambda>x. (50000000, x)) (Some (lit ''made-up'')) keyed_verifier))
     = [(JStr (lit ''k1''), 7)]"
  using recent_keys_no_request [of keyed_verifier "\<lambda>x. (50000000, x)" sample_lib sample_jwt key_set_http
      "Some (lit ''made-up'')" key_set_http]
  by (simp add: keyed_verifier_def MIN_JWKS_REFETCH_US_def)

end
