(* ===== verification/Registry.thy ===== *)
theory Registry
  imports Claims CachedStore
begin

text \<open>
  \<open>crypto.py\<close> and \<open>services/connection_registry.py\<close>: the box that encrypts connection secrets,
  and the pool of open adapters, one per connection, replaced when the record changes.  Fernet,
  SQLAlchemy's engines and the rendering of a timestamp are parameters.
\<close>

section \<open>The secret box\<close>

text \<open>\<open>str.encode()\<close> fails on lone surrogates.\<close>

definition encodable :: "pystr \<Rightarrow> bool" where
  "encodable s \<longleftrightarrow> list_all (\<lambda>c. \<not> (55296 \<le> c \<and> c \<le> 57343)) s"

record fernet_lib =
  fl_valid_key :: "pystr \<Rightarrow> bool"
  fl_encrypt :: "pystr \<Rightarrow> nat \<Rightarrow> pystr \<Rightarrow> pystr"      \<comment> \<open>key, nonce, plaintext\<close>
  fl_decrypt :: "pystr \<Rightarrow> pystr \<Rightarrow> pystr option"

text \<open>\<open>SecretBox.__init__\<close>: the keys of the box.\<close>

definition secret_box :: "fernet_lib \<Rightarrow> pystr \<Rightarrow> exn + pystr list" where
  "secret_box F keys =
     (let parts = split_list keys in
      if parts = [] then Inl (py_error ''ValueError'')
      else if list_all (fl_valid_key F) parts then Inr parts
      else Inl (py_error ''ValueError''))"

text \<open>
  \<open>SecretBox.encrypt\<close> and \<open>decrypt\<close>.  Of \<open>MultiFernet\<close>, which is the library's, this is the documented
  behaviour: it encrypts with the first key and decrypts by trying the keys in order; what a single
  key does is the parameter \<open>fernet_lib\<close>.
\<close>

definition box_encrypt :: "fernet_lib \<Rightarrow> pystr list \<Rightarrow> nat \<Rightarrow> pystr \<Rightarrow> exn + pystr" where
  "box_encrypt F keys nonce plaintext =
     (if encodable plaintext then Inr (fl_encrypt F (hd keys) nonce plaintext)
      else Inl (py_error ''ValueError''))"

fun multi_decrypt :: "fernet_lib \<Rightarrow> pystr list \<Rightarrow> pystr \<Rightarrow> pystr option" where
  "multi_decrypt F [] token = None"
| "multi_decrypt F (k # ks) token =
     (case fl_decrypt F k token of Some p \<Rightarrow> Some p | None \<Rightarrow> multi_decrypt F ks token)"

definition box_decrypt :: "fernet_lib \<Rightarrow> pystr list \<Rightarrow> pystr \<Rightarrow> exn + pystr" where
  "box_decrypt F keys token =
     (if \<not> encodable token then Inl (py_error ''ValueError'')
      else case multi_decrypt F keys token of
        Some p \<Rightarrow> Inr p
      | None \<Rightarrow> Inl (py_error ''ValueError''))"

section \<open>Engine URLs\<close>

definition DRIVERS :: "(pystr \<times> pystr) list" where
  "DRIVERS =
     [(lit ''postgresql'', lit ''asyncpg''), (lit ''mysql'', lit ''aiomysql''),
      (lit ''mssql'', lit ''aioodbc''), (lit ''sqlite'', lit ''aiosqlite'')]"

text \<open>The arguments of \<open>URL.create\<close>.\<close>

record engine_url =
  eu_drivername :: pystr
  eu_username :: json
  eu_password :: "pystr option"
  eu_host :: json
  eu_port :: json
  eu_database :: json
  eu_query :: json

definition build_engine_url :: "connection_record \<Rightarrow> pystr option \<Rightarrow> exn + engine_url" where
  "build_engine_url rec password =
     (case map_of DRIVERS (cr_engine rec) of
        None \<Rightarrow> Inl (py_error ''ValueError'')
      | Some driver \<Rightarrow>
          (if cr_engine rec = lit ''sqlite'' then
             res_bind (claim_item (cr_details rec) (lit ''path'')) (\<lambda>path.
               Inr \<lparr>eu_drivername = lit ''sqlite+'' @ driver, eu_username = JNull, eu_password = None,
                    eu_host = JNull, eu_port = JNull, eu_database = path, eu_query = JDict []\<rparr>)
           else
             Inr \<lparr>eu_drivername = cr_engine rec @ lit ''+'' @ driver,
                  eu_username = get_claim (cr_details rec) (lit ''username''), eu_password = password,
                  eu_host = get_claim (cr_details rec) (lit ''host''),
                  eu_port = get_claim (cr_details rec) (lit ''port''),
                  eu_database = get_claim (cr_details rec) (lit ''database''),
                  eu_query = or_else (get_claim (cr_details rec) (lit ''options'')) (JDict [])\<rparr>))"

text \<open>\<open>_schemas\<close>.\<close>

definition schemas_of :: "(pystr \<times> json) list \<Rightarrow> exn + json list option" where
  "schemas_of details =
     (let s = get_claim details (lit ''schemas'') in
      if truthy s then res_bind (iterate s) (\<lambda>xs. Inr (Some xs)) else Inr None)"

section \<open>The registry\<close>

record 'y registry_state =
  rg_adapters :: "(uuid \<times> datetime \<times> 'y adapter) list"
  rg_ext :: 'y

text \<open>What the registry is built with: \<open>adapter_factory\<close>, the key box, the cache and its lifetime.\<close>

record 'y registry_config =
  rc_fernet :: fernet_lib
  rc_keys :: "pystr list"
  rc_factory :: "engine_url \<Rightarrow> json list option \<Rightarrow> ('y, 'y adapter) op"
  rc_cache :: "'y cache option"
  rc_schema_ttl_s :: int
  rc_codecs :: adapter_codecs
  rc_ucd :: ucd
  rc_timestamp :: "datetime \<Rightarrow> pystr"

definition on_rg :: "('y, 'a) op \<Rightarrow> ('y registry_state, 'a) op" where
  "on_rg m = (\<lambda>s. case m (rg_ext s) of (r, y) \<Rightarrow> (r, s\<lparr>rg_ext := y\<rparr>))"

definition connection_unavailable :: "pystr \<Rightarrow> exn" where
  "connection_unavailable name =
     McpSqlError ConnectionUnavailable
       (lit ''The connection '' @ quoted name
        @ lit '' is currently unavailable. Contact an administrator.'')"

definition record_password :: "'y registry_config \<Rightarrow> connection_record \<Rightarrow> exn + pystr option" where
  "record_password G rec =
     (case cr_secret_encrypted rec of
        Some (c # cs) \<Rightarrow> res_bind (box_decrypt (rc_fernet G) (rc_keys G) (c # cs)) (\<lambda>p. Inr (Some p))
      | _ \<Rightarrow> Inr None)"

definition adapter_namespace :: "'y registry_config \<Rightarrow> connection_record \<Rightarrow> pystr" where
  "adapter_namespace G rec = cr_id rec @ lit '':'' @ rc_timestamp G (cr_updated_at rec)"

text \<open>\<open>_open\<close>: whatever \<open>Exception\<close> opening meets, the caller sees the same error.\<close>

definition open_record :: "'y registry_config \<Rightarrow> connection_record \<Rightarrow> ('y, 'y adapter) op" where
  "open_record G rec =
     io_catch
       (io_bind (io_lift (record_password G rec)) (\<lambda>password.
        io_bind (io_lift (build_engine_url rec password)) (\<lambda>url.
        io_bind (io_lift (schemas_of (cr_details rec))) (\<lambda>schemas.
        io_bind (rc_factory G url schemas) (\<lambda>adapter.
        io_then (ad_connect adapter)
          (io_return
             (case rc_cache G of
                None \<Rightarrow> adapter
              | Some C \<Rightarrow> cached_adapter (rc_ucd G) (rc_codecs G) C (adapter_namespace G rec)
                            (rc_schema_ttl_s G) adapter)))))))
       (\<lambda>e. io_raise (if is_exception e then connection_unavailable (cr_name rec) else e))"

fun drop_entry :: "uuid \<Rightarrow> (uuid \<times> 'v) list \<Rightarrow> (uuid \<times> 'v) list" where
  "drop_entry k [] = []"
| "drop_entry k ((k', v) # d) = (if k' = k then drop_entry k d else (k', v) # drop_entry k d)"

definition open_and_keep :: "'y registry_config \<Rightarrow> connection_record \<Rightarrow> ('y registry_state, 'y adapter) op" where
  "open_and_keep G rec =
     io_bind (on_rg (open_record G rec)) (\<lambda>adapter.
     io_then (io_modify (\<lambda>s. s\<lparr>rg_adapters := dict_set (cr_id rec) (cr_updated_at rec, adapter) (rg_adapters s)\<rparr>))
       (io_return adapter))"

definition adapter_for :: "'y registry_config \<Rightarrow> connection_record \<Rightarrow> ('y registry_state, 'y adapter) op" where
  "adapter_for G rec =
     io_bind (io_gets (\<lambda>s. map_of (rg_adapters s) (cr_id rec))) (\<lambda>cached.
       case cached of
         None \<Rightarrow> open_and_keep G rec
       | Some (version, adapter) \<Rightarrow>
           (if version = cr_updated_at rec then io_return adapter
            else
              io_then (on_rg (ad_close adapter))
              (io_then (io_modify (\<lambda>s. s\<lparr>rg_adapters := drop_entry (cr_id rec) (rg_adapters s)\<rparr>))
                (open_and_keep G rec))))"

definition registry_close :: "('y registry_state, unit) op" where
  "registry_close =
     io_bind (io_gets rg_adapters) (\<lambda>entries.
     io_then (io_each (\<lambda>(k, v, adapter). on_rg (ad_close adapter)) entries)
       (io_modify (\<lambda>s. s\<lparr>rg_adapters := []\<rparr>)))"

text \<open>The registry as the provider the services use: its adapters work on its own state.\<close>

definition pooled_adapter :: "'y adapter \<Rightarrow> 'y registry_state adapter" where
  "pooled_adapter a =
     \<lparr>ad_dialect_name = ad_dialect_name a, ad_default_schema = ad_default_schema a,
      ad_connect = on_rg (ad_connect a), ad_close = on_rg (ad_close a),
      ad_list_tables = on_rg (ad_list_tables a), ad_describe_table = (\<lambda>t. on_rg (ad_describe_table a t)),
      ad_execute = (\<lambda>sql n tm. on_rg (ad_execute a sql n tm)), ad_explain = (\<lambda>sql tm. on_rg (ad_explain a sql tm)),
      ad_sample_rows = (\<lambda>t n tm. on_rg (ad_sample_rows a t n tm))\<rparr>"

definition registry_provider :: "'y registry_config \<Rightarrow> 'y registry_state adapter_provider" where
  "registry_provider G = (\<lambda>rec. io_bind (adapter_for G rec) (\<lambda>a. io_return (pooled_adapter a)))"

section \<open>What the registry promises\<close>

text \<open>Fernet's documented behaviour: a token is opened by the key that made it, and by no other.\<close>

definition fernet_ok :: "fernet_lib \<Rightarrow> bool" where
  "fernet_ok F \<longleftrightarrow>
     (\<forall>k n p. fl_decrypt F k (fl_encrypt F k n p) = Some p)
     \<and> (\<forall>k k' n p. k' \<noteq> k \<longrightarrow> fl_decrypt F k' (fl_encrypt F k n p) = None)
     \<and> (\<forall>k n p. encodable (fl_encrypt F k n p))"

lemma multi_decrypt_made:
  "fernet_ok F \<Longrightarrow> k \<in> set keys \<Longrightarrow> multi_decrypt F keys (fl_encrypt F k n p) = Some p"
proof (induction keys)
  case (Cons a keys)
  then show ?case by (cases "a = k") (auto simp: fernet_ok_def)
qed simp

lemma multi_decrypt_other:
  "fernet_ok F \<Longrightarrow> k \<notin> set keys \<Longrightarrow> multi_decrypt F keys (fl_encrypt F k n p) = None"
  by (induction keys) (auto simp: fernet_ok_def)

text \<open>The pool holds, under each connection's id, an adapter opened for that version of the record.\<close>

definition opened_for :: "'y registry_config \<Rightarrow> uuid \<Rightarrow> datetime \<Rightarrow> 'y adapter \<Rightarrow> bool" where
  "opened_for G cid version a \<longleftrightarrow>
     (\<exists>rec y y'. cr_id rec = cid \<and> cr_updated_at rec = version \<and> open_record G rec y = (Inr a, y'))"

definition pool_ok :: "'y registry_config \<Rightarrow> 'y registry_state \<Rightarrow> bool" where
  "pool_ok G s \<longleftrightarrow>
     distinct (map fst (rg_adapters s))
     \<and> (\<forall>cid version a. (cid, version, a) \<in> set (rg_adapters s) \<longrightarrow> opened_for G cid version a)"

lemma set_drop_entry: "set (drop_entry k d) \<subseteq> set d" "k \<notin> fst ` set (drop_entry k d)"
  by (induction k d rule: drop_entry.induct) auto

lemma distinct_drop_entry: "distinct (map fst d) \<Longrightarrow> distinct (map fst (drop_entry k d))"
proof (induction k d rule: drop_entry.induct)
  case (2 k k' v d)
  then show ?case using set_drop_entry(1) [of k d] by auto
qed simp

lemma on_rg_adapters [simp]: "rg_adapters (snd (on_rg m s)) = rg_adapters s"
  by (simp add: on_rg_def split: prod.split)

lemma pool_ok_on_rg: "io_keeps (pool_ok G) (on_rg m)"
  by (simp add: io_keeps_def pool_ok_def)

lemma open_and_keep_triple:
  "triple (pool_ok G) (open_and_keep G rec)
     (\<lambda>a s. pool_ok G s \<and> map_of (rg_adapters s) (cr_id rec) = Some (cr_updated_at rec, a)) (\<lambda>_. pool_ok G)"
  unfolding open_and_keep_def
proof (rule triple_bind)
  show "triple (pool_ok G) (on_rg (open_record G rec))
      (\<lambda>a s. pool_ok G s \<and> opened_for G (cr_id rec) (cr_updated_at rec) a) (\<lambda>_. pool_ok G)"
    by (rule tripleI) (auto simp: on_rg_def pool_ok_def opened_for_def split: prod.splits)
  fix a
  show "triple (\<lambda>s. pool_ok G s \<and> opened_for G (cr_id rec) (cr_updated_at rec) a)
      (io_then (io_modify (\<lambda>s. s\<lparr>rg_adapters := dict_set (cr_id rec) (cr_updated_at rec, a) (rg_adapters s)\<rparr>))
        (io_return a))
      (\<lambda>a s. pool_ok G s \<and> map_of (rg_adapters s) (cr_id rec) = Some (cr_updated_at rec, a)) (\<lambda>_. pool_ok G)"
    using set_dict_set by (fastforce simp: triple_def io_then_def io_bind_def pool_ok_def distinct_dict_set)
qed

lemma adapter_for_triple:
  "triple (pool_ok G) (adapter_for G rec)
     (\<lambda>a s. pool_ok G s \<and> map_of (rg_adapters s) (cr_id rec) = Some (cr_updated_at rec, a)) (\<lambda>_. pool_ok G)"
proof -
  let ?Q = "\<lambda>a s. pool_ok G s \<and> map_of (rg_adapters s) (cr_id rec) = Some (cr_updated_at rec, a)"
  have drop: "io_keeps (pool_ok G) (io_modify (\<lambda>s. s\<lparr>rg_adapters := drop_entry (cr_id rec) (rg_adapters s)\<rparr>))"
    using set_drop_entry(1) by (fastforce simp: io_keeps_def pool_ok_def distinct_drop_entry)
  have reopen: "triple (pool_ok G) (io_then (on_rg (ad_close b))
        (io_then (io_modify (\<lambda>s. s\<lparr>rg_adapters := drop_entry (cr_id rec) (rg_adapters s)\<rparr>)) (open_and_keep G rec)))
      ?Q (\<lambda>_. pool_ok G)" for b
    by (intro triple_then [OF _ pool_ok_on_rg [unfolded io_keeps_triple]]
        triple_then [OF _ drop [unfolded io_keeps_triple]] open_and_keep_triple)
  show ?thesis
    unfolding adapter_for_def
  proof (rule triple_bind)
    let ?here = "\<lambda>c s. pool_ok G s \<and> map_of (rg_adapters s) (cr_id rec) = c"
    show "triple (pool_ok G) (io_gets (\<lambda>s. map_of (rg_adapters s) (cr_id rec))) ?here (\<lambda>_. pool_ok G)"
      by (simp add: triple_def)
    fix c
    show "triple (?here c) (case c of
         None \<Rightarrow> open_and_keep G rec
       | Some (version, adapter) \<Rightarrow>
           (if version = cr_updated_at rec then io_return adapter
            else io_then (on_rg (ad_close adapter))
              (io_then (io_modify (\<lambda>s. s\<lparr>rg_adapters := drop_entry (cr_id rec) (rg_adapters s)\<rparr>))
                (open_and_keep G rec)))) ?Q (\<lambda>_. pool_ok G)"
    proof (cases c)
      case None
      then show ?thesis using triple_pre [OF open_and_keep_triple, of "?here c"] by simp
    next
      case (Some va)
      then show ?thesis using triple_pre [OF reopen [of "snd va"], of "?here c"]
        by (cases va) (auto simp: triple_def [of _ "io_return _"])
    qed
  qed
qed

end
