(* ===== verification/RegistryProps.thy ===== *)
theory RegistryProps
  imports Registry
begin

text \<open>
  The properties of the connection registry and the secret box, with a concrete Fernet for the
  witnesses.
\<close>

definition shift_char :: "int \<Rightarrow> int" where
  "shift_char c = (if 55296 \<le> c then c + 2048 else c)"

definition unshift_char :: "int \<Rightarrow> int" where
  "unshift_char c = (if 57344 \<le> c then c - 2048 else c)"

text \<open>A token that names its key: the length of the key, the key, the plaintext.\<close>

definition toy_fernet :: fernet_lib where
  "toy_fernet =
     \<lparr>fl_valid_key = (\<lambda>k. k \<noteq> []),
      fl_encrypt = (\<lambda>k n p. map shift_char (int (length k) # k @ p)),
      fl_decrypt = (\<lambda>k t. case map unshift_char t of
         [] \<Rightarrow> None
       | l # s \<Rightarrow> (if l = int (length k) \<and> take (length k) s = k then Some (drop (length k) s) else None))\<rparr>"

lemma unshift_shift [simp]: "unshift_char (shift_char c) = c"
  by (simp add: shift_char_def unshift_char_def)

lemma unshift_map [simp]: "map (unshift_char \<circ> shift_char) s = s"
  by (induction s) simp_all

lemma shift_encodable: "encodable (map shift_char s)"
  by (induction s) (auto simp: encodable_def shift_char_def)

lemma toy_fernet_ok: "fernet_ok toy_fernet"
  using shift_encodable [of "_ # _ @ _"] by (auto simp: fernet_ok_def toy_fernet_def)

text \<open>C21: keys can be rotated without losing secrets: what a box encrypted, any box that still lists its
  first key decrypts to the same text, wherever in the list that key now stands.\<close>

theorem key_rotation_roundtrip:
  assumes "fernet_ok F" "secret_box F old = Inr keys" "box_encrypt F keys nonce p = Inr tok"
    and "secret_box F new = Inr keys'" "hd keys \<in> set keys'"
  shows "box_decrypt F keys' tok = Inr p"
proof -
  have "tok = fl_encrypt F (hd keys) nonce p" using assms(3) by (simp add: box_encrypt_def split: if_splits)
  with assms(1) multi_decrypt_made [OF assms(1,5)] show ?thesis
    by (simp add: box_decrypt_def fernet_ok_def)
qed

definition rotated_token :: pystr where
  "rotated_token = fl_encrypt toy_fernet (lit ''k1'') 0 (lit ''hunter2'')"

theorem key_rotation_roundtrip_witness:
  "box_decrypt toy_fernet [lit ''k2'', lit ''k1''] rotated_token = Inr (lit ''hunter2'')"
proof (rule key_rotation_roundtrip [OF toy_fernet_ok])
  show "secret_box toy_fernet (lit ''k1'') = Inr [lit ''k1'']" by code_simp
  show "secret_box toy_fernet (lit ''k2, k1'') = Inr [lit ''k2'', lit ''k1'']" by code_simp
  show "box_encrypt toy_fernet [lit ''k1''] 0 (lit ''hunter2'') = Inr rotated_token" by code_simp
qed simp

text \<open>C19: the pool never serves a connection's old settings: the adapter it returns for a record was
  opened from a record of that connection with the same \<open>updated_at\<close>, and the pool keeps one
  adapter for each connection.\<close>

theorem pool_serves_current_record:
  assumes "pool_ok G s" "adapter_for G rec s = (Inr a, s')"
  shows "opened_for G (cr_id rec) (cr_updated_at rec) a \<and> pool_ok G s'
    \<and> map_of (rg_adapters s') (cr_id rec) = Some (cr_updated_at rec, a)"
proof -
  have "pool_ok G s' \<and> map_of (rg_adapters s') (cr_id rec) = Some (cr_updated_at rec, a)"
    by (rule tripleD_Inr [OF adapter_for_triple assms])
  then show ?thesis by (auto simp: pool_ok_def dest: map_of_SomeD)
qed

text \<open>C31: whatever goes wrong while a connection is opened, a wrong key, an unknown engine, a missing
  setting, a database that does not answer, the caller learns only that this connection, by its
  name, is unavailable.\<close>

theorem open_error_hides_cause:
  "case fst (open_record G rec y) of
     Inl e \<Rightarrow> (if is_exception e then e = connection_unavailable (cr_name rec) else True)
   | Inr a \<Rightarrow> True"
  by (auto simp: open_record_def io_catch_def connection_unavailable_def split: prod.splits sum.splits if_splits)

section \<open>An instance\<close>

definition idle_adapter :: "nat adapter" where
  "idle_adapter =
     \<lparr>ad_dialect_name = lit ''sqlite'', ad_default_schema = None, ad_connect = io_modify Suc, ad_close = io_return (),
      ad_list_tables = io_return [], ad_describe_table = (\<lambda>t. io_raise (py_error ''x'')),
      ad_execute = (\<lambda>_ _ _. io_raise (py_error ''x'')), ad_explain = (\<lambda>_ _. io_raise (py_error ''x'')),
      ad_sample_rows = (\<lambda>_ _ _. io_raise (py_error ''x''))\<rparr>"

definition idle_registry :: "nat registry_config" where
  "idle_registry =
     \<lparr>rc_fernet = toy_fernet, rc_keys = [lit ''k1''], rc_factory = (\<lambda>u s. io_return idle_adapter), rc_cache = None,
      rc_schema_ttl_s = 300,
      rc_codecs = \<lparr>kc_tables = \<lparr>co_dump = (\<lambda>_. []), co_load = (\<lambda>_. None)\<rparr>,
                   kc_description = \<lparr>co_dump = (\<lambda>_. []), co_load = (\<lambda>_. None)\<rparr>\<rparr>,
      rc_ucd = ascii_ucd, rc_timestamp = str_of_int\<rparr>"

definition shop_record :: "datetime \<Rightarrow> connection_record" where
  "shop_record t = \<lparr>cr_id = lit ''id1'', cr_name = lit ''shop'', cr_engine = lit ''sqlite'', cr_description = [],
     cr_details = [(lit ''path'', JStr (lit ''/a''))], cr_secret_encrypted = None, cr_updated_at = t\<rparr>"

definition pool_start :: "nat registry_state" where
  "pool_start = \<lparr>rg_adapters = [], rg_ext = 0\<rparr>"

definition pool_after :: "nat registry_state" where
  "pool_after = snd (adapter_for idle_registry (shop_record 1) pool_start)"

theorem pool_serves_current_record_witness:
  "\<exists>a s'. adapter_for idle_registry (shop_record 2) pool_after = (Inr a, s')
     \<and> opened_for idle_registry (lit ''id1'') 2 a \<and> pool_ok idle_registry s'"
proof -
  have start: "pool_ok idle_registry pool_start" by (simp add: pool_ok_def pool_start_def)
  have "\<not> isl (fst (adapter_for idle_registry (shop_record 1) pool_start))" by code_simp
  then obtain a1 where "adapter_for idle_registry (shop_record 1) pool_start = (Inr a1, pool_after)"
    by (cases "fst (adapter_for idle_registry (shop_record 1) pool_start)") (auto simp: pool_after_def prod_eq_iff)
  from pool_serves_current_record [OF start this] have ok: "pool_ok idle_registry pool_after" by simp
  have "\<not> isl (fst (adapter_for idle_registry (shop_record 2) pool_after))" by code_simp
  then obtain a s' where "adapter_for idle_registry (shop_record 2) pool_after = (Inr a, s')"
    by (cases "adapter_for idle_registry (shop_record 2) pool_after"; cases "fst (adapter_for idle_registry (shop_record 2) pool_after)") auto
  with pool_serves_current_record [OF ok this] show ?thesis by (auto simp: shop_record_def)
qed

end
