(* ===== verification/SqlAdapter.thy ===== *)
theory SqlAdapter
  imports Registry PyRegex
begin

text \<open>
  \<open>adapters/sqlalchemy_adapter.py\<close>: the one adapter for every engine.  SQLAlchemy's engine,
  inspector and cursors are the record \<open>driver\<close>, operations on the outside state; everything the
  class itself does, the canonical names, the look-up of a table, the set-up of a connection
  for one read-only query, the row cap, the translation of errors, is written out.
\<close>

section \<open>What SQLAlchemy supplies\<close>

record raw_column =
  rk_name :: pystr
  rk_compiled :: "pystr option"     \<comment> \<open>\<open>type.compile(dialect)\<close>, unless it raises\<close>
  rk_printed :: pystr               \<comment> \<open>\<open>str(type)\<close>\<close>
  rk_nullable :: "bool option"
  rk_comment :: "pystr option"

record raw_foreign_key =
  rf_columns :: "pystr list"
  rf_referred_schema :: "pystr option"
  rf_referred_table :: pystr
  rf_referred_columns :: "pystr list"

text \<open>The statements that prepare a connection, and those that run on it.\<close>

datatype setup_step =
    QueryOnlyPragma | ReadOnlySession
  | ReadOnlyTransaction | StatementTimeout int
  | MaxStatementTime int | MaxExecutionTime int
  | SetDeadline int | ClearDeadline

datatype sql_statement = RawSql pystr | SampleOf "pystr option" pystr int

text \<open>What the error translation looks at in an exception.\<close>

record exn_info =
  xi_dbapi :: bool
  xi_orig :: "pystr option"
  xi_module :: pystr
  xi_message :: pystr

record 'x driver =
  dv_open :: "engine_url \<Rightarrow> ('x, unit) op"                  \<comment> \<open>\<open>create_async_engine\<close>\<close>
  dv_dispose :: "('x, unit) op"
  dv_default_schema :: "('x, pystr option) op"
  dv_table_names :: "pystr option \<Rightarrow> ('x, pystr list) op"
  dv_view_names :: "pystr option \<Rightarrow> ('x, pystr list) op"
  dv_table_comments :: "pystr option \<Rightarrow> ('x, (pystr \<times> pystr option) list) op"
  dv_columns :: "pystr option \<Rightarrow> pystr \<Rightarrow> ('x, raw_column list) op"
  dv_pk_columns :: "pystr option \<Rightarrow> pystr \<Rightarrow> ('x, pystr list option) op"
  dv_foreign_keys :: "pystr option \<Rightarrow> pystr \<Rightarrow> ('x, raw_foreign_key list) op"
  dv_checkout :: "('x, bool) op"                            \<comment> \<open>whether the pool had to open a new one\<close>
  dv_setup :: "setup_step \<Rightarrow> ('x, unit) op"
  dv_limit :: "int \<Rightarrow> ('x, unit) op"                        \<comment> \<open>\<open>asyncio.timeout\<close>: from here a step may time out\<close>
  dv_stream :: "sql_statement \<Rightarrow> ('x, pystr list option) op"  \<comment> \<open>the columns, if the statement has any\<close>
  dv_fetch :: "int \<Rightarrow> ('x, pyval list list) op"
  dv_end_result :: "('x, unit) op"
  dv_info :: "exn \<Rightarrow> exn_info"
  dv_is_mariadb :: bool
  dv_now :: "'x \<Rightarrow> int \<times> 'x"
  dv_file_uri :: "pystr \<Rightarrow> pystr"
  dv_value_text :: "pyval \<Rightarrow> pystr"
  dv_lower :: "pystr \<Rightarrow> pystr"
  dv_float :: "pystr \<Rightarrow> pyfloat option"

section \<open>The adapter object\<close>

record 'x adapter_object =
  ao_dialect :: pystr
  ao_url :: engine_url
  ao_schemas :: "pystr option list"
  ao_engine :: bool
  ao_default_schema :: "pystr option"
  ao_ext :: 'x

definition on_ao :: "('x, 'a) op \<Rightarrow> ('x adapter_object, 'a) op" where
  "on_ao m = (\<lambda>s. case m (ao_ext s) of (r, x) \<Rightarrow> (r, s\<lparr>ao_ext := x\<rparr>))"

text \<open>\<open>get_backend_name\<close>: the part of the driver name before \<open>+\<close>.\<close>

definition backend_name :: "engine_url \<Rightarrow> pystr" where
  "backend_name u = takeWhile (\<lambda>c. c \<noteq> cp CHR ''+'') (eu_drivername u)"

definition read_only_sqlite_url :: "'x driver \<Rightarrow> engine_url \<Rightarrow> engine_url" where
  "read_only_sqlite_url D url =
     (case eu_database url of
        JStr path \<Rightarrow>
          (if path = [] \<or> path = lit '':memory:'' then url
           else
             (let uri = (if starts_with path (lit ''file:'') then path else dv_file_uri D path);
                  query = (case eu_query url of JDict q \<Rightarrow> q | _ \<Rightarrow> []) in
              url\<lparr>eu_database := JStr uri,
                  eu_query := JDict (dict_set (lit ''uri'') (JStr (lit ''true''))
                                (dict_set (lit ''mode'') (JStr (lit ''ro'')) query))\<rparr>))
      | _ \<Rightarrow> url)"

definition new_adapter :: "'x driver \<Rightarrow> engine_url \<Rightarrow> pystr list option \<Rightarrow> 'x \<Rightarrow> 'x adapter_object" where
  "new_adapter D url schemas x =
     (let dialect = backend_name url in
      \<lparr>ao_dialect = dialect,
       ao_url = (if dialect = lit ''sqlite'' then read_only_sqlite_url D url else url),
       ao_schemas = None # (case schemas of Some ss \<Rightarrow> map Some ss | None \<Rightarrow> []),
       ao_engine = False, ao_default_schema = None, ao_ext = x\<rparr>)"

text \<open>\<open>_make_connection_readonly\<close>: the statement that runs once on each new pooled connection.\<close>

definition readonly_statement :: "pystr \<Rightarrow> setup_step option" where
  "readonly_statement dialect =
     (if dialect = lit ''sqlite'' then Some QueryOnlyPragma
      else if dialect = lit ''mysql'' then Some ReadOnlySession else None)"

definition make_connection_readonly :: "'x driver \<Rightarrow> pystr \<Rightarrow> ('x, unit) op" where
  "make_connection_readonly D dialect =
     (case readonly_statement dialect of None \<Rightarrow> io_return () | Some st \<Rightarrow> dv_setup D st)"

text \<open>A connection from the pool; the listener runs on it when it is a new one.\<close>

definition checkout :: "'x driver \<Rightarrow> pystr \<Rightarrow> ('x, unit) op" where
  "checkout D dialect =
     io_bind (dv_checkout D) (\<lambda>fresh.
       if fresh then make_connection_readonly D dialect else io_return ())"

definition sa_connect :: "'x driver \<Rightarrow> ('x adapter_object, unit) op" where
  "sa_connect D =
     io_bind (io_gets (\<lambda>s. (ao_url s, ao_dialect s))) (\<lambda>(url, dialect).
     io_then (on_ao (dv_open D url))
     (io_bind
       (io_catch
          (on_ao (io_then (checkout D dialect) (dv_default_schema D)))
          (\<lambda>e. io_then (on_ao (dv_dispose D)) (io_raise e)))
       (\<lambda>schema. io_modify (\<lambda>s. s\<lparr>ao_default_schema := schema, ao_engine := True\<rparr>))))"

definition sa_close :: "'x driver \<Rightarrow> ('x adapter_object, unit) op" where
  "sa_close D =
     io_bind (io_gets ao_engine) (\<lambda>engine.
       if engine then io_then (on_ao (dv_dispose D)) (io_modify (\<lambda>s. s\<lparr>ao_engine := False\<rparr>))
       else io_return ())"

text \<open>\<open>_require_engine\<close>.\<close>

definition require_engine :: "bool \<Rightarrow> ('x, unit) op" where
  "require_engine engine = io_guard engine (py_error ''RuntimeError'')"

section \<open>Errors\<close>

definition DRIVER_MODULES :: "pystr list" where
  "DRIVER_MODULES =
     map lit [''asyncpg'', ''aiosqlite'', ''sqlite3'', ''aiomysql'', ''pymysql'', ''aioodbc'', ''pyodbc'']"

text \<open>\<open>_driver_error\<close>: the message of the driver's error, if the exception is or wraps one.\<close>

definition driver_error :: "exn_info \<Rightarrow> pystr option" where
  "driver_error i =
     (if xi_dbapi i then Some (case xi_orig i of Some m \<Rightarrow> m | None \<Rightarrow> xi_message i)
      else if takeWhile (\<lambda>c. c \<noteq> cp CHR ''.'') (xi_module i) \<in> set DRIVER_MODULES then Some (xi_message i)
      else None)"

text \<open>\<open>splitlines()[0]\<close>, and the class name some drivers put first.\<close>

definition line_break :: "int \<Rightarrow> bool" where
  "line_break c \<longleftrightarrow> c \<in> {10, 11, 12, 13, 28, 29, 30, 133, 8232, 8233}"

definition class_prefix :: rx where
  "class_prefix =
     rx_seq [AtStart, rx_text ''<class '', Sym (Chr 39), Many 1 None (NotChr 39), Sym (Chr 39), rx_text ''>:'',
             Many 0 None Space]"

definition drop_class_prefix :: "ucd \<Rightarrow> pystr \<Rightarrow> pystr" where
  "drop_class_prefix U s = (case rx_match_here U class_prefix None s of Some (m, t) \<Rightarrow> t | None \<Rightarrow> s)"

definition MAX_ERROR_CHARS :: nat where
  "MAX_ERROR_CHARS = 300"

definition first_line :: "ucd \<Rightarrow> pystr \<Rightarrow> pystr" where
  "first_line U message =
     take MAX_ERROR_CHARS (drop_class_prefix U
       (if strip message = [] then lit ''database error''
        else takeWhile (\<lambda>c. \<not> line_break c) (strip message)))"

text \<open>\<open>f"{timeout_s:g}"\<close> of a number of milliseconds below 1000 seconds: no trailing zeros.\<close>

definition seconds_g :: "int \<Rightarrow> pystr" where
  "seconds_g ms =
     str_of_int (ms div 1000)
     @ (let f = rstrip_char 48 (drop 1 (str_of_int (1000 + ms mod 1000))) in
        if f = [] then [] else lit ''.'' @ f)"

definition query_timeout :: "int \<Rightarrow> exn" where
  "query_timeout ms = McpSqlError QueryTimeout (lit ''The query exceeded the '' @ seconds_g ms @ lit ''s time limit.'')"

definition timed_out :: "'x driver \<Rightarrow> pystr \<Rightarrow> int option \<Rightarrow> pystr \<Rightarrow> int \<Rightarrow> bool" where
  "timed_out D dialect deadline lowered now \<longleftrightarrow>
     contains (lit ''statement timeout'') lowered
     \<or> contains (lit ''maximum statement execution time'') lowered
     \<or> (dialect = lit ''sqlite'' \<and> contains (lit ''interrupted'') lowered
         \<and> (case deadline of None \<Rightarrow> False | Some d \<Rightarrow> d \<le> now))"

definition translate_error :: "ucd \<Rightarrow> 'x driver \<Rightarrow> pystr \<Rightarrow> int \<Rightarrow> int option \<Rightarrow> pystr \<Rightarrow> ('x, exn) op" where
  "translate_error U D dialect timeout_ms deadline message =
     (\<lambda>x. case dv_now D x of (now, x') \<Rightarrow>
        (Inr (if timed_out D dialect deadline (dv_lower D (first_line U message)) now then query_timeout timeout_ms
              else McpSqlError QueryFailed (first_line U message)), x'))"

text \<open>\<open>except Exception\<close> around the driver: its errors become ours, others pass.\<close>

definition as_our_error ::
  "ucd \<Rightarrow> 'x driver \<Rightarrow> pystr \<Rightarrow> int \<Rightarrow> int option \<Rightarrow> exn \<Rightarrow> ('x, 'a) op" where
  "as_our_error U D dialect timeout_ms deadline e =
     (if \<not> is_exception e then io_raise e
      else case driver_error (dv_info D e) of
        None \<Rightarrow> io_raise e
      | Some message \<Rightarrow>
          io_bind (translate_error U D dialect timeout_ms deadline message) io_raise)"

section \<open>Schema discovery\<close>

definition canonical :: "pystr option \<Rightarrow> pystr option \<Rightarrow> pystr \<Rightarrow> pystr" where
  "canonical home schema name =
     (case schema of
        None \<Rightarrow> name
      | Some s \<Rightarrow> (if home = Some s then name else s @ lit ''.'' @ name))"

definition type_name :: "raw_column \<Rightarrow> pystr" where
  "type_name c = (case rk_compiled c of Some t \<Rightarrow> t | None \<Rightarrow> rk_printed c)"

text \<open>\<open>_reflect\<close>: work on one connection, with the driver's errors translated.\<close>

definition reflect :: "ucd \<Rightarrow> 'x driver \<Rightarrow> (pystr option \<Rightarrow> ('x, 'a) op) \<Rightarrow> ('x adapter_object, 'a) op" where
  "reflect U D work =
     io_bind (io_gets (\<lambda>s. (ao_dialect s, ao_default_schema s, ao_engine s))) (\<lambda>(dialect, home, engine).
       on_ao (io_catch (io_then (require_engine engine) (io_then (checkout D dialect) (work home)))
         (as_our_error U D dialect 0 None)))"

text \<open>One entry of the index: schema, table name, kind, comment.\<close>

type_synonym index_entry = "pystr option \<times> pystr \<times> table_kind \<times> pystr option"

definition table_comments :: "'x driver \<Rightarrow> pystr option \<Rightarrow> ('x, (pystr \<times> pystr option) list) op" where
  "table_comments D schema =
     io_catch (dv_table_comments D schema)
       (\<lambda>e. if e = py_error ''NotImplementedError'' then io_return [] else io_raise e)"

definition index_names ::
  "pystr option \<Rightarrow> pystr option \<Rightarrow> (pystr \<times> pystr option) list \<Rightarrow> table_kind \<Rightarrow> pystr list
   \<Rightarrow> (pystr \<times> index_entry) list \<Rightarrow> (pystr \<times> index_entry) list" where
  "index_names home schema comments kind names index =
     fold (\<lambda>n d. dict_set (canonical home schema n)
             (schema, n, kind, Option.bind (map_of comments n) (\<lambda>c. c)) d) names index"

fun index_schemas ::
  "'x driver \<Rightarrow> pystr option \<Rightarrow> pystr option list \<Rightarrow> (pystr \<times> index_entry) list
   \<Rightarrow> ('x, (pystr \<times> index_entry) list) op" where
  "index_schemas D home [] index = io_return index"
| "index_schemas D home (schema # schemas) index =
     io_bind (table_comments D schema) (\<lambda>comments.
     io_bind (dv_table_names D schema) (\<lambda>tables.
     io_bind (dv_view_names D schema) (\<lambda>views.
       index_schemas D home schemas
         (index_names home schema comments KView views
           (index_names home schema comments KTable tables index)))))"

definition table_index :: "ucd \<Rightarrow> 'x driver \<Rightarrow> ('x adapter_object, (pystr \<times> index_entry) list) op" where
  "table_index U D =
     io_bind (io_gets ao_schemas) (\<lambda>schemas.
       reflect U D (\<lambda>home.
         io_bind (index_schemas D home schemas []) (\<lambda>index.
           io_return (sort_key (\<lambda>p. casefold U (fst p)) index))))"

definition sa_list_tables :: "ucd \<Rightarrow> 'x driver \<Rightarrow> ('x adapter_object, table_info list) op" where
  "sa_list_tables U D =
     io_bind (table_index U D) (\<lambda>index. io_return
       (map (\<lambda>(name, schema, table, kind, comment). \<lparr>ti_name = name, ti_kind = kind, ti_comment = comment\<rparr>) index))"

definition no_such_table :: "pystr \<Rightarrow> exn" where
  "no_such_table table =
     McpSqlError TableNotFound (lit ''Table '' @ quoted table @ lit '' was not found or is not available to you.'')"

text \<open>\<open>_lookup\<close>: the exact name, or the one that differs only in case.\<close>

definition lookup_entry :: "ucd \<Rightarrow> (pystr \<times> index_entry) list \<Rightarrow> pystr \<Rightarrow> exn + index_entry" where
  "lookup_entry U index table =
     (case map_of index table of
        Some entry \<Rightarrow> Inr entry
      | None \<Rightarrow>
          (case filter (\<lambda>p. casefold U (fst p) = casefold U table) index of
             [p] \<Rightarrow> Inr (snd p)
           | _ \<Rightarrow> Inl (no_such_table table)))"

definition lookup_table :: "ucd \<Rightarrow> 'x driver \<Rightarrow> pystr \<Rightarrow> ('x adapter_object, index_entry) op" where
  "lookup_table U D table = io_bind (table_index U D) (\<lambda>index. io_lift (lookup_entry U index table))"

definition relationship_of :: "pystr option \<Rightarrow> pystr option \<Rightarrow> pystr \<Rightarrow> raw_foreign_key \<Rightarrow> relationship" where
  "relationship_of home schema name k =
     \<lparr>rel_from_table = canonical home schema name, rel_columns = rf_columns k,
      rel_to_table = canonical home (rf_referred_schema k) (rf_referred_table k),
      rel_to_columns = rf_referred_columns k\<rparr>"

definition column_info_of :: "pystr list \<Rightarrow> raw_column \<Rightarrow> column_info" where
  "column_info_of pk c =
     \<lparr>ci_name = rk_name c, ci_type = type_name c,
      ci_nullable = ((case rk_nullable c of None \<Rightarrow> True | Some b \<Rightarrow> b) \<and> rk_name c \<notin> set pk),
      ci_primary_key = (rk_name c \<in> set pk), ci_comment = rk_comment c\<rparr>"

definition sa_describe_table :: "ucd \<Rightarrow> 'x driver \<Rightarrow> pystr \<Rightarrow> ('x adapter_object, table_description) op" where
  "sa_describe_table U D table =
     io_bind (lookup_table U D table) (\<lambda>(schema, name, kind, comment).
       reflect U D (\<lambda>home.
         io_bind (dv_columns D schema name) (\<lambda>columns.
         io_bind (if kind = KTable
                  then io_bind (dv_pk_columns D schema name) (\<lambda>pk.
                       io_bind (dv_foreign_keys D schema name) (\<lambda>keys.
                         io_return (case pk of None \<Rightarrow> [] | Some p \<Rightarrow> p, map (relationship_of home schema name) keys)))
                  else io_return ([], [])) (\<lambda>(pk, keys). io_return
           \<lparr>td_name = canonical home schema name, td_kind = kind, td_comment = comment,
            td_columns = map (column_info_of pk) columns, td_foreign_keys = keys\<rparr>))))"

section \<open>Running a query\<close>

text \<open>\<open>_literal_sql\<close>.\<close>

definition literal_sql :: "pystr \<Rightarrow> sql_statement" where
  "literal_sql sql = RawSql (replace_char (cp CHR '':'') [92, cp CHR '':''] sql)"

definition CLIENT_TIMEOUT_GRACE_MS :: int where
  "CLIENT_TIMEOUT_GRACE_MS = 1000"

definition client_timeout :: "pystr \<Rightarrow> int \<Rightarrow> int" where
  "client_timeout dialect timeout_ms =
     timeout_ms + (if dialect \<in> {lit ''postgresql'', lit ''sqlite'', lit ''mysql''} then CLIENT_TIMEOUT_GRACE_MS else 0)"

text \<open>The steps before the query, by engine; \<open>deadline\<close> is a reading of the clock.\<close>

definition setup_steps :: "bool \<Rightarrow> pystr \<Rightarrow> int \<Rightarrow> int \<Rightarrow> setup_step list" where
  "setup_steps mariadb dialect timeout_ms deadline =
     (if dialect = lit ''postgresql'' then [ReadOnlyTransaction, StatementTimeout (max 1 timeout_ms)]
      else if dialect = lit ''mysql'' then
        [if mariadb then MaxStatementTime timeout_ms else MaxExecutionTime (max 1 timeout_ms)]
      else if dialect = lit ''sqlite'' then [SetDeadline deadline] else [])"

definition cleanup_steps :: "pystr \<Rightarrow> setup_step list" where
  "cleanup_steps dialect = (if dialect = lit ''sqlite'' then [ClearDeadline] else [])"

text \<open>Python's \<open>xs[:n]\<close>.\<close>

definition slice_to :: "int \<Rightarrow> 'a list \<Rightarrow> 'a list" where
  "slice_to n xs = (if 0 \<le> n then take (nat n) xs else take (length xs - nat (- n)) xs)"

text \<open>What runs on the connection: stream, read one row more than the cap, cut.\<close>

definition fetch_rows :: "'x driver \<Rightarrow> sql_statement \<Rightarrow> int \<Rightarrow> ('x, pyval raw_result) op" where
  "fetch_rows D statement max_rows =
     io_bind (dv_stream D statement) (\<lambda>columns.
       case columns of
         None \<Rightarrow> io_return \<lparr>rr_columns = [], rr_rows = [], rr_truncated = False\<rparr>
       | Some cols \<Rightarrow>
           io_bind (dv_fetch D (max_rows + 1)) (\<lambda>rows.
           io_then (dv_end_result D) (io_return
             \<lparr>rr_columns = cols, rr_rows = slice_to max_rows rows,
              rr_truncated = (max_rows < int (length rows))\<rparr>)))"

text \<open>\<open>finally\<close> with \<open>suppress(Exception)\<close>.\<close>

definition finally_quietly :: "('x, 'a) op \<Rightarrow> ('x, unit) op \<Rightarrow> ('x, 'a) op" where
  "finally_quietly m cleanup =
     (let quiet = io_catch cleanup (\<lambda>e. if is_exception e then io_return () else io_raise e) in
      io_bind (io_catch m (\<lambda>e. io_then quiet (io_raise e))) (\<lambda>r. io_then quiet (io_return r)))"

definition query_connection ::
  "ucd \<Rightarrow> 'x driver \<Rightarrow> pystr \<Rightarrow> bool \<Rightarrow> int \<Rightarrow> ('x, 'a) op \<Rightarrow> ('x, 'a) op" where
  "query_connection U D dialect engine timeout_ms body =
     io_bind (\<lambda>x. case dv_now D x of (t, x') \<Rightarrow> (Inr (t + timeout_ms * 1000), x')) (\<lambda>deadline.
       io_catch
         (io_then (require_engine engine)
         (io_then (checkout D dialect)
         (io_then (io_each (dv_setup D) (setup_steps (dv_is_mariadb D) dialect timeout_ms deadline))
           (finally_quietly
             (io_then (dv_limit D (client_timeout dialect timeout_ms)) body)
             (io_each (dv_setup D) (cleanup_steps dialect))))))
         (\<lambda>e. if e = py_error ''TimeoutError'' then io_raise (query_timeout timeout_ms)
              else as_our_error U D dialect timeout_ms (Some deadline) e))"

definition run_statement ::
  "ucd \<Rightarrow> 'x driver \<Rightarrow> sql_statement \<Rightarrow> int \<Rightarrow> int \<Rightarrow> ('x adapter_object, pyval raw_result) op" where
  "run_statement U D statement max_rows timeout_ms =
     io_bind (io_gets (\<lambda>s. (ao_dialect s, ao_engine s))) (\<lambda>(dialect, engine).
       on_ao (query_connection U D dialect engine timeout_ms (fetch_rows D statement max_rows)))"

definition sa_execute :: "ucd \<Rightarrow> 'x driver \<Rightarrow> pystr \<Rightarrow> int \<Rightarrow> int \<Rightarrow> ('x adapter_object, pyval raw_result) op" where
  "sa_execute U D sql max_rows timeout_ms = run_statement U D (literal_sql sql) max_rows timeout_ms"

definition sa_sample_rows :: "ucd \<Rightarrow> 'x driver \<Rightarrow> pystr \<Rightarrow> int \<Rightarrow> int \<Rightarrow> ('x adapter_object, pyval raw_result) op" where
  "sa_sample_rows U D table n timeout_ms =
     io_bind (lookup_table U D table) (\<lambda>(schema, name, kind, comment).
       run_statement U D (SampleOf schema name n) n timeout_ms)"

section \<open>EXPLAIN\<close>

text \<open>
  The regular expression for a cost, a row count and two dots between the bounds, on the ASCII
  digits the server prints: \<open>cost=<first>..<second> rows=<n>\<close>.  The run of digits and dots after
  \<open>cost=\<close> is cut at the last pair of dots that leaves something on both sides.
\<close>

definition cost_char :: "int \<Rightarrow> bool" where
  "cost_char c \<longleftrightarrow> ascii_digit c \<or> c = cp CHR ''.''"

fun last_dots :: "pystr \<Rightarrow> pystr \<Rightarrow> pystr option" where
  "last_dots before (a # b # s) =
     (case last_dots (before @ [a]) (b # s) of
        Some t \<Rightarrow> Some t
      | None \<Rightarrow> (if a = 46 \<and> b = 46 \<and> before \<noteq> [] \<and> s \<noteq> [] then Some s else None))"
| "last_dots before s = None"

definition cost_at :: "pystr \<Rightarrow> (pystr \<times> pystr) option" where
  "cost_at s =
     (if \<not> starts_with s (lit ''cost='') then None
      else
        (let r = takeWhile cost_char (drop 5 s); t = dropWhile cost_char (drop 5 s) in
         case last_dots [] r of
           None \<Rightarrow> None
         | Some second \<Rightarrow>
             (let n = takeWhile ascii_digit (drop 6 t) in
              if starts_with t (lit '' rows='') \<and> n \<noteq> [] then Some (second, n) else None)))"

fun find_cost :: "pystr \<Rightarrow> (pystr \<times> pystr) option" where
  "find_cost [] = None"
| "find_cost (c # s) = (case cost_at (c # s) of Some r \<Rightarrow> Some r | None \<Rightarrow> find_cost s)"

text \<open>
  The plan as text.  \<open>row[-1]\<close> and \<open>row[0]\<close> fail on an empty row, \<open>zip(strict=True)\<close> on a row
  that has not one value per column.
\<close>

definition plan_line :: "'x driver \<Rightarrow> pystr \<Rightarrow> pystr list \<Rightarrow> pyval list \<Rightarrow> exn + pystr" where
  "plan_line D dialect columns row =
     (if dialect = lit ''sqlite'' then
        res_bind (guard_res (row \<noteq> []) (py_error ''IndexError'')) (\<lambda>_. Inr (dv_value_text D (last row)))
      else if length columns = 1 then
        res_bind (guard_res (row \<noteq> []) (py_error ''IndexError'')) (\<lambda>_. Inr (dv_value_text D (hd row)))
      else
        res_bind (guard_res (length columns = length row) (py_error ''ValueError'')) (\<lambda>_.
          Inr (join (lit '', '') (map (\<lambda>(col, val). col @ lit ''='' @ dv_value_text D val) (zip columns row)))))"

fun plan_lines :: "'x driver \<Rightarrow> pystr \<Rightarrow> pystr list \<Rightarrow> pyval list list \<Rightarrow> exn + pystr list" where
  "plan_lines D dialect columns [] = Inr []"
| "plan_lines D dialect columns (row # rows) =
     res_bind (plan_line D dialect columns row) (\<lambda>l.
     res_bind (plan_lines D dialect columns rows) (\<lambda>ls. Inr (l # ls)))"

definition explain_not_supported :: exn where
  "explain_not_supported =
     McpSqlError ExplainNotSupported
       (lit ''Query plans are not available for SQL Server connections. ''
        @ lit ''Use run_query with a small row_limit to sanity-check the query instead.'')"

definition sa_explain :: "ucd \<Rightarrow> 'x driver \<Rightarrow> pystr \<Rightarrow> int \<Rightarrow> ('x adapter_object, explain_result) op" where
  "sa_explain U D sql timeout_ms =
     io_bind (io_gets ao_dialect) (\<lambda>dialect.
       if dialect = lit ''mssql'' then io_raise explain_not_supported
       else
         io_bind (run_statement U D (literal_sql
                    ((if dialect = lit ''sqlite'' then lit ''EXPLAIN QUERY PLAN '' else lit ''EXPLAIN '') @ sql))
                    1000 timeout_ms) (\<lambda>raw.
         io_bind (io_lift (plan_lines D dialect (rr_columns raw) (rr_rows raw))) (\<lambda>plan_ls.
         let plan = join [10] plan_ls in
         case (if dialect = lit ''postgresql'' then find_cost plan else None) of
           None \<Rightarrow> io_return \<lparr>er_plan = plan, er_estimated_cost = None, er_estimated_rows = None\<rparr>
         | Some (cost, rows) \<Rightarrow>
             (case (dv_float D cost, digits_value rows 0) of
                (Some f, Some n) \<Rightarrow>
                  io_return \<lparr>er_plan = plan, er_estimated_cost = Some f, er_estimated_rows = Some n\<rparr>
              | _ \<Rightarrow> io_raise (py_error ''ValueError'')))))"

end
