(* ===== verification/AdapterProps.thy ===== *)
theory AdapterProps
  imports SqlAdapter
begin

text \<open>
  What the adapter promises the services: a statement is streamed only on a connection set up
  for it, at most \<open>max_rows\<close> rows come back, a table is found by its exact name or by the only
  one that differs in case, and the driver's errors arrive as two kinds with short messages.
\<close>

section \<open>A driver that writes down what is asked of it\<close>

datatype adapter_event =
    Checkout bool | Setup setup_step | Limit int | Streamed sql_statement | Fetched int | EndResult

definition logged :: "adapter_event \<Rightarrow> ('x, 'a) op \<Rightarrow> ('x \<times> adapter_event list, 'a) op" where
  "logged ev m = (\<lambda>(x, log). case m x of (r, x') \<Rightarrow> (r, (x', log @ [ev])))"

definition logged_checkout :: "('x, bool) op \<Rightarrow> ('x \<times> adapter_event list, bool) op" where
  "logged_checkout m =
     (\<lambda>(x, log). case m x of (r, x') \<Rightarrow> (r, (x', log @ (case r of Inr b \<Rightarrow> [Checkout b] | Inl e \<Rightarrow> []))))"

definition traced :: "'x driver \<Rightarrow> ('x \<times> adapter_event list) driver" where
  "traced D =
     \<lparr>dv_open = (\<lambda>u. io_on_fst (dv_open D u)), dv_dispose = io_on_fst (dv_dispose D),
      dv_default_schema = io_on_fst (dv_default_schema D),
      dv_table_names = (\<lambda>h. io_on_fst (dv_table_names D h)),
      dv_view_names = (\<lambda>h. io_on_fst (dv_view_names D h)),
      dv_table_comments = (\<lambda>h. io_on_fst (dv_table_comments D h)),
      dv_columns = (\<lambda>h t. io_on_fst (dv_columns D h t)),
      dv_pk_columns = (\<lambda>h t. io_on_fst (dv_pk_columns D h t)),
      dv_foreign_keys = (\<lambda>h t. io_on_fst (dv_foreign_keys D h t)),
      dv_checkout = logged_checkout (dv_checkout D),
      dv_setup = (\<lambda>st. logged (Setup st) (dv_setup D st)),
      dv_limit = (\<lambda>n. logged (Limit n) (dv_limit D n)),
      dv_stream = (\<lambda>q. logged (Streamed q) (dv_stream D q)),
      dv_fetch = (\<lambda>n. logged (Fetched n) (dv_fetch D n)),
      dv_end_result = logged EndResult (dv_end_result D),
      dv_info = dv_info D, dv_is_mariadb = dv_is_mariadb D,
      dv_now = (\<lambda>(x, log). case dv_now D x of (n, x') \<Rightarrow> (n, (x', log))),
      dv_file_uri = dv_file_uri D, dv_value_text = dv_value_text D,
      dv_lower = dv_lower D, dv_float = dv_float D\<rparr>"

lemma traced_fields [simp]:
  "dv_checkout (traced D) = logged_checkout (dv_checkout D)"
  "dv_setup (traced D) st = logged (Setup st) (dv_setup D st)"
  "dv_limit (traced D) n = logged (Limit n) (dv_limit D n)"
  "dv_stream (traced D) q = logged (Streamed q) (dv_stream D q)"
  "dv_fetch (traced D) n = logged (Fetched n) (dv_fetch D n)"
  "dv_end_result (traced D) = logged EndResult (dv_end_result D)"
  "dv_is_mariadb (traced D) = dv_is_mariadb D"
  by (simp_all add: traced_def)

text \<open>The log after a step, whether it raised or not.\<close>

abbreviation log_is :: "('x \<times> adapter_event list \<Rightarrow> bool) \<Rightarrow> ('x \<times> adapter_event list, 'a) op
    \<Rightarrow> (adapter_event list \<Rightarrow> bool) \<Rightarrow> (adapter_event list \<Rightarrow> bool) \<Rightarrow> bool" where
  "log_is P m Q E \<equiv> triple P m (\<lambda>_ p. Q (snd p)) (\<lambda>_ p. E (snd p))"

lemma logged_triple:
  "triple (\<lambda>p. Q (snd p @ [ev])) (logged ev m) (\<lambda>_ p. Q (snd p)) (\<lambda>_ p. Q (snd p))"
  by (auto simp: triple_def logged_def split: prod.splits sum.splits)

lemma logged_at:
  "log_is (\<lambda>p. snd p = l) (logged ev m) (\<lambda>g. g = l @ [ev]) (\<lambda>g. g = l @ [ev])"
  by (auto simp: triple_def logged_def split: prod.splits sum.splits)

lemma logged_each_at:
  assumes "\<And>st. f st = logged (Setup st) (g st)"
  shows "log_is (\<lambda>p. snd p = l) (io_each f sts) (\<lambda>log. log = l @ map Setup sts)
    (\<lambda>log. \<exists>k. log = l @ map Setup (take k sts))"
proof (induction sts arbitrary: l)
  case Nil
  then show ?case by (auto simp: triple_def)
next
  case (Cons st sts)
  have first: "log_is (\<lambda>p. snd p = l) (f st) (\<lambda>g. g = l @ [Setup st])
      (\<lambda>log. \<exists>k. log = l @ map Setup (take k (st # sts)))"
    unfolding assms by (rule triple_post [OF logged_at]) (auto intro: exI [of _ 1])
  have rest: "log_is (\<lambda>p. snd p = l @ [Setup st]) (io_each f sts) (\<lambda>log. log = l @ map Setup (st # sts))
      (\<lambda>log. \<exists>k. log = l @ map Setup (take k (st # sts)))"
    by (rule triple_post [OF Cons.IH [of "l @ [Setup st]"]]) (auto intro: exI [of _ "Suc _"])
  show ?case by (simp only: io_each.simps) (rule triple_then [OF rest first])
qed

lemma keeps_log_error: "io_keeps (\<lambda>p. Q (snd p)) (as_our_error U (traced D) dialect ms d e)"
  by (auto simp: as_our_error_def translate_error_def traced_def io_keeps_def io_bind_def
      split: option.split prod.split)

section \<open>Every statement runs on a connection set up for it\<close>

definition set_out :: "pystr \<Rightarrow> bool \<Rightarrow> adapter_event list" where
  "set_out dialect fresh =
     Checkout fresh # (if fresh then (case readonly_statement dialect of None \<Rightarrow> [] | Some st \<Rightarrow> [Setup st]) else [])"

definition nothing_streamed :: "adapter_event list \<Rightarrow> bool" where
  "nothing_streamed log \<longleftrightarrow> (\<forall>st. Streamed st \<notin> set log)"

lemma nothing_streamed_simps [simp]:
  "nothing_streamed []"
  "nothing_streamed (l @ l') \<longleftrightarrow> nothing_streamed l \<and> nothing_streamed l'"
  "nothing_streamed (map Setup sts)"
  "nothing_streamed (e # l) \<longleftrightarrow> (\<forall>st. e \<noteq> Streamed st) \<and> nothing_streamed l"
  by (auto simp: nothing_streamed_def)

lemma set_out_quiet [simp]: "nothing_streamed (set_out dialect fresh)"
  by (cases "readonly_statement dialect") (auto simp: set_out_def)

text \<open>The log of one query that got as far as its statement.\<close>

definition run_log :: "bool \<Rightarrow> pystr \<Rightarrow> int \<Rightarrow> int \<Rightarrow> bool \<Rightarrow> sql_statement \<Rightarrow> adapter_event list \<Rightarrow> adapter_event list" where
  "run_log mariadb dialect timeout_ms deadline fresh st tail =
     set_out dialect fresh
     @ map Setup (setup_steps mariadb dialect timeout_ms deadline)
     @ [Limit (client_timeout dialect timeout_ms), Streamed st] @ tail @ map Setup (cleanup_steps dialect)"

lemma checkout_log:
  "log_is (\<lambda>p. snd p = []) (checkout (traced D) dialect) (\<lambda>log. \<exists>fresh. log = set_out dialect fresh) nothing_streamed"
  unfolding checkout_def
proof (rule triple_bind)
  show "triple (\<lambda>p. snd p = []) (dv_checkout (traced D)) (\<lambda>fresh p. snd p = [Checkout fresh])
      (\<lambda>_ p. nothing_streamed (snd p))"
    by (rule tripleI) (auto simp: logged_checkout_def split: prod.splits sum.splits)
  show "triple (\<lambda>p. snd p = [Checkout fresh]) (if fresh then make_connection_readonly (traced D) dialect else io_return ())
      (\<lambda>_ p. \<exists>fresh. snd p = set_out dialect fresh) (\<lambda>_ p. nothing_streamed (snd p))" for fresh
  proof (cases "readonly_statement dialect")
    case None
    then show ?thesis
      by (auto simp: triple_def make_connection_readonly_def set_out_def intro: exI [of _ fresh])
  next
    case (Some st)
    then show ?thesis
      by (auto simp: make_connection_readonly_def set_out_def intro!: triple_post [OF logged_at] exI [of _ fresh])
        (auto simp: triple_def set_out_def)
  qed
qed

lemma fetch_rows_log:
  "log_is (\<lambda>p. snd p = l) (fetch_rows (traced D) st n)
     (\<lambda>log. \<exists>tail. log = l @ [Streamed st] @ tail \<and> nothing_streamed tail)
     (\<lambda>log. \<exists>tail. log = l @ [Streamed st] @ tail \<and> nothing_streamed tail)"
  by (auto simp: triple_def fetch_rows_def io_bind_def io_then_def logged_def
      split: prod.splits sum.splits option.splits)

text \<open>A clean-up that runs in every case, and whose own failure is swallowed.\<close>

lemma triple_catch [wp]:
  assumes "\<And>e. triple (R e) (h e) Q E" and "triple P m Q R"
  shows "triple P (io_catch m h) Q E"
  using assms by (fastforce simp: triple_def io_catch_def split: prod.splits sum.splits)

lemma cleanup_log:
  assumes "\<And>g. log_is (\<lambda>p. snd p = g) c (\<lambda>h. h = g @ w) (\<lambda>h. h = g @ w)"
    and "log_is P m A E"
  shows "log_is P (finally_quietly m c) (\<lambda>h. \<exists>g. A g \<and> h = g @ w) (\<lambda>h. \<exists>g. (A g \<or> E g) \<and> h = g @ w)"
proof -
  have q: "snd (snd (c p)) = snd p @ w" for p
  proof (cases "c p")
    case (fields r x g)
    with tripleD_Inr [OF assms(1) refl] tripleD_Inl [OF assms(1) refl] show ?thesis
      by (cases r) fastforce+
  qed
  let ?quiet = "io_catch c (\<lambda>e. if is_exception e then io_return () else io_raise e)"
  have quiet: "snd (snd (?quiet p)) = snd p @ w" for p
    using q [of p] by (cases "c p"; cases "fst (c p)") (simp_all add: io_catch_def)
  have qt: "triple (\<lambda>p. R (snd p)) ?quiet (\<lambda>_ h. \<exists>g. R g \<and> snd h = g @ w) (\<lambda>_ h. \<exists>g. R g \<and> snd h = g @ w)" for R
  proof (rule tripleI)
    fix p r t
    assume "R (snd p)" "?quiet p = (Inr r, t)"
    with quiet [of p] show "\<exists>g. R g \<and> snd t = g @ w" by (intro exI [of _ "snd p"]) simp
  next
    fix p e t
    assume "R (snd p)" "?quiet p = (Inl e, t)"
    with quiet [of p] show "\<exists>g. R g \<and> snd t = g @ w" by (intro exI [of _ "snd p"]) simp
  qed
  have raised: "triple (\<lambda>p. E (snd p)) (io_then ?quiet (io_raise e))
      (\<lambda>_ p. A (snd p)) (\<lambda>_ h. \<exists>g. (A g \<or> E g) \<and> snd h = g @ w)" for e
    by (rule triple_then [OF triple_raise triple_post [OF qt]]) auto
  have worked: "triple (\<lambda>p. A (snd p)) (io_then ?quiet (io_return r))
      (\<lambda>_ h. \<exists>g. A g \<and> snd h = g @ w) (\<lambda>_ h. \<exists>g. (A g \<or> E g) \<and> snd h = g @ w)" for r
    by (rule triple_then [OF triple_return triple_post [OF qt]]) auto
  show ?thesis
    unfolding finally_quietly_def Let_def
    by (rule triple_bind [where R = "\<lambda>_ p. A (snd p)"], rule worked)
      (rule triple_catch [OF _ assms(2)], rule raised)
qed

lemma setup_cleanup_log:
  "log_is (\<lambda>p. snd p = g) (io_each (dv_setup (traced D)) (cleanup_steps dialect))
     (\<lambda>h. h = g @ map Setup (cleanup_steps dialect)) (\<lambda>h. h = g @ map Setup (cleanup_steps dialect))"
  by (auto simp: cleanup_steps_def triple_def io_then_def io_bind_def logged_def split: prod.splits sum.splits)

lemma triple_ex: "(\<And>x. triple (P x) m Q E) \<Longrightarrow> triple (\<lambda>s. \<exists>x. P x s) m Q E"
  by (rule tripleI; elim exE) (metis tripleD_Inr, metis tripleD_Inl)

definition run_shape :: "bool \<Rightarrow> pystr \<Rightarrow> int \<Rightarrow> sql_statement \<Rightarrow> adapter_event list \<Rightarrow> bool" where
  "run_shape mariadb dialect timeout_ms st log \<longleftrightarrow>
     nothing_streamed log
     \<or> (\<exists>deadline fresh tail. nothing_streamed tail
          \<and> log = run_log mariadb dialect timeout_ms deadline fresh st tail)"

lemma run_shapeI:
  "nothing_streamed tail \<Longrightarrow>
   run_shape mariadb dialect timeout_ms st
     (set_out dialect fresh @ map Setup (setup_steps mariadb dialect timeout_ms deadline)
      @ Limit (client_timeout dialect timeout_ms) # Streamed st # tail @ map Setup (cleanup_steps dialect))"
  by (auto simp: run_shape_def run_log_def)

lemma run_shape_quiet: "nothing_streamed log \<Longrightarrow> run_shape mariadb dialect timeout_ms st log"
  by (simp add: run_shape_def)

lemma query_connection_log:
  "log_is (\<lambda>p. snd p = [])
     (query_connection U (traced D) dialect engine timeout_ms (fetch_rows (traced D) st n))
     (run_shape (dv_is_mariadb D) dialect timeout_ms st) (run_shape (dv_is_mariadb D) dialect timeout_ms st)"
  (is "log_is ?start _ ?S ?S")
proof -
  let ?steps = "\<lambda>d. map Setup (setup_steps (dv_is_mariadb D) dialect timeout_ms d)"
  let ?lim = "[Limit (client_timeout dialect timeout_ms)]"
  let ?clean = "map Setup (cleanup_steps dialect)"
  have quiet: "?S log" if "nothing_streamed log" for log using that by (simp add: run_shape_def)
  have handler: "triple (\<lambda>p. ?S (snd p)) (if e = py_error ''TimeoutError'' then io_raise (query_timeout timeout_ms)
      else as_our_error U (traced D) dialect timeout_ms d e) (\<lambda>_ p. ?S (snd p)) (\<lambda>_ p. ?S (snd p))" for e d
    using keeps_log_error [of ?S U D dialect timeout_ms d e] by (auto simp: io_keeps_triple triple_def [of _ "io_raise _"])
  have body: "log_is (\<lambda>p. snd p = l) (io_then (dv_limit (traced D) (client_timeout dialect timeout_ms))
        (fetch_rows (traced D) st n))
      (\<lambda>log. \<exists>tail. log = l @ ?lim @ [Streamed st] @ tail \<and> nothing_streamed tail)
      (\<lambda>log. log = l @ ?lim \<or> (\<exists>tail. log = l @ ?lim @ [Streamed st] @ tail \<and> nothing_streamed tail))" for l
    by (rule triple_then [OF triple_post [OF fetch_rows_log [of "l @ ?lim"]]]; (simp only: traced_fields)?)
      (auto intro: triple_post [OF logged_at [of l]])
  have run: "log_is (\<lambda>p. snd p = set_out dialect fresh @ ?steps d)
      (finally_quietly (io_then (dv_limit (traced D) (client_timeout dialect timeout_ms)) (fetch_rows (traced D) st n))
        (io_each (dv_setup (traced D)) (cleanup_steps dialect))) ?S ?S" for fresh d
    by (rule triple_post [OF cleanup_log [OF setup_cleanup_log body]])
      (auto simp: run_shapeI run_shape_quiet)
  have prepare: "log_is (\<lambda>p. \<exists>fresh. snd p = set_out dialect fresh)
      (io_then (io_each (dv_setup (traced D)) (setup_steps (dv_is_mariadb (traced D)) dialect timeout_ms d))
        (finally_quietly (io_then (dv_limit (traced D) (client_timeout dialect timeout_ms)) (fetch_rows (traced D) st n))
          (io_each (dv_setup (traced D)) (cleanup_steps dialect)))) ?S ?S" for d
    by (rule triple_ex, rule triple_then [OF run],
        rule triple_post [OF logged_each_at [OF traced_fields(2)]]) (auto intro!: quiet)
  have try_block: "log_is ?start (io_then (require_engine engine) (io_then (checkout (traced D) dialect)
      (io_then (io_each (dv_setup (traced D)) (setup_steps (dv_is_mariadb (traced D)) dialect timeout_ms d))
        (finally_quietly (io_then (dv_limit (traced D) (client_timeout dialect timeout_ms)) (fetch_rows (traced D) st n))
          (io_each (dv_setup (traced D)) (cleanup_steps dialect)))))) ?S ?S" for d
    by (rule triple_then, rule triple_then [OF prepare],
        rule triple_post [OF checkout_log]) (auto simp: require_engine_def triple_def guard_res_def quiet)
  have clock: "triple ?start (\<lambda>x. case dv_now (traced D) x of (t, x') \<Rightarrow> (Inr (t + timeout_ms * 1000), x'))
      (\<lambda>_. ?start) (\<lambda>_. ?start)"
    by (auto simp: triple_def traced_def split: prod.splits)
  show ?thesis
    unfolding query_connection_def
    by (rule triple_bind [OF triple_catch [OF handler try_block]], rule triple_post [OF clock]) (auto intro: quiet)
qed

text \<open>C15: whatever the driver does, a statement reaches it only on a connection set up for that query: the
  engine's read-only and time-limit steps come first (and, on a connection the pool has just opened, the
  session's read-only statement before them), nothing else is streamed, and on SQLite the deadline is
  removed at the end, failures included.\<close>

theorem streamed_after_setup:
  assumes "ao_ext s = (x, [])"
    and "Streamed q \<in> set (snd (ao_ext (snd (run_statement U (traced D) st n timeout_ms s))))"
  shows "q = st \<and> (\<exists>deadline fresh tail.
     snd (ao_ext (snd (run_statement U (traced D) st n timeout_ms s)))
       = run_log (dv_is_mariadb D) (ao_dialect s) timeout_ms deadline fresh st tail
     \<and> nothing_streamed tail)
   \<and> (ao_dialect s = lit ''postgresql'' \<longrightarrow>
       (\<exists>pre post. snd (ao_ext (snd (run_statement U (traced D) st n timeout_ms s))) = pre @ Streamed st # post
          \<and> Setup ReadOnlyTransaction \<in> set pre \<and> Setup (StatementTimeout (max 1 timeout_ms)) \<in> set pre))"
proof -
  let ?m = "query_connection U (traced D) (ao_dialect s) (ao_engine s) timeout_ms (fetch_rows (traced D) st n)"
  let ?log = "snd (snd (?m (x, [])))"
  have same: "snd (ao_ext (snd (run_statement U (traced D) st n timeout_ms s))) = ?log"
    using assms(1) by (simp add: run_statement_def io_bind_def on_ao_def split: prod.split)
  have "run_shape (dv_is_mariadb D) (ao_dialect s) timeout_ms st ?log"
  proof (cases "?m (x, [])")
    case (fields r y log)
    then show ?thesis
      using tripleD_Inr [OF query_connection_log, of "(x, [])"] tripleD_Inl [OF query_connection_log, of "(x, [])"]
      by (cases r) auto
  qed
  moreover have "Streamed q \<in> set ?log" using assms(2) by (simp only: same)
  ultimately obtain deadline fresh tail where
    log: "?log = run_log (dv_is_mariadb D) (ao_dialect s) timeout_ms deadline fresh st tail" "nothing_streamed tail"
    by (auto simp: run_shape_def nothing_streamed_def)
  with \<open>Streamed q \<in> set ?log\<close> set_out_quiet [of "ao_dialect s" fresh] have "q = st"
    by (auto simp: run_log_def nothing_streamed_def)
  moreover have "\<exists>pre post. ?log = pre @ Streamed st # post \<and> Setup ReadOnlyTransaction \<in> set pre
      \<and> Setup (StatementTimeout (max 1 timeout_ms)) \<in> set pre" if "ao_dialect s = lit ''postgresql''"
    by (rule exI [of _ "set_out (ao_dialect s) fresh
          @ map Setup (setup_steps (dv_is_mariadb D) (ao_dialect s) timeout_ms deadline)
          @ [Limit (client_timeout (ao_dialect s) timeout_ms)]"],
        rule exI [of _ "tail @ map Setup (cleanup_steps (ao_dialect s))"])
      (unfold log(1) run_log_def, simp add: that setup_steps_def)
  ultimately show ?thesis using log unfolding same by blast
qed

section \<open>A driver to run the adapter on\<close>

text \<open>
  One database of one table \<open>Orders\<close>, the given rows in its only cursor, a clock that advances
  a microsecond with every reading; the state is the clock.
\<close>

definition sample_driver :: "pyval list list \<Rightarrow> bool \<Rightarrow> int driver" where
  "sample_driver rows fails =
     \<lparr>dv_open = (\<lambda>u. io_return ()), dv_dispose = io_return (), dv_default_schema = io_return None,
      dv_table_names = (\<lambda>h. io_return [lit ''Orders'']), dv_view_names = (\<lambda>h. io_return []),
      dv_table_comments = (\<lambda>h. io_raise (py_error ''NotImplementedError'')),
      dv_columns = (\<lambda>h t. io_return [\<lparr>rk_name = lit ''id'', rk_compiled = Some (lit ''INTEGER''),
         rk_printed = lit ''INTEGER'', rk_nullable = Some True, rk_comment = None\<rparr>]),
      dv_pk_columns = (\<lambda>h t. io_return (Some [lit ''id''])), dv_foreign_keys = (\<lambda>h t. io_return []),
      dv_checkout = io_return True, dv_setup = (\<lambda>st. io_return ()), dv_limit = (\<lambda>n. io_return ()),
      dv_stream = (\<lambda>q. if fails then io_raise (py_error ''OperationalError'') else io_return (Some [lit ''id''])),
      dv_fetch = (\<lambda>n. io_return (take (nat n) rows)), dv_end_result = io_return (),
      dv_info = (\<lambda>e. \<lparr>xi_dbapi = (e = py_error ''OperationalError''), xi_orig = Some (lit ''interrupted''),
         xi_module = [], xi_message = []\<rparr>),
      dv_is_mariadb = False, dv_now = (\<lambda>c. (c, c + 1)), dv_file_uri = (\<lambda>p. lit ''file://'' @ p),
      dv_value_text = (\<lambda>v. case v of PInt n \<Rightarrow> str_of_int n | _ \<Rightarrow> []), dv_lower = id, dv_float = (\<lambda>s. None)\<rparr>"

definition sample_adapter :: "'x \<Rightarrow> 'x adapter_object" where
  "sample_adapter x =
     \<lparr>ao_dialect = lit ''sqlite'',
      ao_url = \<lparr>eu_drivername = lit ''sqlite+aiosqlite'', eu_username = JNull, eu_password = None, eu_host = JNull,
        eu_port = JNull, eu_database = JNull, eu_query = JDict []\<rparr>,
      ao_schemas = [None], ao_engine = True, ao_default_schema = None, ao_ext = x\<rparr>"

lemma streamed_after_setup_witness:
  "ao_ext (sample_adapter (0 :: int, [])) = (0, [])
   \<and> Streamed (RawSql (lit ''x''))
       \<in> set (snd (ao_ext (snd (run_statement ascii_ucd (traced (sample_driver [] True)) (RawSql (lit ''x'')) 5 2000
            (sample_adapter (0, []))))))
   \<and> (\<exists>deadline fresh tail. snd (ao_ext (snd (run_statement ascii_ucd (traced (sample_driver [] True))
          (RawSql (lit ''x'')) 5 2000 (sample_adapter (0, [])))))
       = run_log False (lit ''sqlite'') 2000 deadline fresh (RawSql (lit ''x'')) tail \<and> nothing_streamed tail)"
proof -
  let ?D = "sample_driver [] True"
  let ?q = "RawSql (lit ''x'')"
  have start: "ao_ext (sample_adapter (0 :: int, [])) = (0, [])" by (simp add: sample_adapter_def)
  have run: "Streamed ?q \<in> set (snd (ao_ext (snd (run_statement ascii_ucd (traced ?D) ?q 5 2000 (sample_adapter (0, []))))))"
    by code_simp
  have fields: "dv_is_mariadb ?D = False" "ao_dialect (sample_adapter (0 :: int, [])) = lit ''sqlite''"
    by (simp_all add: sample_driver_def sample_adapter_def)
  show ?thesis
    using start run streamed_after_setup [OF start run] unfolding fields by blast
qed

section \<open>The row cap\<close>

lemma as_our_error_raises: "as_our_error U D dialect ms d e x \<noteq> (Inr r, x')"
  by (auto simp: as_our_error_def translate_error_def io_bind_def split: option.split prod.split)

lemma catch_raise_Inr:
  "io_catch m h x = (Inr r, x') \<Longrightarrow> (\<And>e y r y'. h e y \<noteq> (Inr r, y')) \<Longrightarrow> m x = (Inr r, x')"
  by (cases "m x"; cases "fst (m x)") (auto simp: io_catch_def)

lemma then_raise_not_Inr: "io_then m (io_raise e) x \<noteq> (Inr r, x')"
  by (simp add: io_then_Inr_iff)

lemma finally_quietly_Inr: "finally_quietly m c x = (Inr r, x') \<Longrightarrow> \<exists>y. m x = (Inr r, y)"
  unfolding finally_quietly_def Let_def io_bind_Inr_iff io_then_Inr_iff
  by (auto dest: catch_raise_Inr [OF _ then_raise_not_Inr])

lemma query_connection_Inr:
  assumes "query_connection U D dialect engine ms body x = (Inr r, x')"
  shows "\<exists>y y'. body y = (Inr r, y')"
proof -
  have "\<exists>y. finally_quietly (io_then (dv_limit D (client_timeout dialect ms)) body)
      (io_each (dv_setup D) (cleanup_steps dialect)) y = (Inr r, x')"
    using assms unfolding query_connection_def io_bind_Inr_iff
    by (auto dest!: catch_raise_Inr simp: as_our_error_raises io_then_Inr_iff split: if_splits)
  then obtain y z where "io_then (dv_limit D (client_timeout dialect ms)) body y = (Inr r, z)"
    using finally_quietly_Inr by fast
  then show ?thesis unfolding io_then_Inr_iff by blast
qed

text \<open>C20: a query's result holds at most as many rows as asked for and is marked truncated exactly when the
  server had more: on a driver whose cursor hands over the first rows it is asked for, the rows are the
  first \<open>max_rows\<close> of the answer.\<close>

theorem rows_capped:
  assumes "sa_execute U D sql max_rows timeout_ms s = (Inr r, s')" and "0 \<le> max_rows"
    and "\<And>n x found x'. dv_fetch D n x = (Inr found, x') \<Longrightarrow> found = take (nat n) (answer x)"
  shows "length (rr_rows r) \<le> nat max_rows
    \<and> (\<exists>x. rr_rows r = take (nat max_rows) (answer x) \<and> (rr_truncated r \<longleftrightarrow> max_rows < int (length (answer x)))
        \<or> rr_rows r = [] \<and> \<not> rr_truncated r \<and> rr_columns r = [])"
proof -
  obtain y y' where body: "fetch_rows D (literal_sql sql) max_rows y = (Inr r, y')"
    using assms(1) query_connection_Inr
    by (fastforce simp: sa_execute_def run_statement_def io_bind_Inr_iff on_ao_def split: prod.splits)
  then show ?thesis
  proof (cases "rr_columns r = [] \<and> rr_rows r = [] \<and> \<not> rr_truncated r")
    case False
    with body obtain x found x' where fetched: "dv_fetch D (max_rows + 1) x = (Inr found, x')"
      and r: "rr_rows r = slice_to max_rows found" "rr_truncated r \<longleftrightarrow> max_rows < int (length found)"
      by (auto simp: fetch_rows_def io_bind_Inr_iff io_then_Inr_iff split: option.splits)
    from assms(3) [OF fetched] have "found = take (nat (max_rows + 1)) (answer x)" .
    with r assms(2) have "rr_rows r = take (nat max_rows) (answer x)"
        "rr_truncated r \<longleftrightarrow> max_rows < int (length (answer x))"
      by (auto simp: slice_to_def nat_add_distrib)
    then show ?thesis by auto
  qed auto
qed

lemma rows_capped_witness:
  "\<exists>r s'. sa_execute ascii_ucd (sample_driver [[PInt 1], [PInt 2], [PInt 3]] False) (lit ''x'') 2 2000
        (sample_adapter 0) = (Inr r, s')
     \<and> length (rr_rows r) \<le> 2 \<and> rr_truncated r"
proof -
  let ?rows = "[[PInt 1], [PInt 2], [PInt 3]]"
  let ?D = "sample_driver ?rows False"
  let ?r = "\<lparr>rr_columns = [lit ''id''], rr_rows = [[PInt 1], [PInt 2]], rr_truncated = True\<rparr>"
  let ?s = "(sample_adapter 0)\<lparr>ao_ext := 1\<rparr>"
  have run: "sa_execute ascii_ucd ?D (lit ''x'') 2 2000 (sample_adapter 0) = (Inr ?r, ?s)"
    by code_simp
  have fetch: "dv_fetch ?D n x = (Inr found, x') \<Longrightarrow> found = take (nat n) ?rows" for n x found x'
    by (simp add: sample_driver_def)
  have "length (rr_rows ?r) \<le> nat 2" using rows_capped [OF run _ fetch] by simp
  with run show ?thesis by (intro exI [of _ ?r] exI [of _ ?s]) simp
qed

section \<open>Finding a table\<close>

lemma distinct_index_names:
  "distinct (map fst index) \<Longrightarrow> distinct (map fst (index_names home schema comments kind names index))"
  unfolding index_names_def by (induction names arbitrary: index) (auto simp: distinct_dict_set)

lemma distinct_index_schemas:
  "index_schemas D home schemas index x = (Inr found, x') \<Longrightarrow> distinct (map fst index) \<Longrightarrow> distinct (map fst found)"
proof (induction schemas arbitrary: index x)
  case (Cons schema schemas)
  then show ?case by (auto simp: io_bind_Inr_iff intro: distinct_index_names)
qed simp

text \<open>The names of the index are distinct, and in the order of their case-folded forms.\<close>

lemma table_index_ok:
  assumes "table_index U D s = (Inr index, s')"
  shows "distinct (map fst index)" "sorted (map (\<lambda>p. casefold U (fst p)) index)"
proof -
  obtain found x x' where "index = sort_key (\<lambda>p. casefold U (fst p)) found"
    and "index_schemas D (ao_default_schema s) (ao_schemas s) [] x = (Inr found, x')"
    using assms
    by (auto simp: table_index_def reflect_def io_bind_Inr_iff io_then_Inr_iff on_ao_def split: prod.splits
        dest!: catch_raise_Inr [OF _ as_our_error_raises])
  then show "distinct (map fst index)" "sorted (map (\<lambda>p. casefold U (fst p)) index)"
    by (auto dest: distinct_index_schemas simp: distinct_map)
qed

lemma distinct_set_single: "distinct xs \<Longrightarrow> set xs = {p} \<longleftrightarrow> xs = [p]"
  by (cases xs; cases "tl xs") auto

lemma lookup_entry_iff:
  assumes "distinct (map fst index)"
  shows "lookup_entry U index table = Inr entry \<longleftrightarrow>
     (table, entry) \<in> set index
     \<or> table \<notin> fst ` set index
       \<and> (\<exists>name. {p \<in> set index. casefold U (fst p) = casefold U table} = {(name, entry)})"
proof (cases "map_of index table")
  case (Some e)
  then have "(table, e) \<in> set index" by (rule map_of_SomeD)
  moreover from this have "table \<in> fst ` set index" by force
  ultimately show ?thesis using Some map_of_eq_Some_iff [OF assms, of table entry] by (simp add: lookup_entry_def)
next
  case None
  let ?same = "filter (\<lambda>p. casefold U (fst p) = casefold U table) index"
  let ?hits = "{p \<in> set index. casefold U (fst p) = casefold U table}"
  have "distinct ?same" using assms by (simp add: distinct_map)
  then have "?hits = {p} \<longleftrightarrow> ?same = [p]" for p
    using distinct_set_single [of ?same p] by simp
  then have "(\<exists>name. ?hits = {(name, entry)}) \<longleftrightarrow> (\<exists>name. ?same = [(name, entry)])" by simp
  moreover from None have "table \<notin> fst ` set index" by (simp add: map_of_eq_None_iff)
  moreover from this have "(table, entry) \<notin> set index" by force
  moreover from None have "lookup_entry U index table = Inr entry \<longleftrightarrow> (\<exists>name. ?same = [(name, entry)])"
    by (cases ?same; cases "tl ?same") (auto simp: lookup_entry_def)
  ultimately show ?thesis by simp
qed

text \<open>C23: over the names the database lists, a table is found by its exact name, or else by the only listed name
  that differs from it in case; in every other case, none or several, the error is the same.\<close>

theorem table_found_iff:
  assumes "table_index U D s = (Inr index, s')"
  shows "(fst (lookup_table U D table s) = Inr entry \<longleftrightarrow>
       (table, entry) \<in> set index
       \<or> table \<notin> fst ` set index
         \<and> (\<exists>name. {p \<in> set index. casefold U (fst p) = casefold U table} = {(name, entry)}))
    \<and> fst (lookup_table U D table s) \<in> range Inr \<union> {Inl (no_such_table table)}"
  using assms lookup_entry_iff [OF table_index_ok(1) [OF assms]]
  by (auto simp: lookup_table_def lookup_entry_def split: option.splits list.splits)

lemma table_found_iff_witness:
  "fst (lookup_table ascii_ucd (sample_driver [] False) (lit ''ORDERS'') (sample_adapter 0))
     = Inr (None, lit ''Orders'', KTable, None)"
proof -
  let ?D = "sample_driver [] False"
  let ?e = "(None, lit ''Orders'', KTable, None)"
  have index: "table_index ascii_ucd ?D (sample_adapter 0) = (Inr [(lit ''Orders'', ?e)], sample_adapter 0)"
    by code_simp
  have same: "casefold ascii_ucd (lit ''Orders'') = casefold ascii_ucd (lit ''ORDERS'')"
    by code_simp
  have one: "{p \<in> set [(lit ''Orders'', ?e)]. casefold ascii_ucd (fst p) = casefold ascii_ucd (lit ''ORDERS'')}
      = {(lit ''Orders'', ?e)}"
    using same by auto
  have "lit ''ORDERS'' \<noteq> lit ''Orders''" by code_simp
  with one show ?thesis using table_found_iff [OF index, of "lit ''ORDERS''" ?e] by auto
qed

section \<open>Errors\<close>

lemma first_line_short: "length (first_line U m) \<le> MAX_ERROR_CHARS"
  by (simp add: first_line_def)

lemma first_line_one_line: "c \<in> set (first_line U m) \<Longrightarrow> \<not> line_break c"
proof -
  let ?line = "if strip m = [] then lit ''database error'' else takeWhile (\<lambda>c. \<not> line_break c) (strip m)"
  assume "c \<in> set (first_line U m)"
  then have "c \<in> set (drop_class_prefix U ?line)"
    unfolding first_line_def by (rule in_set_takeD)
  moreover have "set (drop_class_prefix U l) \<subseteq> set l" for l
    by (auto simp: drop_class_prefix_def split: option.splits dest!: rx_match_here_Some(1))
  ultimately have "c \<in> set ?line" by blast
  moreover have "list_all (\<lambda>c. \<not> line_break c) (lit ''database error'')" by code_simp
  ultimately show ?thesis
    by (auto simp: list_all_iff dest: set_takeWhileD split: if_splits)
qed

text \<open>The driver's own exceptions are not ours.\<close>

definition foreign :: "('x, 'a) op \<Rightarrow> bool" where
  "foreign m \<longleftrightarrow> triple (\<lambda>_. True) m (\<lambda>_ _. True) (\<lambda>e _. \<forall>k t. e \<noteq> McpSqlError k t)"

definition driver_raises_own :: "'x driver \<Rightarrow> bool" where
  "driver_raises_own D \<longleftrightarrow>
     foreign (dv_checkout D) \<and> (\<forall>st. foreign (dv_setup D st)) \<and> (\<forall>n. foreign (dv_limit D n))
     \<and> (\<forall>q. foreign (dv_stream D q)) \<and> (\<forall>n. foreign (dv_fetch D n)) \<and> foreign (dv_end_result D)"

lemma foreign_bind: "foreign m \<Longrightarrow> (\<And>x. foreign (f x)) \<Longrightarrow> foreign (io_bind m f)"
  unfolding foreign_def by (rule triple_bind)

lemma foreign_then: "foreign m \<Longrightarrow> foreign k \<Longrightarrow> foreign (io_then m k)"
  unfolding io_then_def by (rule foreign_bind)

lemma foreign_simple: "foreign (io_return x)" "foreign (require_engine b)"
  by (auto simp: foreign_def triple_def require_engine_def guard_res_def py_error_def)

lemma foreign_each: "(\<And>x. foreign (f x)) \<Longrightarrow> foreign (io_each f xs)"
  by (induction xs) (auto intro: foreign_simple foreign_then)

lemma foreign_finally: "foreign m \<Longrightarrow> foreign c \<Longrightarrow> foreign (finally_quietly m c)"
proof -
  assume m: "foreign m" and c: "foreign c"
  have quiet: "foreign (io_catch c (\<lambda>e. if is_exception e then io_return () else io_raise e))"
    unfolding foreign_def by (rule triple_catch [OF _ c [unfolded foreign_def]]) (auto simp: triple_def)
  have raised: "triple (\<lambda>_. \<forall>k t. e \<noteq> McpSqlError k t)
      (io_then (io_catch c (\<lambda>e. if is_exception e then io_return () else io_raise e)) (io_raise e))
      (\<lambda>_ _. True) (\<lambda>e _. \<forall>k t. e \<noteq> McpSqlError k t)" for e
    using quiet by (auto simp: foreign_def triple_def io_then_def io_bind_def split: prod.splits sum.splits)
  have "foreign (io_catch m (\<lambda>e. io_then (io_catch c (\<lambda>e. if is_exception e then io_return () else io_raise e)) (io_raise e)))"
    unfolding foreign_def by (rule triple_catch [OF raised m [unfolded foreign_def]])
  with quiet show ?thesis
    unfolding finally_quietly_def Let_def by (intro foreign_bind foreign_then foreign_simple)
qed

text \<open>C22: no error of the database driver leaves the adapter as it is: what a failing statement raises is a timeout
  with the configured limit in its message, or a query failure whose message is one line of at most 300
  characters, or an exception that is not the driver's.\<close>

theorem query_errors_translated:
  assumes "run_statement U D statement max_rows timeout_ms s = (Inl e, s')"
    and "is_exception e" and "driver_raises_own D"
  shows "e = query_timeout timeout_ms
    \<or> (\<exists>m. e = McpSqlError QueryFailed m \<and> length m \<le> 300 \<and> list_all (\<lambda>c. \<not> line_break c) m)
    \<or> (\<forall>k m. e \<noteq> McpSqlError k m) \<and> driver_error (dv_info D e) = None"
proof -
  let ?ok = "\<lambda>e. is_exception e \<longrightarrow> e = query_timeout timeout_ms
    \<or> (\<exists>m. e = McpSqlError QueryFailed (first_line U m))
    \<or> (\<forall>k m. e \<noteq> McpSqlError k m) \<and> driver_error (dv_info D e) = None"
  let ?m = "query_connection U D (ao_dialect s) (ao_engine s) timeout_ms (fetch_rows D statement max_rows)"
  have fetch: "foreign (fetch_rows D statement max_rows)"
    using assms(3) unfolding fetch_rows_def driver_raises_own_def
    by (intro foreign_bind) (auto split: option.split intro!: foreign_bind foreign_then foreign_simple)
  have checkout: "foreign (checkout D dialect)" for dialect
    using assms(3) unfolding checkout_def driver_raises_own_def make_connection_readonly_def
    by (intro foreign_bind) (auto split: option.split intro!: foreign_simple)
  have translated: "triple (\<lambda>_. \<forall>k t. e0 \<noteq> McpSqlError k t)
      (if e0 = py_error ''TimeoutError'' then io_raise (query_timeout timeout_ms)
       else as_our_error U D (ao_dialect s) timeout_ms (Some d) e0) (\<lambda>_ _. True) (\<lambda>e _. ?ok e)" for e0 d
    by (auto simp: triple_def as_our_error_def translate_error_def io_bind_def
        split: option.splits prod.splits if_splits)
  have "triple (\<lambda>_. True) ?m (\<lambda>_ _. True) (\<lambda>e _. ?ok e)"
    unfolding query_connection_def
  proof (rule triple_bind)
    show "triple (\<lambda>_. True) (\<lambda>x. case dv_now D x of (t, x') \<Rightarrow> (Inr (t + timeout_ms * 1000), x')) (\<lambda>_ _. True) (\<lambda>e _. ?ok e)"
      by (auto simp: triple_def split: prod.splits)
    show "triple (\<lambda>_. True) (io_catch (io_then (require_engine (ao_engine s)) (io_then (checkout D (ao_dialect s))
         (io_then (io_each (dv_setup D) (setup_steps (dv_is_mariadb D) (ao_dialect s) timeout_ms d))
           (finally_quietly (io_then (dv_limit D (client_timeout (ao_dialect s) timeout_ms)) (fetch_rows D statement max_rows))
             (io_each (dv_setup D) (cleanup_steps (ao_dialect s)))))))
         (\<lambda>e. if e = py_error ''TimeoutError'' then io_raise (query_timeout timeout_ms)
              else as_our_error U D (ao_dialect s) timeout_ms (Some d) e)) (\<lambda>_ _. True) (\<lambda>e _. ?ok e)" for d
      by (rule triple_catch [OF translated], fold foreign_def)
        (use assms(3) fetch checkout in \<open>auto simp: driver_raises_own_def
          intro!: foreign_then foreign_simple foreign_each foreign_finally\<close>)
  qed
  moreover obtain x x' where "?m x = (Inl e, x')"
    using assms(1) by (auto simp: run_statement_def on_ao_def io_bind_def split: prod.splits)
  ultimately have "?ok e" by (blast dest: tripleD_Inl)
  with assms(2) show ?thesis
    using first_line_short first_line_one_line by (auto simp: list_all_iff MAX_ERROR_CHARS_def)
qed

lemma query_errors_translated_witness:
  "\<exists>s' m. run_statement ascii_ucd (sample_driver [] True) (RawSql (lit ''x'')) 5 2000 (sample_adapter 0)
        = (Inl (McpSqlError QueryFailed (lit ''interrupted'')), s') \<and> length (lit ''interrupted'') \<le> 300"
proof -
  let ?D = "sample_driver [] True"
  let ?e = "McpSqlError QueryFailed (lit ''interrupted'')"
  let ?s = "(sample_adapter 0)\<lparr>ao_ext := 2\<rparr>"
  have run: "run_statement ascii_ucd ?D (RawSql (lit ''x'')) 5 2000 (sample_adapter 0) = (Inl ?e, ?s)" by code_simp
  have own: "driver_raises_own ?D"
    by (simp add: driver_raises_own_def foreign_def triple_def sample_driver_def py_error_def)
  have "?e \<noteq> query_timeout 2000" by (simp add: query_timeout_def)
  then have "length (lit ''interrupted'') \<le> 300"
    using query_errors_translated [OF run _ own] by simp
  with run show ?thesis by blast
qed

end
