(* ===== verification/AdminApi.thy ===== *)
theory AdminApi
  imports Registry MetaStore Tokens
begin

text \<open>
  Shared ground of the admin GUI backend (\<open>gui_backend/context.py\<close>, \<open>auth.py\<close>, \<open>changes.py\<close>,
  \<open>routers/me.py\<close>): what a handler has at hand, how it reads and writes \<open>app_meta\<close>, who may
  call it, and the record of changes.  A handler works on the cache and the world, and answers
  with a value, an HTTP error, or an exception the framework turns into a 500.
\<close>

datatype api_error = HttpError int pystr | ServerError exn

type_synonym ('s, 'a) api = "(api_error, 's, 'a) io"

section \<open>The context\<close>

record gui_settings =
  gs_redis_configured :: bool
  gs_oauth_roles_claim :: pystr
  gs_admin_role :: pystr
  gs_mcp_health_url :: "pystr option"
  gs_max_page_size :: int
  gs_connection_test_timeout_ms :: int

text \<open>
  The parts of \<open>Context\<close>: settings, \<open>app_meta\<close>, cache, secret box, registry, verifier.  What the
  database server generates is \<open>gc_new_id\<close>; what Fernet draws is \<open>gc_nonce\<close>.  The registry is any
  provider on the outside world: that the backend's own pool keeps schema entries in the shared
  Redis is not part of this state (in \<open>Cluster\<close> such entries may appear at any time).
\<close>

record ('c, 'x) gui_context =
  gc_settings :: gui_settings
  gc_pg :: "'x pg"
  gc_cache :: "'c cache"
  gc_fernet :: fernet_lib
  gc_keys :: "pystr list"
  gc_registry :: "'x adapter_provider"
  gc_verify :: "pystr \<Rightarrow> ('x, access_token option) op"
  gc_text :: py_text
  gc_ucd :: ucd
  gc_new_id :: "'x \<Rightarrow> uuid"
  gc_nonce :: "'x \<Rightarrow> nat"

type_synonym ('c, 'x) gui_state = "'c \<times> 'x world"

text \<open>Code of the MCP server's package, called from a handler: its exceptions are the handler's.\<close>

definition raising :: "('s, 'a) op \<Rightarrow> ('s, 'a) api" where
  "raising m = io_catch m (\<lambda>e. io_raise (ServerError e))"

definition outside :: "('x, 'a) op \<Rightarrow> (('c, 'x) gui_state, 'a) op" where
  "outside m = (\<lambda>(c, w). case m (w_ext w) of (r, x) \<Rightarrow> (r, (c, w\<lparr>w_ext := x\<rparr>)))"

definition gets_outside :: "('x \<Rightarrow> 'a) \<Rightarrow> (('c, 'x) gui_state, 'a) api" where
  "gets_outside f = io_gets (\<lambda>(c, w). f (w_ext w))"

section \<open>Reading and writing \<open>app_meta\<close>\<close>

text \<open>\<open>async with ctx.engine.connect()\<close>: one read of the tables.\<close>

definition db_read :: "('c, 'x) gui_context \<Rightarrow> (app_meta \<Rightarrow> 'a) \<Rightarrow> (('c, 'x) gui_state, 'a) api" where
  "db_read ctx q = raising (io_on_snd (pg_read (gc_pg ctx) q))"

text \<open>
  \<open>async with ctx.engine.begin()\<close>: the statements run on the tables at the transaction's \<open>now()\<close>;
  an exception rolls everything back.
\<close>

type_synonym 'a tx = "(api_error, app_meta, 'a) io"

definition db_begin :: "('c, 'x) gui_context \<Rightarrow> (datetime \<Rightarrow> 'a tx) \<Rightarrow> (('c, 'x) gui_state, 'a) api" where
  "db_begin ctx tx = (\<lambda>(c, w).
     case pg_reach (gc_pg ctx) (w_ext w) of
       (Some e, x) \<Rightarrow> (Inl (ServerError e), (c, w\<lparr>w_ext := x\<rparr>))
     | (None, x) \<Rightarrow>
         (case tx (pg_now (gc_pg ctx) x) (w_meta w) of
            (Inl e, m) \<Rightarrow> (Inl e, (c, w\<lparr>w_ext := x\<rparr>))
          | (Inr v, m) \<Rightarrow> (Inr v, (c, w\<lparr>w_ext := x, w_meta := m\<rparr>))))"

definition integrity_error :: api_error where
  "integrity_error = ServerError (py_error ''IntegrityError'')"

text \<open>The driver refuses what \<open>text\<close> and \<open>jsonb\<close> cannot hold.\<close>

definition bind_params :: "pystr list \<Rightarrow> (pystr \<times> json) list list \<Rightarrow> 'a tx \<Rightarrow> 'a tx" where
  "bind_params strings objects k =
     io_then (io_guard (list_all storable strings \<and> list_all (\<lambda>d. json_storable (JDict d)) objects)
                (ServerError (py_error ''DBAPIError''))) k"

definition opt_list :: "'a option \<Rightarrow> 'a list" where
  "opt_list v = (case v of None \<Rightarrow> [] | Some x \<Rightarrow> [x])"

section \<open>Who is asking\<close>

record gui_user =
  gu_sub :: pystr
  gu_name :: "pystr option"
  gu_roles :: "pystr set"
  gu_is_admin :: bool

text \<open>\<open>current_user\<close>: \<open>credentials\<close> is the bearer token of the request, if it has one.\<close>

definition user_of_token :: "('c, 'x) gui_context \<Rightarrow> access_token option \<Rightarrow> api_error + gui_user" where
  "user_of_token ctx access =
     (case access of
        None \<Rightarrow> Inl (HttpError 401 (lit ''The access token is invalid or has expired.''))
      | Some t \<Rightarrow>
          (if at_claims t = [] then Inl (HttpError 401 (lit ''The access token is invalid or has expired.''))
           else case caller_from_claims (pt_str (gc_text ctx)) (at_claims t)
                       (gs_oauth_roles_claim (gc_settings ctx)) of
             Inl e \<Rightarrow> Inl (ServerError e)
           | Inr c \<Rightarrow>
               Inr \<lparr>gu_sub = sub c, gu_name = cname c, gu_roles = roles c,
                    gu_is_admin = (gs_admin_role (gc_settings ctx) \<in> roles c
                                   \<or> gs_admin_role (gc_settings ctx) \<in> set (at_scopes t))\<rparr>))"

definition current_user :: "('c, 'x) gui_context \<Rightarrow> pystr option \<Rightarrow> (('c, 'x) gui_state, gui_user) api" where
  "current_user ctx credentials =
     (case credentials of
        None \<Rightarrow> io_raise (HttpError 401 (lit ''Sign in to continue.''))
      | Some token \<Rightarrow>
          io_bind (raising (outside (gc_verify ctx token))) (\<lambda>access.
            io_lift (user_of_token ctx access)))"

definition require_admin :: "('c, 'x) gui_context \<Rightarrow> pystr option \<Rightarrow> (('c, 'x) gui_state, gui_user) api" where
  "require_admin ctx credentials =
     io_bind (current_user ctx credentials) (\<lambda>user.
     io_then (io_guard (gu_is_admin user) (HttpError 403 (lit ''This action needs an administrator.'')))
       (io_return user))"

text \<open>An endpoint with an \<open>Admin\<close> parameter: the dependency runs first.\<close>

definition admin_only ::
  "('c, 'x) gui_context \<Rightarrow> pystr option \<Rightarrow> (gui_user \<Rightarrow> (('c, 'x) gui_state, 'a) api) \<Rightarrow> (('c, 'x) gui_state, 'a) api" where
  "admin_only ctx credentials handler = io_bind (require_admin ctx credentials) handler"

section \<open>The record of changes\<close>

definition log_change ::
  "datetime \<Rightarrow> gui_user \<Rightarrow> pystr \<Rightarrow> pystr \<Rightarrow> pystr option \<Rightarrow> (pystr \<times> json) list \<Rightarrow> unit tx" where
  "log_change now user action target_type target details =
     bind_params ([gu_sub user, action, target_type] @ opt_list (gu_name user) @ opt_list target) [details]
       (io_modify (\<lambda>m. m\<lparr>am_admin_log := am_admin_log m @
            [\<lparr>al_id = am_next_admin m, al_occurred_at = now, al_actor_sub = gu_sub user,
              al_actor_name = gu_name user, al_action = action, al_target_type = target_type,
              al_target = target, al_details = details\<rparr>],
          am_next_admin := am_next_admin m + 1\<rparr>))"

definition announce :: "('c, 'x) gui_context \<Rightarrow> bool \<Rightarrow> bool \<Rightarrow> (('c, 'x) gui_state, unit) api" where
  "announce ctx meta schema =
     io_then (if meta then raising (io_on_fst (ca_bump (gc_cache ctx) META)) else io_return ())
       (if schema then raising (io_on_fst (ca_bump (gc_cache ctx) SCHEMA)) else io_return ())"

section \<open>The signed-in person\<close>

record me_out =
  me_sub :: pystr
  me_name :: "pystr option"
  me_roles :: "pystr list"
  me_is_admin :: bool

text \<open>The statement of \<open>me\<close> is the one the MCP server uses to note a caller.\<close>

definition me_tx :: "gui_user \<Rightarrow> datetime \<Rightarrow> unit tx" where
  "me_tx user now = (\<lambda>m.
     case note_subject now ((lit ''user'', gu_sub user), gu_name user) m of
       Inl e \<Rightarrow> (Inl (ServerError e), m)
     | Inr m' \<Rightarrow> (Inr (), m'))"

definition me :: "('c, 'x) gui_context \<Rightarrow> gui_user \<Rightarrow> (('c, 'x) gui_state, me_out) api" where
  "me ctx user =
     io_then (db_begin ctx (me_tx user))
       (io_return \<lparr>me_sub = gu_sub user, me_name = gu_name user, me_roles = sorted_strs (gu_roles user),
                   me_is_admin = gu_is_admin user\<rparr>)"

section \<open>Facts\<close>

lemma db_begin_cases:
  assumes "db_begin ctx tx (c, w) = (r, s')"
  obtains (failed) e x where "r = Inl e" "s' = (c, w\<lparr>w_ext := x\<rparr>)"
    | (finished) v now m x where "tx now (w_meta w) = (Inr v, m)" "r = Inr v" "s' = (c, w\<lparr>w_ext := x, w_meta := m\<rparr>)"
  using assms by (auto simp: db_begin_def split: prod.splits option.splits sum.splits)

text \<open>Reads, and whatever only asks the outside, leave the tables and the cache alone.\<close>

definition tables_are :: "app_meta \<Rightarrow> 'c \<Rightarrow> ('c, 'x) gui_state \<Rightarrow> bool" where
  "tables_are m c s \<longleftrightarrow> w_meta (snd s) = m \<and> fst s = c"

lemma raising_keeps [intro]: "io_keeps I m \<Longrightarrow> io_keeps I (raising m)"
  unfolding raising_def by (intro io_keeps_catch io_keeps_basic)

lemma outside_keeps [intro]: "io_keeps (tables_are m c) (outside op)"
  by (auto simp: io_keeps_def outside_def tables_are_def split: prod.splits)

lemma db_read_keeps [intro]: "io_keeps (tables_are m c) (db_read ctx q)"
  unfolding db_read_def
  by (intro raising_keeps) (auto simp: io_keeps_def tables_are_def io_on_snd_def pg_read_def split: prod.splits option.splits)

lemma gets_outside_keeps [intro]: "io_keeps I (gets_outside f)"
  by (simp add: gets_outside_def io_keeps_basic)

lemma require_admin_keeps: "io_keeps (tables_are m c) (require_admin ctx cred)"
  unfolding require_admin_def current_user_def
  by (intro io_keeps_bind io_keeps_then io_keeps_option io_keeps_basic raising_keeps outside_keeps)

text \<open>The invariant of the tables, for transactions.\<close>

lemma keeps_bind_params [intro]: "io_keeps I k \<Longrightarrow> io_keeps I (bind_params ss os k)"
  unfolding bind_params_def by (intro io_keeps_then io_keeps_basic)

lemma log_change_ok [intro]: "io_keeps app_meta_ok (log_change now user action tt target details)"
  unfolding log_change_def
  by (intro keeps_bind_params)
    (auto simp: io_keeps_def app_meta_ok_def admin_log_ok_def connection_ids_def list_all_iff)

lemma db_begin_meta_ok:
  fixes ctx :: "('c, 'x) gui_context"
  assumes "\<And>now. io_keeps app_meta_ok (tx now)"
  shows "io_keeps (\<lambda>s. app_meta_ok (w_meta (snd s))) (db_begin ctx tx)"
  unfolding io_keeps_def
proof (intro allI impI)
  fix s :: "('c, 'x) gui_state" assume ok: "app_meta_ok (w_meta (snd s))"
  obtain c w where s: "s = (c, w)" by (rule prod.exhaust)
  obtain r s' where run: "db_begin ctx tx (c, w) = (r, s')" by (rule prod.exhaust)
  from run have "app_meta_ok (w_meta (snd s'))"
  proof (cases rule: db_begin_cases)
    case (finished v now m x)
    then show ?thesis using io_keepsD [OF assms, of "w_meta w" now] ok s by auto
  qed (use ok s in simp)
  then show "app_meta_ok (w_meta (snd (snd (db_begin ctx tx s))))" by (simp add: s run)
qed

end
