(* ===== verification/AdminConnections.thy ===== *)
theory AdminConnections
  imports AdminApi PyRegex
begin

text \<open>
  \<open>gui_backend/routers/connections.py\<close>: registering, editing and removing target databases and
  saying who may use them.  Each statement of the source is a step on the tables; the two
  endpoints that test a connection are in \<open>ConnectionCheck\<close>.
\<close>

section \<open>Requests and answers\<close>

record engine_info =
  ei_engine :: pystr
  ei_label :: pystr
  ei_port :: "int option"
  ei_required :: "pystr list"

definition ENGINE_FIELDS :: "engine_info list" where
  "ENGINE_FIELDS =
     [\<lparr>ei_engine = lit ''postgresql'', ei_label = lit ''PostgreSQL'', ei_port = Some 5432,
       ei_required = map lit [''host'', ''database'', ''username'']\<rparr>,
      \<lparr>ei_engine = lit ''mysql'', ei_label = lit ''MySQL / MariaDB'', ei_port = Some 3306,
       ei_required = map lit [''host'', ''database'', ''username'']\<rparr>,
      \<lparr>ei_engine = lit ''mssql'', ei_label = lit ''SQL Server'', ei_port = Some 1433,
       ei_required = map lit [''host'', ''database'', ''username'']\<rparr>,
      \<lparr>ei_engine = lit ''sqlite'', ei_label = lit ''SQLite (file)'', ei_port = None, ei_required = [lit ''path'']\<rparr>]"

definition ALLOWED_DETAIL_KEYS :: "pystr list" where
  "ALLOWED_DETAIL_KEYS =
     map lit [''host'', ''port'', ''database'', ''username'', ''path'', ''options'', ''schemas'']"

record connection_in =
  ni_name :: pystr
  ni_engine :: pystr
  ni_description :: pystr
  ni_details :: "(pystr \<times> json) list"
  ni_secret :: "pystr option"
  ni_active :: bool

record connection_update =
  up_description :: pystr
  up_details :: "(pystr \<times> json) list"
  up_secret :: "pystr option"
  up_clear_secret :: bool
  up_active :: bool

text \<open>What pydantic admits; a dict has a key once.\<close>

definition engine_known :: "pystr \<Rightarrow> bool" where
  "engine_known e \<longleftrightarrow> e \<in> set (map ei_engine ENGINE_FIELDS)"

definition opt_max :: "nat \<Rightarrow> pystr option \<Rightarrow> bool" where
  "opt_max n v = (case v of None \<Rightarrow> True | Some s \<Rightarrow> length s \<le> n)"

definition connection_in_ok :: "connection_in \<Rightarrow> bool" where
  "connection_in_ok b \<longleftrightarrow>
     connection_name_ok (ni_name b) \<and> engine_known (ni_engine b) \<and> length (ni_description b) \<le> 500
     \<and> opt_max 2000 (ni_secret b) \<and> distinct (map fst (ni_details b))"

record connection_out =
  cu_id :: uuid
  cu_name :: pystr
  cu_engine :: pystr
  cu_description :: pystr
  cu_details :: "(pystr \<times> json) list"
  cu_has_secret :: bool
  cu_active :: bool
  cu_created_at :: datetime
  cu_updated_at :: datetime
  cu_last_checked_at :: "datetime option"
  cu_last_check_ok :: "bool option"
  cu_last_check_error :: "pystr option"
  cu_access_count :: nat

record access_subject =
  as_subject :: subject
  as_display_name :: "pystr option"

section \<open>Checking the settings\<close>

text \<open>\<open>SECRET_LOOKING\<close> (\<open>connection_check.py\<close>).\<close>

definition SECRET_LOOKING :: rx where
  "SECRET_LOOKING =
     rx_alts (map rx_word [''pass'', ''secret'', ''token'', ''pwd'', ''credential'', ''apikey'', ''api_key''])"

definition looks_secret :: "ucd \<Rightarrow> pystr \<Rightarrow> bool" where
  "looks_secret U s \<longleftrightarrow> rx_found U SECRET_LOOKING s"

definition refuse :: "bool \<Rightarrow> int \<Rightarrow> pystr \<Rightarrow> api_error + unit" where
  "refuse b status detail = guard_res (\<not> b) (HttpError status detail)"

fun is_simple :: "json \<Rightarrow> bool" where
  "is_simple (JStr s) = True"
| "is_simple (JInt i) = True"
| "is_simple (JBool b) = True"
| "is_simple _ = False"

text \<open>The loops over the keys and over the options.\<close>

fun check_keys :: "ucd \<Rightarrow> (pystr \<times> json) list \<Rightarrow> api_error + unit" where
  "check_keys U [] = Inr ()"
| "check_keys U ((k, v) # d) =
     res_bind (refuse (looks_secret U k) 422
                 (quoted k @ lit '' looks like a secret. Put credentials in the secret field.''))
       (\<lambda>_. check_keys U d)"

fun check_options :: "ucd \<Rightarrow> (json \<Rightarrow> pystr) \<Rightarrow> (pystr \<times> json) list \<Rightarrow> api_error + unit" where
  "check_options U R [] = Inr ()"
| "check_options U R ((k, v) # d) =
     res_bind (refuse (looks_secret U k \<or> looks_secret U (py_str R v)) 422
                 (lit ''Option '' @ quoted k @ lit '' looks like a secret. Put credentials in the secret field.''))
       (\<lambda>_. check_options U R d)"

definition simple_options :: "json \<Rightarrow> bool" where
  "simple_options options =
     (case options of JDict d \<Rightarrow> list_all (\<lambda>(k, v). is_simple v) d | _ \<Rightarrow> False)"

definition option_items :: "json \<Rightarrow> (pystr \<times> json) list" where
  "option_items options = (case options of JDict d \<Rightarrow> d | _ \<Rightarrow> [])"

definition schemas_list :: "json \<Rightarrow> bool" where
  "schemas_list v =
     (case v of JList xs \<Rightarrow> list_all (\<lambda>x. case x of JStr s \<Rightarrow> True | _ \<Rightarrow> False) xs | _ \<Rightarrow> False)"

definition port_in_range :: "json \<Rightarrow> bool" where
  "port_in_range v = (case as_int v of None \<Rightarrow> False | Some p \<Rightarrow> 0 < p \<and> p < 65536)"

definition required_fields :: "pystr \<Rightarrow> pystr list" where
  "required_fields engine =
     (case find (\<lambda>i. ei_engine i = engine) ENGINE_FIELDS of None \<Rightarrow> [] | Some i \<Rightarrow> ei_required i)"

definition bad_host :: "pystr \<Rightarrow> bool" where
  "bad_host h \<longleftrightarrow> list_ex (\<lambda>c. is_space c \<or> c = cp CHR ''/'' \<or> c = cp CHR ''@'') h"

definition blank :: "json \<Rightarrow> bool" where
  "blank v \<longleftrightarrow> v = JNull \<or> v = JStr []"

definition validate_details ::
  "ucd \<Rightarrow> (json \<Rightarrow> pystr) \<Rightarrow> pystr \<Rightarrow> (pystr \<times> json) list \<Rightarrow> api_error + (pystr \<times> json) list" where
  "validate_details U R engine details =
     (let unknown = sorted_strs (set (map fst details) - set ALLOWED_DETAIL_KEYS);
          options = or_else (get_claim details (lit ''options'')) (JDict []);
          schemas = get_claim details (lit ''schemas'');
          port = get_claim details (lit ''port'');
          missing = filter (\<lambda>f. \<not> truthy (get_claim details f)) (required_fields engine) in
      res_bind (refuse (unknown \<noteq> []) 422 (lit ''Unknown setting: '' @ join (lit '', '') unknown @ lit ''.'')) (\<lambda>_.
      res_bind (check_keys U details) (\<lambda>_.
      res_bind (refuse (\<not> simple_options options) 422 (lit ''Options must be a set of simple name/value pairs.'')) (\<lambda>_.
      res_bind (check_options U R (option_items options)) (\<lambda>_.
      res_bind (refuse (schemas \<noteq> JNull \<and> \<not> schemas_list schemas) 422 (lit ''Schemas must be a list of names.'')) (\<lambda>_.
      res_bind (refuse (port \<noteq> JNull \<and> \<not> port_in_range port) 422
                  (lit ''The port must be a number between 1 and 65535.'')) (\<lambda>_.
      res_bind (refuse (missing \<noteq> []) 422
                  (lit ''Missing required setting: '' @ join (lit '', '') missing @ lit ''.'')) (\<lambda>_.
      res_bind (refuse (engine \<noteq> lit ''sqlite'' \<and> bad_host (py_str R (get_claim details (lit ''host'')))) 422
                  (lit ''The host should be a plain host name or address.'')) (\<lambda>_.
        Inr (filter (\<lambda>(k, v). \<not> blank v) details))))))))))"

section \<open>Reading connections\<close>

definition connection_out_of :: "app_meta \<Rightarrow> connection_row \<Rightarrow> connection_out" where
  "connection_out_of m c =
     \<lparr>cu_id = cn_id c, cu_name = cn_name c, cu_engine = cn_engine c, cu_description = cn_description c,
      cu_details = cn_details c, cu_has_secret = (cn_secret c \<noteq> None), cu_active = cn_active c,
      cu_created_at = cn_created_at c, cu_updated_at = cn_updated_at c,
      cu_last_checked_at = cn_last_checked_at c, cu_last_check_ok = cn_last_check_ok c,
      cu_last_check_error = cn_last_check_error c,
      cu_access_count = length (filter (\<lambda>a. ac_connection a = cn_id c) (am_connection_access m))\<rparr>"

definition find_connection :: "uuid \<Rightarrow> app_meta \<Rightarrow> connection_row option" where
  "find_connection cid m = find (\<lambda>c. cn_id c = cid) (am_connections m)"

definition no_connection :: api_error where
  "no_connection = HttpError 404 (lit ''That connection doesn'' @ [39] @ lit ''t exist.'')"

text \<open>A row or the error; \<open>_fetch\<close>.\<close>

definition or_error :: "api_error \<Rightarrow> 'a option \<Rightarrow> ('s, 'a) api" where
  "or_error e v = io_lift (case v of None \<Rightarrow> Inl e | Some x \<Rightarrow> Inr x)"

definition fetch_connection :: "('c, 'x) gui_context \<Rightarrow> uuid \<Rightarrow> (('c, 'x) gui_state, connection_out) api" where
  "fetch_connection ctx cid =
     io_bind (db_read ctx (\<lambda>m. map_option (connection_out_of m) (find_connection cid m))) (or_error no_connection)"

definition list_engines :: "engine_info list" where
  "list_engines = ENGINE_FIELDS"

definition admin_list_connections :: "('c, 'x) gui_context \<Rightarrow> (('c, 'x) gui_state, connection_out list) api" where
  "admin_list_connections ctx =
     db_read ctx (\<lambda>m. map (connection_out_of m) (sort_key (\<lambda>c. pg_sort_key (gc_pg ctx) (cn_name c)) (am_connections m)))"

section \<open>Creating\<close>

definition encrypt_secret ::
  "('c, 'x) gui_context \<Rightarrow> pystr option \<Rightarrow> (('c, 'x) gui_state, pystr option) api" where
  "encrypt_secret ctx secret =
     (case secret of
        Some (ch # cs) \<Rightarrow>
          io_bind (gets_outside (gc_nonce ctx)) (\<lambda>n.
          io_bind (raising (io_lift (box_encrypt (gc_fernet ctx) (gc_keys ctx) n (ch # cs)))) (\<lambda>t.
            io_return (Some t)))
      | _ \<Rightarrow> io_return None)"

text \<open>\<open>INSERT INTO connections\<close>.\<close>

definition insert_connection :: "connection_row \<Rightarrow> unit tx" where
  "insert_connection c =
     bind_params ([cn_name c, cn_engine c, cn_description c] @ opt_list (cn_secret c) @ opt_list (cn_created_by c)) [cn_details c]
       (\<lambda>m. if cn_id c \<in> connection_ids m \<or> cn_name c \<in> cn_name ` set (am_connections m)
               \<or> \<not> connection_name_ok (cn_name c)
            then (Inl integrity_error, m)
            else (Inr (), m\<lparr>am_connections := am_connections m @ [c]\<rparr>))"

definition create_connection_tx ::
  "gui_user \<Rightarrow> connection_in \<Rightarrow> (pystr \<times> json) list \<Rightarrow> pystr option \<Rightarrow> uuid \<Rightarrow> datetime \<Rightarrow> unit tx" where
  "create_connection_tx admin body details encrypted new_id now =
     io_then
       (insert_connection
          \<lparr>cn_id = new_id, cn_name = ni_name body, cn_engine = ni_engine body,
           cn_description = ni_description body, cn_details = details, cn_secret = encrypted,
           cn_active = ni_active body, cn_created_by = Some (gu_sub admin), cn_created_at = now,
           cn_updated_at = now, cn_last_checked_at = None, cn_last_check_ok = None,
           cn_last_check_error = None\<rparr>)
       (log_change now admin (lit ''connection.create'') (lit ''connection'') (Some (ni_name body))
          [(lit ''engine'', JStr (ni_engine body)), (lit ''details'', JDict details),
           (lit ''has_secret'', JBool (encrypted \<noteq> None))])"

definition create_connection ::
  "('c, 'x) gui_context \<Rightarrow> gui_user \<Rightarrow> connection_in \<Rightarrow> (('c, 'x) gui_state, connection_out) api" where
  "create_connection ctx admin body =
     io_bind (io_lift (validate_details (gc_ucd ctx) (pt_str (gc_text ctx)) (ni_engine body) (ni_details body))) (\<lambda>details.
     io_bind (encrypt_secret ctx (ni_secret body)) (\<lambda>encrypted.
     io_bind (gets_outside (gc_new_id ctx)) (\<lambda>new_id.
     io_then
       (io_catch
          (db_begin ctx (create_connection_tx admin body details encrypted new_id))
          (\<lambda>e. io_raise (if e = integrity_error
                         then HttpError 409 (lit ''A connection named '' @ quoted (ni_name body) @ lit '' already exists.'')
                         else e)))
     (io_then (announce ctx True True)
       (fetch_connection ctx new_id)))))"

section \<open>Editing\<close>

text \<open>
  Equality of JSON values: dicts by their items, numbers by value.  Python counts \<open>True\<close> as 1
  (\<open>py\<close>), \<open>jsonb\<close> does not.
\<close>

fun num_value :: "bool \<Rightarrow> json \<Rightarrow> (int \<times> int) option" where
  "num_value py (JInt i) = Some (i, 0)"
| "num_value py (JBool b) = (if py then Some (if b then 1 else 0, 0) else None)"
| "num_value py (JFloat (Fin m e)) = Some (m, e)"
| "num_value py _ = None"

definition num_eq :: "int \<times> int \<Rightarrow> int \<times> int \<Rightarrow> bool" where
  "num_eq p q \<longleftrightarrow>
     (case (p, q) of ((m, e), (n, d)) \<Rightarrow>
        (if d \<le> e then m * 2 ^ nat (e - d) = n else m = n * 2 ^ nat (d - e)))"

function (sequential) json_eq :: "bool \<Rightarrow> json \<Rightarrow> json \<Rightarrow> bool"
  and list_eq :: "bool \<Rightarrow> json list \<Rightarrow> json list \<Rightarrow> bool"
  and items_eq :: "bool \<Rightarrow> (pystr \<times> json) list \<Rightarrow> (pystr \<times> json) list \<Rightarrow> bool" where
  "json_eq py (JDict a) b = (case b of JDict d \<Rightarrow> length a = length d \<and> items_eq py a d | _ \<Rightarrow> False)"
| "json_eq py (JList xs) b = (case b of JList ys \<Rightarrow> list_eq py xs ys | _ \<Rightarrow> False)"
| "json_eq py a b =
     (case (num_value py a, num_value py b) of
        (Some p, Some q) \<Rightarrow> num_eq p q
      | (None, None) \<Rightarrow> a = b
      | _ \<Rightarrow> False)"
| "list_eq py [] ys = (ys = [])"
| "list_eq py (x # xs) ys = (case ys of [] \<Rightarrow> False | y # ys' \<Rightarrow> json_eq py x y \<and> list_eq py xs ys')"
| "items_eq py [] d = True"
| "items_eq py ((k, v) # a) d =
     ((case map_of d k of None \<Rightarrow> False | Some w \<Rightarrow> json_eq py v w) \<and> items_eq py a d)"
  by pat_completeness auto
termination
  by (relation "measure (\<lambda>z. case z of Inl (py, a, b) \<Rightarrow> 2 * size a
        | Inr (Inl (py, xs, ys)) \<Rightarrow> 1 + 2 * size_list size xs
        | Inr (Inr (py, a, d)) \<Rightarrow> 1 + 2 * size_list (size_prod (\<lambda>_. 0) size) a)") auto

definition dict_eq :: "bool \<Rightarrow> (pystr \<times> json) list \<Rightarrow> (pystr \<times> json) list \<Rightarrow> bool" where
  "dict_eq py a b = json_eq py (JDict a) (JDict b)"

text \<open>The trigger \<open>connections_updated_at\<close>: an edit of the configuration moves \<open>updated_at\<close>.\<close>

definition same_configuration :: "connection_row \<Rightarrow> connection_row \<Rightarrow> bool" where
  "same_configuration a b \<longleftrightarrow>
     cn_name a = cn_name b \<and> cn_engine a = cn_engine b \<and> cn_description a = cn_description b
     \<and> dict_eq False (cn_details a) (cn_details b) \<and> cn_secret a = cn_secret b \<and> cn_active a = cn_active b"

definition connections_updated_at :: "datetime \<Rightarrow> connection_row \<Rightarrow> connection_row \<Rightarrow> connection_row" where
  "connections_updated_at now before after =
     (if same_configuration before after then after else after\<lparr>cn_updated_at := now\<rparr>)"

definition update_rows ::
  "datetime \<Rightarrow> uuid \<Rightarrow> (connection_row \<Rightarrow> connection_row) \<Rightarrow> app_meta \<Rightarrow> app_meta" where
  "update_rows now cid f m =
     m\<lparr>am_connections := map (\<lambda>c. if cn_id c = cid then connections_updated_at now c (f c) else c) (am_connections m)\<rparr>"

datatype secret_change = KeepSecret | ClearSecret | NewSecret pystr

fun new_secret :: "secret_change \<Rightarrow> pystr option \<Rightarrow> pystr option" where
  "new_secret KeepSecret s = s"
| "new_secret ClearSecret s = None"
| "new_secret (NewSecret t) s = Some t"

fun written_secret :: "secret_change \<Rightarrow> pystr list" where
  "written_secret (NewSecret t) = [t]"
| "written_secret _ = []"

definition changed_fields ::
  "connection_out \<Rightarrow> connection_update \<Rightarrow> (pystr \<times> json) list \<Rightarrow> secret_change \<Rightarrow> pystr list" where
  "changed_fields current body details secret =
     (if cu_description current \<noteq> up_description body then [lit ''description''] else [])
     @ (if \<not> dict_eq True (cu_details current) details then [lit ''details''] else [])
     @ (if cu_active current \<noteq> up_active body then [lit ''is_active''] else [])
     @ (case secret of
          KeepSecret \<Rightarrow> [] | NewSecret t \<Rightarrow> [lit ''secret''] | ClearSecret \<Rightarrow> [lit ''secret (cleared)''])"

definition secret_change_of ::
  "('c, 'x) gui_context \<Rightarrow> connection_update \<Rightarrow> (('c, 'x) gui_state, secret_change) api" where
  "secret_change_of ctx body =
     io_bind (encrypt_secret ctx (up_secret body)) (\<lambda>encrypted. io_return
       (case encrypted of
          Some t \<Rightarrow> NewSecret t
        | None \<Rightarrow> (if up_clear_secret body then ClearSecret else KeepSecret)))"

definition update_connection_tx ::
  "gui_user \<Rightarrow> uuid \<Rightarrow> connection_update \<Rightarrow> connection_out \<Rightarrow> (pystr \<times> json) list \<Rightarrow> secret_change \<Rightarrow> datetime \<Rightarrow> unit tx" where
  "update_connection_tx admin cid body current details secret now =
     io_then
       (bind_params (up_description body # written_secret secret) [details]
         (io_modify (update_rows now cid (\<lambda>c. c\<lparr>cn_description := up_description body, cn_details := details,
            cn_active := up_active body, cn_secret := new_secret secret (cn_secret c)\<rparr>))))
       (let changed = changed_fields current body details secret in
        if changed = [] then io_return ()
        else log_change now admin (lit ''connection.update'') (lit ''connection'') (Some (cu_name current))
               [(lit ''changed'', JList (map JStr changed)),
                (lit ''details'', if lit ''details'' \<in> set changed then JDict details else JNull)])"

definition update_connection ::
  "('c, 'x) gui_context \<Rightarrow> gui_user \<Rightarrow> uuid \<Rightarrow> connection_update \<Rightarrow> (('c, 'x) gui_state, connection_out) api" where
  "update_connection ctx admin cid body =
     io_bind (fetch_connection ctx cid) (\<lambda>current.
     io_bind (io_lift (validate_details (gc_ucd ctx) (pt_str (gc_text ctx)) (cu_engine current) (up_details body))) (\<lambda>details.
     io_bind (secret_change_of ctx body) (\<lambda>secret.
     io_then
       (db_begin ctx (update_connection_tx admin cid body current details secret))
     (io_then (announce ctx True True)
       (fetch_connection ctx cid)))))"

section \<open>Removing\<close>

text \<open>\<open>DELETE FROM connections\<close>: the grants and descriptions go with it, reports restrict it.\<close>

definition delete_connection_row :: "uuid \<Rightarrow> unit tx" where
  "delete_connection_row cid = (\<lambda>m.
     if list_ex (\<lambda>r. rp_connection r = cid) (am_reports m) then (Inl integrity_error, m)
     else (Inr (), m\<lparr>
       am_connections := filter (\<lambda>c. cn_id c \<noteq> cid) (am_connections m),
       am_connection_access := filter (\<lambda>a. ac_connection a \<noteq> cid) (am_connection_access m),
       am_table_permissions := filter (\<lambda>p. tp_connection p \<noteq> cid) (am_table_permissions m),
       am_descriptions := filter (\<lambda>d. ds_connection d \<noteq> cid) (am_descriptions m)\<rparr>))"

definition delete_connection_tx :: "gui_user \<Rightarrow> uuid \<Rightarrow> connection_out \<Rightarrow> datetime \<Rightarrow> unit tx" where
  "delete_connection_tx admin cid current now =
     io_bind (io_gets (\<lambda>m. length (filter (\<lambda>r. rp_connection r = cid) (am_reports m)))) (\<lambda>reports.
     io_then
       (io_guard (reports = 0)
         (HttpError 409 (quoted (cu_name current) @ lit '' is used by '' @ str_of_nat reports @ lit '' saved report''
           @ (if reports \<noteq> 1 then lit ''s'' else []) @ lit ''. Delete or move those first.'')))
     (io_then (delete_connection_row cid)
       (log_change now admin (lit ''connection.delete'') (lit ''connection'') (Some (cu_name current))
         [(lit ''engine'', JStr (cu_engine current)),
          (lit ''access_grants_removed'', JInt (int (cu_access_count current)))])))"

definition delete_connection ::
  "('c, 'x) gui_context \<Rightarrow> gui_user \<Rightarrow> uuid \<Rightarrow> (('c, 'x) gui_state, unit) api" where
  "delete_connection ctx admin cid =
     io_bind (fetch_connection ctx cid) (\<lambda>current.
     io_then
       (db_begin ctx (delete_connection_tx admin cid current))
     (announce ctx True True))"

section \<open>Who may use a connection\<close>

definition display_name_q :: "subject \<Rightarrow> app_meta \<Rightarrow> pystr option" where
  "display_name_q s m =
     (case find (\<lambda>k. kn_subject k = s) (am_known_subjects m) of None \<Rightarrow> None | Some k \<Rightarrow> kn_display_name k)"

text \<open>\<open>ORDER BY subject_type DESC, subject_id\<close>: users before roles.\<close>

definition by_subject :: "(pystr \<Rightarrow> pystr) \<Rightarrow> ('r \<Rightarrow> subject) \<Rightarrow> 'r list \<Rightarrow> 'r list" where
  "by_subject key f rows =
     sort_key (\<lambda>r. if fst (f r) = lit ''user'' then (0 :: nat) else 1) (sort_key (\<lambda>r. key (snd (f r))) rows)"

definition access_q :: "(pystr \<Rightarrow> pystr) \<Rightarrow> uuid \<Rightarrow> app_meta \<Rightarrow> access_subject list" where
  "access_q key cid m =
     by_subject key as_subject
       (map (\<lambda>a. \<lparr>as_subject = ac_subject a, as_display_name = display_name_q (ac_subject a) m\<rparr>)
         (filter (\<lambda>a. ac_connection a = cid) (am_connection_access m)))"

definition get_access :: "('c, 'x) gui_context \<Rightarrow> uuid \<Rightarrow> (('c, 'x) gui_state, access_subject list) api" where
  "get_access ctx cid =
     io_bind (fetch_connection ctx cid) (\<lambda>_. db_read ctx (access_q (pg_sort_key (gc_pg ctx)) cid))"

definition subject_in_ok :: "subject \<Rightarrow> bool" where
  "subject_in_ok s \<longleftrightarrow> subject_ok s \<and> length (snd s) \<le> 200"

definition delete_access :: "uuid \<Rightarrow> subject \<Rightarrow> unit tx" where
  "delete_access cid s = bind_params [fst s, snd s] []
     (io_modify (\<lambda>m. m\<lparr>am_connection_access :=
        filter (\<lambda>a. \<not> (ac_connection a = cid \<and> ac_subject a = s)) (am_connection_access m)\<rparr>))"

definition insert_access :: "datetime \<Rightarrow> pystr \<Rightarrow> uuid \<Rightarrow> subject \<Rightarrow> unit tx" where
  "insert_access now by cid s = bind_params [fst s, snd s, by] [] (\<lambda>m.
     if cid \<notin> connection_ids m \<or> \<not> subject_ok s
        \<or> list_ex (\<lambda>a. ac_connection a = cid \<and> ac_subject a = s) (am_connection_access m)
     then (Inl integrity_error, m)
     else (Inr (), m\<lparr>am_connection_access := am_connection_access m @
            [\<lparr>ac_connection = cid, ac_subject = s, ac_granted_by = Some by, ac_granted_at = now\<rparr>]\<rparr>))"

definition subject_text :: "subject \<Rightarrow> pystr" where
  "subject_text s = fst s @ lit '':'' @ snd s"

definition sorted_texts :: "pystr list \<Rightarrow> json" where
  "sorted_texts ts = JList (map JStr (sort ts))"

definition set_access_tx :: "gui_user \<Rightarrow> uuid \<Rightarrow> pystr \<Rightarrow> subject list \<Rightarrow> datetime \<Rightarrow> unit tx" where
  "set_access_tx admin cid name wanted now =
     io_bind (io_gets (\<lambda>m. map ac_subject (filter (\<lambda>a. ac_connection a = cid) (am_connection_access m)))) (\<lambda>existing.
     let revoked = filter (\<lambda>s. s \<notin> set wanted) existing;
         granted = filter (\<lambda>s. s \<notin> set existing) wanted in
     io_then (io_each (delete_access cid) revoked)
     (io_then (io_each (insert_access now (gu_sub admin) cid) granted)
       (if revoked = [] \<and> granted = [] then io_return ()
        else log_change now admin (lit ''connection.access'') (lit ''connection'') (Some name)
               [(lit ''granted'', sorted_texts (map subject_text granted)),
                (lit ''revoked'', sorted_texts (map subject_text revoked))])))"

definition set_access ::
  "('c, 'x) gui_context \<Rightarrow> gui_user \<Rightarrow> uuid \<Rightarrow> subject list \<Rightarrow> (('c, 'x) gui_state, access_subject list) api" where
  "set_access ctx admin cid body =
     io_bind (fetch_connection ctx cid) (\<lambda>current.
     io_then
       (db_begin ctx (set_access_tx admin cid (cu_name current) (remdups body)))
     (io_then (announce ctx True False)
       (get_access ctx cid)))"

end
