(* ===== verification/AdminPermissions.thy ===== *)
theory AdminPermissions
  imports AdminConnections Permission
begin

text \<open>
  \<open>gui_backend/routers/permissions.py\<close>: the two grids of grants, which tables and which tools
  users and roles may use, and the subjects they are granted to.
\<close>

section \<open>Requests and answers\<close>

text \<open>\<open>TOOL_INFO\<close>, in the order of the grid.\<close>

definition TOOL_INFO :: "(pystr \<times> pystr) list" where
  "TOOL_INFO =
     [(lit ''list_connections'', lit ''See which databases exist for them''),
      (lit ''list_tables'', lit ''List the tables on a database''),
      (lit ''describe_table'', lit ''See a table'' @ [39] @ lit ''s columns and keys''),
      (lit ''search_schema'', lit ''Search table and column names and descriptions''),
      (lit ''get_relationships'', lit ''See how tables link to each other''),
      (lit ''run_query'', lit ''Run read-only SELECT queries and see the results''),
      (lit ''explain_query'', lit ''See how the database would run a query''),
      (lit ''get_sample_rows'', lit ''See example rows from a table'')]"

lemma tool_info_complete: "set (map fst TOOL_INFO) = TOOL_NAMES"
  by (auto simp: TOOL_INFO_def TOOL_NAMES_def)

record subject_out =
  so_subject :: subject
  so_display_name :: "pystr option"
  so_last_seen_at :: "datetime option"

record table_grant =
  tg_subject :: subject
  tg_table :: pystr

record tool_grant =
  og_subject :: subject
  og_tool :: pystr

record table_info_out =
  to_name :: pystr
  to_kind :: table_kind
  to_description :: pystr

record table_grid_out =
  gd_connection_id :: uuid
  gd_connection_name :: pystr
  gd_error :: "pystr option"
  gd_tables :: "table_info_out list"
  gd_subjects :: "subject_out list"
  gd_with_access :: "subject list"
  gd_grants :: "table_grant list"

text \<open>\<open>TableChanges\<close> and \<open>ToolChanges\<close>: the names to grant (\<open>True\<close>) or to revoke.\<close>

record table_changes =
  tc_connection_id :: uuid
  tc_subject :: subject
  tc_changes :: "(pystr \<times> bool) list"

record tool_changes =
  oc_subject :: subject
  oc_changes :: "(pystr \<times> bool) list"

definition table_changes_ok :: "table_changes \<Rightarrow> bool" where
  "table_changes_ok b \<longleftrightarrow>
     subject_in_ok (tc_subject b) \<and> list_all (\<lambda>(t, g). t \<noteq> [] \<and> length t \<le> 300) (tc_changes b)
     \<and> 1 \<le> length (tc_changes b) \<and> length (tc_changes b) \<le> 2000"

definition tool_changes_ok :: "tool_changes \<Rightarrow> bool" where
  "tool_changes_ok b \<longleftrightarrow>
     subject_in_ok (oc_subject b) \<and> 1 \<le> length (oc_changes b) \<and> length (oc_changes b) \<le> 50"

text \<open>\<open>sorted({... if granted})\<close> and \<open>sorted({... if not granted} - set(granted))\<close>.\<close>

definition granted_names :: "(pystr \<times> bool) list \<Rightarrow> pystr list" where
  "granted_names changes = sorted_strs (fst ` set (filter snd changes))"

definition revoked_names :: "(pystr \<times> bool) list \<Rightarrow> pystr list" where
  "revoked_names changes =
     sorted_strs (fst ` set (filter (\<lambda>c. \<not> snd c) changes) - set (granted_names changes))"

section \<open>Subjects\<close>

definition known_subject_q :: "subject \<Rightarrow> app_meta \<Rightarrow> subject_out" where
  "known_subject_q s m =
     (case find (\<lambda>k. kn_subject k = s) (am_known_subjects m) of
        None \<Rightarrow> \<lparr>so_subject = s, so_display_name = None, so_last_seen_at = None\<rparr>
      | Some k \<Rightarrow> \<lparr>so_subject = s, so_display_name = kn_display_name k, so_last_seen_at = Some (kn_last_seen_at k)\<rparr>)"

text \<open>\<open>_SUBJECTS\<close>: whoever has been seen or granted something.\<close>

definition all_subjects :: "app_meta \<Rightarrow> subject list" where
  "all_subjects m =
     remdups (map kn_subject (am_known_subjects m) @ map ac_subject (am_connection_access m)
              @ map tp_subject (am_table_permissions m) @ map tl_subject (am_tool_permissions m))"

definition subjects_q :: "'x pg \<Rightarrow> app_meta \<Rightarrow> subject_out list" where
  "subjects_q P m =
     sort_key (\<lambda>s. if fst (so_subject s) = lit ''user'' then (0 :: nat) else 1)
       (sort_key (\<lambda>s. pg_sort_key P (pg_lower P
                        (case so_display_name s of None \<Rightarrow> snd (so_subject s) | Some n \<Rightarrow> n)))
         (map (\<lambda>s. known_subject_q s m) (all_subjects m)))"

definition remember_subject :: "datetime \<Rightarrow> subject \<Rightarrow> unit tx" where
  "remember_subject now s = bind_params [fst s, snd s] [] (\<lambda>m.
     if \<not> subject_ok s then (Inl integrity_error, m)
     else if s \<in> kn_subject ` set (am_known_subjects m) then (Inr (), m)
     else (Inr (), m\<lparr>am_known_subjects := am_known_subjects m @
            [\<lparr>kn_subject = s, kn_display_name = None, kn_first_seen_at = now, kn_last_seen_at = now\<rparr>]\<rparr>))"

text \<open>The upsert of \<open>add_subject\<close>, which leaves \<open>last_seen_at\<close> alone.\<close>

fun name_known :: "datetime \<Rightarrow> subject \<Rightarrow> pystr option \<Rightarrow> known_subject_row list \<Rightarrow> known_subject_row list" where
  "name_known now s name [] =
     [\<lparr>kn_subject = s, kn_display_name = name, kn_first_seen_at = now, kn_last_seen_at = now\<rparr>]"
| "name_known now s name (r # rs) =
     (if kn_subject r = s then
        r\<lparr>kn_display_name := (case name of None \<Rightarrow> kn_display_name r | Some n \<Rightarrow> Some n)\<rparr> # rs
      else r # name_known now s name rs)"

definition upsert_subject :: "datetime \<Rightarrow> subject \<Rightarrow> pystr option \<Rightarrow> unit tx" where
  "upsert_subject now s name = bind_params ([fst s, snd s] @ opt_list name) [] (\<lambda>m.
     if \<not> subject_ok s then (Inl integrity_error, m)
     else (Inr (), m\<lparr>am_known_subjects := name_known now s name (am_known_subjects m)\<rparr>))"

definition json_opt :: "pystr option \<Rightarrow> json" where
  "json_opt v = (case v of None \<Rightarrow> JNull | Some s \<Rightarrow> JStr s)"

definition list_subjects :: "('c, 'x) gui_context \<Rightarrow> (('c, 'x) gui_state, subject_out list) api" where
  "list_subjects ctx = db_read ctx (subjects_q (gc_pg ctx))"

definition add_subject_tx :: "'x pg \<Rightarrow> gui_user \<Rightarrow> subject \<Rightarrow> pystr option \<Rightarrow> datetime \<Rightarrow> subject_out tx" where
  "add_subject_tx P admin s name now =
     io_then (upsert_subject now s name)
     (io_then (log_change now admin (lit ''subject.add'') (fst s) (Some (snd s)) [(lit ''name'', json_opt name)])
       (io_bind (io_gets (\<lambda>m. find (\<lambda>o1. so_subject o1 = s) (subjects_q P m))) (\<lambda>found.
         or_error (ServerError (py_error ''StopIteration'')) found)))"

definition add_subject ::
  "('c, 'x) gui_context \<Rightarrow> gui_user \<Rightarrow> subject \<Rightarrow> pystr option \<Rightarrow> (('c, 'x) gui_state, subject_out) api" where
  "add_subject ctx admin s name =
     db_begin ctx (add_subject_tx (gc_pg ctx) admin s name)"

section \<open>Table access\<close>

definition load_record :: "('c, 'x) gui_context \<Rightarrow> uuid \<Rightarrow> (('c, 'x) gui_state, connection_record) api" where
  "load_record ctx cid =
     io_bind (db_read ctx (\<lambda>m. map_option connection_of_row (find_connection cid m))) (or_error no_connection)"

text \<open>The target's tables, or why they cannot be read.\<close>

definition list_error :: "exn \<Rightarrow> pystr" where
  "list_error e =
     (case e of McpSqlError k msg \<Rightarrow> msg
      | OtherError t \<Rightarrow> lit ''Could not read the table list: '' @ t
      | BaseError t \<Rightarrow> t)"

definition live_tables ::
  "('c, 'x) gui_context \<Rightarrow> connection_record \<Rightarrow> (('c, 'x) gui_state, pystr + table_info list) api" where
  "live_tables ctx record =
     io_catch
       (io_bind (outside (io_bind (gc_registry ctx record) (\<lambda>a. ad_list_tables a))) (\<lambda>ts. io_return (Inr ts)))
       (\<lambda>e. if is_exception e then io_return (Inl (list_error e)) else io_raise (ServerError e))"

definition grants_q :: "(pystr \<Rightarrow> pystr) \<Rightarrow> uuid \<Rightarrow> app_meta \<Rightarrow> table_grant list" where
  "grants_q key cid m =
     sort_key (\<lambda>g. key (tg_table g))
       (sort_key (\<lambda>g. if fst (tg_subject g) = lit ''role'' then (0 :: nat) else 1)
         (sort_key (\<lambda>g. key (snd (tg_subject g)))
         (map (\<lambda>p. \<lparr>tg_subject = tp_subject p, tg_table = tp_table p\<rparr>)
           (filter (\<lambda>p. tp_connection p = cid) (am_table_permissions m)))))"

definition table_texts_q :: "(pystr \<Rightarrow> pystr) \<Rightarrow> uuid \<Rightarrow> app_meta \<Rightarrow> (pystr \<times> pystr) list" where
  "table_texts_q lower cid m =
     fold (\<lambda>r d. dict_set (lower (ds_table r)) (ds_description r) d)
       (filter (\<lambda>r. ds_connection r = cid \<and> ds_column r = None \<and> ds_description r \<noteq> []) (am_descriptions m)) []"

definition text_for :: "ucd \<Rightarrow> (pystr \<times> pystr) list \<Rightarrow> pystr \<Rightarrow> pystr" where
  "text_for U texts name = (case map_of texts (casefold U name) of None \<Rightarrow> [] | Some t \<Rightarrow> t)"

definition table_grid :: "('c, 'x) gui_context \<Rightarrow> uuid \<Rightarrow> (('c, 'x) gui_state, table_grid_out) api" where
  "table_grid ctx cid =
     io_bind (load_record ctx cid) (\<lambda>record.
     io_bind (db_read ctx (\<lambda>m. (table_texts_q (pg_lower (gc_pg ctx)) cid m, grants_q (pg_sort_key (gc_pg ctx)) cid m,
                map ac_subject (filter (\<lambda>a. ac_connection a = cid) (am_connection_access m)),
                subjects_q (gc_pg ctx) m))) (\<lambda>(texts, grants, with_access, subs).
     io_bind (live_tables ctx record) (\<lambda>live. io_return
       \<lparr>gd_connection_id = cid, gd_connection_name = cr_name record,
        gd_error = (case live of Inl e \<Rightarrow> Some e | Inr ts \<Rightarrow> None),
        gd_tables =
          (case live of
             Inr ts \<Rightarrow> map (\<lambda>t. \<lparr>to_name = ti_name t, to_kind = ti_kind t,
                                to_description = text_for (gc_ucd ctx) texts (ti_name t)\<rparr>) ts
           | Inl e \<Rightarrow> map (\<lambda>n. \<lparr>to_name = n, to_kind = KTable, to_description = text_for (gc_ucd ctx) texts n\<rparr>)
                       (sorted_strs (set (map tg_table grants)))),
        gd_subjects = subs, gd_with_access = with_access, gd_grants = grants\<rparr>)))"

text \<open>\<open>INSERT ... ON CONFLICT DO NOTHING\<close> and \<open>DELETE\<close> on \<open>table_permissions\<close>.\<close>

definition grant_table :: "datetime \<Rightarrow> pystr \<Rightarrow> uuid \<Rightarrow> subject \<Rightarrow> pystr \<Rightarrow> unit tx" where
  "grant_table now by cid s table = bind_params [fst s, snd s, table, by] [] (\<lambda>m.
     if cid \<notin> connection_ids m \<or> \<not> subject_ok s \<or> table = [] then (Inl integrity_error, m)
     else if list_ex (\<lambda>p. tp_connection p = cid \<and> tp_subject p = s \<and> tp_table p = table) (am_table_permissions m)
     then (Inr (), m)
     else (Inr (), m\<lparr>am_table_permissions := am_table_permissions m @
            [\<lparr>tp_connection = cid, tp_subject = s, tp_table = table, tp_granted_by = Some by, tp_granted_at = now\<rparr>]\<rparr>))"

definition revoke_table :: "uuid \<Rightarrow> subject \<Rightarrow> pystr \<Rightarrow> unit tx" where
  "revoke_table cid s table = bind_params [fst s, snd s, table] []
     (io_modify (\<lambda>m. m\<lparr>am_table_permissions := filter
        (\<lambda>p. \<not> (tp_connection p = cid \<and> tp_subject p = s \<and> tp_table p = table)) (am_table_permissions m)\<rparr>))"

definition change_tables_tx ::
  "'x pg \<Rightarrow> gui_user \<Rightarrow> uuid \<Rightarrow> pystr \<Rightarrow> subject \<Rightarrow> pystr list \<Rightarrow> pystr list \<Rightarrow> datetime \<Rightarrow> table_grant list tx" where
  "change_tables_tx P admin cid name s granted revoked now =
     io_then (remember_subject now s)
     (io_then (io_each (grant_table now (gu_sub admin) cid s) granted)
     (io_then (io_each (revoke_table cid s) revoked)
     (io_then
        (log_change now admin (lit ''permission.tables'') (lit ''connection'') (Some name)
           [(lit ''subject'', JStr (subject_text s)), (lit ''granted'', JList (map JStr granted)),
            (lit ''revoked'', JList (map JStr revoked))])
        (io_gets (\<lambda>m. filter (\<lambda>g. tg_subject g = s) (grants_q (pg_sort_key P) cid m))))))"

definition change_table_access ::
  "('c, 'x) gui_context \<Rightarrow> gui_user \<Rightarrow> table_changes \<Rightarrow> (('c, 'x) gui_state, table_grant list) api" where
  "change_table_access ctx admin body =
     io_bind (load_record ctx (tc_connection_id body)) (\<lambda>record.
     io_bind
       (db_begin ctx (change_tables_tx (gc_pg ctx) admin (tc_connection_id body) (cr_name record) (tc_subject body)
          (granted_names (tc_changes body)) (revoked_names (tc_changes body))))
       (\<lambda>now_granted. io_then (announce ctx True False) (io_return now_granted)))"

section \<open>Tool access\<close>

definition tool_grants_q :: "app_meta \<Rightarrow> tool_grant list" where
  "tool_grants_q m = map (\<lambda>p. \<lparr>og_subject = tl_subject p, og_tool = tl_tool p\<rparr>) (am_tool_permissions m)"

definition tool_grid ::
  "('c, 'x) gui_context \<Rightarrow> (('c, 'x) gui_state, (pystr \<times> pystr) list \<times> subject_out list \<times> tool_grant list) api" where
  "tool_grid ctx =
     io_bind (db_read ctx (\<lambda>m. (tool_grants_q m, subjects_q (gc_pg ctx) m))) (\<lambda>(grants, subs).
       io_return (TOOL_INFO, subs, grants))"

definition grant_tool :: "datetime \<Rightarrow> pystr \<Rightarrow> subject \<Rightarrow> pystr \<Rightarrow> unit tx" where
  "grant_tool now by s tool = bind_params [fst s, snd s, tool, by] [] (\<lambda>m.
     if \<not> subject_ok s \<or> tool = [] then (Inl integrity_error, m)
     else if list_ex (\<lambda>p. tl_subject p = s \<and> tl_tool p = tool) (am_tool_permissions m) then (Inr (), m)
     else (Inr (), m\<lparr>am_tool_permissions := am_tool_permissions m @
            [\<lparr>tl_subject = s, tl_tool = tool, tl_granted_by = Some by, tl_granted_at = now\<rparr>]\<rparr>))"

definition revoke_tool :: "subject \<Rightarrow> pystr \<Rightarrow> unit tx" where
  "revoke_tool s tool = bind_params [fst s, snd s, tool] []
     (io_modify (\<lambda>m. m\<lparr>am_tool_permissions :=
        filter (\<lambda>p. \<not> (tl_subject p = s \<and> tl_tool p = tool)) (am_tool_permissions m)\<rparr>))"

definition change_tools_tx ::
  "'x pg \<Rightarrow> gui_user \<Rightarrow> subject \<Rightarrow> pystr list \<Rightarrow> pystr list \<Rightarrow> datetime \<Rightarrow> tool_grant list tx" where
  "change_tools_tx P admin s granted revoked now =
     io_then (remember_subject now s)
     (io_then (io_each (grant_tool now (gu_sub admin) s) granted)
     (io_then (io_each (revoke_tool s) revoked)
     (io_then
        (log_change now admin (lit ''permission.tools'') (fst s) (Some (snd s))
           [(lit ''granted'', JList (map JStr granted)), (lit ''revoked'', JList (map JStr revoked))])
        (io_gets (\<lambda>m. sort_key (\<lambda>g. pg_sort_key P (og_tool g)) (filter (\<lambda>g. og_subject g = s) (tool_grants_q m)))))))"

definition change_tool_access ::
  "('c, 'x) gui_context \<Rightarrow> gui_user \<Rightarrow> tool_changes \<Rightarrow> (('c, 'x) gui_state, tool_grant list) api" where
  "change_tool_access ctx admin body =
     (let unknown = sorted_strs (set (map fst (oc_changes body)) - TOOL_NAMES) in
      io_then (io_guard (unknown = []) (HttpError 422 (lit ''Unknown tool: '' @ join (lit '', '') unknown @ lit ''.'')))
      (io_bind
         (db_begin ctx (change_tools_tx (gc_pg ctx) admin (oc_subject body)
            (granted_names (oc_changes body)) (revoked_names (oc_changes body))))
         (\<lambda>now_granted. io_then (announce ctx True False) (io_return now_granted))))"

end
