(* ===== verification/AdminSchema.thy ===== *)
theory AdminSchema
  imports AdminPermissions Sanitizer
begin

text \<open>
  \<open>gui_backend/routers/schema.py\<close>: the editor of the descriptions the AI reads.  Structure comes
  from the target database, the text from \<open>schema_descriptions\<close>; text the MCP server would
  withhold is saved and reported as such.
\<close>

record table_row =
  tr_name :: pystr
  tr_kind :: table_kind
  tr_description :: pystr
  tr_described_columns :: nat
  tr_missing :: bool

record table_list_out =
  tlo_connection_id :: uuid
  tlo_connection_name :: pystr
  tlo_error :: "pystr option"
  tlo_tables :: "table_row list"

text \<open>What \<open>written\<close> returns: text, when and by whom it was written, the rule that withholds it.\<close>

record written_text =
  wt_description :: pystr
  wt_updated_at :: "datetime option"
  wt_updated_by :: "pystr option"
  wt_withheld_rule :: "pystr option"

record column_row =
  cl_name :: pystr
  cl_type :: pystr
  cl_nullable :: bool
  cl_primary_key :: bool
  cl_db_comment :: "pystr option"
  cl_written :: written_text

record table_detail_out =
  tdo_connection_id :: uuid
  tdo_name :: pystr
  tdo_kind :: table_kind
  tdo_db_comment :: "pystr option"
  tdo_written :: written_text
  tdo_columns :: "column_row list"
  tdo_foreign_keys :: "(pystr list \<times> pystr \<times> pystr list) list"

record description_in =
  di_connection_id :: uuid
  di_table :: pystr
  di_column :: "pystr option"
  di_description :: pystr

definition description_in_ok :: "description_in \<Rightarrow> bool" where
  "description_in_ok b \<longleftrightarrow>
     di_table b \<noteq> [] \<and> length (di_table b) \<le> 300
     \<and> (case di_column b of None \<Rightarrow> True | Some c \<Rightarrow> c \<noteq> [] \<and> length c \<le> 300)
     \<and> length (di_description b) \<le> 2000"

record description_out =
  do_table :: pystr
  do_column :: "pystr option"
  do_written :: written_text

text \<open>\<open>withheld_rule\<close>: the sanitizer with its default cell limit, and the first flag it raises.\<close>

definition DEFAULT_MAX_CELL :: nat where
  "DEFAULT_MAX_CELL = 2000"

definition withheld_rule :: "ucd \<Rightarrow> pystr \<Rightarrow> pystr option" where
  "withheld_rule U description =
     (case snd (clean_text U DEFAULT_MAX_CELL description (lit ''description'') []) of
        [] \<Rightarrow> None | f # fs \<Rightarrow> Some (sf_rule f))"

section \<open>The list of tables\<close>

record described_row =
  dr_table :: pystr
  dr_description :: "pystr option"
  dr_columns :: nat

definition distinct_tables :: "uuid \<Rightarrow> app_meta \<Rightarrow> pystr list" where
  "distinct_tables cid m = remdups (map ds_table (filter (\<lambda>r. ds_connection r = cid) (am_descriptions m)))"

text \<open>\<open>GROUP BY table_name\<close>; a table has at most one row without a column.\<close>

definition described_q :: "uuid \<Rightarrow> app_meta \<Rightarrow> described_row list" where
  "described_q cid m =
     map (\<lambda>t.
       \<lparr>dr_table = t,
        dr_description = map_option ds_description
          (find (\<lambda>r. ds_connection r = cid \<and> ds_table r = t \<and> ds_column r = None) (am_descriptions m)),
        dr_columns = length (filter (\<lambda>r. ds_connection r = cid \<and> ds_table r = t \<and> ds_column r \<noteq> None
                                      \<and> ds_description r \<noteq> []) (am_descriptions m))\<rparr>)
       (distinct_tables cid m)"

text \<open>\<open>row.description or ""\<close>, and the dict keyed by the case-folded names (the last one wins).\<close>

definition row_text :: "described_row \<Rightarrow> pystr" where
  "row_text r = (case dr_description r of None \<Rightarrow> [] | Some t \<Rightarrow> t)"

definition by_fold :: "ucd \<Rightarrow> described_row list \<Rightarrow> (pystr \<times> described_row) list" where
  "by_fold U rows = fold (\<lambda>r d. dict_set (casefold U (dr_table r)) r d) rows []"

definition described_only :: "bool \<Rightarrow> described_row \<Rightarrow> table_row" where
  "described_only missing r =
     \<lparr>tr_name = dr_table r, tr_kind = KTable, tr_description = row_text r,
      tr_described_columns = dr_columns r, tr_missing = missing\<rparr>"

definition live_row :: "ucd \<Rightarrow> described_row list \<Rightarrow> table_info \<Rightarrow> table_row" where
  "live_row U rows t =
     (case map_of (by_fold U rows) (casefold U (ti_name t)) of
        None \<Rightarrow> \<lparr>tr_name = ti_name t, tr_kind = ti_kind t, tr_description = [], tr_described_columns = 0, tr_missing = False\<rparr>
      | Some r \<Rightarrow> \<lparr>tr_name = ti_name t, tr_kind = ti_kind t, tr_description = row_text r,
                   tr_described_columns = dr_columns r, tr_missing = False\<rparr>)"

definition table_rows :: "ucd \<Rightarrow> described_row list \<Rightarrow> pystr + table_info list \<Rightarrow> table_row list" where
  "table_rows U rows live =
     sort_key (\<lambda>r. casefold U (tr_name r))
       (case live of
          Inl e \<Rightarrow> map (described_only False) rows
        | Inr ts \<Rightarrow>
            map (live_row U rows) ts
            @ map (described_only True)
                (filter (\<lambda>r. casefold U (dr_table r) \<notin> set (map (\<lambda>t. casefold U (ti_name t)) ts)) rows))"

definition schema_list_tables :: "('c, 'x) gui_context \<Rightarrow> uuid \<Rightarrow> (('c, 'x) gui_state, table_list_out) api" where
  "schema_list_tables ctx cid =
     io_bind (load_record ctx cid) (\<lambda>record.
     io_bind (db_read ctx (described_q cid)) (\<lambda>rows.
     io_bind (live_tables ctx record) (\<lambda>live. io_return
       \<lparr>tlo_connection_id = cid, tlo_connection_name = cr_name record,
        tlo_error = (case live of Inl e \<Rightarrow> Some e | Inr ts \<Rightarrow> None),
        tlo_tables = table_rows (gc_ucd ctx) rows live\<rparr>)))"

section \<open>One table\<close>

text \<open>\<open>adapter_for\<close> and \<open>describe_table\<close>, with the errors the editor reports.\<close>

definition describe_failure :: "pystr \<Rightarrow> pystr \<Rightarrow> exn \<Rightarrow> api_error" where
  "describe_failure table connection e =
     (case e of
        McpSqlError k msg \<Rightarrow>
          (if k = TableNotFound
           then HttpError 404 (quoted table @ lit '' is not a table on '' @ connection @ lit ''.'')
           else HttpError 502 msg)
      | _ \<Rightarrow> ServerError e)"

definition describe_live ::
  "('c, 'x) gui_context \<Rightarrow> connection_record \<Rightarrow> pystr \<Rightarrow> (('c, 'x) gui_state, table_description) api" where
  "describe_live ctx record table =
     io_catch (outside (io_bind (gc_registry ctx record) (\<lambda>a. ad_describe_table a table)))
       (\<lambda>e. io_raise (describe_failure table (cr_name record) e))"

text \<open>\<open>lower(table_name) = lower(:table)\<close>.\<close>

definition rows_for_table :: "(pystr \<Rightarrow> pystr) \<Rightarrow> uuid \<Rightarrow> pystr \<Rightarrow> app_meta \<Rightarrow> description_row list" where
  "rows_for_table lower cid table m =
     filter (\<lambda>r. ds_connection r = cid \<and> lower (ds_table r) = lower table) (am_descriptions m)"

definition curated_rows :: "ucd \<Rightarrow> description_row list \<Rightarrow> (pystr \<times> description_row) list" where
  "curated_rows U rows =
     fold (\<lambda>r d. dict_set (casefold U (case ds_column r of None \<Rightarrow> [] | Some c \<Rightarrow> c)) r d) rows []"

definition written :: "ucd \<Rightarrow> (pystr \<times> description_row) list \<Rightarrow> pystr \<Rightarrow> written_text" where
  "written U curated column =
     (case map_of curated (casefold U column) of
        None \<Rightarrow> \<lparr>wt_description = [], wt_updated_at = None, wt_updated_by = None, wt_withheld_rule = None\<rparr>
      | Some r \<Rightarrow> \<lparr>wt_description = ds_description r, wt_updated_at = Some (ds_updated_at r),
                   wt_updated_by = ds_updated_by r, wt_withheld_rule = withheld_rule U (ds_description r)\<rparr>)"

definition schema_get_table ::
  "('c, 'x) gui_context \<Rightarrow> uuid \<Rightarrow> pystr \<Rightarrow> (('c, 'x) gui_state, table_detail_out) api" where
  "schema_get_table ctx cid table =
     io_bind (load_record ctx cid) (\<lambda>record.
     io_bind (describe_live ctx record table) (\<lambda>described.
     io_bind (db_read ctx (rows_for_table (pg_lower (gc_pg ctx)) cid (td_name described))) (\<lambda>rows.
     let curated = curated_rows (gc_ucd ctx) rows in
     io_return
       \<lparr>tdo_connection_id = cid, tdo_name = td_name described, tdo_kind = td_kind described,
        tdo_db_comment = td_comment described, tdo_written = written (gc_ucd ctx) curated [],
        tdo_columns = map (\<lambda>c.
          \<lparr>cl_name = ci_name c, cl_type = ci_type c, cl_nullable = ci_nullable c,
           cl_primary_key = ci_primary_key c, cl_db_comment = ci_comment c,
           cl_written = written (gc_ucd ctx) curated (ci_name c)\<rparr>) (td_columns described),
        tdo_foreign_keys = map (\<lambda>k. (rel_columns k, rel_to_table k, rel_to_columns k)) (td_foreign_keys described)\<rparr>)))"

section \<open>Writing a description\<close>

text \<open>The column as the database names it, if the request names one.\<close>

definition column_of ::
  "ucd \<Rightarrow> table_description \<Rightarrow> pystr option \<Rightarrow> api_error + pystr option" where
  "column_of U described column =
     (case column of
        None \<Rightarrow> Inr None
      | Some c \<Rightarrow>
          (case find (\<lambda>i. casefold U (ci_name i) = casefold U c) (td_columns described) of
             None \<Rightarrow> Inl (HttpError 404 (quoted (td_name described) @ lit '' has no column '' @ quoted c @ lit ''.''))
           | Some i \<Rightarrow> Inr (Some (ci_name i))))"

text \<open>\<open>INSERT ... ON CONFLICT (connection_id, table_name, column_name) DO UPDATE\<close>, with its trigger.\<close>

definition same_place :: "uuid \<Rightarrow> pystr \<Rightarrow> pystr option \<Rightarrow> description_row \<Rightarrow> bool" where
  "same_place cid table column r \<longleftrightarrow> ds_connection r = cid \<and> ds_table r = table \<and> ds_column r = column"

definition upsert_description ::
  "datetime \<Rightarrow> pystr \<Rightarrow> uuid \<Rightarrow> pystr \<Rightarrow> pystr option \<Rightarrow> pystr \<Rightarrow> unit tx" where
  "upsert_description now by cid table column description =
     bind_params ([table, description, by] @ opt_list column) [] (\<lambda>m.
       if cid \<notin> connection_ids m \<or> table = [] \<or> column = Some [] then (Inl integrity_error, m)
       else if list_ex (same_place cid table column) (am_descriptions m) then
         (Inr (), m\<lparr>am_descriptions := map (\<lambda>r. if same_place cid table column r
             then r\<lparr>ds_description := description, ds_updated_by := Some by, ds_updated_at := now\<rparr> else r)
             (am_descriptions m)\<rparr>)
       else
         (Inr (), m\<lparr>am_descriptions := am_descriptions m @
             [\<lparr>ds_id = am_next_description m, ds_connection = cid, ds_table = table, ds_column = column,
               ds_description = description, ds_updated_by = Some by, ds_created_at = now, ds_updated_at = now\<rparr>],
            am_next_description := am_next_description m + 1\<rparr>))"

definition description_target :: "pystr \<Rightarrow> pystr \<Rightarrow> pystr option \<Rightarrow> pystr" where
  "description_target connection table column =
     connection @ lit ''.'' @ table @ (case column of None \<Rightarrow> [] | Some c \<Rightarrow> (if c = [] then [] else lit ''.'' @ c))"

definition author :: "gui_user \<Rightarrow> pystr" where
  "author u = (case gu_name u of Some (c # cs) \<Rightarrow> c # cs | _ \<Rightarrow> gu_sub u)"

definition set_description_tx ::
  "gui_user \<Rightarrow> uuid \<Rightarrow> pystr \<Rightarrow> pystr \<Rightarrow> pystr option \<Rightarrow> pystr \<Rightarrow> datetime \<Rightarrow> datetime tx" where
  "set_description_tx admin cid connection table column description now =
     io_then (upsert_description now (author admin) cid table column description)
     (io_then
        (log_change now admin (lit ''schema.describe'') (lit ''description'')
           (Some (description_target connection table column))
           [(lit ''description'', if description = [] then JNull else JStr (take 500 description)),
            (lit ''cleared'', JBool (description = []))])
        (io_return now))"

definition set_description ::
  "('c, 'x) gui_context \<Rightarrow> gui_user \<Rightarrow> description_in \<Rightarrow> (('c, 'x) gui_state, description_out) api" where
  "set_description ctx admin body =
     io_bind (load_record ctx (di_connection_id body)) (\<lambda>record.
     io_bind (describe_live ctx record (di_table body)) (\<lambda>described.
     io_bind (io_lift (column_of (gc_ucd ctx) described (di_column body))) (\<lambda>column.
     let description = strip (di_description body) in
     io_bind
       (db_begin ctx (set_description_tx admin (di_connection_id body) (cr_name record) (td_name described) column description))
       (\<lambda>now. io_then (announce ctx True False) (io_return
          \<lparr>do_table = td_name described, do_column = column,
           do_written = \<lparr>wt_description = description, wt_updated_at = Some now, wt_updated_by = Some (author admin),
                         wt_withheld_rule = withheld_rule (gc_ucd ctx) description\<rparr>\<rparr>)))))"

definition delete_descriptions_tx ::
  "(pystr \<Rightarrow> pystr) \<Rightarrow> gui_user \<Rightarrow> uuid \<Rightarrow> pystr \<Rightarrow> pystr \<Rightarrow> datetime \<Rightarrow> unit tx" where
  "delete_descriptions_tx lower admin cid connection table now =
     io_bind (bind_params [table] [] (io_gets (\<lambda>m. length (rows_for_table lower cid table m)))) (\<lambda>removed.
     io_then
       (io_modify (\<lambda>m. m\<lparr>am_descriptions := filter
          (\<lambda>r. \<not> (ds_connection r = cid \<and> lower (ds_table r) = lower table)) (am_descriptions m)\<rparr>))
     (io_then
       (io_guard (removed \<noteq> 0)
         (HttpError 404 (lit ''No descriptions are stored for '' @ quoted table @ lit ''.'')))
       (log_change now admin (lit ''schema.clear'') (lit ''description'')
          (Some (connection @ lit ''.'' @ table)) [(lit ''removed'', JInt (int removed))])))"

definition delete_descriptions ::
  "('c, 'x) gui_context \<Rightarrow> gui_user \<Rightarrow> uuid \<Rightarrow> pystr \<Rightarrow> (('c, 'x) gui_state, unit) api" where
  "delete_descriptions ctx admin cid table =
     io_bind (load_record ctx cid) (\<lambda>record.
     io_then
       (db_begin ctx (delete_descriptions_tx (pg_lower (gc_pg ctx)) admin cid (cr_name record) table))
       (announce ctx True False))"

end
