(* ===== verification/AdminReports.thy ===== *)
theory AdminReports
  imports AdminConnections Validator
begin

text \<open>
  \<open>gui_backend/routers/reports.py\<close>: saved reports.  A report's SQL must be a query the MCP
  server's validator accepts for the connection's engine.
\<close>

record report_in =
  ri_name :: pystr
  ri_description :: pystr
  ri_connection_id :: uuid
  ri_sql :: pystr
  ri_chart_config :: "(pystr \<times> json) list"

definition report_in_ok :: "report_in \<Rightarrow> bool" where
  "report_in_ok b \<longleftrightarrow>
     ri_name b \<noteq> [] \<and> length (ri_name b) \<le> 200 \<and> length (ri_description b) \<le> 2000
     \<and> ri_sql b \<noteq> [] \<and> length (ri_sql b) \<le> 20000"

record report_out =
  ro_row :: report_row
  ro_connection_name :: pystr
  ro_owner_name :: "pystr option"

definition REPORT_MAX_SQL :: nat where
  "REPORT_MAX_SQL = 20000"

text \<open>\<open>_SELECT\<close>: the join with the connection drops a report without one (there is none).\<close>

definition report_out_of :: "app_meta \<Rightarrow> report_row \<Rightarrow> report_out option" where
  "report_out_of m r =
     map_option (\<lambda>c. \<lparr>ro_row = r, ro_connection_name = cn_name c,
                     ro_owner_name = display_name_q (lit ''user'', rp_owner_sub r) m\<rparr>)
       (find_connection (rp_connection r) m)"

definition report_q :: "uuid \<Rightarrow> app_meta \<Rightarrow> report_out option" where
  "report_q rid m = Option.bind (find (\<lambda>r. rp_id r = rid) (am_reports m)) (report_out_of m)"

definition no_report :: api_error where
  "no_report = HttpError 404 (lit ''That report doesn'' @ [39] @ lit ''t exist.'')"

definition fetch_report :: "('c, 'x) gui_context \<Rightarrow> uuid \<Rightarrow> (('c, 'x) gui_state, report_out) api" where
  "fetch_report ctx rid = io_bind (db_read ctx (report_q rid)) (or_error no_report)"

text \<open>\<open>_check_sql\<close>.\<close>

definition refused_sql :: "exn \<Rightarrow> api_error" where
  "refused_sql e =
     (case e of
        McpSqlError k msg \<Rightarrow>
          (if k = QueryRejected then HttpError 422 (lit ''This isn'' @ [39] @ lit ''t a read-only query: '' @ msg)
           else ServerError e)
      | _ \<Rightarrow> ServerError e)"

definition check_sql ::
  "('c, 'x) gui_context \<Rightarrow> 'q sqlglot \<Rightarrow> uuid \<Rightarrow> pystr \<Rightarrow> (('c, 'x) gui_state, unit) api" where
  "check_sql ctx G cid sql =
     io_bind (db_read ctx (\<lambda>m. map_option cn_engine (find_connection cid m))) (\<lambda>engine.
       case engine of
         None \<Rightarrow> io_raise (HttpError 422 (lit ''That connection doesn'' @ [39] @ lit ''t exist.''))
       | Some e \<Rightarrow>
           (case validate (gc_ucd ctx) G REPORT_MAX_SQL sql e None of
              Inl err \<Rightarrow> io_raise (refused_sql err)
            | Inr vq \<Rightarrow> io_return ()))"

text \<open>\<open>name ILIKE :q\<close> for \<open>q\<close> between wildcards, with what is special in it escaped: containment.\<close>

definition matches_text :: "(pystr \<Rightarrow> pystr) \<Rightarrow> pystr \<Rightarrow> pystr \<Rightarrow> bool" where
  "matches_text lower q s \<longleftrightarrow> contains (lower q) (lower s)"

definition given :: "pystr option \<Rightarrow> bool" where
  "given q \<longleftrightarrow> (case q of None \<Rightarrow> False | Some s \<Rightarrow> s \<noteq> [])"

definition list_reports ::
  "('c, 'x) gui_context \<Rightarrow> pystr option \<Rightarrow> uuid option \<Rightarrow> (('c, 'x) gui_state, report_out list) api" where
  "list_reports ctx q cid =
     io_then (io_guard (list_all storable (opt_list q)) (ServerError (py_error ''DBAPIError'')))
       (db_read ctx (\<lambda>m.
          List.map_filter (report_out_of m)
            (sort_key (\<lambda>r. - rp_updated_at r)
              (filter (\<lambda>r.
                 (given q \<longrightarrow> matches_text (pg_lower (gc_pg ctx)) (the q) (rp_name r)
                             \<or> matches_text (pg_lower (gc_pg ctx)) (the q) (rp_description r))
                 \<and> (cid \<noteq> None \<longrightarrow> rp_connection r = the cid)) (am_reports m)))))"

definition insert_report :: "report_row \<Rightarrow> unit tx" where
  "insert_report r =
     bind_params [rp_name r, rp_description r, rp_sql r, rp_owner_sub r] [rp_chart_config r] (\<lambda>m.
       if rp_id r \<in> rp_id ` set (am_reports m) \<or> rp_name r = [] \<or> rp_connection r \<notin> connection_ids m
       then (Inl integrity_error, m)
       else (Inr (), m\<lparr>am_reports := am_reports m @ [r]\<rparr>))"

definition create_report_tx :: "gui_user \<Rightarrow> report_in \<Rightarrow> uuid \<Rightarrow> datetime \<Rightarrow> unit tx" where
  "create_report_tx admin body new_id now =
     io_then
       (insert_report
          \<lparr>rp_id = new_id, rp_name = ri_name body, rp_description = ri_description body,
           rp_connection = ri_connection_id body, rp_sql = ri_sql body,
           rp_chart_config = ri_chart_config body, rp_owner_sub = gu_sub admin,
           rp_created_at = now, rp_updated_at = now\<rparr>)
       (log_change now admin (lit ''report.create'') (lit ''report'') (Some (ri_name body))
          [(lit ''id'', JStr new_id)])"

definition create_report ::
  "('c, 'x) gui_context \<Rightarrow> 'q sqlglot \<Rightarrow> gui_user \<Rightarrow> report_in \<Rightarrow> (('c, 'x) gui_state, report_out) api" where
  "create_report ctx G admin body =
     io_then (check_sql ctx G (ri_connection_id body) (ri_sql body))
     (io_bind (gets_outside (gc_new_id ctx)) (\<lambda>new_id.
      io_then
        (db_begin ctx (create_report_tx admin body new_id))
        (fetch_report ctx new_id)))"

definition report_changes :: "report_out \<Rightarrow> report_in \<Rightarrow> pystr list" where
  "report_changes current body =
     (if rp_name (ro_row current) \<noteq> ri_name body then [lit ''name''] else [])
     @ (if rp_description (ro_row current) \<noteq> ri_description body then [lit ''description''] else [])
     @ (if rp_connection (ro_row current) \<noteq> ri_connection_id body then [lit ''connection''] else [])
     @ (if rp_sql (ro_row current) \<noteq> ri_sql body then [lit ''sql''] else [])
     @ (if \<not> dict_eq True (rp_chart_config (ro_row current)) (ri_chart_config body)
        then [lit ''chart_config''] else [])"

text \<open>\<open>UPDATE saved_reports\<close>; its trigger moves \<open>updated_at\<close> whatever changed.\<close>

definition update_report_row :: "datetime \<Rightarrow> uuid \<Rightarrow> report_in \<Rightarrow> unit tx" where
  "update_report_row now rid body =
     bind_params [ri_name body, ri_description body, ri_sql body] [ri_chart_config body] (\<lambda>m.
       if rid \<in> rp_id ` set (am_reports m)
          \<and> (ri_name body = [] \<or> ri_connection_id body \<notin> connection_ids m)
       then (Inl integrity_error, m)
       else (Inr (), m\<lparr>am_reports := map (\<lambda>r. if rp_id r = rid
           then r\<lparr>rp_name := ri_name body, rp_description := ri_description body,
                  rp_connection := ri_connection_id body, rp_sql := ri_sql body,
                  rp_chart_config := ri_chart_config body, rp_updated_at := now\<rparr> else r) (am_reports m)\<rparr>))"

definition update_report_tx :: "gui_user \<Rightarrow> uuid \<Rightarrow> report_in \<Rightarrow> report_out \<Rightarrow> datetime \<Rightarrow> unit tx" where
  "update_report_tx admin rid body current now =
     io_then (update_report_row now rid body)
       (let changed = report_changes current body in
        if changed = [] then io_return ()
        else log_change now admin (lit ''report.update'') (lit ''report'') (Some (ri_name body))
               [(lit ''changed'', JList (map JStr changed))])"

definition update_report ::
  "('c, 'x) gui_context \<Rightarrow> 'q sqlglot \<Rightarrow> gui_user \<Rightarrow> uuid \<Rightarrow> report_in \<Rightarrow> (('c, 'x) gui_state, report_out) api" where
  "update_report ctx G admin rid body =
     io_bind (fetch_report ctx rid) (\<lambda>current.
     io_then (check_sql ctx G (ri_connection_id body) (ri_sql body))
     (io_then
        (db_begin ctx (update_report_tx admin rid body current))
        (fetch_report ctx rid)))"

definition delete_report_tx :: "gui_user \<Rightarrow> uuid \<Rightarrow> report_out \<Rightarrow> datetime \<Rightarrow> unit tx" where
  "delete_report_tx admin rid current now =
     io_then (io_modify (\<lambda>m. m\<lparr>am_reports := filter (\<lambda>r. rp_id r \<noteq> rid) (am_reports m)\<rparr>))
       (log_change now admin (lit ''report.delete'') (lit ''report'') (Some (rp_name (ro_row current))) [])"

definition delete_report :: "('c, 'x) gui_context \<Rightarrow> gui_user \<Rightarrow> uuid \<Rightarrow> (('c, 'x) gui_state, unit) api" where
  "delete_report ctx admin rid =
     io_bind (fetch_report ctx rid) (\<lambda>current.
       db_begin ctx (delete_report_tx admin rid current))"

end
