(* ===== verification/AdminAudit.thy ===== *)
theory AdminAudit
  imports AdminReports
begin

text \<open>
  \<open>gui_backend/routers/audit.py\<close>: the pages of the audit log and of the admin log.  What the
  server computes on a row's JSON (\<open>arguments::text\<close>) is a parameter; the rest of each query
  is written out.
\<close>

definition SQL_PREVIEW_CHARS :: nat where
  "SQL_PREVIEW_CHARS = 240"

text \<open>What a log can be sorted by.\<close>

datatype sort_field = SOccurredAt | SCaller | STool | SConnection | SDuration | SRows | SStatus

record audit_filter =
  af_user :: "pystr option"
  af_tool :: "pystr option"
  af_connection :: "pystr option"
  af_table :: "pystr option"
  af_success :: "bool option"
  af_date_from :: "datetime option"
  af_date_to :: "datetime option"
  af_q :: "pystr option"

record audit_item =
  ai_id :: nat
  ai_occurred_at :: datetime
  ai_caller_sub :: pystr
  ai_caller_name :: "pystr option"
  ai_tool_name :: pystr
  ai_connection_name :: "pystr option"
  ai_tables :: "pystr list"
  ai_sql_preview :: "pystr option"
  ai_sql_truncated :: bool
  ai_success :: bool
  ai_error_preview :: "pystr option"
  ai_row_count :: "int option"
  ai_duration_ms :: int

record audit_detail =
  ad_item :: audit_item
  ad_arguments :: "(pystr \<times> json) list"
  ad_sql :: "pystr option"
  ad_result_summary :: "pystr option"
  ad_error_message :: "pystr option"

record 'i page_of =
  pg_items :: "'i list"
  pg_total :: nat
  pg_page :: int
  pg_page_size :: int

text \<open>\<open>arguments->>'sql'\<close>: a string as it is, another value as its text.\<close>

definition arg_sql :: "(json \<Rightarrow> pystr) \<Rightarrow> audit_entry \<Rightarrow> pystr option" where
  "arg_sql R e =
     (case map_of (ae_arguments e) (lit ''sql'') of
        None \<Rightarrow> None | Some JNull \<Rightarrow> None | Some (JStr s) \<Rightarrow> Some s | Some v \<Rightarrow> Some (R v))"

definition audit_item_of :: "(json \<Rightarrow> pystr) \<Rightarrow> audit_row \<Rightarrow> audit_item" where
  "audit_item_of R r =
     (let e = au_entry r; sql = arg_sql R e in
      \<lparr>ai_id = au_id r, ai_occurred_at = au_occurred_at r, ai_caller_sub = ae_caller_sub e,
       ai_caller_name = ae_caller_name e, ai_tool_name = ae_tool_name e,
       ai_connection_name = ae_connection_name e, ai_tables = ae_tables e,
       ai_sql_preview = map_option (take SQL_PREVIEW_CHARS) sql,
       ai_sql_truncated = (SQL_PREVIEW_CHARS < (case sql of None \<Rightarrow> 0 | Some s \<Rightarrow> length s)),
       ai_success = ae_success e, ai_error_preview = map_option (take 200) (ae_error_message e),
       ai_row_count = ae_row_count e, ai_duration_ms = ae_duration_ms e\<rparr>)"

text \<open>An optional filter: absent or empty is no clause; a \<open>NULL\<close> column satisfies none.\<close>

definition when_given :: "pystr option \<Rightarrow> (pystr \<Rightarrow> bool) \<Rightarrow> bool" where
  "when_given v p = (case v of None \<Rightarrow> True | Some s \<Rightarrow> (if s = [] then True else p s))"

definition opt_holds :: "'a option \<Rightarrow> ('a \<Rightarrow> bool) \<Rightarrow> bool" where
  "opt_holds v p = (case v of None \<Rightarrow> True | Some x \<Rightarrow> p x)"

definition some_matches :: "'a option \<Rightarrow> ('a \<Rightarrow> bool) \<Rightarrow> bool" where
  "some_matches v p = (case v of None \<Rightarrow> False | Some x \<Rightarrow> p x)"

definition audit_matches ::
  "(pystr \<Rightarrow> pystr) \<Rightarrow> (json \<Rightarrow> pystr) \<Rightarrow> audit_filter \<Rightarrow> audit_row \<Rightarrow> bool" where
  "audit_matches lower R f r =
     (let e = au_entry r in
      when_given (af_user f) (\<lambda>u. matches_text lower u (ae_caller_sub e)
                                 \<or> some_matches (ae_caller_name e) (matches_text lower u))
      \<and> when_given (af_tool f) (\<lambda>t. ae_tool_name e = t)
      \<and> when_given (af_connection f) (\<lambda>c. ae_connection_name e = Some c)
      \<and> when_given (af_table f) (\<lambda>t. t \<in> set (ae_tables e))
      \<and> opt_holds (af_success f) (\<lambda>b. ae_success e = b)
      \<and> opt_holds (af_date_from f) (\<lambda>d. d \<le> au_occurred_at r)
      \<and> opt_holds (af_date_to f) (\<lambda>d. au_occurred_at r < d)
      \<and> when_given (af_q f) (\<lambda>q. matches_text lower q (R (JDict (ae_arguments e)))
                               \<or> some_matches (ae_error_message e) (matches_text lower q)))"

text \<open>\<open>ORDER BY <column> ASC|DESC NULLS LAST, id DESC\<close>: text by collation key, numbers by value.\<close>

datatype sort_value = NoValue | Num int | Txt pystr

definition sort_value_of :: "(pystr \<Rightarrow> pystr) \<Rightarrow> sort_field \<Rightarrow> audit_row \<Rightarrow> sort_value" where
  "sort_value_of key fld r =
     (let e = au_entry r in
      case fld of
        SOccurredAt \<Rightarrow> Num (au_occurred_at r)
      | SCaller \<Rightarrow> Txt (key (ae_caller_sub e))
      | STool \<Rightarrow> Txt (key (ae_tool_name e))
      | SConnection \<Rightarrow> (case ae_connection_name e of None \<Rightarrow> NoValue | Some c \<Rightarrow> Txt (key c))
      | SDuration \<Rightarrow> Num (ae_duration_ms e)
      | SRows \<Rightarrow> (case ae_row_count e of None \<Rightarrow> NoValue | Some n \<Rightarrow> Num n)
      | SStatus \<Rightarrow> Num (if ae_success e then 1 else 0))"

text \<open>The order of the values of one column: a comparison, \<open>True\<close> where \<open>a\<close> may come before \<open>b\<close>.\<close>

fun value_le :: "bool \<Rightarrow> sort_value \<Rightarrow> sort_value \<Rightarrow> bool" where
  "value_le desc a NoValue = True"
| "value_le desc NoValue b = False"
| "value_le desc (Num i) (Num j) = (if desc then j \<le> i else i \<le> j)"
| "value_le desc (Txt s) (Txt t) = (if desc then t \<le> s else s \<le> t)"
| "value_le desc (Num i) (Txt t) = True"
| "value_le desc (Txt s) (Num j) = False"

fun insert_by :: "('a \<Rightarrow> 'a \<Rightarrow> bool) \<Rightarrow> 'a \<Rightarrow> 'a list \<Rightarrow> 'a list" where
  "insert_by le x [] = [x]"
| "insert_by le x (y # ys) = (if le x y then x # y # ys else y # insert_by le x ys)"

definition sort_rows :: "('a \<Rightarrow> 'a \<Rightarrow> bool) \<Rightarrow> 'a list \<Rightarrow> 'a list" where
  "sort_rows le xs = foldr (insert_by le) xs []"

definition audit_order :: "(pystr \<Rightarrow> pystr) \<Rightarrow> sort_field \<Rightarrow> bool \<Rightarrow> audit_row \<Rightarrow> audit_row \<Rightarrow> bool" where
  "audit_order key fld desc a b =
     (if sort_value_of key fld a = sort_value_of key fld b then au_id b \<le> au_id a
      else value_le desc (sort_value_of key fld a) (sort_value_of key fld b))"

text \<open>\<open>LIMIT :page_size OFFSET (:page - 1) * :page_size\<close>.\<close>

definition page_rows :: "int \<Rightarrow> int \<Rightarrow> 'a list \<Rightarrow> 'a list" where
  "page_rows page page_size rows = take (nat page_size) (drop (nat ((page - 1) * page_size)) rows)"

definition bind_texts :: "pystr option list \<Rightarrow> ('s, 'a) api \<Rightarrow> ('s, 'a) api" where
  "bind_texts vs k =
     io_then (io_guard (list_all opt_storable vs) (ServerError (py_error ''DBAPIError''))) k"

definition list_audit ::
  "('c, 'x) gui_context \<Rightarrow> (json \<Rightarrow> pystr) \<Rightarrow> audit_filter \<Rightarrow> sort_field \<Rightarrow> bool \<Rightarrow> int \<Rightarrow> int
   \<Rightarrow> (('c, 'x) gui_state, audit_item page_of) api" where
  "list_audit ctx R f fld desc page page_size =
     (let size = min page_size (gs_max_page_size (gc_settings ctx)) in
      bind_texts [af_user f, af_tool f, af_connection f, af_table f, af_q f]
        (db_read ctx (\<lambda>m.
          let found = filter (audit_matches (pg_lower (gc_pg ctx)) R f) (am_audit_log m) in
          \<lparr>pg_items = map (audit_item_of R)
             (page_rows page size (sort_rows (audit_order (pg_sort_key (gc_pg ctx)) fld desc) found)),
           pg_total = length found, pg_page = page, pg_page_size = size\<rparr>)))"

definition no_audit_entry :: api_error where
  "no_audit_entry = HttpError 404 (lit ''That audit entry doesn'' @ [39] @ lit ''t exist.'')"

definition audit_detail_of :: "(json \<Rightarrow> pystr) \<Rightarrow> audit_row \<Rightarrow> audit_detail" where
  "audit_detail_of R r =
     \<lparr>ad_item = audit_item_of R r, ad_arguments = ae_arguments (au_entry r), ad_sql = arg_sql R (au_entry r),
      ad_result_summary = ae_result_summary (au_entry r), ad_error_message = ae_error_message (au_entry r)\<rparr>"

definition get_audit_entry ::
  "('c, 'x) gui_context \<Rightarrow> (json \<Rightarrow> pystr) \<Rightarrow> int \<Rightarrow> (('c, 'x) gui_state, audit_detail) api" where
  "get_audit_entry ctx R entry_id =
     io_bind (db_read ctx (\<lambda>m. map_option (audit_detail_of R) (find (\<lambda>r. int (au_id r) = entry_id) (am_audit_log m))))
       (or_error no_audit_entry)"

section \<open>The filter drop-downs\<close>

record audit_facets_out =
  fc_callers :: "(pystr \<times> pystr option) list"
  fc_tools :: "pystr list"
  fc_connections :: "pystr list"
  fc_tables :: "pystr list"

definition THIRTY_DAYS_US :: int where
  "THIRTY_DAYS_US = 30 * 24 * 3600 * 1000000"

text \<open>\<open>max(caller_name)\<close>: the greatest by collation key, \<open>NULL\<close> where there is none.\<close>

definition max_text :: "(pystr \<Rightarrow> pystr) \<Rightarrow> pystr option list \<Rightarrow> pystr option" where
  "max_text key vs =
     (case sort_key key (List.map_filter id vs) of [] \<Rightarrow> None | s # ss \<Rightarrow> Some (last (s # ss)))"

definition facets_q :: "(pystr \<Rightarrow> pystr) \<Rightarrow> datetime \<Rightarrow> app_meta \<Rightarrow> audit_facets_out" where
  "facets_q key now m =
     (let recent = filter (\<lambda>r. now - THIRTY_DAYS_US < au_occurred_at r) (am_audit_log m);
          of_caller = (\<lambda>s. filter (\<lambda>r. ae_caller_sub (au_entry r) = s) recent) in
      \<lparr>fc_callers = take 500
         (map (\<lambda>s. (s, max_text key (map (\<lambda>r. ae_caller_name (au_entry r)) (of_caller s))))
           (sort_key (\<lambda>s. - Max (set (map au_occurred_at (of_caller s))))
             (remdups (map (\<lambda>r. ae_caller_sub (au_entry r)) recent)))),
       fc_tools = sort_key key (remdups (map (\<lambda>r. ae_tool_name (au_entry r)) recent)),
       fc_connections = sort_key key (remdups (List.map_filter (\<lambda>r. ae_connection_name (au_entry r)) recent)),
       fc_tables = take 1000 (sort_key key (remdups (concat (map (\<lambda>r. ae_tables (au_entry r)) recent))))\<rparr>)"

text \<open>\<open>now()\<close> of the read.\<close>

definition db_read_now ::
  "('c, 'x) gui_context \<Rightarrow> (datetime \<Rightarrow> app_meta \<Rightarrow> 'a) \<Rightarrow> (('c, 'x) gui_state, 'a) api" where
  "db_read_now ctx q = (\<lambda>(c, w).
     case pg_reach (gc_pg ctx) (w_ext w) of
       (Some e, x) \<Rightarrow> (Inl (ServerError e), (c, w\<lparr>w_ext := x\<rparr>))
     | (None, x) \<Rightarrow> (Inr (q (pg_now (gc_pg ctx) x) (w_meta w)), (c, w\<lparr>w_ext := x\<rparr>)))"

definition audit_facets :: "('c, 'x) gui_context \<Rightarrow> (('c, 'x) gui_state, audit_facets_out) api" where
  "audit_facets ctx = db_read_now ctx (facets_q (pg_sort_key (gc_pg ctx)))"

section \<open>What administrators did\<close>

record admin_filter =
  lf_actor :: "pystr option"
  lf_action :: "pystr option"
  lf_target_type :: "pystr option"
  lf_date_from :: "datetime option"
  lf_date_to :: "datetime option"

definition admin_matches :: "(pystr \<Rightarrow> pystr) \<Rightarrow> admin_filter \<Rightarrow> admin_log_row \<Rightarrow> bool" where
  "admin_matches lower f r \<longleftrightarrow>
     when_given (lf_actor f) (\<lambda>a. matches_text lower a (al_actor_sub r)
                                 \<or> some_matches (al_actor_name r) (matches_text lower a))
     \<and> when_given (lf_action f) (\<lambda>a. al_action r = a)
     \<and> when_given (lf_target_type f) (\<lambda>t. al_target_type r = t)
     \<and> opt_holds (lf_date_from f) (\<lambda>d. d \<le> al_occurred_at r)
     \<and> opt_holds (lf_date_to f) (\<lambda>d. al_occurred_at r < d)"

definition admin_order :: "admin_log_row \<Rightarrow> admin_log_row \<Rightarrow> bool" where
  "admin_order a b =
     (if al_occurred_at a = al_occurred_at b then al_id b \<le> al_id a else al_occurred_at b \<le> al_occurred_at a)"

definition list_admin_log ::
  "('c, 'x) gui_context \<Rightarrow> admin_filter \<Rightarrow> int \<Rightarrow> int \<Rightarrow> (('c, 'x) gui_state, admin_log_row page_of) api" where
  "list_admin_log ctx f page page_size =
     (let size = min page_size (gs_max_page_size (gc_settings ctx)) in
      bind_texts [lf_actor f, lf_action f, lf_target_type f]
        (db_read ctx (\<lambda>m.
          let found = filter (admin_matches (pg_lower (gc_pg ctx)) f) (am_admin_log m) in
          \<lparr>pg_items = page_rows page size (sort_rows admin_order found),
           pg_total = length found, pg_page = page, pg_page_size = size\<rparr>)))"

end
