(* ===== verification/AdminHealth.thy ===== *)
theory AdminHealth
  imports AdminAudit
begin

text \<open>
  \<open>gui_backend/routers/health.py\<close>: the state of the parts and how calls are going, counted from
  the audit log in one pass over a window and in the points of a time series.  The percentile
  is the database's (\<open>percentile_cont(0.95)\<close>), a parameter; rounding it is Python's.
\<close>

definition BUCKETS :: int where
  "BUCKETS = 48"

datatype check_state = Ok | Down | NotConfigured

record check_out =
  ck_state :: check_state
  ck_detail :: "pystr option"
  ck_latency_ms :: "int option"

record window_out =
  wi_hours :: int
  wi_calls :: nat
  wi_errors :: nat
  wi_error_rate :: "(nat \<times> nat) option"     \<comment> \<open>\<open>errors / calls\<close>, as the fraction\<close>
  wi_query_calls :: nat
  wi_p95_query_ms :: "int option"

record bucket_out =
  bu_start :: datetime
  bu_calls :: nat
  bu_errors :: nat
  bu_p95_query_ms :: "int option"

record connection_health =
  hc_name :: pystr
  hc_engine :: pystr
  hc_active :: bool
  hc_last_checked_at :: "datetime option"
  hc_last_check_ok :: "bool option"
  hc_last_check_error :: "pystr option"

record 'p health_out =
  he_checked_at :: datetime
  he_database :: check_out
  he_redis :: check_out
  he_mcp_server :: check_out
  he_pool :: 'p
  he_window :: window_out
  he_series :: "bucket_out list"
  he_connections :: "connection_health list"

text \<open>\<open>round(x)\<close> of a finite float: to the nearest integer, halves to the even one.\<close>

definition round_half_even :: "int \<Rightarrow> int \<Rightarrow> int" where
  "round_half_even n d =
     (let q = n div d; r = n mod d in
      if 2 * r < d then q else if 2 * r > d then q + 1 else if even q then q else q + 1)"

definition py_round :: "int \<times> int \<Rightarrow> int" where
  "py_round f = (case f of (m, e) \<Rightarrow> if 0 \<le> e then m * 2 ^ nat e else round_half_even m (2 ^ nat (- e)))"

section \<open>The parts\<close>

text \<open>\<open>int((monotonic() - started) * 1000)\<close>, with times in microseconds.\<close>

definition elapsed_ms :: "int \<Rightarrow> int \<Rightarrow> int" where
  "elapsed_ms started now = (now - started) div 1000"

definition up :: "int \<Rightarrow> int \<Rightarrow> check_out" where
  "up started now = \<lparr>ck_state = Ok, ck_detail = None, ck_latency_ms = Some (elapsed_ms started now)\<rparr>"

definition down :: "pystr \<Rightarrow> check_out" where
  "down detail = \<lparr>ck_state = Down, ck_detail = Some detail, ck_latency_ms = None\<rparr>"

definition not_configured :: "pystr \<Rightarrow> check_out" where
  "not_configured detail = \<lparr>ck_state = NotConfigured, ck_detail = Some detail, ck_latency_ms = None\<rparr>"

definition tick :: "'x clock \<Rightarrow> (('c, 'x) gui_state, int) op" where
  "tick clk = outside (\<lambda>x. case clk x of (t, y) \<Rightarrow> (Inr t, y))"

text \<open>\<open>except Exception\<close> around the probes; the type name is all the answer tells.\<close>

fun exn_name :: "exn \<Rightarrow> pystr" where
  "exn_name (OtherError t) = t"
| "exn_name (BaseError t) = t"
| "exn_name (McpSqlError k m) = lit ''McpSqlError''"

definition probe ::
  "'x clock \<Rightarrow> (exn \<Rightarrow> pystr) \<Rightarrow> (('c, 'x) gui_state, pystr option) op \<Rightarrow> (('c, 'x) gui_state, check_out) api" where
  "probe clk why m =
     io_bind (raising (tick clk)) (\<lambda>started.
     io_bind (io_catch (io_bind m (\<lambda>problem. io_return (problem, True)))
                (\<lambda>e. if is_exception e then io_return (Some (why e), True) else io_raise (ServerError e)))
       (\<lambda>(problem, _). case problem of
          Some detail \<Rightarrow> io_return (down detail)
        | None \<Rightarrow> io_bind (raising (tick clk)) (\<lambda>now. io_return (up started now))))"

definition database_check :: "('c, 'x) gui_context \<Rightarrow> 'x clock \<Rightarrow> (('c, 'x) gui_state, check_out) api" where
  "database_check ctx clk =
     probe clk (\<lambda>e. lit ''Could not query app_meta: '' @ exn_name e)
       (io_bind (io_on_snd (pg_read (gc_pg ctx) (\<lambda>m. ()))) (\<lambda>_. io_return None))"

definition redis_check :: "('c, 'x) gui_context \<Rightarrow> 'x clock \<Rightarrow> (('c, 'x) gui_state, check_out) api" where
  "redis_check ctx clk =
     (if \<not> gs_redis_configured (gc_settings ctx)
      then io_return (not_configured
             (lit ''Running without Redis: nothing is cached and changes reach the MCP server on their own.''))
      else
        io_bind (raising (tick clk)) (\<lambda>started.
        io_bind (raising (io_on_fst (ca_ping (gc_cache ctx)))) (\<lambda>alive.
          if \<not> alive
          then io_return (down (lit ''Redis does not answer. Everything still works, without caching.''))
          else io_bind (raising (tick clk)) (\<lambda>now. io_return (up started now)))))"

text \<open>The HTTP client answers with a status code.\<close>

definition mcp_server_check ::
  "('c, 'x) gui_context \<Rightarrow> 'x clock \<Rightarrow> (pystr \<Rightarrow> ('x, int) op) \<Rightarrow> (('c, 'x) gui_state, check_out) api" where
  "mcp_server_check ctx clk http_get =
     (case gs_mcp_health_url (gc_settings ctx) of
        Some (ch # url) \<Rightarrow>
          probe clk (\<lambda>e. lit ''No answer from the MCP server ('' @ exn_name e @ lit '').'')
            (io_bind (outside (http_get (ch # url))) (\<lambda>status. io_return
               (if status \<noteq> 200 then Some (lit ''The MCP server answered '' @ str_of_int status @ lit ''.'') else None)))
      | _ \<Rightarrow> io_return (not_configured (lit ''GUI_MCP_HEALTH_URL is not set.'')))"

section \<open>Counting calls\<close>

type_synonym percentile = "int list \<Rightarrow> (int \<times> int) option"

definition query_durations :: "audit_row list \<Rightarrow> int list" where
  "query_durations rows =
     map (\<lambda>r. ae_duration_ms (au_entry r)) (filter (\<lambda>r. ae_tool_name (au_entry r) = lit ''run_query'') rows)"

definition p95_ms :: "percentile \<Rightarrow> audit_row list \<Rightarrow> int option" where
  "p95_ms p95 rows = map_option py_round (p95 (query_durations rows))"

definition failed_calls :: "audit_row list \<Rightarrow> nat" where
  "failed_calls rows = length (filter (\<lambda>r. \<not> ae_success (au_entry r)) rows)"

definition window_q :: "percentile \<Rightarrow> int \<Rightarrow> audit_row list \<Rightarrow> window_out" where
  "window_q p95 hours rows =
     \<lparr>wi_hours = hours, wi_calls = length rows, wi_errors = failed_calls rows,
      wi_error_rate = (if rows = [] then None else Some (failed_calls rows, length rows)),
      wi_query_calls = length (query_durations rows), wi_p95_query_ms = p95_ms p95 rows\<rparr>"

definition step_seconds :: "int \<Rightarrow> int" where
  "step_seconds hours = max 60 (hours * 3600 div BUCKETS)"

text \<open>\<open>floor(extract(epoch FROM (occurred_at - :start)) / :step)::int\<close>.\<close>

definition bucket_of :: "datetime \<Rightarrow> int \<Rightarrow> audit_row \<Rightarrow> int" where
  "bucket_of start step r = (au_occurred_at r - start) div (step * 1000000)"

definition bucket_q :: "percentile \<Rightarrow> datetime \<Rightarrow> int \<Rightarrow> audit_row list \<Rightarrow> int \<Rightarrow> bucket_out" where
  "bucket_q p95 start step rows n =
     (let mine = filter (\<lambda>r. bucket_of start step r = n) rows in
      \<lparr>bu_start = start + n * step * 1000000, bu_calls = length mine, bu_errors = failed_calls mine,
       bu_p95_query_ms = p95_ms p95 mine\<rparr>)"

definition bucket_count :: "int \<Rightarrow> int" where
  "bucket_count hours = - (- (hours * 3600) div step_seconds hours)"

definition series_q :: "percentile \<Rightarrow> datetime \<Rightarrow> int \<Rightarrow> audit_row list \<Rightarrow> bucket_out list" where
  "series_q p95 start hours rows =
     map (bucket_q p95 start (step_seconds hours) rows) [0..bucket_count hours - 1]"

definition rows_since :: "datetime \<Rightarrow> app_meta \<Rightarrow> audit_row list" where
  "rows_since start m = filter (\<lambda>r. start \<le> au_occurred_at r) (am_audit_log m)"

definition connection_health_of :: "connection_row \<Rightarrow> connection_health" where
  "connection_health_of c =
     \<lparr>hc_name = cn_name c, hc_engine = cn_engine c, hc_active = cn_active c,
      hc_last_checked_at = cn_last_checked_at c, hc_last_check_ok = cn_last_check_ok c,
      hc_last_check_error = cn_last_check_error c\<rparr>"

definition health ::
  "('c, 'x) gui_context \<Rightarrow> 'x clock \<Rightarrow> 'x clock \<Rightarrow> (pystr \<Rightarrow> ('x, int) op) \<Rightarrow> ('x \<Rightarrow> 'p) \<Rightarrow> percentile \<Rightarrow> int
   \<Rightarrow> (('c, 'x) gui_state, 'p health_out) api" where
  "health ctx wall clk http_get pool p95 hours =
     io_bind (raising (tick wall)) (\<lambda>now.
     let start = now - hours * 3600 * 1000000 in
     io_bind (db_read ctx (\<lambda>m.
        (window_q p95 hours (rows_since start m), series_q p95 start hours (rows_since start m),
         map connection_health_of (sort_key (\<lambda>c. pg_sort_key (gc_pg ctx) (cn_name c)) (am_connections m)))))
       (\<lambda>(window, series, conns).
     io_bind (database_check ctx clk) (\<lambda>database.
     io_bind (redis_check ctx clk) (\<lambda>redis.
     io_bind (mcp_server_check ctx clk http_get) (\<lambda>mcp.
     io_bind (gets_outside pool) (\<lambda>p. io_return
       \<lparr>he_checked_at = now, he_database = database, he_redis = redis, he_mcp_server = mcp, he_pool = p,
        he_window = window, he_series = series, he_connections = conns\<rparr>))))))"

end
