(* ===== verification/ConnectionCheck.thy ===== *)
theory ConnectionCheck
  imports SqlAdapter AdminConnections
begin

text \<open>
  \<open>gui_backend/connection_check.py\<close> and the two endpoints of \<open>routers/connections.py\<close> that try a
  connection: open the database, list its tables, explain a failure in a sentence without the
  password, record the outcome.
\<close>

section \<open>Exception chains\<close>

text \<open>An exception as \<open>_root_message\<close> sees it: its text, its class, \<open>__cause__\<close> and \<open>__context__\<close>.\<close>

datatype py_exc = PyExc pystr pystr "py_exc option" "py_exc option"

fun root_exc :: "py_exc \<Rightarrow> pystr \<times> pystr" where
  "root_exc (PyExc t n (Some c) x) = root_exc c"
| "root_exc (PyExc t n None (Some x)) = root_exc x"
| "root_exc (PyExc t n None None) = (t, n)"

record 'x checker =
  ck_driver :: "'x driver"
  ck_chain :: "exn \<Rightarrow> py_exc"

definition root_message :: "ucd \<Rightarrow> py_exc \<Rightarrow> pystr" where
  "root_message U e =
     (case root_exc e of (t, name) \<Rightarrow>
        drop_class_prefix U (if strip t = [] then name else takeWhile (\<lambda>c. \<not> line_break c) (strip t)))"

section \<open>Explaining a failure\<close>

text \<open>\<open>str.replace(password, rep)\<close> of a non-empty \<open>password\<close>; \<open>skip\<close> characters of an occurrence remain.\<close>

fun replace_all :: "pystr \<Rightarrow> pystr \<Rightarrow> nat \<Rightarrow> pystr \<Rightarrow> pystr" where
  "replace_all old new skip [] = []"
| "replace_all old new (Suc k) (c # s) = replace_all old new k s"
| "replace_all old new 0 (c # s) =
     (if starts_with (c # s) old then new @ replace_all old new (length old - 1) s
      else c # replace_all old new 0 s)"

definition hide_password :: "pystr option \<Rightarrow> pystr \<Rightarrow> pystr" where
  "hide_password password message =
     (case password of
        Some (c # cs) \<Rightarrow> replace_all (c # cs) (lit ''***'') 0 message
      | _ \<Rightarrow> message)"

text \<open>\<open>_where\<close>.\<close>

definition where_text :: "(json \<Rightarrow> pystr) \<Rightarrow> pystr \<Rightarrow> (pystr \<times> json) list \<Rightarrow> pystr" where
  "where_text R engine details =
     (if engine = lit ''sqlite'' then lit ''file '' @ py_str R (get_claim details (lit ''path''))
      else lit ''host '' @ py_str R (get_claim details (lit ''host''))
        @ (let port = get_claim details (lit ''port'') in
           if truthy port then lit '' on port '' @ py_str R port else []))"

definition one_of :: "string list \<Rightarrow> pystr \<Rightarrow> bool" where
  "one_of ss s \<longleftrightarrow> list_ex (\<lambda>t. contains (lit t) s) ss"

definition failure_message ::
  "(json \<Rightarrow> pystr) \<Rightarrow> pystr \<Rightarrow> pystr \<Rightarrow> pystr \<Rightarrow> (pystr \<times> json) list \<Rightarrow> pystr" where
  "failure_message R message lowered engine details =
     (let place = where_text R engine details in
      if one_of [''password authentication failed'', ''access denied'', ''login failed''] lowered then
        lit ''authentication failed for user '' @ quoted (py_str R (get_claim details (lit ''username''))) @ lit ''.''
      else if one_of [''does not exist''] lowered \<and> one_of [''database''] lowered then
        lit ''the database '' @ quoted (py_str R (get_claim details (lit ''database'')))
        @ lit '' does not exist on that server.''
      else if one_of [''unable to open database file'', ''no such file''] lowered then
        lit ''could not open '' @ place @ lit ''.''
      else if one_of [''connect call failed'', ''connection refused'', ''refused the network connection'',
                      ''errno 111'', ''10061'', ''winerror 1225''] lowered then
        lit ''could not reach '' @ place @ lit ''.''
      else if one_of [''name or service not known'', ''getaddrinfo'', ''nodename nor servname'', ''11001''] lowered then
        lit ''could not resolve '' @ place @ lit ''.''
      else if one_of [''timeout'', ''timed out''] lowered then
        place @ lit '' did not respond in time.''
      else if one_of [''no pg_hba.conf entry'', ''ssl''] lowered then
        lit ''the server at '' @ place @ lit '' rejected the connection: '' @ message
      else message)"

definition explain_failure ::
  "ucd \<Rightarrow> (json \<Rightarrow> pystr) \<Rightarrow> (pystr \<Rightarrow> pystr) \<Rightarrow> py_exc \<Rightarrow> pystr \<Rightarrow> (pystr \<times> json) list \<Rightarrow> pystr option \<Rightarrow> pystr" where
  "explain_failure U R lower e engine details password =
     take 300 (hide_password password
       (failure_message R (root_message U e) (lower (root_message U e)) engine details))"

section \<open>Trying a connection\<close>

record check_result =
  ch_ok :: bool
  ch_message :: pystr
  ch_table_count :: "nat option"
  ch_latency_ms :: "int option"

definition failed_check :: "pystr \<Rightarrow> check_result" where
  "failed_check message = \<lparr>ch_ok = False, ch_message = message, ch_table_count = None, ch_latency_ms = None\<rparr>"

definition unsaved_record :: "pystr \<Rightarrow> (pystr \<times> json) list \<Rightarrow> connection_record" where
  "unsaved_record engine details =
     \<lparr>cr_id = [], cr_name = lit ''check'', cr_engine = engine, cr_description = [], cr_details = details,
      cr_secret_encrypted = None, cr_updated_at = 0\<rparr>"

definition clock_ms :: "'x driver \<Rightarrow> ('x, int) op" where
  "clock_ms D = (\<lambda>x. case dv_now D x of (t, x') \<Rightarrow> (Inr t, x'))"

text \<open>Work on an adapter of this call's own; the outside state goes back when it is done.\<close>

definition with_adapter :: "('x \<Rightarrow> 'x adapter_object) \<Rightarrow> ('x adapter_object, 'a) op \<Rightarrow> ('x, 'a) op" where
  "with_adapter fresh m = (\<lambda>x. case m (fresh x) of (r, a) \<Rightarrow> (r, ao_ext a))"

definition try_adapter ::
  "ucd \<Rightarrow> (json \<Rightarrow> pystr) \<Rightarrow> 'x checker \<Rightarrow> pystr \<Rightarrow> (pystr \<times> json) list \<Rightarrow> pystr option \<Rightarrow> int
   \<Rightarrow> ('x adapter_object, check_result + nat) op" where
  "try_adapter U R K engine details password timeout_ms =
     io_catch
       (io_then (on_ao (dv_limit (ck_driver K) timeout_ms))
       (io_then (sa_connect (ck_driver K))
       (io_bind (sa_list_tables U (ck_driver K)) (\<lambda>tables. io_return (Inr (length tables))))))
       (\<lambda>e. if e = py_error ''TimeoutError'' then
              io_return (Inl (failed_check (lit ''Connection failed: no response from '' @ where_text R engine details
                 @ lit '' within '' @ seconds_g timeout_ms @ lit ''s.'')))
            else if is_exception e then
              io_return (Inl (failed_check (lit ''Connection failed: ''
                 @ explain_failure U R (dv_lower (ck_driver K)) (ck_chain K e) engine details password)))
            else io_raise e)"

text \<open>\<open>finally: await adapter.close()\<close>.\<close>

definition finally_close :: "'x driver \<Rightarrow> ('x adapter_object, 'a) op \<Rightarrow> ('x adapter_object, 'a) op" where
  "finally_close D m =
     io_bind (io_catch m (\<lambda>e. io_then (sa_close D) (io_raise e))) (\<lambda>r. io_then (sa_close D) (io_return r))"

definition connected_check :: "nat \<Rightarrow> int \<Rightarrow> check_result" where
  "connected_check n elapsed_us =
     \<lparr>ch_ok = True,
      ch_message = lit ''Connected. Found '' @ str_of_nat n @ lit '' table'' @ (if n \<noteq> 1 then lit ''s'' else []) @ lit ''.'',
      ch_table_count = Some n, ch_latency_ms = Some (elapsed_us div 1000)\<rparr>"

definition check_connection ::
  "ucd \<Rightarrow> (json \<Rightarrow> pystr) \<Rightarrow> 'x checker \<Rightarrow> pystr \<Rightarrow> (pystr \<times> json) list \<Rightarrow> pystr option \<Rightarrow> int
   \<Rightarrow> ('x, check_result) op" where
  "check_connection U R K engine details password timeout_ms =
     (let D = ck_driver K in
      io_bind (clock_ms D) (\<lambda>started.
      io_bind (io_lift (build_engine_url (unsaved_record engine details) password)) (\<lambda>url.
      io_bind (io_lift (schemas_of details)) (\<lambda>schemas.
      io_bind
        (with_adapter (new_adapter D url (map_option (map (py_str R)) schemas))
          (finally_close D (try_adapter U R K engine details password timeout_ms))) (\<lambda>outcome.
        case outcome of
          Inl failed \<Rightarrow> io_return failed
        | Inr n \<Rightarrow>
            io_bind (clock_ms D) (\<lambda>finished. io_return (connected_check n (finished - started))))))))"

section \<open>The two endpoints\<close>

record connection_test =
  ct_engine :: pystr
  ct_details :: "(pystr \<times> json) list"
  ct_secret :: "pystr option"
  ct_connection :: "uuid option"

text \<open>\<open>SELECT secret_encrypted\<close>, and its decryption when there is one.\<close>

definition stored_secret_q :: "uuid \<Rightarrow> app_meta \<Rightarrow> pystr option" where
  "stored_secret_q cid m = Option.bind (find_connection cid m) cn_secret"

definition stored_password ::
  "('c, 'x) gui_context \<Rightarrow> uuid \<Rightarrow> (('c, 'x) gui_state, pystr option) api" where
  "stored_password ctx cid =
     io_bind (db_read ctx (stored_secret_q cid)) (\<lambda>stored.
       case stored of
         Some (c # cs) \<Rightarrow>
           io_bind (raising (io_lift (box_decrypt (gc_fernet ctx) (gc_keys ctx) (c # cs)))) (\<lambda>p. io_return (Some p))
       | _ \<Rightarrow> io_return None)"

definition run_check ::
  "('c, 'x) gui_context \<Rightarrow> 'x checker \<Rightarrow> pystr \<Rightarrow> (pystr \<times> json) list \<Rightarrow> pystr option
   \<Rightarrow> (('c, 'x) gui_state, check_result) api" where
  "run_check ctx K engine details password =
     raising (outside (check_connection (gc_ucd ctx) (pt_str (gc_text ctx)) K engine details password
       (gs_connection_test_timeout_ms (gc_settings ctx))))"

definition test_settings ::
  "('c, 'x) gui_context \<Rightarrow> 'x checker \<Rightarrow> connection_test \<Rightarrow> (('c, 'x) gui_state, check_result) api" where
  "test_settings ctx K body =
     io_bind (io_lift (validate_details (gc_ucd ctx) (pt_str (gc_text ctx)) (ct_engine body) (ct_details body))) (\<lambda>details.
     io_bind (case (ct_secret body, ct_connection body) of
                (None, Some cid) \<Rightarrow> stored_password ctx cid
              | (secret, _) \<Rightarrow> io_return secret) (\<lambda>password.
       run_check ctx K (ct_engine body) details password))"

definition record_check :: "uuid \<Rightarrow> check_result \<Rightarrow> datetime \<Rightarrow> unit tx" where
  "record_check cid result now =
     (let error = (if ch_ok result then None else Some (ch_message result)) in
      bind_params (opt_list error) []
        (io_modify (update_rows now cid (\<lambda>c. c\<lparr>cn_last_checked_at := Some now, cn_last_check_ok := Some (ch_ok result),
           cn_last_check_error := error\<rparr>))))"

definition test_saved_connection ::
  "('c, 'x) gui_context \<Rightarrow> 'x checker \<Rightarrow> uuid \<Rightarrow> (('c, 'x) gui_state, check_result) api" where
  "test_saved_connection ctx K cid =
     io_bind (fetch_connection ctx cid) (\<lambda>current.
     io_bind (stored_password ctx cid) (\<lambda>password.
     io_bind (run_check ctx K (cu_engine current) (cu_details current) password) (\<lambda>result.
     io_then (db_begin ctx (record_check cid result))
       (io_return result))))"

end
