(* ===== verification/AdminApp.thy ===== *)
theory AdminApp
  imports AdminSchema AdminHealth ConnectionCheck
begin

text \<open>
  The admin backend as a whole (\<open>gui_backend/main.py\<close>): its endpoints as requests, how each is
  served, and the transactions that may change the tables.  Answers are dropped here; they are
  the subject of the endpoints' own theories.
\<close>

text \<open>What the handlers use beside the context.\<close>

record ('x, 'q) gui_app =
  ga_sqlglot :: "'q sqlglot"
  ga_checker :: "'x checker"
  ga_json_text :: "json \<Rightarrow> pystr"
  ga_wall :: "'x clock"
  ga_monotonic :: "'x clock"
  ga_http_get :: "pystr \<Rightarrow> ('x, int) op"
  ga_percentile :: percentile

datatype gui_request =
    Readyz
  | GetMe
  | ListEngines
  | ListConnections
  | GetConnection uuid
  | CreateConnection connection_in
  | UpdateConnection uuid connection_update
  | DeleteConnection uuid
  | TestSettings connection_test
  | TestSavedConnection uuid
  | GetAccess uuid
  | SetAccess uuid "subject list"
  | ListSubjects
  | AddSubject subject "pystr option"
  | TableGrid uuid
  | ChangeTables table_changes
  | ToolGrid
  | ChangeTools tool_changes
  | SchemaTables uuid
  | SchemaTable uuid pystr
  | SetDescription description_in
  | DeleteDescriptions uuid pystr
  | ListReports "pystr option" "uuid option"
  | GetReport uuid
  | CreateReport report_in
  | UpdateReport uuid report_in
  | DeleteReport uuid
  | ListAudit audit_filter sort_field bool int int
  | GetAuditEntry int
  | AuditFacets
  | ListAdminLog admin_filter int int
  | Health int

text \<open>The bounds the models and the query parameters declare.\<close>

fun request_ok :: "gui_request \<Rightarrow> bool" where
  "request_ok (CreateConnection b) = connection_in_ok b"
| "request_ok (UpdateConnection cid b) = (length (up_description b) \<le> 500 \<and> opt_max 2000 (up_secret b) \<and> distinct (map fst (up_details b)))"
| "request_ok (TestSettings b) = engine_known (ct_engine b)"
| "request_ok (SetAccess cid ss) = list_all subject_in_ok ss"
| "request_ok (AddSubject s name) = (subject_in_ok s \<and> opt_max 200 name)"
| "request_ok (ChangeTables b) = table_changes_ok b"
| "request_ok (ChangeTools b) = tool_changes_ok b"
| "request_ok (SchemaTable cid table) = (table \<noteq> [])"
| "request_ok (SetDescription b) = description_in_ok b"
| "request_ok (DeleteDescriptions cid table) = (table \<noteq> [])"
| "request_ok (CreateReport b) = report_in_ok b"
| "request_ok (UpdateReport rid b) = report_in_ok b"
| "request_ok (ListAudit f fld desc page page_size) = (1 \<le> page \<and> 1 \<le> page_size)"
| "request_ok (ListAdminLog f page page_size) = (1 \<le> page \<and> 1 \<le> page_size)"
| "request_ok (Health hours) = (1 \<le> hours \<and> hours \<le> 168)"
| "request_ok _ = True"

definition io_void :: "('e, 's, 'a) io \<Rightarrow> ('e, 's, unit) io" where
  "io_void m = io_bind m (\<lambda>_. io_return ())"

text \<open>\<open>/readyz\<close>: public, and says no more than whether the database answers.\<close>

definition readyz :: "('c, 'x) gui_context \<Rightarrow> (('c, 'x) gui_state, bool) api" where
  "readyz ctx =
     io_catch (io_bind (io_on_snd (pg_read (gc_pg ctx) (\<lambda>m. ()))) (\<lambda>_. io_return True))
       (\<lambda>e. if is_exception e then io_return False else io_raise (ServerError e))"

text \<open>The endpoints an administrator may call.\<close>

fun handle ::
  "('c, 'x) gui_context \<Rightarrow> ('x, 'q) gui_app \<Rightarrow> gui_user \<Rightarrow> gui_request \<Rightarrow> (('c, 'x) gui_state, unit) api" where
  "handle ctx A u ListEngines = io_return ()"
| "handle ctx A u ListConnections = io_void (admin_list_connections ctx)"
| "handle ctx A u (GetConnection cid) = io_void (fetch_connection ctx cid)"
| "handle ctx A u (CreateConnection b) = io_void (create_connection ctx u b)"
| "handle ctx A u (UpdateConnection cid b) = io_void (update_connection ctx u cid b)"
| "handle ctx A u (DeleteConnection cid) = delete_connection ctx u cid"
| "handle ctx A u (TestSettings b) = io_void (test_settings ctx (ga_checker A) b)"
| "handle ctx A u (TestSavedConnection cid) = io_void (test_saved_connection ctx (ga_checker A) cid)"
| "handle ctx A u (GetAccess cid) = io_void (get_access ctx cid)"
| "handle ctx A u (SetAccess cid ss) = io_void (set_access ctx u cid ss)"
| "handle ctx A u ListSubjects = io_void (list_subjects ctx)"
| "handle ctx A u (AddSubject s name) = io_void (add_subject ctx u s name)"
| "handle ctx A u (TableGrid cid) = io_void (table_grid ctx cid)"
| "handle ctx A u (ChangeTables b) = io_void (change_table_access ctx u b)"
| "handle ctx A u ToolGrid = io_void (tool_grid ctx)"
| "handle ctx A u (ChangeTools b) = io_void (change_tool_access ctx u b)"
| "handle ctx A u (SchemaTables cid) = io_void (schema_list_tables ctx cid)"
| "handle ctx A u (SchemaTable cid table) = io_void (schema_get_table ctx cid table)"
| "handle ctx A u (SetDescription b) = io_void (set_description ctx u b)"
| "handle ctx A u (DeleteDescriptions cid table) = delete_descriptions ctx u cid table"
| "handle ctx A u (ListReports q cid) = io_void (list_reports ctx q cid)"
| "handle ctx A u (GetReport rid) = io_void (fetch_report ctx rid)"
| "handle ctx A u (CreateReport b) = io_void (create_report ctx (ga_sqlglot A) u b)"
| "handle ctx A u (UpdateReport rid b) = io_void (update_report ctx (ga_sqlglot A) u rid b)"
| "handle ctx A u (DeleteReport rid) = delete_report ctx u rid"
| "handle ctx A u (ListAudit f fld desc page page_size) = io_void (list_audit ctx (ga_json_text A) f fld desc page page_size)"
| "handle ctx A u (GetAuditEntry i) = io_void (get_audit_entry ctx (ga_json_text A) i)"
| "handle ctx A u AuditFacets = io_void (audit_facets ctx)"
| "handle ctx A u (ListAdminLog f page page_size) = io_void (list_admin_log ctx f page page_size)"
| "handle ctx A u (Health hours) =
     io_void (health ctx (ga_wall A) (ga_monotonic A) (ga_http_get A) (\<lambda>x. ()) (ga_percentile A) hours)"
| "handle ctx A u Readyz = io_void (readyz ctx)"
| "handle ctx A u GetMe = io_void (me ctx u)"

text \<open>
  One request: the dependency that authenticates runs first, then the body is checked, then the
  endpoint.  \<open>cred\<close> is the bearer token, if the request has one.
\<close>

definition gui_serve ::
  "('c, 'x) gui_context \<Rightarrow> ('x, 'q) gui_app \<Rightarrow> pystr option \<Rightarrow> gui_request \<Rightarrow> (('c, 'x) gui_state, unit) api" where
  "gui_serve ctx A cred req =
     (case req of
        Readyz \<Rightarrow> io_void (readyz ctx)
      | GetMe \<Rightarrow> io_bind (current_user ctx cred) (\<lambda>u. io_void (me ctx u))
      | _ \<Rightarrow> admin_only ctx cred (\<lambda>u.
               if request_ok req then handle ctx A u req
               else io_raise (HttpError 422 (lit ''Unprocessable Content''))))"

section \<open>What a request may do to the tables\<close>

text \<open>The SQL a report may hold: what \<open>_check_sql\<close> lets pass.\<close>

definition report_sql_ok :: "ucd \<Rightarrow> 'q sqlglot \<Rightarrow> pystr \<Rightarrow> pystr \<Rightarrow> bool" where
  "report_sql_ok U G sql engine \<longleftrightarrow> (\<exists>vq. validate U G REPORT_MAX_SQL sql engine None = Inr vq)"

text \<open>The settings that are stored for those given, and the password that is stored for the one given.\<close>

definition valid_settings ::
  "('c, 'x) gui_context \<Rightarrow> pystr \<Rightarrow> (pystr \<times> json) list \<Rightarrow> (pystr \<times> json) list \<Rightarrow> bool" where
  "valid_settings ctx engine asked stored \<longleftrightarrow>
     validate_details (gc_ucd ctx) (pt_str (gc_text ctx)) engine asked = Inr stored"

definition sealed :: "('c, 'x) gui_context \<Rightarrow> pystr option \<Rightarrow> pystr option \<Rightarrow> bool" where
  "sealed ctx secret stored \<longleftrightarrow>
     (case stored of
        None \<Rightarrow> secret = None \<or> secret = Some []
      | Some t \<Rightarrow> (\<exists>n p. secret = Some p \<and> p \<noteq> [] \<and> box_encrypt (gc_fernet ctx) (gc_keys ctx) n p = Inr t))"

fun change_to :: "bool \<Rightarrow> pystr option \<Rightarrow> secret_change" where
  "change_to clear (Some t) = NewSecret t"
| "change_to clear None = (if clear then ClearSecret else KeepSecret)"

text \<open>
  The transactions of the endpoints, as a relation on the tables: \<open>change ctx G u req m m'\<close> holds
  when \<open>req\<close>, made by \<open>u\<close>, may turn \<open>m\<close> into \<open>m'\<close>.
\<close>

inductive change ::
  "('c, 'x) gui_context \<Rightarrow> 'q sqlglot \<Rightarrow> gui_user \<Rightarrow> gui_request \<Rightarrow> app_meta \<Rightarrow> app_meta \<Rightarrow> bool"
  for ctx G u where
  nothing: "change ctx G u req m m"
| meet: "me_tx u now m = (Inr v, m') \<Longrightarrow> change ctx G u GetMe m m'"
| create: "valid_settings ctx (ni_engine b) (ni_details b) details \<Longrightarrow> sealed ctx (ni_secret b) secret
    \<Longrightarrow> create_connection_tx u b details secret new_id now m = (Inr v, m')
    \<Longrightarrow> change ctx G u (CreateConnection b) m m'"
| update: "find_connection cid m = Some c
    \<Longrightarrow> valid_settings ctx (cn_engine c) (up_details b) details \<Longrightarrow> sealed ctx (up_secret b) stored
    \<Longrightarrow> update_connection_tx u cid b (connection_out_of m c) details (change_to (up_clear_secret b) stored) now m = (Inr v, m')
    \<Longrightarrow> change ctx G u (UpdateConnection cid b) m m'"
| delete: "find_connection cid m = Some c
    \<Longrightarrow> delete_connection_tx u cid (connection_out_of m c) now m = (Inr v, m')
    \<Longrightarrow> change ctx G u (DeleteConnection cid) m m'"
| tested: "record_check cid result now m = (Inr v, m') \<Longrightarrow> change ctx G u (TestSavedConnection cid) m m'"
| access: "find_connection cid m = Some c \<Longrightarrow> set_access_tx u cid name (remdups ss) now m = (Inr v, m')
    \<Longrightarrow> change ctx G u (SetAccess cid ss) m m'"
| subject: "add_subject_tx (gc_pg ctx) u s name now m = (Inr v1, m') \<Longrightarrow> change ctx G u (AddSubject s name) m m'"
| tables: "change_tables_tx (gc_pg ctx) u (tc_connection_id b) name (tc_subject b)
      (granted_names (tc_changes b)) (revoked_names (tc_changes b)) now m = (Inr v2, m')
    \<Longrightarrow> change ctx G u (ChangeTables b) m m'"
| tools: "fst ` set (oc_changes b) \<subseteq> TOOL_NAMES
    \<Longrightarrow> change_tools_tx (gc_pg ctx) u (oc_subject b) (granted_names (oc_changes b)) (revoked_names (oc_changes b)) now m
        = (Inr v3, m')
    \<Longrightarrow> change ctx G u (ChangeTools b) m m'"
| describe: "set_description_tx u (di_connection_id b) name table column (strip (di_description b)) now m = (Inr v4, m')
    \<Longrightarrow> change ctx G u (SetDescription b) m m'"
| clear: "delete_descriptions_tx (pg_lower (gc_pg ctx)) u cid name table now m = (Inr v, m')
    \<Longrightarrow> change ctx G u (DeleteDescriptions cid table) m m'"
| new_report: "find_connection (ri_connection_id b) m = Some c \<Longrightarrow> report_sql_ok (gc_ucd ctx) G (ri_sql b) (cn_engine c)
    \<Longrightarrow> create_report_tx u b new_id now m = (Inr v, m') \<Longrightarrow> change ctx G u (CreateReport b) m m'"
| edit_report: "report_q rid m = Some current
    \<Longrightarrow> find_connection (ri_connection_id b) m = Some c \<Longrightarrow> report_sql_ok (gc_ucd ctx) G (ri_sql b) (cn_engine c)
    \<Longrightarrow> update_report_tx u rid b current now m = (Inr v, m') \<Longrightarrow> change ctx G u (UpdateReport rid b) m m'"
| drop_report: "delete_report_tx u rid current now m = (Inr v, m') \<Longrightarrow> change ctx G u (DeleteReport rid) m m'"

section \<open>Every request stays within that relation\<close>

text \<open>\<open>quiet m\<close>: the tables are as before, whatever \<open>m\<close> answers.\<close>

definition quiet :: "('e, ('c, 'x) gui_state, 'a) io \<Rightarrow> bool" where
  "quiet m \<longleftrightarrow> (\<forall>s. w_meta (snd (snd (m s))) = w_meta (snd s))"

text \<open>\<open>within R m\<close>: the tables before and after are related by \<open>R\<close>.\<close>

definition within :: "(app_meta \<Rightarrow> app_meta \<Rightarrow> bool) \<Rightarrow> ('e, ('c, 'x) gui_state, 'a) io \<Rightarrow> bool" where
  "within R m \<longleftrightarrow> (\<forall>s. R (w_meta (snd s)) (w_meta (snd (snd (m s)))))"

named_theorems quiets \<open>code that leaves the tables alone\<close>

lemma quiet_at: "quiet m \<Longrightarrow> w_meta (snd (snd (m s))) = w_meta (snd s)"
  by (simp only: quiet_def)

lemma quietD: "quiet m \<Longrightarrow> m s = (r, t) \<Longrightarrow> w_meta (snd t) = w_meta (snd s)"
  unfolding quiet_def by (metis snd_conv)

lemma quiet_basic [quiets]:
  "quiet (io_return x)" "quiet (io_raise e)" "quiet (io_lift r)" "quiet (io_guard b e)"
  "quiet (io_gets g)" "quiet (gets_outside f)" "quiet (or_error e v)"
  by (simp_all add: quiet_def gets_outside_def or_error_def)

lemma quiet_parts [quiets]: "quiet (outside p)" "quiet (io_on_fst q)" "quiet (io_on_snd (pg_read P f))"
  by (auto simp: quiet_def outside_def io_on_fst_def io_on_snd_def pg_read_def split: prod.split option.split)

lemma quiet_bind [quiets]:
  assumes "quiet m" and "\<And>x. quiet (f x)"
  shows "quiet (io_bind m f)"
  unfolding quiet_def
proof
  fix s
  obtain r t where run: "m s = (r, t)" by (rule prod.exhaust)
  show "w_meta (snd (snd (io_bind m f s))) = w_meta (snd s)"
    using quietD [OF assms(1) run] by (cases r) (simp_all add: run quiet_at [OF assms(2)])
qed

lemma quiet_then [quiets]: "quiet m \<Longrightarrow> quiet k \<Longrightarrow> quiet (io_then m k)"
  unfolding io_then_def by (rule quiet_bind)

lemma quiet_catch [quiets]:
  assumes "quiet m" and "\<And>e. quiet (h e)"
  shows "quiet (io_catch m h)"
  unfolding quiet_def
proof
  fix s
  obtain r t where run: "m s = (r, t)" by (rule prod.exhaust)
  show "w_meta (snd (snd (io_catch m h s))) = w_meta (snd s)"
    using quietD [OF assms(1) run] by (cases r) (simp_all add: run quiet_at [OF assms(2)])
qed

lemma quiet_cases [quiets]:
  "quiet a \<Longrightarrow> quiet b \<Longrightarrow> quiet (if c then a else b)"
  "quiet a \<Longrightarrow> (\<And>x. quiet (f x)) \<Longrightarrow> quiet (case z of None \<Rightarrow> a | Some x \<Rightarrow> f x)"
  "(\<And>x y. quiet (g x y)) \<Longrightarrow> quiet (case p of (x, y) \<Rightarrow> g x y)"
  by (auto split: option.split prod.split)

lemma quiet_list [quiets]:
  "quiet a \<Longrightarrow> (\<And>x xs. quiet (f x xs)) \<Longrightarrow> quiet (case l of [] \<Rightarrow> a | x # xs \<Rightarrow> f x xs)"
  by (auto split: list.split)

lemma quiet_sum [quiets]:
  "(\<And>x. quiet (f x)) \<Longrightarrow> (\<And>y. quiet (g y)) \<Longrightarrow> quiet (case z of Inl x \<Rightarrow> f x | Inr y \<Rightarrow> g y)"
  by (auto split: sum.split)

lemma quiet_library [quiets]:
  "quiet m \<Longrightarrow> quiet (raising m)"
  "quiet (db_read ctx q)" "quiet (announce ctx meta schema)"
  "quiet k \<Longrightarrow> quiet (bind_texts vs k)"
  "quiet (db_read_now ctx q2)"
  unfolding raising_def db_read_def announce_def bind_texts_def
  by (intro quiets quiet_bind quiet_then quiet_catch | assumption)+
    (auto simp: quiet_def db_read_now_def split: prod.split option.split)

lemma quiet_fetches [quiets]:
  "quiet (fetch_connection ctx cid)" "quiet (load_record ctx cid)" "quiet (fetch_report ctx rid)"
  "quiet (encrypt_secret ctx secret)" "quiet (secret_change_of ctx body)" "quiet (check_sql ctx G cid sql)"
  "quiet (stored_password ctx cid)" "quiet (run_check ctx K engine details password)"
  "quiet (live_tables ctx record)" "quiet (describe_live ctx record table)"
  unfolding fetch_connection_def load_record_def fetch_report_def encrypt_secret_def secret_change_of_def
    check_sql_def stored_password_def run_check_def live_tables_def describe_live_def
  by (intro quiets | assumption)+

lemma quiet_endpoints [quiets]:
  "quiet (readyz ctx)" "quiet (admin_list_connections ctx)" "quiet (test_settings ctx K body)" "quiet (get_access ctx cid)"
  "quiet (list_subjects ctx)" "quiet (table_grid ctx cid)" "quiet (tool_grid ctx)" "quiet (schema_list_tables ctx cid)"
  "quiet (schema_get_table ctx cid table)" "quiet (list_reports ctx q rc)" "quiet (list_audit ctx R f fld desc page page_size)"
  "quiet (get_audit_entry ctx R i)" "quiet (audit_facets ctx)" "quiet (list_admin_log ctx lf page page_size)"
  unfolding readyz_def admin_list_connections_def test_settings_def get_access_def list_subjects_def table_grid_def
    tool_grid_def schema_list_tables_def schema_get_table_def list_reports_def list_audit_def get_audit_entry_def
    audit_facets_def list_admin_log_def Let_def
  by (intro quiets | assumption)+

lemma quiet_health [quiets]: "quiet (health ctx wall clk http pool p95 hours)"
  unfolding health_def Let_def tick_def database_check_def redis_check_def mcp_server_check_def probe_def
  by (intro quiets | assumption)+

lemma quiet_sign_in [quiets]: "quiet (current_user ctx cred)" "quiet (require_admin ctx cred)"
  unfolding require_admin_def current_user_def by (intro quiets | assumption)+

text \<open>One transaction between code that leaves the tables alone.\<close>

lemma within_at: "within R m \<Longrightarrow> R (w_meta (snd s)) (w_meta (snd (snd (m s))))"
  by (simp only: within_def)

lemma withinI: "(\<And>s. R (w_meta (snd s)) (w_meta (snd (snd (m s))))) \<Longrightarrow> within R m"
  unfolding within_def by blast

lemma within_quiet: "quiet m \<Longrightarrow> (\<And>x. R x x) \<Longrightarrow> within R m"
  by (simp add: within_def quiet_def)

lemma within_before:
  assumes "quiet m" and "\<And>x. within R (f x)" and "\<And>x. R x x"
  shows "within R (io_bind m f)"
proof (rule withinI)
  fix s
  obtain r t where run: "m s = (r, t)" by (rule prod.exhaust)
  have same: "w_meta (snd t) = w_meta (snd s)" by (rule quietD [OF assms(1) run])
  show "R (w_meta (snd s)) (w_meta (snd (snd (io_bind m f s))))"
  proof (cases r)
    case (Inr x)
    with within_at [OF assms(2), of t x] show ?thesis by (simp add: run same)
  qed (simp add: run same assms(3))
qed

lemma within_after:
  assumes "within R m" and "\<And>x. quiet (f x)"
  shows "within R (io_bind m f)"
proof (rule withinI)
  fix s
  obtain r t where run: "m s = (r, t)" by (rule prod.exhaust)
  with within_at [OF assms(1), of s] have "R (w_meta (snd s)) (w_meta (snd t))" by simp
  then show "R (w_meta (snd s)) (w_meta (snd (snd (io_bind m f s))))"
    by (cases r) (simp_all add: run quiet_at [OF assms(2)])
qed

lemma within_db_begin:
  fixes ctx :: "('c, 'x) gui_context"
  assumes "\<And>now m v m'. tx now m = (Inr v, m') \<Longrightarrow> R m m'" and "\<And>x. R x x"
  shows "within R (db_begin ctx tx)"
proof (rule withinI)
  fix s :: "('c, 'x) gui_state"
  obtain c w where s: "s = (c, w)" by (rule prod.exhaust)
  obtain r s' where run: "db_begin ctx tx (c, w) = (r, s')" by (rule prod.exhaust)
  from run show "R (w_meta (snd s)) (w_meta (snd (snd (db_begin ctx tx s))))"
    by (cases rule: db_begin_cases) (auto simp: s run assms)
qed

lemma within_catch_raise:
  assumes "within R m" and "\<And>e. quiet (h e)"
  shows "within R (io_catch m h)"
proof (rule withinI)
  fix s
  obtain r t where run: "m s = (r, t)" by (rule prod.exhaust)
  with within_at [OF assms(1), of s] have "R (w_meta (snd s)) (w_meta (snd t))" by simp
  then show "R (w_meta (snd s)) (w_meta (snd (snd (io_catch m h s))))"
    by (cases r) (simp_all add: run quiet_at [OF assms(2)])
qed

text \<open>A read whose answer the transaction relies on: the tables are still those it saw.\<close>

lemma within_read:
  fixes ctx :: "('c, 'x) gui_context" and q :: "app_meta \<Rightarrow> 'a"
  assumes "\<And>x. within (\<lambda>m m'. q m = x \<longrightarrow> R m m') (f x)" and "\<And>x. R x x"
  shows "within R (io_bind (db_read ctx q) f)"
proof (rule withinI)
  fix s :: "('c, 'x) gui_state"
  obtain r t where run: "db_read ctx q s = (r, t)" by (rule prod.exhaust)
  have same: "w_meta (snd t) = w_meta (snd s)" by (rule quietD [OF quiet_library(2) run])
  show "R (w_meta (snd s)) (w_meta (snd (snd (io_bind (db_read ctx q) f s))))"
  proof (cases r)
    case (Inr x)
    with run have "q (w_meta (snd s)) = x"
      by (cases s) (auto simp: db_read_def raising_def io_catch_def io_on_snd_def pg_read_def
          split: prod.splits option.splits sum.splits)
    with within_at [OF assms(1), of t x] Inr show ?thesis by (simp add: run same)
  qed (simp add: run same assms(2))
qed

lemma bind_assoc: "io_bind (io_bind m f) g = io_bind m (\<lambda>x. io_bind (f x) g)"
  by (auto simp: io_bind_def fun_eq_iff split: prod.split sum.split)

lemma within_or_error:
  assumes "\<And>x. v = Some x \<Longrightarrow> within R (g x)" and "\<And>m. R m m"
  shows "within R (io_bind (or_error e v) g)"
  using assms by (cases v) (auto simp: or_error_def io_bind_def within_def)

lemma within_fetch_connection:
  assumes "\<And>current. within (\<lambda>m m'. (\<exists>c. find_connection cid m = Some c \<and> current = connection_out_of m c)
      \<longrightarrow> R m m') (g current)" and "\<And>m. R m m"
  shows "within R (io_bind (fetch_connection ctx cid) g)"
  unfolding fetch_connection_def bind_assoc
proof (rule within_read)
  fix v
  show "within (\<lambda>m m'. map_option (connection_out_of m) (find_connection cid m) = v \<longrightarrow> R m m')
      (io_bind (or_error no_connection v) g)"
  proof (rule within_or_error)
    fix current assume v: "v = Some current"
    show "within (\<lambda>m m'. map_option (connection_out_of m) (find_connection cid m) = v \<longrightarrow> R m m') (g current)"
      using assms(1) [of current] unfolding within_def v by (metis (no_types, lifting) map_option_eq_Some)
  qed (simp add: assms(2))
qed (rule assms(2))

lemma within_fetch_report:
  assumes "\<And>current. within (\<lambda>m m'. report_q rid m = Some current \<longrightarrow> R m m') (g current)" and "\<And>m. R m m"
  shows "within R (io_bind (fetch_report ctx rid) g)"
  unfolding fetch_report_def bind_assoc
proof (rule within_read)
  fix v
  show "within (\<lambda>m m'. report_q rid m = v \<longrightarrow> R m m') (io_bind (or_error no_report v) g)"
    using assms by (intro within_or_error) auto
qed (rule assms(2))

lemma within_check_sql:
  assumes "within (\<lambda>m m'. (\<exists>c. find_connection cid m = Some c \<and> report_sql_ok (gc_ucd ctx) G sql (cn_engine c))
      \<longrightarrow> R m m') k" and "\<And>m. R m m"
  shows "within R (io_then (check_sql ctx G cid sql) k)"
  unfolding check_sql_def io_then_def bind_assoc
proof (rule within_read)
  fix v
  let ?R = "\<lambda>m m'. map_option cn_engine (find_connection cid m) = v \<longrightarrow> R m m'"
  have raised: "within ?R (io_bind (io_raise e) (\<lambda>_. k))" for e
    by (simp add: within_def io_bind_def assms(2))
  show "within ?R (io_bind (case v of None \<Rightarrow> io_raise (HttpError 422 (lit ''That connection doesn'' @ [39] @ lit ''t exist.''))
       | Some e \<Rightarrow> (case validate (gc_ucd ctx) G REPORT_MAX_SQL sql e None of
              Inl err \<Rightarrow> io_raise (refused_sql err) | Inr vq \<Rightarrow> io_return ())) (\<lambda>_. k))"
  proof (cases v)
    case None
    then show ?thesis using raised by simp
  next
    case (Some e)
    show ?thesis
    proof (cases "validate (gc_ucd ctx) G REPORT_MAX_SQL sql e None")
      case (Inl err)
      with Some raised show ?thesis by simp
    next
      case (Inr vq)
      have "\<exists>c. find_connection cid m = Some c \<and> report_sql_ok (gc_ucd ctx) G sql (cn_engine c)"
        if "map_option cn_engine (find_connection cid m) = Some e" for m
        using that Inr by (auto simp: report_sql_ok_def)
      with assms(1) have "within ?R k" unfolding within_def Some by blast
      with Some Inr show ?thesis by (simp add: within_def io_bind_def)
    qed
  qed
qed (rule assms(2))

lemma within_mono: "within R m \<Longrightarrow> (\<And>x y. R x y \<Longrightarrow> R' x y) \<Longrightarrow> within R' m"
  by (simp add: within_def)

lemma within_void: "within R m \<Longrightarrow> within R (io_void m)"
  unfolding io_void_def by (rule within_after) (auto intro: quiets)

text \<open>Code before and after the one transaction of an endpoint, and the transaction.\<close>

lemma within_tx_then:
  assumes "\<And>now m v m'. tx now m = (Inr v, m') \<Longrightarrow> R m m'" and "\<And>m. R m m" and "\<And>v. quiet (k v)"
  shows "within R (io_bind (db_begin ctx tx) k)"
  by (rule within_after [OF within_db_begin assms(3)]) (auto intro: assms(1,2))

section \<open>The endpoints\<close>

abbreviation within_change ::
  "('c, 'x) gui_context \<Rightarrow> ('x, 'q) gui_app \<Rightarrow> gui_user \<Rightarrow> gui_request \<Rightarrow> (('c, 'x) gui_state, 'a) api \<Rightarrow> bool" where
  "within_change ctx A u req \<equiv>
     within (change ctx (ga_sqlglot A) u req)"

lemma within_lift:
  "(\<And>x. r = Inr x \<Longrightarrow> within R (f x)) \<Longrightarrow> (\<And>m. R m m) \<Longrightarrow> within R (io_bind (io_lift r) f)"
  by (cases r) (auto simp: within_def io_bind_def)

lemma within_encrypt:
  assumes "\<And>s. sealed ctx secret s \<Longrightarrow> within R (f s)" and "\<And>m. R m m"
  shows "within R (io_bind (encrypt_secret ctx secret) f)"
proof (cases "secret = None \<or> secret = Some []")
  case True
  then show ?thesis using assms(1) [of None]
    by (auto simp: encrypt_secret_def sealed_def within_def io_bind_def)
next
  case False
  then obtain ch cs where secret: "secret = Some (ch # cs)" by (cases secret) (auto simp: neq_Nil_conv)
  have "within R (f (Some t))" if "box_encrypt (gc_fernet ctx) (gc_keys ctx) n (ch # cs) = Inr t" for n t
    using that secret by (intro assms(1)) (auto simp: sealed_def)
  then show ?thesis unfolding secret encrypt_secret_def
    by (auto simp: within_def io_bind_def raising_def io_catch_def gets_outside_def assms(2)
        split: sum.split prod.split)
qed

lemma within_secret_change:
  assumes "\<And>s. sealed ctx (up_secret body) s \<Longrightarrow> within R (f (change_to (up_clear_secret body) s))" and "\<And>m. R m m"
  shows "within R (io_bind (secret_change_of ctx body) f)"
proof -
  have "secret_change_of ctx body = io_bind (encrypt_secret ctx (up_secret body))
      (\<lambda>s. io_return (change_to (up_clear_secret body) s))"
    unfolding secret_change_of_def by (rule arg_cong2 [where f = io_bind]) (auto split: option.split)
  moreover have "within R (io_bind (io_return (change_to (up_clear_secret body) s)) f)"
    if "sealed ctx (up_secret body) s" for s
    using assms(1) [OF that] by (simp add: within_def io_bind_def)
  ultimately show ?thesis by (simp add: bind_assoc within_encrypt assms(2))
qed

lemma within_create: "within_change ctx A u (CreateConnection b) (create_connection ctx u b)"
  unfolding create_connection_def
  by (rule within_lift within_encrypt within_before; (rule change.nothing | rule quiets)?)+
    (unfold io_then_def, rule within_after, rule within_catch_raise, rule within_db_begin,
      rule change.create, (auto simp: valid_settings_def intro: change.nothing intro!: quiets))

lemma within_update: "within_change ctx A u (UpdateConnection cid b) (update_connection ctx u cid b)"
  unfolding update_connection_def
proof (rule within_fetch_connection; (rule change.nothing)?)
  fix current
  let ?R = "\<lambda>m m'. (\<exists>c. find_connection cid m = Some c \<and> current = connection_out_of m c)
      \<longrightarrow> change ctx (ga_sqlglot A) u (UpdateConnection cid b) m m'"
  have same: "?R m m" for m by (simp add: change.nothing)
  show "within ?R (io_bind (io_lift (validate_details (gc_ucd ctx) (pt_str (gc_text ctx)) (cu_engine current) (up_details b)))
      (\<lambda>details. io_bind (secret_change_of ctx b) (\<lambda>secret.
        io_then (db_begin ctx (update_connection_tx u cid b current details secret))
          (io_then (announce ctx True True) (fetch_connection ctx cid)))))"
  proof (rule within_lift [OF within_secret_change])
    fix details stored
    assume valid: "validate_details (gc_ucd ctx) (pt_str (gc_text ctx)) (cu_engine current) (up_details b) = Inr details"
      and "sealed ctx (up_secret b) stored"
    with valid show "within ?R (io_then
        (db_begin ctx (update_connection_tx u cid b current details (change_to (up_clear_secret b) stored)))
        (io_then (announce ctx True True) (fetch_connection ctx cid)))"
      unfolding io_then_def
      by (intro within_tx_then)
        (auto simp: valid_settings_def connection_out_of_def change.nothing intro: change.update intro!: quiets)
  qed (rule same)+
qed

lemma within_delete: "within_change ctx A u (DeleteConnection cid) (delete_connection ctx u cid)"
  unfolding delete_connection_def
  by (rule within_fetch_connection; (rule change.nothing)?)
    (unfold io_then_def, rule within_tx_then, (auto intro: change.nothing change.delete intro!: quiets))

lemma within_tested: "within_change ctx A u (TestSavedConnection cid) (test_saved_connection ctx K cid)"
  unfolding test_saved_connection_def
  by (rule within_before; (rule change.nothing | rule quiets)?)+
    (unfold io_then_def, rule within_tx_then, (auto intro: change.nothing change.tested intro!: quiets))

lemma within_access: "within_change ctx A u (SetAccess cid ss) (set_access ctx u cid ss)"
  unfolding set_access_def
  by (rule within_fetch_connection; (rule change.nothing)?)
    (unfold io_then_def, rule within_tx_then, (auto intro: change.nothing change.access intro!: quiets))

lemma within_subject: "within_change ctx A u (AddSubject s name) (add_subject ctx u s name)"
  unfolding add_subject_def
  by (rule within_db_begin) (auto intro: change.nothing change.subject)

lemma within_tables: "within_change ctx A u (ChangeTables b) (change_table_access ctx u b)"
  unfolding change_table_access_def
  by (rule within_before; (rule change.nothing | rule quiets)?)
    (unfold io_then_def, rule within_tx_then, (auto intro: change.nothing change.tables intro!: quiets))

lemma within_describe: "within_change ctx A u (SetDescription b) (set_description ctx u b)"
  unfolding set_description_def Let_def
  by (rule within_before, rule quiets, rule within_before, rule quiets, rule within_before, rule quiets,
      rule within_tx_then)
    (auto intro: change.nothing change.describe intro!: quiets)

lemma within_clear: "within_change ctx A u (DeleteDescriptions cid table) (delete_descriptions ctx u cid table)"
  unfolding delete_descriptions_def
  by (rule within_before; (rule change.nothing | rule quiets)?)
    (unfold io_then_def, rule within_tx_then, (auto intro: change.nothing change.clear intro!: quiets))

lemma within_new_report: "within_change ctx A u (CreateReport b) (create_report ctx (ga_sqlglot A) u b)"
  unfolding create_report_def
  by (rule within_check_sql; (rule change.nothing)?)
    (rule within_before, rule quiets, unfold io_then_def, rule within_tx_then,
      (auto intro: change.nothing change.new_report intro!: quiets))

lemma within_edit_report: "within_change ctx A u (UpdateReport rid b) (update_report ctx (ga_sqlglot A) u rid b)"
  unfolding update_report_def
  by (rule within_fetch_report; (rule change.nothing)?; rule within_check_sql; (simp add: change.nothing)?)
    (unfold io_then_def, rule within_tx_then, (auto intro: change.nothing change.edit_report intro!: quiets))

lemma within_drop_report: "within_change ctx A u (DeleteReport rid) (delete_report ctx u rid)"
  unfolding delete_report_def
  by (rule within_before; (rule change.nothing | rule quiets)?)
    (rule within_db_begin, (auto intro: change.nothing change.drop_report))

lemma within_me: "within_change ctx A u GetMe (me ctx u)"
  unfolding me_def io_then_def
  by (rule within_tx_then) (auto intro: change.nothing change.meet intro!: quiets)

lemma within_tools: "within_change ctx A u (ChangeTools b) (change_tool_access ctx u b)"
proof (cases "fst ` set (oc_changes b) \<subseteq> TOOL_NAMES")
  case True
  then show ?thesis
    unfolding change_tool_access_def Let_def io_then_def
    by - (rule within_before, rule quiets, rule within_tx_then,
        (auto intro: change.nothing change.tools intro!: quiets))
next
  case False
  then have "sorted_strs (set (map fst (oc_changes b)) - TOOL_NAMES) \<noteq> []"
    by (auto simp: sorted_strs_def)
  then show ?thesis
    by (simp add: within_def change_tool_access_def Let_def io_then_def io_bind_def change.nothing)
qed

lemma handle_within: "within_change ctx A u req (handle ctx A u req)"
  by (cases req) (auto intro!: within_void within_create within_update within_delete within_tested within_access
      within_subject within_tables within_describe within_clear within_new_report within_edit_report
      within_drop_report within_me within_tools within_quiet quiets intro: change.nothing)

text \<open>
  \<open>signed_in ctx cred s u\<close>: the dependency \<open>current_user\<close> answers \<open>u\<close>.  A request changes the tables
  only as \<open>change\<close> allows it for the person who is signed in, and only an administrator may
  do more than sign in.
\<close>

definition signed_in :: "('c, 'x) gui_context \<Rightarrow> pystr option \<Rightarrow> ('c, 'x) gui_state \<Rightarrow> gui_user \<Rightarrow> bool" where
  "signed_in ctx cred s u \<longleftrightarrow> fst (current_user ctx cred s) = Inr u"

definition permitted :: "gui_user \<Rightarrow> gui_request \<Rightarrow> bool" where
  "permitted u req \<longleftrightarrow> request_ok req \<and> (gu_is_admin u \<or> req = GetMe)"

lemma admin_only_run:
  "admin_only ctx cred h s =
     (case current_user ctx cred s of
        (Inl e, t) \<Rightarrow> (Inl e, t)
      | (Inr u, t) \<Rightarrow> (if gu_is_admin u then h u t
                       else (Inl (HttpError 403 (lit ''This action needs an administrator.'')), t)))"
  by (auto simp: admin_only_def require_admin_def io_bind_def io_then_def split: prod.split sum.split)

definition admin_endpoint ::
  "('c, 'x) gui_context \<Rightarrow> ('x, 'q) gui_app \<Rightarrow> pystr option \<Rightarrow> gui_request \<Rightarrow> (('c, 'x) gui_state, unit) api" where
  "admin_endpoint ctx A cred req = admin_only ctx cred (\<lambda>u.
     if request_ok req then handle ctx A u req else io_raise (HttpError 422 (lit ''Unprocessable Content'')))"

lemma gui_serve_cases:
  "gui_serve ctx A cred req =
     (if req = Readyz then io_void (readyz ctx)
      else if req = GetMe then io_bind (current_user ctx cred) (\<lambda>u. io_void (me ctx u))
      else admin_endpoint ctx A cred req)"
  by (cases req) (simp_all add: gui_serve_def admin_endpoint_def)

lemma gui_serve_change:
  assumes run: "gui_serve ctx A cred req s = (r, s')"
  shows "w_meta (snd s') = w_meta (snd s)
     \<or> (\<exists>u. signed_in ctx cred s u \<and> permitted u req
           \<and> change ctx (ga_sqlglot A) u req (w_meta (snd s)) (w_meta (snd s')))"
proof -
  obtain a t where user: "current_user ctx cred s = (a, t)" by (rule prod.exhaust)
  have same: "w_meta (snd t) = w_meta (snd s)" by (rule quietD [OF quiet_sign_in(1) user])
  consider (ready) "req = Readyz" | (myself) "req = GetMe" | (admin) "req \<noteq> Readyz" "req \<noteq> GetMe" by blast
  then show ?thesis
  proof cases
    case ready
    have "quiet (io_void (readyz ctx))" unfolding io_void_def by (intro quiets)
    from quietD [OF this] run ready show ?thesis by (simp add: gui_serve_cases)
  next
    case myself
    show ?thesis
    proof (cases a)
      case (Inr u)
      with run myself user have "io_void (me ctx u) t = (r, s')" by (simp add: gui_serve_cases)
      with within_at [OF within_void [OF within_me], of ctx A u t] myself Inr user same show ?thesis
        by (auto simp: signed_in_def permitted_def)
    qed (use run myself user same in \<open>simp add: gui_serve_cases\<close>)
  next
    case admin
    with run have run': "admin_endpoint ctx A cred req s = (r, s')" by (simp add: gui_serve_cases)
    show ?thesis
    proof (cases "\<exists>u. a = Inr u \<and> gu_is_admin u \<and> request_ok req")
      case True
      then obtain u where u: "a = Inr u" "gu_is_admin u" "request_ok req" by blast
      with run' user have "handle ctx A u req t = (r, s')" by (simp add: admin_endpoint_def admin_only_run)
      with within_at [OF handle_within, of ctx A u req t] u user same show ?thesis
        by (auto simp: signed_in_def permitted_def)
    next
      case False
      with run' user same show ?thesis
        by (auto simp: admin_endpoint_def admin_only_run split: sum.splits if_splits)
    qed
  qed
qed

end
