(* ===== verification/AdminEffects.thy ===== *)
theory AdminEffects
  imports AdminApp
begin

text \<open>
  What the transactions of the admin backend do to the tables: they keep the constraints of the
  schema, and they leave the row of the admin log that tells who did it.
\<close>

section \<open>The constraints of the schema\<close>

lemmas meta_ok_defs = app_meta_ok_def connections_ok_def access_ok_def table_perms_ok_def tool_perms_ok_def
  descriptions_ok_def audit_ok_def known_ok_def admin_log_ok_def reports_ok_def connection_ids_def

text \<open>One table at a time.\<close>

lemma ids_update [simp]:
  "connection_ids (m\<lparr>am_connection_access := a\<rparr>) = connection_ids m"
  "connection_ids (m\<lparr>am_table_permissions := p\<rparr>) = connection_ids m"
  "connection_ids (m\<lparr>am_tool_permissions := t\<rparr>) = connection_ids m"
  "connection_ids (m\<lparr>am_descriptions := d\<rparr>) = connection_ids m"
  "connection_ids (m\<lparr>am_known_subjects := k\<rparr>) = connection_ids m"
  "connection_ids (m\<lparr>am_reports := r\<rparr>) = connection_ids m"
  "connection_ids (m\<lparr>am_audit_log := l\<rparr>) = connection_ids m"
  "connection_ids (m\<lparr>am_next_description := n\<rparr>) = connection_ids m"
  by (simp_all add: connection_ids_def)

lemma meta_ok_update:
  assumes "app_meta_ok m"
  shows "access_ok (connection_ids m) a \<Longrightarrow> app_meta_ok (m\<lparr>am_connection_access := a\<rparr>)"
    "table_perms_ok (connection_ids m) p \<Longrightarrow> app_meta_ok (m\<lparr>am_table_permissions := p\<rparr>)"
    "tool_perms_ok t \<Longrightarrow> app_meta_ok (m\<lparr>am_tool_permissions := t\<rparr>)"
    "descriptions_ok (connection_ids m) (am_next_description m) d \<Longrightarrow> app_meta_ok (m\<lparr>am_descriptions := d\<rparr>)"
    "descriptions_ok (connection_ids m) n d \<Longrightarrow> app_meta_ok (m\<lparr>am_descriptions := d, am_next_description := n\<rparr>)"
    "known_ok k \<Longrightarrow> app_meta_ok (m\<lparr>am_known_subjects := k\<rparr>)"
    "reports_ok (connection_ids m) r \<Longrightarrow> app_meta_ok (m\<lparr>am_reports := r\<rparr>)"
  using assms by (simp_all add: app_meta_ok_def connection_ids_def)

lemma meta_okD:
  assumes "app_meta_ok m"
  shows "access_ok (connection_ids m) (am_connection_access m)"
    "table_perms_ok (connection_ids m) (am_table_permissions m)"
    "tool_perms_ok (am_tool_permissions m)" "known_ok (am_known_subjects m)"
    "descriptions_ok (connection_ids m) (am_next_description m) (am_descriptions m)"
    "reports_ok (connection_ids m) (am_reports m)" "connections_ok (am_connections m)"
  using assms by (simp_all add: app_meta_ok_def)

lemma ok_filter:
  "access_ok ids a \<Longrightarrow> access_ok ids (filter A a)"
  "table_perms_ok ids p \<Longrightarrow> table_perms_ok ids (filter B p)"
  "tool_perms_ok t \<Longrightarrow> tool_perms_ok (filter C t)"
  "descriptions_ok ids n d \<Longrightarrow> descriptions_ok ids n (filter D d)"
  "reports_ok ids r \<Longrightarrow> reports_ok ids (filter E r)"
  by (auto simp: access_ok_def table_perms_ok_def tool_perms_ok_def descriptions_ok_def reports_ok_def
      list_all_iff distinct_map_filter)

named_theorems table_steps \<open>statements that keep the constraints of the schema\<close>

lemma keeps_run: "io_keeps I m \<Longrightarrow> I s \<Longrightarrow> m s = (r, t) \<Longrightarrow> I t"
  by (rule io_keepsD)

lemma insert_connection_ok [table_steps]: "io_keeps app_meta_ok (insert_connection c)"
  unfolding insert_connection_def
  by (rule keeps_bind_params) (auto simp: io_keeps_def meta_ok_defs list_all_iff)

lemma update_rows_ids [simp]:
  assumes "\<And>c. cn_id (f c) = cn_id c"
  shows "connection_ids (update_rows now cid f m) = connection_ids m"
proof -
  have "map cn_id (am_connections (update_rows now cid f m)) = map cn_id (am_connections m)"
    using assms by (auto simp: update_rows_def connections_updated_at_def)
  then have "set (map cn_id (am_connections (update_rows now cid f m))) = set (map cn_id (am_connections m))"
    by (simp only:)
  then show ?thesis by (simp add: connection_ids_def)
qed

lemma update_rows_ok:
  assumes "\<And>c. cn_id (f c) = cn_id c" "\<And>c. cn_name (f c) = cn_name c"
  shows "io_keeps app_meta_ok (io_modify (update_rows now cid f))"
proof -
  have same: "map cn_id (am_connections (update_rows now cid f m)) = map cn_id (am_connections m)"
    "map cn_name (am_connections (update_rows now cid f m)) = map cn_name (am_connections m)" for m
    using assms by (auto simp: update_rows_def connections_updated_at_def)
  have "connections_ok (am_connections (update_rows now cid f m)) = connections_ok (am_connections m)" for m
  proof -
    have "list_all (\<lambda>c. connection_name_ok (cn_name c)) (am_connections (update_rows now cid f m))
        = list_all connection_name_ok (map cn_name (am_connections (update_rows now cid f m)))"
      by (simp add: list.pred_map comp_def)
    also have "\<dots> = list_all (\<lambda>c. connection_name_ok (cn_name c)) (am_connections m)"
      by (simp only: same) (simp add: list.pred_map comp_def)
    finally show ?thesis by (simp only: connections_ok_def same)
  qed
  moreover have "am_connection_access (update_rows now cid f m) = am_connection_access m"
    "am_table_permissions (update_rows now cid f m) = am_table_permissions m"
    "am_tool_permissions (update_rows now cid f m) = am_tool_permissions m"
    "am_descriptions (update_rows now cid f m) = am_descriptions m"
    "am_audit_log (update_rows now cid f m) = am_audit_log m"
    "am_known_subjects (update_rows now cid f m) = am_known_subjects m"
    "am_admin_log (update_rows now cid f m) = am_admin_log m"
    "am_reports (update_rows now cid f m) = am_reports m"
    "am_next_description (update_rows now cid f m) = am_next_description m"
    "am_next_audit (update_rows now cid f m) = am_next_audit m"
    "am_next_admin (update_rows now cid f m) = am_next_admin m" for m
    by (simp_all add: update_rows_def)
  ultimately show ?thesis
    using assms(1) by (simp add: io_keeps_def app_meta_ok_def)
qed

lemma delete_connection_row_ok [table_steps]: "io_keeps app_meta_ok (delete_connection_row cid)"
  unfolding io_keeps_def
proof (intro allI impI)
  fix m assume ok: "app_meta_ok m"
  have gone: "access_ok ids a \<Longrightarrow> access_ok (ids - {cid}) (filter (\<lambda>r. ac_connection r \<noteq> cid) a)"
    "table_perms_ok ids p \<Longrightarrow> table_perms_ok (ids - {cid}) (filter (\<lambda>r. tp_connection r \<noteq> cid) p)"
    "descriptions_ok ids n d \<Longrightarrow> descriptions_ok (ids - {cid}) n (filter (\<lambda>r. ds_connection r \<noteq> cid) d)"
    "reports_ok ids r \<Longrightarrow> \<forall>q\<in>set r. rp_connection q \<noteq> cid \<Longrightarrow> reports_ok (ids - {cid}) r"
    "connections_ok cs \<Longrightarrow> connections_ok (filter (\<lambda>c. cn_id c \<noteq> cid) cs)" for ids a p n d r cs
    by (auto simp: access_ok_def table_perms_ok_def descriptions_ok_def reports_ok_def connections_ok_def
        list_all_iff distinct_map_filter)
  have ids: "cn_id ` {c \<in> set (am_connections m). cn_id c \<noteq> cid} = connection_ids m - {cid}"
    by (auto simp: connection_ids_def)
  show "app_meta_ok (snd (delete_connection_row cid m))"
  proof (cases "list_ex (\<lambda>r. rp_connection r = cid) (am_reports m)")
    case False
    then show ?thesis
      using ok by (simp add: delete_connection_row_def app_meta_ok_def connection_ids_def [of "m\<lparr>am_connections := cs\<rparr>" for cs]
          connection_ids_def [of "x\<lparr>am_descriptions := d\<rparr>" for x d] ids gone list_ex_iff)
  qed (simp add: delete_connection_row_def ok)
qed

lemma delete_access_ok [table_steps]: "io_keeps app_meta_ok (delete_access cid s)"
  unfolding delete_access_def
  by (rule keeps_bind_params) (auto simp: io_keeps_def ok_filter meta_okD intro!: meta_ok_update)

lemma added_ok:
  "access_ok ids a \<Longrightarrow> ac_connection r1 \<in> ids \<Longrightarrow> subject_ok (ac_subject r1)
    \<Longrightarrow> \<forall>q\<in>set a. ac_connection q = ac_connection r1 \<longrightarrow> ac_subject q \<noteq> ac_subject r1 \<Longrightarrow> access_ok ids (a @ [r1])"
  "table_perms_ok ids p \<Longrightarrow> tp_connection r2 \<in> ids \<Longrightarrow> subject_ok (tp_subject r2) \<Longrightarrow> tp_table r2 \<noteq> []
    \<Longrightarrow> \<forall>q\<in>set p. tp_connection q = tp_connection r2 \<longrightarrow> tp_subject q = tp_subject r2 \<longrightarrow> tp_table q \<noteq> tp_table r2
    \<Longrightarrow> table_perms_ok ids (p @ [r2])"
  "tool_perms_ok t \<Longrightarrow> subject_ok (tl_subject r3) \<Longrightarrow> tl_tool r3 \<noteq> []
    \<Longrightarrow> \<forall>q\<in>set t. tl_subject q = tl_subject r3 \<longrightarrow> tl_tool q \<noteq> tl_tool r3 \<Longrightarrow> tool_perms_ok (t @ [r3])"
  "known_ok k \<Longrightarrow> subject_ok (kn_subject r4) \<Longrightarrow> kn_subject r4 \<notin> kn_subject ` set k \<Longrightarrow> known_ok (k @ [r4])"
  by (auto simp: access_ok_def table_perms_ok_def tool_perms_ok_def known_ok_def)

lemma insert_access_ok [table_steps]: "io_keeps app_meta_ok (insert_access now by cid s)"
  unfolding insert_access_def
  by (rule keeps_bind_params) (auto simp: io_keeps_def meta_okD list_ex_iff intro!: meta_ok_update added_ok)

lemma grant_table_ok [table_steps]: "io_keeps app_meta_ok (grant_table now by cid s table)"
  unfolding grant_table_def
  by (rule keeps_bind_params) (auto simp: io_keeps_def meta_okD list_ex_iff intro!: meta_ok_update added_ok)

lemma revoke_table_ok [table_steps]: "io_keeps app_meta_ok (revoke_table cid s table)"
  unfolding revoke_table_def
  by (rule keeps_bind_params) (auto simp: io_keeps_def ok_filter meta_okD intro!: meta_ok_update)

lemma grant_tool_ok [table_steps]: "io_keeps app_meta_ok (grant_tool now by s tool)"
  unfolding grant_tool_def
  by (rule keeps_bind_params) (auto simp: io_keeps_def meta_okD list_ex_iff intro!: meta_ok_update added_ok)

lemma revoke_tool_ok [table_steps]: "io_keeps app_meta_ok (revoke_tool s tool)"
  unfolding revoke_tool_def
  by (rule keeps_bind_params) (auto simp: io_keeps_def ok_filter meta_okD intro!: meta_ok_update)

lemma name_known_subjects: "kn_subject ` set (name_known now s name rs) = insert s (kn_subject ` set rs)"
  by (induction rs) (auto simp: image_iff)

lemma name_known_ok: "known_ok rs \<Longrightarrow> subject_ok s \<Longrightarrow> known_ok (name_known now s name rs)"
proof (induction rs)
  case (Cons r rs)
  then show ?case
    using name_known_subjects [of now s name rs] by (auto simp: known_ok_def)
qed (simp add: known_ok_def)

lemma note_known_subjects: "kn_subject ` set (note_known now s name rs) = insert s (kn_subject ` set rs)"
  by (induction rs) (auto simp: image_iff)

lemma note_known_ok: "known_ok rs \<Longrightarrow> subject_ok s \<Longrightarrow> known_ok (note_known now s name rs)"
proof (induction rs)
  case (Cons r rs)
  then show ?case
    using note_known_subjects [of now s name rs] by (auto simp: known_ok_def)
qed (simp add: known_ok_def)

lemma remember_subject_ok [table_steps]: "io_keeps app_meta_ok (remember_subject now s)"
  unfolding remember_subject_def
  by (rule keeps_bind_params) (auto simp: io_keeps_def meta_okD list_ex_iff intro!: meta_ok_update added_ok)

lemma upsert_subject_ok [table_steps]: "io_keeps app_meta_ok (upsert_subject now s name)"
  unfolding upsert_subject_def
  by (rule keeps_bind_params) (auto simp: io_keeps_def meta_okD intro!: meta_ok_update name_known_ok)

lemma note_subject_ok: "app_meta_ok m \<Longrightarrow> note_subject now sn m = Inr m' \<Longrightarrow> app_meta_ok m'"
  by (auto simp: note_subject_def meta_okD split: if_splits intro!: meta_ok_update note_known_ok)

lemma me_tx_ok [table_steps]: "io_keeps app_meta_ok (me_tx u now)"
  unfolding me_tx_def io_keeps_def by (auto split: sum.split intro: note_subject_ok)

lemma description_added:
  "descriptions_ok ids n rs \<Longrightarrow> ds_id r = n \<Longrightarrow> ds_connection r \<in> ids \<Longrightarrow> ds_table r \<noteq> [] \<Longrightarrow> ds_column r \<noteq> Some []
    \<Longrightarrow> \<forall>q\<in>set rs. \<not> same_place (ds_connection r) (ds_table r) (ds_column r) q \<Longrightarrow> descriptions_ok ids (Suc n) (rs @ [r])"
  by (auto simp: descriptions_ok_def list_all_iff same_place_def intro: less_SucI)

lemma upsert_description_ok [table_steps]:
  "io_keeps app_meta_ok (upsert_description now by cid table column description)"
proof -
  have edited: "descriptions_ok ids n (map (\<lambda>r. if P r
       then r\<lparr>ds_description := d, ds_updated_by := b, ds_updated_at := t\<rparr> else r) rs) = descriptions_ok ids n rs"
    for ids n P d b t rs
    by (simp add: descriptions_ok_def comp_def list.pred_map if_distrib [of ds_id] if_distrib [of ds_connection]
        if_distrib [of ds_table] if_distrib [of ds_column] cong: if_cong)
  show ?thesis
    unfolding upsert_description_def
    by (rule keeps_bind_params)
      (auto simp: io_keeps_def edited meta_okD list_ex_iff intro!: meta_ok_update description_added)
qed

lemma report_steps_ok [table_steps]:
  "io_keeps app_meta_ok (insert_report r)" "io_keeps app_meta_ok (update_report_row now rid body)"
  "io_keeps app_meta_ok (io_modify (\<lambda>m. m\<lparr>am_reports := filter P (am_reports m)\<rparr>))"
  "io_keeps app_meta_ok (io_modify (\<lambda>m. m\<lparr>am_descriptions := filter Q (am_descriptions m)\<rparr>))"
proof -
  have added: "reports_ok ids (rs @ [r])"
    if "reports_ok ids rs" "rp_id r \<notin> rp_id ` set rs" "rp_name r \<noteq> []" "rp_connection r \<in> ids" for ids rs r
    using that by (auto simp: reports_ok_def)
  have edited: "reports_ok ids (map (\<lambda>r. if rp_id r = rid then f r else r) rs)"
    if "reports_ok ids rs" "\<And>r. rp_id (f r) = rp_id r"
      "rid \<in> rp_id ` set rs \<Longrightarrow> \<forall>r. rp_name (f r) \<noteq> [] \<and> rp_connection (f r) \<in> ids" for ids rs f
    using that by (auto simp: reports_ok_def comp_def list_all_iff if_distrib [of rp_id] cong: if_cong)
  show "io_keeps app_meta_ok (insert_report r)"
    unfolding insert_report_def
    by (rule keeps_bind_params) (auto simp: io_keeps_def meta_okD intro!: meta_ok_update added)
  show "io_keeps app_meta_ok (update_report_row now rid body)"
    unfolding update_report_row_def
    by (rule keeps_bind_params) (auto simp: io_keeps_def meta_okD intro!: meta_ok_update edited)
  show "io_keeps app_meta_ok (io_modify (\<lambda>m. m\<lparr>am_reports := filter P (am_reports m)\<rparr>))"
    "io_keeps app_meta_ok (io_modify (\<lambda>m. m\<lparr>am_descriptions := filter Q (am_descriptions m)\<rparr>))"
    by (auto simp: io_keeps_def meta_okD ok_filter intro!: meta_ok_update)
qed

text \<open>The transactions.\<close>

named_theorems tx_defs \<open>the transactions of the endpoints\<close>

lemmas [tx_defs] = create_connection_tx_def update_connection_tx_def delete_connection_tx_def set_access_tx_def
  add_subject_tx_def change_tables_tx_def change_tools_tx_def set_description_tx_def delete_descriptions_tx_def
  create_report_tx_def update_report_tx_def delete_report_tx_def record_check_def

lemma or_error_ok [table_steps]: "io_keeps I (or_error e v)"
  by (simp add: or_error_def io_keeps_basic)

lemma tx_ok [table_steps]:
  "io_keeps app_meta_ok (create_connection_tx u b details secret new_id now)"
  "io_keeps app_meta_ok (update_connection_tx u cid ub out details sc now)"
  "io_keeps app_meta_ok (delete_connection_tx u cid out now)"
  "io_keeps app_meta_ok (set_access_tx u cid name ss now)"
  "io_keeps app_meta_ok (add_subject_tx P u s dn now)"
  "io_keeps app_meta_ok (change_tables_tx P u cid name s granted revoked now)"
  "io_keeps app_meta_ok (change_tools_tx P u s granted revoked now)"
  "io_keeps app_meta_ok (set_description_tx u cid name table column description now)"
  "io_keeps app_meta_ok (delete_descriptions_tx lower u cid name table now)"
  "io_keeps app_meta_ok (create_report_tx u ri new_id now)"
  "io_keeps app_meta_ok (update_report_tx u rid ri current now)"
  "io_keeps app_meta_ok (delete_report_tx u rid current now)"
  "io_keeps app_meta_ok (record_check cid result now)"
  unfolding tx_defs Let_def
  by (intro table_steps io_keeps_bind io_keeps_then io_keeps_each io_keeps_if io_keeps_basic log_change_ok
      keeps_bind_params update_rows_ok | simp)+

theorem change_meta_ok:
  "change ctx G u req m m' \<Longrightarrow> app_meta_ok m \<Longrightarrow> app_meta_ok m'"
  by (induction rule: change.induct) (blast dest: tx_ok [THEN keeps_run] me_tx_ok [THEN keeps_run])+

section \<open>What a step leaves alone\<close>

definition leaves :: "(app_meta \<Rightarrow> 'k) \<Rightarrow> 'a tx \<Rightarrow> bool" where
  "leaves f p \<longleftrightarrow> (\<forall>k. io_keeps (\<lambda>m. f m = k) p)"

named_theorems leaves \<open>code that leaves a part of the tables alone\<close>

lemma leavesI: "(\<And>m. f (snd (p m)) = f m) \<Longrightarrow> leaves f p"
  by (simp add: leaves_def io_keeps_def)

lemma leavesD: "leaves f p \<Longrightarrow> p m = (r, m') \<Longrightarrow> f m' = f m"
  unfolding leaves_def by (blast dest: io_keepsD)

lemma leaves_basic [leaves]:
  "leaves f (io_return x)" "leaves f (io_raise e)" "leaves f (io_lift r)" "leaves f (io_guard b e)"
  "leaves f (io_gets g)" "leaves f (or_error e v)"
  by (simp_all add: leaves_def io_keeps_basic or_error_def)

lemma leaves_bind [leaves]: "leaves f p \<Longrightarrow> (\<And>x. leaves f (k x)) \<Longrightarrow> leaves f (io_bind p k)"
  by (auto simp: leaves_def intro!: io_keeps_bind)

lemma leaves_then [leaves]: "leaves f p \<Longrightarrow> leaves f q \<Longrightarrow> leaves f (io_then p q)"
  by (auto simp: leaves_def intro!: io_keeps_then)

lemma leaves_each [leaves]: "(\<And>x. leaves f (g x)) \<Longrightarrow> leaves f (io_each g xs)"
  by (auto simp: leaves_def intro!: io_keeps_each)

lemma leaves_params [leaves]: "leaves f k \<Longrightarrow> leaves f (bind_params ss ds k)"
  by (auto simp: leaves_def intro!: keeps_bind_params)

lemma leaves_if [leaves]: "leaves f p \<Longrightarrow> leaves f q \<Longrightarrow> leaves f (if b then p else q)"
  by simp

lemma bind_params_Inr: "bind_params ss ds k m = (Inr v, m') \<Longrightarrow> k m = (Inr v, m')"
  by (auto simp: bind_params_def io_then_Inr_iff)

end
