(* ===== verification/AdminRecord.thy ===== *)
theory AdminRecord
  imports AdminEffects
begin

text \<open>
  The admin log as a record: an endpoint that changes the settings leaves exactly one row of the
  one who called it, in the transaction that makes the change; whatever leaves no row changes
  no more than what the endpoints say it may.
\<close>

section \<open>The row\<close>

definition record_of :: "gui_user \<Rightarrow> pystr \<Rightarrow> admin_log_row \<Rightarrow> bool" where
  "record_of u action r \<longleftrightarrow> al_actor_sub r = gu_sub u \<and> al_actor_name r = gu_name u \<and> al_action r = action"

definition on_record :: "gui_user \<Rightarrow> pystr \<Rightarrow> app_meta \<Rightarrow> app_meta \<Rightarrow> bool" where
  "on_record u action m m' \<longleftrightarrow> (\<exists>r. record_of u action r \<and> am_admin_log m' = am_admin_log m @ [r])"

text \<open>The name of the action in the log, per request.\<close>

fun action_of :: "gui_request \<Rightarrow> pystr" where
  "action_of (CreateConnection b) = lit ''connection.create''"
| "action_of (UpdateConnection cid b) = lit ''connection.update''"
| "action_of (DeleteConnection cid) = lit ''connection.delete''"
| "action_of (SetAccess cid ss) = lit ''connection.access''"
| "action_of (AddSubject s name) = lit ''subject.add''"
| "action_of (ChangeTables b) = lit ''permission.tables''"
| "action_of (ChangeTools b) = lit ''permission.tools''"
| "action_of (SetDescription b) = lit ''schema.describe''"
| "action_of (DeleteDescriptions cid table) = lit ''schema.clear''"
| "action_of (CreateReport b) = lit ''report.create''"
| "action_of (UpdateReport rid b) = lit ''report.update''"
| "action_of (DeleteReport rid) = lit ''report.delete''"
| "action_of _ = []"

text \<open>\<open>logs u a p\<close>: when \<open>p\<close> succeeds, it has added one row of \<open>u\<close>'s with action \<open>a\<close>.\<close>

definition logs :: "gui_user \<Rightarrow> pystr \<Rightarrow> 'a tx \<Rightarrow> bool" where
  "logs u a p \<longleftrightarrow> (\<forall>m v m'. p m = (Inr v, m') \<longrightarrow> on_record u a m m')"

lemma logsD: "logs u a p \<Longrightarrow> p m = (Inr v, m') \<Longrightarrow> on_record u a m m'"
  by (simp add: logs_def)

named_theorems logged \<open>what a step does to the admin log\<close>

lemma logs_log_change [logged]: "logs u a (log_change now u a tt target details)"
  by (auto simp: logs_def log_change_def bind_params_def on_record_def record_of_def io_then_Inr_iff)

lemma logs_bind [logged]: "leaves am_admin_log p \<Longrightarrow> (\<And>x. logs u a (f x)) \<Longrightarrow> logs u a (io_bind p f)"
  by (fastforce simp: logs_def io_bind_Inr_iff on_record_def dest: leavesD)

lemma logs_then [logged]: "leaves am_admin_log p \<Longrightarrow> logs u a q \<Longrightarrow> logs u a (io_then p q)"
  unfolding io_then_def by (rule logs_bind)

lemma logs_first [logged]: "logs u a p \<Longrightarrow> leaves am_admin_log q \<Longrightarrow> logs u a (io_then p q)"
  by (fastforce simp: logs_def io_then_Inr_iff on_record_def dest: leavesD)

lemma leaves_log_steps [logged]:
  "leaves am_admin_log (insert_connection c)" "leaves am_admin_log (io_modify (update_rows now cid f))" "leaves am_admin_log (delete_connection_row cid)"
  "leaves am_admin_log (delete_access cid s)" "leaves am_admin_log (insert_access now by cid s)" "leaves am_admin_log (grant_table now by cid s table)"
  "leaves am_admin_log (revoke_table cid s table)" "leaves am_admin_log (grant_tool now by s tool)" "leaves am_admin_log (revoke_tool s tool)"
  "leaves am_admin_log (remember_subject now s)" "leaves am_admin_log (upsert_subject now s name)"
  "leaves am_admin_log (upsert_description now by cid table column description)" "leaves am_admin_log (insert_report r)"
  "leaves am_admin_log (update_report_row now rid body)" "leaves am_admin_log (io_modify (\<lambda>m. m\<lparr>am_reports := filter P (am_reports m)\<rparr>))"
  "leaves am_admin_log (io_modify (\<lambda>m. m\<lparr>am_descriptions := filter Q (am_descriptions m)\<rparr>))" "leaves am_admin_log (me_tx u now)"
  unfolding insert_connection_def delete_access_def insert_access_def grant_table_def revoke_table_def grant_tool_def
    revoke_tool_def remember_subject_def upsert_subject_def upsert_description_def insert_report_def update_report_row_def
  by (intro leaves_params leavesI;
      simp add: update_rows_def delete_connection_row_def me_tx_def note_subject_def split: sum.split)+

lemma tx_logs:
  "logs u (lit ''connection.create'') (create_connection_tx u b details secret new_id now)"
  "logs u (lit ''connection.delete'') (delete_connection_tx u cid out now)"
  "logs u (lit ''subject.add'') (add_subject_tx P u s dn now)"
  "logs u (lit ''permission.tables'') (change_tables_tx P u cid name s granted revoked now)"
  "logs u (lit ''permission.tools'') (change_tools_tx P u s granted revoked now)"
  "logs u (lit ''schema.describe'') (set_description_tx u cid name table column description now)"
  "logs u (lit ''schema.clear'') (delete_descriptions_tx lower u cid name table now)"
  "logs u (lit ''report.create'') (create_report_tx u ri new_id now)"
  "logs u (lit ''report.delete'') (delete_report_tx u rid current now)"
  unfolding tx_defs Let_def
  by ((rule logs_first, rule logs_log_change) | rule logs_log_change | rule logs_bind | rule logs_then | rule leaves_log_steps | rule leaves)+

section \<open>What leaves no row\<close>

text \<open>The settings of a connection and of a report, up to what Python's \<open>==\<close> takes for equal.\<close>

definition same_dict :: "(pystr \<times> json) list \<Rightarrow> (pystr \<times> json) list \<Rightarrow> bool" where
  "same_dict a b \<longleftrightarrow> a = b \<or> dict_eq True a b"

definition same_connection :: "connection_row \<Rightarrow> connection_row \<Rightarrow> bool" where
  "same_connection a b \<longleftrightarrow>
     cn_id a = cn_id b \<and> cn_name a = cn_name b \<and> cn_engine a = cn_engine b \<and> cn_description a = cn_description b
     \<and> same_dict (cn_details a) (cn_details b) \<and> cn_secret a = cn_secret b \<and> cn_active a = cn_active b
     \<and> cn_created_by a = cn_created_by b \<and> cn_created_at a = cn_created_at b"

definition same_report :: "report_row \<Rightarrow> report_row \<Rightarrow> bool" where
  "same_report a b \<longleftrightarrow>
     rp_id a = rp_id b \<and> rp_name a = rp_name b \<and> rp_description a = rp_description b
     \<and> rp_connection a = rp_connection b \<and> rp_sql a = rp_sql b
     \<and> same_dict (rp_chart_config a) (rp_chart_config b) \<and> rp_owner_sub a = rp_owner_sub b
     \<and> rp_created_at a = rp_created_at b"

definition same_settings :: "app_meta \<Rightarrow> app_meta \<Rightarrow> bool" where
  "same_settings m m' \<longleftrightarrow>
     list_all2 same_connection (am_connections m) (am_connections m')
     \<and> list_all2 same_report (am_reports m) (am_reports m')
     \<and> am_connection_access m' = am_connection_access m
     \<and> am_table_permissions m' = am_table_permissions m
     \<and> am_tool_permissions m' = am_tool_permissions m
     \<and> am_descriptions m' = am_descriptions m \<and> am_admin_log m' = am_admin_log m
     \<and> am_audit_log m' = am_audit_log m"

lemma same_connection_refl [simp]: "same_connection c c"
  by (simp add: same_connection_def same_dict_def)

lemma same_report_refl [simp]: "same_report r r"
  by (simp add: same_report_def same_dict_def)

lemma same_lists [simp]: "list_all2 same_connection cs cs" "list_all2 same_report rs rs"
  by (simp_all add: list.rel_refl)

lemma same_settings_refl [simp]: "same_settings m m"
  by (simp add: same_settings_def)

lemma list_all2_map_same: "(\<And>x. x \<in> set xs \<Longrightarrow> R x (f x)) \<Longrightarrow> list_all2 R xs (map f xs)"
  by (simp add: list_all2_map2 list.rel_refl_strong)

lemma me_same: "me_tx u now m = (Inr v, m') \<Longrightarrow> same_settings m m'"
  by (auto simp: me_tx_def note_subject_def same_settings_def split: sum.splits if_splits)

lemma checked_same: "record_check cid result now m = (Inr v, m') \<Longrightarrow> same_settings m m'"
  by (auto simp: record_check_def Let_def update_rows_def same_settings_def connections_updated_at_def
      same_connection_def same_dict_def dest!: bind_params_Inr intro!: list_all2_map_same)

text \<open>The row an endpoint has read is the only one with that id.\<close>

lemma found_row:
  assumes "distinct (map f xs)" "find (\<lambda>x. f x = k) xs = Some y" "z \<in> set xs" "f z = k"
  shows "z = y"
proof -
  have "y \<in> set xs" "f y = k" using assms(2) by (auto simp: find_Some_iff)
  with assms show ?thesis by (auto simp: distinct_map inj_on_def)
qed

lemma update_same:
  assumes ok: "app_meta_ok m" and found: "find_connection cid m = Some c"
    and tx: "update_connection_tx u cid b (connection_out_of m c) details secret now m = (Inr v, m')"
  shows "same_settings m m' \<or> on_record u (lit ''connection.update'') m m'"
proof (cases "changed_fields (connection_out_of m c) b details secret = []")
  case True
  let ?f = "\<lambda>c. c\<lparr>cn_description := up_description b, cn_details := details, cn_active := up_active b,
      cn_secret := new_secret secret (cn_secret c)\<rparr>"
  from tx True have m': "m' = update_rows now cid ?f m"
    by (auto simp: update_connection_tx_def io_then_Inr_iff dest!: bind_params_Inr)
  have "same_connection d (if cn_id d = cid then connections_updated_at now d (?f d) else d)"
    if "d \<in> set (am_connections m)" for d
  proof (cases "cn_id d = cid")
    case here: True
    have "d = c"
      using ok found that here unfolding app_meta_ok_def connections_ok_def find_connection_def
      by (blast intro: found_row)
    with True show ?thesis
      by (cases secret) (auto simp: changed_fields_def same_connection_def same_dict_def connections_updated_at_def
          connection_out_of_def split: if_splits)
  qed simp
  then have "same_settings m m'"
    by (simp add: m' same_settings_def update_rows_def list_all2_map_same)
  then show ?thesis ..
next
  case False
  have "logs u (lit ''connection.update'') (update_connection_tx u cid b (connection_out_of m c) details secret now)"
    unfolding update_connection_tx_def Let_def if_not_P [OF False] by (intro logged leaves)
  with tx show ?thesis by (simp add: logs_def)
qed

lemma access_same:
  assumes "set_access_tx u cid name ss now m = (Inr v, m')"
  shows "same_settings m m' \<or> on_record u (lit ''connection.access'') m m'"
proof -
  let ?old = "map ac_subject (filter (\<lambda>a. ac_connection a = cid) (am_connection_access m))"
  let ?gone = "filter (\<lambda>s. s \<notin> set ss) ?old" and ?new = "filter (\<lambda>s. s \<notin> set ?old) ss"
  let ?row = "if ?gone = [] \<and> ?new = [] then io_return ()
     else log_change now u (lit ''connection.access'') (lit ''connection'') (Some name)
        [(lit ''granted'', sorted_texts (map subject_text ?new)), (lit ''revoked'', sorted_texts (map subject_text ?gone))]"
  from assms have run: "io_then (io_each (delete_access cid) ?gone)
      (io_then (io_each (insert_access now (gu_sub u) cid) ?new) ?row) m = (Inr v, m')"
    by (simp add: set_access_tx_def Let_def io_bind_def)
  show ?thesis
  proof (cases "?gone = [] \<and> ?new = []")
    case True
    with run have "m' = m" by (simp add: io_then_def io_bind_def)
    then show ?thesis by simp
  next
    case False
    have "logs u (lit ''connection.access'') (io_then (io_each (delete_access cid) ?gone)
      (io_then (io_each (insert_access now (gu_sub u) cid) ?new) ?row))"
      unfolding if_not_P [OF False] by (intro logged leaves)
    with run show ?thesis by (simp add: logs_def)
  qed
qed

lemma report_same:
  assumes ok: "app_meta_ok m" and found: "report_q rid m = Some current"
    and tx: "update_report_tx u rid b current now m = (Inr v, m')"
  shows "same_settings m m' \<or> on_record u (lit ''report.update'') m m'"
proof (cases "report_changes current b = []")
  case True
  from tx True have run: "update_report_row now rid b m = (Inr v, m')"
    by (auto simp: update_report_tx_def io_then_Inr_iff)
  obtain row where row: "find (\<lambda>r. rp_id r = rid) (am_reports m) = Some row" "ro_row current = row"
    using found by (auto simp: report_q_def report_out_of_def bind_eq_Some_conv)
  have "same_report r (r\<lparr>rp_name := ri_name b, rp_description := ri_description b,
                  rp_connection := ri_connection_id b, rp_sql := ri_sql b,
                  rp_chart_config := ri_chart_config b, rp_updated_at := now\<rparr>)"
    if "r \<in> set (am_reports m)" "rp_id r = rid" for r
  proof -
    have "r = row" using ok row that unfolding app_meta_ok_def reports_ok_def by (blast intro: found_row)
    with True row show ?thesis
      by (auto simp: report_changes_def same_report_def same_dict_def split: if_splits)
  qed
  with run have "same_settings m m'"
    by (auto simp: update_report_row_def same_settings_def dest!: bind_params_Inr split: if_splits
        intro!: list_all2_map_same)
  then show ?thesis ..
next
  case False
  have "logs u (lit ''report.update'') (update_report_tx u rid b current now)"
    unfolding update_report_tx_def Let_def if_not_P [OF False] by (intro logged leaves)
  with tx show ?thesis by (simp add: logs_def)
qed

lemma change_recorded:
  assumes "change ctx G u req m m'" "app_meta_ok m"
  shows "same_settings m m' \<or> on_record u (action_of req) m m'"
  using assms
proof (induction rule: change.induct)
  case (update cid m c b details stored now v m')
  then show ?case unfolding action_of.simps by (intro update_same)
next
  case (access cid m c name ss now v m')
  then show ?case unfolding action_of.simps by (intro access_same)
next
  case (edit_report rid m current b c now v m')
  then show ?case unfolding action_of.simps by (intro report_same)
qed (unfold action_of.simps, (blast intro: tx_logs [THEN logsD] me_same checked_same same_settings_refl)+)

end
