(* ===== verification/AdminTables.thy ===== *)
theory AdminTables
  imports AdminRecord
begin

text \<open>
  What the tables hold, whatever requests and tool calls have been made: constraints of the
  schema, checked reports, settings that open, passwords that decrypt.
\<close>

section \<open>What a connection and a report hold\<close>

definition connection_good :: "('c, 'x) gui_context \<Rightarrow> connection_row \<Rightarrow> bool" where
  "connection_good ctx c \<longleftrightarrow>
     engine_known (cn_engine c) \<and> (\<exists>asked. distinct (map fst asked) \<and> valid_settings ctx (cn_engine c) asked (cn_details c))
     \<and> (\<exists>asked. sealed ctx asked (cn_secret c))"

definition report_checked :: "('c, 'x) gui_context \<Rightarrow> 'q sqlglot \<Rightarrow> app_meta \<Rightarrow> report_row \<Rightarrow> bool" where
  "report_checked ctx G m r \<longleftrightarrow>
     (\<exists>c. find_connection (rp_connection r) m = Some c \<and> report_sql_ok (gc_ucd ctx) G (rp_sql r) (cn_engine c))"

definition contents_ok :: "('c, 'x) gui_context \<Rightarrow> 'q sqlglot \<Rightarrow> app_meta \<Rightarrow> bool" where
  "contents_ok ctx G m \<longleftrightarrow>
     list_all (connection_good ctx) (am_connections m) \<and> list_all (report_checked ctx G m) (am_reports m)"

text \<open>The two tables this is about.\<close>

definition core :: "app_meta \<Rightarrow> connection_row list \<times> report_row list" where
  "core m = (am_connections m, am_reports m)"

lemma find_connection_core: "core m' = core m \<Longrightarrow> find_connection cid m' = find_connection cid m"
  by (simp add: core_def find_connection_def)

lemma contents_core: "core m' = core m \<Longrightarrow> contents_ok ctx G m \<Longrightarrow> contents_ok ctx G m'"
  unfolding contents_ok_def report_checked_def [abs_def] find_connection_core by (simp add: core_def)

named_theorems core_steps \<open>statements on other tables\<close>

lemma log_change_core [core_steps]: "leaves core (log_change now u a tt target details)"
  unfolding log_change_def by (intro leaves_params leavesI) (simp add: core_def)

lemma other_steps [core_steps]:
  "leaves core (delete_access cid s)" "leaves core (insert_access now by cid s)"
  "leaves core (grant_table now by cid s table)" "leaves core (revoke_table cid s table)"
  "leaves core (grant_tool now by s tool)" "leaves core (revoke_tool s tool)"
  "leaves core (remember_subject now s)" "leaves core (upsert_subject now s name)"
  "leaves core (upsert_description now by cid table column description)"
  "leaves core (io_modify (\<lambda>m. m\<lparr>am_descriptions := filter Q (am_descriptions m)\<rparr>))" "leaves core (me_tx u now)"
  unfolding delete_access_def insert_access_def grant_table_def revoke_table_def grant_tool_def
    revoke_tool_def remember_subject_def upsert_subject_def upsert_description_def
  by ((rule leaves_params)?, rule leavesI, simp add: core_def me_tx_def note_subject_def split: sum.split)+

lemma other_tx:
  "leaves core (set_access_tx u cid name ss now)" "leaves core (add_subject_tx P u s dn now)"
  "leaves core (change_tables_tx P u cid name s granted revoked now)"
  "leaves core (change_tools_tx P u s granted revoked now)"
  "leaves core (set_description_tx u cid name table column description now)"
  "leaves core (delete_descriptions_tx lower u cid name table now)"
  unfolding tx_defs Let_def by (intro leaves core_steps)+

section \<open>The transactions on them\<close>

lemma then_leaves:
  assumes "io_then p q m = (Inr v, m')" "leaves f q"
  obtains m1 where "p m = (Inr (), m1)" "f m' = f m1"
  using assms by (auto simp: io_then_Inr_iff dest: leavesD)

lemma contents_found: "contents_ok ctx G m \<Longrightarrow> find_connection cid m = Some c \<Longrightarrow> connection_good ctx c"
  by (auto simp: contents_ok_def find_connection_def find_Some_iff list_all_iff)

definition new_connection ::
  "gui_user \<Rightarrow> connection_in \<Rightarrow> (pystr \<times> json) list \<Rightarrow> pystr option \<Rightarrow> uuid \<Rightarrow> datetime \<Rightarrow> connection_row" where
  "new_connection u b details secret new_id now =
     \<lparr>cn_id = new_id, cn_name = ni_name b, cn_engine = ni_engine b, cn_description = ni_description b,
      cn_details = details, cn_secret = secret, cn_active = ni_active b, cn_created_by = Some (gu_sub u),
      cn_created_at = now, cn_updated_at = now, cn_last_checked_at = None, cn_last_check_ok = None,
      cn_last_check_error = None\<rparr>"

lemma find_append_left: "find P xs = Some x \<Longrightarrow> find P (xs @ ys) = Some x"
  by (induction xs) auto

lemma create_contents:
  assumes ok: "contents_ok ctx G m" and known: "engine_known (ni_engine b)"
    and valid: "valid_settings ctx (ni_engine b) (ni_details b) details" "sealed ctx (ni_secret b) secret"
      "distinct (map fst (ni_details b))"
    and tx: "create_connection_tx u b details secret new_id now m = (Inr v, m')"
  shows "contents_ok ctx G m'"
proof -
  obtain c m1 where c: "m1 = m\<lparr>am_connections := am_connections m @ [c]\<rparr>" "cn_engine c = ni_engine b"
      "cn_details c = details" "cn_secret c = secret" and log: "core m' = core m1"
  proof -
    obtain m1 where "insert_connection (new_connection u b details secret new_id now) m = (Inr (), m1)" "core m' = core m1"
      using tx unfolding create_connection_tx_def new_connection_def by (rule then_leaves [where f = core]) (rule core_steps)
    then show ?thesis
      by (intro that [of m1 "new_connection u b details secret new_id now"])
        (auto simp: insert_connection_def new_connection_def dest!: bind_params_Inr split: if_splits)
  qed
  have "find_connection cid m1 = Some d" if "find_connection cid m = Some d" for cid d
    using that find_append_left by (simp add: find_connection_def c(1))
  with ok have reports: "list_all (report_checked ctx G m1) (am_reports m)"
    by (fastforce simp: contents_ok_def report_checked_def list_all_iff)
  have "connection_good ctx c" using known valid by (auto simp: connection_good_def c)
  with ok reports have "contents_ok ctx G m1" by (simp add: contents_ok_def c(1))
  with log show ?thesis by (rule contents_core)
qed

lemma find_updated:
  assumes "\<And>c. cn_id (f c) = cn_id c"
  shows "find (\<lambda>c. cn_id c = k) (map f cs) = map_option f (find (\<lambda>c. cn_id c = k) cs)"
  using assms by (induction cs) auto

lemma update_rows_contents:
  assumes ok: "contents_ok ctx G m"
    and same: "\<And>c. cn_id (f c) = cn_id c" "\<And>c. cn_engine (f c) = cn_engine c"
    and good: "\<And>c. c \<in> set (am_connections m) \<Longrightarrow> cn_id c = cid \<Longrightarrow> connection_good ctx c \<Longrightarrow> connection_good ctx (f c)"
  shows "contents_ok ctx G (update_rows now cid f m)"
proof -
  let ?g = "\<lambda>c. if cn_id c = cid then connections_updated_at now c (f c) else c"
  have id: "cn_id (?g c) = cn_id c" and engine: "cn_engine (?g c) = cn_engine c" for c
    by (simp_all add: connections_updated_at_def same)
  have good': "connection_good ctx (?g c)" if "c \<in> set (am_connections m)" for c
    using good [OF that] ok that
    by (auto simp: contents_ok_def list_all_iff connections_updated_at_def connection_good_def)
  have "find_connection k (update_rows now cid f m) = map_option ?g (find_connection k m)" for k
    unfolding find_connection_def update_rows_def using find_updated [of ?g, OF id] by simp
  then have "report_checked ctx G (update_rows now cid f m) r = report_checked ctx G m r" for r
    using engine by (cases "find_connection (rp_connection r) m") (simp_all add: report_checked_def)
  moreover have "am_reports (update_rows now cid f m) = am_reports m"
    by (simp add: update_rows_def)
  moreover have "list_all (connection_good ctx) (am_connections (update_rows now cid f m))"
  proof -
    have "list_all (\<lambda>c. connection_good ctx (?g c)) (am_connections m)" using good' unfolding list_all_iff by blast
    then show ?thesis by (simp add: update_rows_def list.pred_map comp_def)
  qed
  ultimately show ?thesis using ok by (simp add: contents_ok_def list_all_iff)
qed

lemma update_contents:
  assumes meta: "app_meta_ok m" and ok: "contents_ok ctx G m" and found: "find_connection cid m = Some c"
    and valid: "valid_settings ctx (cn_engine c) (up_details b) details" "sealed ctx (up_secret b) stored"
      "distinct (map fst (up_details b))"
    and tx: "update_connection_tx u cid b out details (change_to (up_clear_secret b) stored) now m = (Inr v, m')"
  shows "contents_ok ctx G m'"
proof -
  let ?f = "\<lambda>c. c\<lparr>cn_description := up_description b, cn_details := details, cn_active := up_active b,
      cn_secret := new_secret (change_to (up_clear_secret b) stored) (cn_secret c)\<rparr>"
  obtain m1 where "bind_params (up_description b # written_secret (change_to (up_clear_secret b) stored)) [details]
      (io_modify (update_rows now cid ?f)) m = (Inr (), m1)" and "core m' = core m1"
    using tx unfolding update_connection_tx_def Let_def
    by (rule then_leaves [where f = core]) (rule leaves core_steps)+
  then have log: "core m' = core (update_rows now cid ?f m)" by (auto dest!: bind_params_Inr)
  have "contents_ok ctx G (update_rows now cid ?f m)"
  proof (rule update_rows_contents [OF ok])
    fix d assume "d \<in> set (am_connections m)" "cn_id d = cid" and good: "connection_good ctx d"
    then have "d = c"
      using meta found unfolding app_meta_ok_def connections_ok_def find_connection_def by (blast intro: found_row)
    moreover have "\<exists>asked. sealed ctx asked (new_secret (change_to (up_clear_secret b) stored) (cn_secret d))"
    proof (cases stored)
      case None
      have "sealed ctx None None" by (simp add: sealed_def)
      with None good show ?thesis by (auto simp: connection_good_def)
    qed (use valid(2) in auto)
    ultimately show "connection_good ctx (?f d)" using good valid by (auto simp: connection_good_def)
  qed simp_all
  with log show ?thesis by (rule contents_core)
qed

lemma delete_contents:
  assumes ok: "contents_ok ctx G m" and tx: "delete_connection_tx u cid out now m = (Inr v, m')"
  shows "contents_ok ctx G m'"
proof -
  obtain m1 where none: "\<not> list_ex (\<lambda>r. rp_connection r = cid) (am_reports m)"
      and m1: "m1 = snd (delete_connection_row cid m)" and log: "core m' = core m1"
  proof -
    have "io_then (delete_connection_row cid) (log_change now u (lit ''connection.delete'') (lit ''connection'')
        (Some (cu_name out)) [(lit ''engine'', JStr (cu_engine out)),
          (lit ''access_grants_removed'', JInt (int (cu_access_count out)))]) m = (Inr v, m')"
      using tx by (auto simp: delete_connection_tx_def io_then_def io_bind_def guard_res_def split: if_splits)
    then obtain m1 where "delete_connection_row cid m = (Inr (), m1)" "core m' = core m1"
      by (rule then_leaves [where f = core]) (rule core_steps)
    then show ?thesis by (intro that [of m1]) (auto simp: delete_connection_row_def split: if_splits)
  qed
  have "find (\<lambda>c. cn_id c = k) (filter (\<lambda>c. cn_id c \<noteq> cid) cs) = find (\<lambda>c. cn_id c = k) cs"
    if "k \<noteq> cid" for k and cs :: "connection_row list"
    using that by (induction cs) auto
  with none m1 have "find_connection (rp_connection r) m1 = find_connection (rp_connection r) m" if "r \<in> set (am_reports m)" for r
    using that by (simp add: find_connection_def delete_connection_row_def list_ex_iff)
  with ok none m1 have "contents_ok ctx G m1"
    by (auto simp: contents_ok_def report_checked_def list_all_iff delete_connection_row_def)
  with log show ?thesis by (rule contents_core)
qed

lemma report_contents:
  assumes ok: "contents_ok ctx G m" and checked: "find_connection (ri_connection_id b) m = Some c"
      "report_sql_ok (gc_ucd ctx) G (ri_sql b) (cn_engine c)"
  shows "create_report_tx u b new_id now m = (Inr v, m') \<Longrightarrow> contents_ok ctx G m'"
    and "update_report_tx u rid b current now m = (Inr v, m') \<Longrightarrow> contents_ok ctx G m'"
    and "delete_report_tx u rid current now m = (Inr v, m') \<Longrightarrow> contents_ok ctx G m'"
proof -
  have same: "report_checked ctx G (m\<lparr>am_reports := rs\<rparr>) = report_checked ctx G m" for rs
    by (simp add: report_checked_def find_connection_def fun_eq_iff)
  have one: "report_checked ctx G m r" if "rp_connection r = ri_connection_id b" "rp_sql r = ri_sql b" for r
    using checked that by (auto simp: report_checked_def)
  have all: "contents_ok ctx G (m\<lparr>am_reports := rs\<rparr>)"
    if "\<And>r. r \<in> set rs \<Longrightarrow> r \<in> set (am_reports m) \<or> rp_connection r = ri_connection_id b \<and> rp_sql r = ri_sql b" for rs
    using ok that one by (auto simp: contents_ok_def same list_all_iff)
  show "contents_ok ctx G m'" if tx: "create_report_tx u b new_id now m = (Inr v, m')"
  proof -
    obtain r where "core m' = core (m\<lparr>am_reports := am_reports m @ [r]\<rparr>)" "rp_connection r = ri_connection_id b" "rp_sql r = ri_sql b"
    proof -
      obtain r m1 where "insert_report r m = (Inr (), m1)" "core m' = core m1"
          "rp_connection r = ri_connection_id b" "rp_sql r = ri_sql b"
        using tx unfolding create_report_tx_def
        by (elim then_leaves [where f = core, OF _ log_change_core]) simp
      then show ?thesis
        by (intro that [of r]) (auto simp: insert_report_def dest!: bind_params_Inr split: if_splits)
    qed
    with all [of "am_reports m @ [r]"] show ?thesis by (auto elim!: contents_core)
  qed
  show "contents_ok ctx G m'" if tx: "update_report_tx u rid b current now m = (Inr v, m')"
  proof -
    obtain m1 where row: "update_report_row now rid b m = (Inr (), m1)" and log: "core m' = core m1"
      using tx unfolding update_report_tx_def Let_def by (rule then_leaves [where f = core]) (rule leaves core_steps)+
    obtain f where f: "\<And>r. rp_connection (f r) = ri_connection_id b \<and> rp_sql (f r) = ri_sql b"
      and m1: "m1 = m\<lparr>am_reports := map (\<lambda>r. if rp_id r = rid then f r else r) (am_reports m)\<rparr>"
    proof
      let ?f = "\<lambda>r. r\<lparr>rp_name := ri_name b, rp_description := ri_description b,
                  rp_connection := ri_connection_id b, rp_sql := ri_sql b,
                  rp_chart_config := ri_chart_config b, rp_updated_at := now\<rparr>"
      show "m1 = m\<lparr>am_reports := map (\<lambda>r. if rp_id r = rid then ?f r else r) (am_reports m)\<rparr>"
        using row by (auto simp: update_report_row_def dest!: bind_params_Inr split: if_splits)
    qed simp
    have "contents_ok ctx G m1" unfolding m1 using f by (intro all) auto
    with log show ?thesis by (rule contents_core)
  qed
  show "contents_ok ctx G m'" if tx: "delete_report_tx u rid current now m = (Inr v, m')"
  proof -
    have "core m' = core (m\<lparr>am_reports := filter (\<lambda>r. rp_id r \<noteq> rid) (am_reports m)\<rparr>)"
      by (rule then_leaves [where f = core, OF tx [unfolded delete_report_tx_def] log_change_core]) simp
    with all [of "filter (\<lambda>r. rp_id r \<noteq> rid) (am_reports m)"] show ?thesis by (auto elim!: contents_core)
  qed
qed

end
