(* ===== verification/AdminSamples.thy ===== *)
theory AdminSamples
  imports AdminTables CacheProps RegistryProps AdapterProps
begin

text \<open>
  A small deployment of the admin backend to run the theorems on: the in-memory Redis, a database
  server that always answers, a verifier that knows one administrator and one other person.
\<close>

definition demo_token :: "pystr \<Rightarrow> json list \<Rightarrow> access_token" where
  "demo_token who roles_held =
     \<lparr>at_token = who, at_client_id = lit ''gui'', at_scopes = [], at_expires_at = 0, at_resource = [],
      at_subject = who, at_claims = [(lit ''sub'', JStr who), (lit ''roles'', JList roles_held)]\<rparr>"

definition demo_verify :: "pystr \<Rightarrow> access_token option" where
  "demo_verify token =
     (if token = lit ''alice'' then Some (demo_token (lit ''alice'') [JStr (lit ''sql-admin'')])
      else if token = lit ''bob'' then Some (demo_token (lit ''bob'') []) else None)"

definition demo_pg :: "int pg" where
  "demo_pg = \<lparr>pg_reach = (\<lambda>x. (None, x)), pg_now = (\<lambda>_. 7), pg_lower = map ascii_lower1,
     pg_sort_key = (\<lambda>s. s), pg_search = (\<lambda>_ _ rs. map (\<lambda>r. (r, Fin 1 0)) rs)\<rparr>"

definition demo_ctx :: "(kv_data redis_state, int) gui_context" where
  "demo_ctx =
     \<lparr>gc_settings = \<lparr>gs_redis_configured = True, gs_oauth_roles_claim = lit ''roles'', gs_admin_role = lit ''sql-admin'',
        gs_mcp_health_url = None, gs_max_page_size = 200, gs_connection_test_timeout_ms = 5000\<rparr>,
      gc_pg = demo_pg, gc_cache = redis_cache mem_redis (\<lambda>x. (0, x)), gc_fernet = toy_fernet, gc_keys = [lit ''k1''],
      gc_registry = (\<lambda>rec. io_raise (py_error ''ValueError'')),
      gc_verify = (\<lambda>token. io_return (demo_verify token)),
      gc_text = \<lparr>pt_str = (\<lambda>_. []), pt_int = (\<lambda>_. None)\<rparr>, gc_ucd = ascii_ucd,
      gc_new_id = (\<lambda>_. lit ''id1''), gc_nonce = (\<lambda>_. 0)\<rparr>"

text \<open>A parser that takes every text for one query without tables.\<close>

definition demo_sqlglot :: "unit sqlglot" where
  "demo_sqlglot = \<lparr>sg_parse = (\<lambda>_ _. Inr [Some ()]), sg_is_query = (\<lambda>_. True), sg_has_class = (\<lambda>_. False),
     sg_find = (\<lambda>_ _. False), sg_scopes = (\<lambda>_. Inr [])\<rparr>"

definition demo_app :: "(int, unit) gui_app" where
  "demo_app = \<lparr>ga_sqlglot = demo_sqlglot,
     ga_checker = \<lparr>ck_driver = sample_driver [] False, ck_chain = (\<lambda>_. PyExc [] [] None None)\<rparr>,
     ga_json_text = (\<lambda>_. []), ga_wall = (\<lambda>x. (0, x)), ga_monotonic = (\<lambda>x. (0, x)),
     ga_http_get = (\<lambda>_. io_return 200), ga_percentile = (\<lambda>_. None)\<rparr>"

definition demo_admin :: gui_user where
  "demo_admin = \<lparr>gu_sub = lit ''alice'', gu_name = None, gu_roles = {lit ''sql-admin''}, gu_is_admin = True\<rparr>"

definition demo_start :: "(kv_data redis_state, int) gui_state" where
  "demo_start = (\<lparr>rs_down_until = 0, rs_ext = (\<lambda>_. None)\<rparr>, \<lparr>w_meta = empty_meta, w_ext = 0\<rparr>)"

definition demo_serve :: "string \<Rightarrow> gui_request \<Rightarrow> (kv_data redis_state, int) gui_state
    \<Rightarrow> (api_error + unit) \<times> (kv_data redis_state, int) gui_state" where
  "demo_serve who req s = gui_serve demo_ctx demo_app (Some (lit who)) req s"

text \<open>Alice registers a database with a password.\<close>

definition demo_request :: gui_request where
  "demo_request = CreateConnection
     \<lparr>ni_name = lit ''shop'', ni_engine = lit ''postgresql'', ni_description = [],
      ni_details = [(lit ''host'', JStr (lit ''db'')), (lit ''database'', JStr (lit ''shop'')),
        (lit ''username'', JStr (lit ''ro'')), (lit ''port'', JInt 5432), (lit ''schemas'', JNull)],
      ni_secret = Some (lit ''pw''), ni_active = True\<rparr>"

definition demo_made :: "(kv_data redis_state, int) gui_state" where
  "demo_made = snd (demo_serve ''alice'' demo_request demo_start)"

definition demo_row :: connection_row where
  "demo_row = \<lparr>cn_id = lit ''id1'', cn_name = lit ''shop'', cn_engine = lit ''postgresql'', cn_description = [],
     cn_details = [(lit ''host'', JStr (lit ''db'')), (lit ''database'', JStr (lit ''shop'')),
        (lit ''username'', JStr (lit ''ro'')), (lit ''port'', JInt 5432)],
     cn_secret = Some (fl_encrypt toy_fernet (lit ''k1'') 0 (lit ''pw'')), cn_active = True,
     cn_created_by = Some (lit ''alice''), cn_created_at = 7, cn_updated_at = 7, cn_last_checked_at = None,
     cn_last_check_ok = None, cn_last_check_error = None\<rparr>"

lemma demo_made_tables: "am_connections (w_meta (snd demo_made)) = [demo_row]"
  by code_simp

lemma demo_signed_in: "signed_in demo_ctx (Some (lit ''alice'')) s demo_admin"
proof -
  have "user_of_token demo_ctx (demo_verify (lit ''alice'')) = Inr demo_admin" by code_simp
  then show ?thesis
    by (cases s) (simp add: signed_in_def current_user_def demo_ctx_def io_bind_def raising_def io_catch_def
        outside_def io_return_def)
qed

end
