(* ===== verification/AdminProps.thy ===== *)
theory AdminProps
  imports AdminSamples
begin

text \<open>
  The admin backend as a whole: who may do what, what is on record, and what the tables hold
  after any history of requests and tool calls.
\<close>

section \<open>Histories\<close>

text \<open>
  The tables a deployment can reach from the empty ones the migrations create: requests with any
  token in any state of the cache and of the outside world, and audit rows of tool calls.
\<close>

inductive reachable :: "('c, 'x) gui_context \<Rightarrow> ('x, 'q) gui_app \<Rightarrow> app_meta \<Rightarrow> bool" for ctx A where
  fresh: "reachable ctx A empty_meta"
| request: "reachable ctx A (w_meta (snd s)) \<Longrightarrow> gui_serve ctx A cred req s = (r, s')
    \<Longrightarrow> reachable ctx A (w_meta (snd s'))"
| tool_call: "reachable ctx A m \<Longrightarrow> write_audit_tx now e m = Inr m' \<Longrightarrow> reachable ctx A m'"

lemma change_contents:
  assumes "change ctx G u req m m'" "permitted u req" "app_meta_ok m" "contents_ok ctx G m"
  shows "contents_ok ctx G m'"
  using assms
proof (induction rule: change.induct)
  case (create b details secret new_id now m v m')
  show ?case
    by (rule create_contents [OF create(6) _ create(1,2) _ create(3)])
      (use create(4) in \<open>simp_all add: permitted_def connection_in_ok_def\<close>)
next
  case (update cid m c b details stored now v m')
  show ?case
    by (rule update_contents [OF update(6,7,1-3) _ update(4)]) (use update(5) in \<open>simp add: permitted_def\<close>)
next
  case (delete cid m c now v m')
  then show ?case by (blast intro: delete_contents)
next
  case (tested cid result now m v m')
  then have "m' = update_rows now cid (\<lambda>c. c\<lparr>cn_last_checked_at := Some now, cn_last_check_ok := Some (ch_ok result),
      cn_last_check_error := if ch_ok result then None else Some (ch_message result)\<rparr>) m"
    by (auto simp: record_check_def Let_def dest!: bind_params_Inr)
  with tested(4) show ?case by (auto simp: connection_good_def intro!: update_rows_contents)
next
  case (drop_report rid current now m v m')
  have "core m' = core (m\<lparr>am_reports := filter (\<lambda>r. rp_id r \<noteq> rid) (am_reports m)\<rparr>)"
    by (rule then_leaves [where f = core, OF drop_report(1) [unfolded delete_report_tx_def] log_change_core]) simp
  moreover have "contents_ok ctx G (m\<lparr>am_reports := filter (\<lambda>r. rp_id r \<noteq> rid) (am_reports m)\<rparr>)"
    using drop_report(4) by (simp add: contents_ok_def report_checked_def find_connection_def list_all_iff)
  ultimately show ?case by (rule contents_core)
qed (blast intro: report_contents contents_core dest: other_tx [THEN leavesD] other_steps [THEN leavesD])+

lemma note_subjects_keeps:
  "note_subjects now ss m = Inr m' \<Longrightarrow> core m' = core m \<and> am_audit_log m' = am_audit_log m
     \<and> am_next_audit m' = am_next_audit m \<and> (app_meta_ok m \<longrightarrow> app_meta_ok m')"
proof (induction ss arbitrary: m)
  case (Cons s ss)
  then obtain m1 where m1: "note_subject now s m = Inr m1" "note_subjects now ss m1 = Inr m'"
    by (auto simp: res_bind_Inr_iff)
  with Cons.IH [OF m1(2)] note_subject_ok [OF _ m1(1)] show ?case
    by (auto simp: note_subject_def core_def split: if_splits)
qed simp

lemma tool_call_keeps:
  assumes "write_audit_tx now e m = Inr m'"
  shows "core m' = core m \<and> (app_meta_ok m \<longrightarrow> app_meta_ok m')"
proof -
  obtain m1 where m1: "note_subjects now (subjects_to_note e) m = Inr m1" "insert_audit now e m1 = Inr m'"
    using assms by (auto simp: write_audit_tx_def res_bind_Inr_iff)
  have "app_meta_ok m'" if "app_meta_ok m1"
  proof -
    have "audit_ok (Suc n) (rs @ [r])" if "audit_ok n rs" "au_id r = n" "0 \<le> ae_duration_ms (au_entry r)" for n rs r
      using that by (fastforce simp: audit_ok_def list_all_iff)
    with that m1(2) show ?thesis
      by (auto simp: insert_audit_def app_meta_ok_def connection_ids_def audit_storable_def split: if_splits)
  qed
  moreover have "core m' = core m1" using m1(2) by (auto simp: insert_audit_def core_def split: if_splits)
  ultimately show ?thesis using note_subjects_keeps [OF m1(1)] by simp
qed

lemma reachable_sound: "reachable ctx A m \<Longrightarrow> app_meta_ok m \<and> contents_ok ctx (ga_sqlglot A) m"
proof (induction rule: reachable.induct)
  case fresh
  show ?case by (simp add: empty_meta_ok contents_ok_def) (simp add: empty_meta_def)
next
  case (request s cred req r s')
  from gui_serve_change [OF request(2)] request(3) show ?case
    by (auto intro: change_meta_ok change_contents)
next
  case (tool_call m now e m')
  then show ?case using tool_call_keeps [OF tool_call(2)] by (auto elim!: contents_core)
qed

section \<open>Who may do what\<close>

lemma readyz_keeps: "readyz ctx s = (r, s') \<Longrightarrow> fst s' = fst s"
  by (cases s) (auto simp: readyz_def io_catch_def io_bind_def io_on_snd_def pg_read_def
      split: prod.splits option.splits sum.splits if_splits)

lemma current_user_keeps: "current_user ctx cred s = (r, t) \<Longrightarrow> fst t = fst s"
  by (cases s) (auto simp: current_user_def io_bind_def raising_def outside_def io_catch_def
      split: prod.splits option.splits sum.splits)

lemma refused_unchanged:
  assumes "gui_serve ctx A cred req s = (r, s')" "\<not> (\<exists>u. signed_in ctx cred s u \<and> permitted u req)"
  shows "(req = Readyz \<or> (\<exists>e. r = Inl e)) \<and> w_meta (snd s') = w_meta (snd s) \<and> fst s' = fst s"
proof (cases "req = Readyz")
  case True
  obtain p q where ready: "readyz ctx s = (p, q)" by (rule prod.exhaust)
  from assms(1) True have "s' = q" by (cases p) (simp_all add: gui_serve_cases io_void_def ready)
  with quietD [OF quiet_endpoints(1) ready] readyz_keeps [OF ready] True show ?thesis by simp
next
  case False
  obtain a t where user: "current_user ctx cred s = (a, t)" by (rule prod.exhaust)
  have same: "w_meta (snd t) = w_meta (snd s) \<and> fst t = fst s"
    using quietD [OF quiet_sign_in(1) user] current_user_keeps [OF user] by simp
  show ?thesis
  proof (cases a)
    case (Inl e)
    with assms(1) user same False show ?thesis
      by (auto simp: gui_serve_cases admin_endpoint_def admin_only_run split: if_splits)
  next
    case (Inr u)
    with user assms(2) have "\<not> permitted u req" by (auto simp: signed_in_def)
    with assms(1) Inr user same False show ?thesis
      by (auto simp: gui_serve_cases admin_endpoint_def admin_only_run permitted_def split: if_splits)
  qed
qed

text \<open>C7: the admin API answers administrators only: a request is answered only if the token's owner
  is signed in, its values are within bounds and the owner is an administrator (anyone signed in
  may ask who they are, anyone at all whether the server is ready); otherwise it ends in an error
  and neither the tables nor the cache have changed.\<close>

theorem only_administrators:
  "case gui_serve ctx A cred req s of (r, s') \<Rightarrow>
     (\<exists>u. signed_in ctx cred s u \<and> permitted u req)
     \<or> ((req = Readyz \<or> (\<exists>e. r = Inl e)) \<and> w_meta (snd s') = w_meta (snd s) \<and> fst s' = fst s)"
proof -
  obtain r s' where run: "gui_serve ctx A cred req s = (r, s')" by (rule prod.exhaust)
  show ?thesis using refused_unchanged [OF run] unfolding run prod.case by blast
qed

section \<open>What is on record\<close>

lemma demo_run: "gui_serve demo_ctx demo_app (Some (lit ''alice'')) demo_request demo_start
      = (fst (demo_serve ''alice'' demo_request demo_start), demo_made)"
  by (simp add: demo_made_def demo_serve_def)

lemma demo_reachable: "reachable demo_ctx demo_app (w_meta (snd demo_made))"
proof -
  have "reachable demo_ctx demo_app (w_meta (snd demo_start))" by (simp add: demo_start_def reachable.fresh)
  from reachable.request [OF this demo_run] show ?thesis .
qed

text \<open>C10: every change of the settings is on record: a request either leaves connections, grants,
  descriptions, reports and both logs as they were (check results, the time of an edit and
  values equal in Python aside), or it is an administrator's and has added exactly one row to
  the admin log, with the name of the action and the one who made it.\<close>

theorem changes_on_record:
  assumes "reachable ctx A (w_meta (snd s))" "gui_serve ctx A cred req s = (r, s')"
  shows "same_settings (w_meta (snd s)) (w_meta (snd s'))
    \<or> (\<exists>u. signed_in ctx cred s u \<and> gu_is_admin u \<and> on_record u (action_of req) (w_meta (snd s)) (w_meta (snd s')))"
proof -
  have ok: "app_meta_ok (w_meta (snd s))" using reachable_sound [OF assms(1)] ..
  have me: "same_settings m m'" if "change ctx G u GetMe m m'" for u m m' and G :: "'d sqlglot"
    using that by (cases rule: change.cases) (auto intro: me_same)
  from gui_serve_change [OF assms(2)] show ?thesis
  proof (elim disjE exE conjE)
    fix u assume u: "signed_in ctx cred s u" "permitted u req"
      and change: "change ctx (ga_sqlglot A) u req (w_meta (snd s)) (w_meta (snd s'))"
    show ?thesis
    proof (cases "req = GetMe")
      case False
      with u have "gu_is_admin u" by (simp add: permitted_def)
      with change_recorded [OF change ok] u show ?thesis by blast
    qed (use me change in blast)
  qed simp
qed

theorem changes_on_record_witness:
  "\<exists>u. signed_in demo_ctx (Some (lit ''alice'')) demo_start u \<and> gu_is_admin u
     \<and> on_record u (lit ''connection.create'') (w_meta (snd demo_start)) (w_meta (snd demo_made))"
proof -
  have "reachable demo_ctx demo_app (w_meta (snd demo_start))" by (simp add: demo_start_def reachable.fresh)
  moreover have "\<not> same_settings (w_meta (snd demo_start)) (w_meta (snd demo_made))"
    using demo_made_tables by (simp add: same_settings_def demo_start_def empty_meta_def)
  moreover have "action_of demo_request = lit ''connection.create''" by (simp add: demo_request_def)
  ultimately show ?thesis using changes_on_record [OF _ demo_run] by metis
qed

section \<open>What the tables hold\<close>

text \<open>C11: whatever requests are served and tool calls are written down, in whatever order, the tables
  satisfy every constraint of the schema, each saved report holds SQL that the validator accepts
  for the engine of its connection, and each connection has settings that passed the check and
  no password but an encrypted one.\<close>

theorem tables_stay_sound:
  "reachable ctx A m \<Longrightarrow>
     app_meta_ok m \<and> list_all (connection_good ctx) (am_connections m)
     \<and> list_all (report_checked ctx (ga_sqlglot A) m) (am_reports m)"
  using reachable_sound by (simp add: contents_ok_def)

theorem tables_stay_sound_witness:
  "am_connections (w_meta (snd demo_made)) = [demo_row]
   \<and> app_meta_ok (w_meta (snd demo_made)) \<and> list_all (connection_good demo_ctx) (am_connections (w_meta (snd demo_made)))
   \<and> list_all (report_checked demo_ctx (ga_sqlglot demo_app) (w_meta (snd demo_made))) (am_reports (w_meta (snd demo_made)))"
  using tables_stay_sound [OF demo_reachable] demo_made_tables by blast

section \<open>Values equal in Python\<close>

text \<open>An option that goes from \<open>1\<close> to \<open>true\<close> is stored, while the admin log says nothing of it: the values
  are compared with \<open>!=\<close>, for which the two are the same.\<close>

definition pool_details :: "json \<Rightarrow> (pystr \<times> json) list" where
  "pool_details v = [(lit ''path'', JStr (lit ''/a'')), (lit ''options'', JDict [(lit ''uri'', v)])]"

definition demo_pooled :: "(kv_data redis_state, int) gui_state" where
  "demo_pooled = snd (demo_serve ''alice'' (CreateConnection
     \<lparr>ni_name = lit ''shop'', ni_engine = lit ''sqlite'', ni_description = [], ni_details = pool_details (JInt 1),
      ni_secret = None, ni_active = True\<rparr>) demo_start)"

definition demo_repooled :: "(kv_data redis_state, int) gui_state" where
  "demo_repooled = snd (demo_serve ''alice'' (UpdateConnection (lit ''id1'')
     \<lparr>up_description = [], up_details = pool_details (JBool True), up_secret = None, up_clear_secret = False,
      up_active = True\<rparr>) demo_pooled)"

lemma true_for_one_not_recorded:
  "map cn_details (am_connections (w_meta (snd demo_pooled))) = [pool_details (JInt 1)]
   \<and> map cn_details (am_connections (w_meta (snd demo_repooled))) = [pool_details (JBool True)]
   \<and> am_admin_log (w_meta (snd demo_repooled)) = am_admin_log (w_meta (snd demo_pooled))"
  by code_simp

end
