(* ===== verification/AdminSettings.thy ===== *)
theory AdminSettings
  imports AdminProps
begin

text \<open>
  The settings of a connection: what \<open>validate_details\<close> lets through, and that what it lets through
  is enough for the MCP server to open the connection.
\<close>

section \<open>The check\<close>

lemma refuse_Inr [simp]: "refuse b status detail = Inr u \<longleftrightarrow> \<not> b"
  by (simp add: refuse_def)

lemma check_keys_Inr: "check_keys U d = Inr u \<longleftrightarrow> list_all (\<lambda>(k, v). \<not> looks_secret U k) d"
  by (induction d rule: check_keys.induct) (auto simp: res_bind_Inr_iff)

lemma check_options_Inr:
  "check_options U R d = Inr u \<longleftrightarrow> list_all (\<lambda>(k, v). \<not> looks_secret U k \<and> \<not> looks_secret U (py_str R v)) d"
  by (induction d) (auto simp: res_bind_Inr_iff)

lemma checked:
  "validate_details U R engine details = Inr stored \<longleftrightarrow>
     fst ` set details \<subseteq> set ALLOWED_DETAIL_KEYS
     \<and> list_all (\<lambda>(k, v). \<not> looks_secret U k) details
     \<and> simple_options (or_else (get_claim details (lit ''options'')) (JDict []))
     \<and> list_all (\<lambda>(k, v). \<not> looks_secret U k \<and> \<not> looks_secret U (py_str R v))
         (option_items (or_else (get_claim details (lit ''options'')) (JDict [])))
     \<and> (get_claim details (lit ''schemas'') = JNull \<or> schemas_list (get_claim details (lit ''schemas'')))
     \<and> (get_claim details (lit ''port'') = JNull \<or> port_in_range (get_claim details (lit ''port'')))
     \<and> list_all (\<lambda>f. truthy (get_claim details f)) (required_fields engine)
     \<and> \<not> (engine \<noteq> lit ''sqlite'' \<and> bad_host (py_str R (get_claim details (lit ''host''))))
     \<and> stored = filter (\<lambda>(k, v). \<not> blank v) details"
proof -
  have known: "sorted_strs (set (map fst details) - set ALLOWED_DETAIL_KEYS) = []
      \<longleftrightarrow> fst ` set details \<subseteq> set ALLOWED_DETAIL_KEYS"
    by (auto simp: sorted_strs_def)
  have required: "filter (\<lambda>f. \<not> truthy (get_claim details f)) (required_fields engine) = []
      \<longleftrightarrow> list_all (\<lambda>f. truthy (get_claim details f)) (required_fields engine)"
    by (simp add: filter_empty_conv list_all_iff)
  show ?thesis
    unfolding validate_details_def Let_def
    by (simp only: res_bind_Inr_iff refuse_Inr check_keys_Inr check_options_Inr known required not_not
        de_Morgan_conj ex_simps HOL.simp_thms sum.inject) blast
qed

text \<open>
  The same in terms of the values themselves: what a reader of the documentation would call
  settings that may be stored.  \<open>names_credential\<close>: a word for a credential occurs somewhere in the text.
\<close>

definition names_credential :: "pystr \<Rightarrow> bool" where
  "names_credential s \<longleftrightarrow>
     (\<exists>a m b. s = a @ m @ b
        \<and> (\<exists>w\<in>{''pass'', ''secret'', ''token'', ''pwd'', ''credential'', ''apikey'', ''api_key''}. same_ci w m))"

definition setting :: "(pystr \<times> json) list \<Rightarrow> string \<Rightarrow> json" where
  "setting details name = get_claim details (lit name)"

definition storable_option :: "(json \<Rightarrow> pystr) \<Rightarrow> pystr \<times> json \<Rightarrow> bool" where
  "storable_option R o1 \<longleftrightarrow>
     ((\<exists>s. snd o1 = JStr s) \<or> (\<exists>i. snd o1 = JInt i) \<or> (\<exists>b. snd o1 = JBool b))
     \<and> \<not> names_credential (fst o1) \<and> \<not> names_credential (py_str R (snd o1))"

definition storable_settings :: "(json \<Rightarrow> pystr) \<Rightarrow> pystr \<Rightarrow> (pystr \<times> json) list \<Rightarrow> bool" where
  "storable_settings R engine details \<longleftrightarrow>
     fst ` set details \<subseteq> lit ` {''host'', ''port'', ''database'', ''username'', ''path'', ''options'', ''schemas''}
     \<and> (\<forall>name \<in> fst ` set details. \<not> names_credential name)
     \<and> (\<not> truthy (setting details ''options'')
         \<or> (\<exists>opts. setting details ''options'' = JDict opts \<and> (\<forall>o1 \<in> set opts. storable_option R o1)))
     \<and> (setting details ''schemas'' = JNull \<or> (\<exists>names. setting details ''schemas'' = JList (map JStr names)))
     \<and> (setting details ''port'' = JNull \<or> setting details ''port'' = JBool True
         \<or> (\<exists>p. setting details ''port'' = JInt p \<and> 1 \<le> p \<and> p \<le> 65535))
     \<and> (if engine = lit ''sqlite'' then truthy (setting details ''path'')
         else truthy (setting details ''host'') \<and> truthy (setting details ''database'')
           \<and> truthy (setting details ''username'')
           \<and> (\<forall>c \<in> set (py_str R (setting details ''host'')). \<not> is_space c \<and> c \<noteq> cp CHR ''/'' \<and> c \<noteq> cp CHR ''@''))"

lemma looks_secret_iff: "looks_secret U s \<longleftrightarrow> names_credential s"
  unfolding looks_secret_def SECRET_LOOKING_def rx_found_iff names_credential_def by simp

lemma schemas_list_iff: "schemas_list v \<longleftrightarrow> (\<exists>names. v = JList (map JStr names))"
proof -
  have "list_all (\<lambda>x. case x of JStr s \<Rightarrow> True | _ \<Rightarrow> False) xs \<longleftrightarrow> (\<exists>names. xs = map JStr names)" for xs
    by (induction xs) (auto split: json.splits simp: Cons_eq_map_conv)
  then show ?thesis by (auto simp: schemas_list_def split: json.splits)
qed

lemma port_in_range_iff: "port_in_range v \<longleftrightarrow> v = JBool True \<or> (\<exists>p. v = JInt p \<and> 1 \<le> p \<and> p \<le> 65535)"
  by (cases v) (auto simp: port_in_range_def)

lemma is_simple_iff: "is_simple v \<longleftrightarrow> (\<exists>s. v = JStr s) \<or> (\<exists>i. v = JInt i) \<or> (\<exists>b. v = JBool b)"
  by (cases v) auto

lemma options_iff:
  "simple_options (or_else v (JDict []))
     \<and> list_all (\<lambda>(k, v). \<not> looks_secret U k \<and> \<not> looks_secret U (py_str R v)) (option_items (or_else v (JDict [])))
   \<longleftrightarrow> \<not> truthy v \<or> (\<exists>opts. v = JDict opts \<and> (\<forall>o1 \<in> set opts. storable_option R o1))"
  by (cases v) (auto simp: or_else_def simple_options_def option_items_def storable_option_def looks_secret_iff
      is_simple_iff list_all_iff)

lemma required_iff:
  assumes "engine_known engine"
  shows "list_all (\<lambda>f. truthy (get_claim details f)) (required_fields engine)
      \<and> \<not> (engine \<noteq> lit ''sqlite'' \<and> bad_host (py_str R (get_claim details (lit ''host''))))
    \<longleftrightarrow> (if engine = lit ''sqlite'' then truthy (setting details ''path'')
         else truthy (setting details ''host'') \<and> truthy (setting details ''database'')
           \<and> truthy (setting details ''username'')
           \<and> (\<forall>c \<in> set (py_str R (setting details ''host'')). \<not> is_space c \<and> c \<noteq> cp CHR ''/'' \<and> c \<noteq> cp CHR ''@''))"
proof -
  have "required_fields engine = (if engine = lit ''sqlite'' then [lit ''path''] else map lit [''host'', ''database'', ''username''])"
    using assms by (auto simp: engine_known_def required_fields_def ENGINE_FIELDS_def lit_def)
  then show ?thesis by (auto simp: setting_def bad_host_def list_ex_iff)
qed

lemma checked_storable:
  assumes "engine_known engine"
  shows "validate_details U R engine details = Inr stored \<longleftrightarrow>
     storable_settings R engine details \<and> stored = filter (\<lambda>(k, v). v \<noteq> JNull \<and> v \<noteq> JStr []) details"
proof -
  have keys: "fst ` set details \<subseteq> set ALLOWED_DETAIL_KEYS \<longleftrightarrow>
      fst ` set details \<subseteq> lit ` {''host'', ''port'', ''database'', ''username'', ''path'', ''options'', ''schemas''}"
    by (simp add: ALLOWED_DETAIL_KEYS_def)
  have names: "list_all (\<lambda>(k, v). \<not> looks_secret U k) details \<longleftrightarrow> (\<forall>name \<in> fst ` set details. \<not> names_credential name)"
    by (auto simp: list_all_iff looks_secret_iff)
  have kept: "filter (\<lambda>(k, v). \<not> blank v) details = filter (\<lambda>(k, v). v \<noteq> JNull \<and> v \<noteq> JStr []) details"
    by (simp add: blank_def)
  show ?thesis
    unfolding checked keys names kept schemas_list_iff port_in_range_iff storable_settings_def
    using options_iff [of "get_claim details (lit ''options'')" U R] required_iff [OF assms, of details R]
    by (simp only: setting_def) argo
qed

lemma refusals_422:
  "check_keys U d = Inl e \<Longrightarrow> \<exists>detail. e = HttpError 422 detail"
  "check_options U R opts = Inl e \<Longrightarrow> \<exists>detail. e = HttpError 422 detail"
  by (induction U d rule: check_keys.induct, auto simp: refuse_def res_bind_def guard_res_def split: if_splits)
    (induction opts, auto simp: refuse_def res_bind_def guard_res_def split: if_splits)

text \<open>C27: which settings are stored and what becomes of the others: those that \<open>storable_settings\<close>
  describes are stored without their blank values, all others are refused with status 422.  (As
  in Python, \<open>true\<close> counts as the number 1, so it passes as a port.)\<close>

theorem validate_details_iff:
  assumes "engine \<in> lit ` {''postgresql'', ''mysql'', ''mssql'', ''sqlite''}"
  shows "case validate_details U R engine details of
     Inr stored \<Rightarrow> storable_settings R engine details
       \<and> stored = filter (\<lambda>(k, v). v \<noteq> JNull \<and> v \<noteq> JStr []) details
   | Inl e \<Rightarrow> \<not> storable_settings R engine details \<and> (\<exists>detail. e = HttpError 422 detail)"
proof -
  have known: "engine_known engine" using assms by (auto simp: engine_known_def ENGINE_FIELDS_def)
  show ?thesis
  proof (cases "validate_details U R engine details")
    case (Inl e)
    then have "\<exists>detail. e = HttpError 422 detail"
      unfolding validate_details_def Let_def res_bind_Inl_iff
      by (auto simp: refuse_def guard_res_def dest: refusals_422 split: if_splits)
    with Inl checked_storable [OF known, of U R details] show ?thesis by auto
  next
    case (Inr stored)
    with checked_storable [OF known, of U R details] show ?thesis by auto
  qed
qed

theorem validate_details_iff_witness:
  "case validate_details ascii_ucd (\<lambda>_. []) (lit ''sqlite'') [(lit ''path'', JStr (lit ''/data/shop.db'')), (lit ''host'', JNull)] of
     Inr stored \<Rightarrow> storable_settings (\<lambda>_. []) (lit ''sqlite'') [(lit ''path'', JStr (lit ''/data/shop.db'')), (lit ''host'', JNull)]
       \<and> stored = filter (\<lambda>(k, v). v \<noteq> JNull \<and> v \<noteq> JStr []) [(lit ''path'', JStr (lit ''/data/shop.db'')), (lit ''host'', JNull)]
   | Inl e \<Rightarrow> \<not> storable_settings (\<lambda>_. []) (lit ''sqlite'') [(lit ''path'', JStr (lit ''/data/shop.db'')), (lit ''host'', JNull)]
       \<and> (\<exists>detail. e = HttpError 422 detail)"
  by (rule validate_details_iff) simp

lemma port_true_accepted:
  "validate_details ascii_ucd (\<lambda>_. []) (lit ''sqlite'') [(lit ''path'', JStr (lit ''/data/shop.db'')), (lit ''port'', JBool True)]
   = Inr [(lit ''path'', JStr (lit ''/data/shop.db'')), (lit ''port'', JBool True)]"
  by code_simp

section \<open>Stored settings open\<close>

lemma get_claim_kept:
  assumes "distinct (map fst d)"
  shows "get_claim (filter (\<lambda>(k, v). \<not> blank v) d) k
     = (if blank (get_claim d k) then JNull else get_claim d k)"
  using assms
proof (induction d)
  case (Cons kv d)
  obtain k1 v where kv: "kv = (k1, v)" by (rule prod.exhaust)
  have none: "map_of d k1 = None" "map_of (filter (\<lambda>(k, v). \<not> blank v) d) k1 = None"
    using Cons.prems kv by (auto simp: map_of_eq_None_iff image_iff)
  show ?case
  proof (cases "k = k1")
    case True
    with none show ?thesis by (simp add: get_claim_def kv blank_def)
  next
    case False
    with Cons show ?thesis by (simp add: get_claim_def kv)
  qed
qed (simp add: get_claim_def blank_def)

lemma truthy_not_blank: "truthy v \<Longrightarrow> \<not> blank v"
  by (auto simp: blank_def)

lemma claim_item_kept:
  assumes "distinct (map fst d)" "truthy (get_claim d k)"
  shows "claim_item (filter (\<lambda>(k, v). \<not> blank v) d) k = Inr (get_claim d k)"
proof -
  have "get_claim (filter (\<lambda>(k, v). \<not> blank v) d) k = get_claim d k"
    using assms truthy_not_blank by (simp add: get_claim_kept)
  with assms(2) show ?thesis by (auto simp: get_claim_def claim_item_def split: option.splits)
qed

lemma known_driver: "engine_known e \<Longrightarrow> \<exists>driver. map_of DRIVERS e = Some driver"
  unfolding engine_known_def ENGINE_FIELDS_def DRIVERS_def by auto

lemma valid_settings_build:
  assumes "valid_settings ctx engine asked stored" "distinct (map fst asked)" "engine_known engine"
    and "cr_engine rec = engine" "cr_details rec = stored"
  shows "\<exists>url. build_engine_url rec p = Inr url" "\<exists>schemas. schemas_of stored = Inr schemas"
proof -
  from assms(1) have stored: "stored = filter (\<lambda>(k, v). \<not> blank v) asked"
    and path: "engine = lit ''sqlite'' \<Longrightarrow> truthy (get_claim asked (lit ''path''))"
    and schemas: "get_claim asked (lit ''schemas'') = JNull \<or> schemas_list (get_claim asked (lit ''schemas''))"
    by (auto simp: valid_settings_def checked required_fields_def ENGINE_FIELDS_def)
  obtain driver where "map_of DRIVERS engine = Some driver" using known_driver [OF assms(3)] by blast
  then show "\<exists>url. build_engine_url rec p = Inr url"
    using claim_item_kept [OF assms(2) path] by (simp add: build_engine_url_def assms(4,5) stored)
  show "\<exists>schemas. schemas_of stored = Inr schemas"
    using schemas by (auto simp: schemas_of_def stored get_claim_kept [OF assms(2)] schemas_list_def split: json.splits)
qed

text \<open>C12: what the admin backend stores, the MCP server can open: after any history, the password of
  every connection decrypts with keys that include the one the backend encrypts with, its engine
  is known, its address can be built and its schemas are a list, so that opening it can fail at
  the database only.\<close>

theorem stored_connection_opens:
  assumes "reachable ctx A m" "c \<in> set (am_connections m)"
    and "fernet_ok (gc_fernet ctx)" "rc_fernet G = gc_fernet ctx" "hd (gc_keys ctx) \<in> set (rc_keys G)"
  shows "\<exists>p url schemas. record_password G (connection_of_row c) = Inr p
    \<and> build_engine_url (connection_of_row c) p = Inr url \<and> schemas_of (cn_details c) = Inr schemas"
proof -
  from reachable_sound [OF assms(1)] assms(2) have good: "connection_good ctx c"
    by (simp add: contents_ok_def list_all_iff)
  then obtain asked given_secret where asked: "distinct (map fst asked)" "valid_settings ctx (cn_engine c) asked (cn_details c)"
      "engine_known (cn_engine c)" and secret: "sealed ctx given_secret (cn_secret c)"
    by (auto simp: connection_good_def)
  have "\<exists>p. record_password G (connection_of_row c) = Inr p"
  proof (cases "cn_secret c")
    case None
    then show ?thesis by (simp add: record_password_def connection_of_row_def)
  next
    case (Some t)
    with secret obtain n q where "box_encrypt (gc_fernet ctx) (gc_keys ctx) n q = Inr t" by (auto simp: sealed_def)
    then have t: "t = fl_encrypt (gc_fernet ctx) (hd (gc_keys ctx)) n q" by (simp add: box_encrypt_def split: if_splits)
    have "box_decrypt (rc_fernet G) (rc_keys G) t = Inr q"
      using multi_decrypt_made [OF assms(3,5)] assms(3) by (simp add: box_decrypt_def assms(4) t fernet_ok_def)
    with Some show ?thesis
      by (cases t) (auto simp: record_password_def connection_of_row_def)
  qed
  moreover have "cr_engine (connection_of_row c) = cn_engine c" "cr_details (connection_of_row c) = cn_details c"
    by (simp_all add: connection_of_row_def)
  ultimately show ?thesis using valid_settings_build [OF asked(2,1,3)] by metis
qed

theorem stored_connection_opens_witness:
  "\<exists>p url schemas. record_password idle_registry (connection_of_row demo_row) = Inr p
    \<and> build_engine_url (connection_of_row demo_row) p = Inr url \<and> schemas_of (cn_details demo_row) = Inr schemas"
  by (rule stored_connection_opens [OF demo_reachable])
    (simp_all add: demo_made_tables toy_fernet_ok idle_registry_def demo_ctx_def)

end
