(* ===== verification/AdminGrants.thy ===== *)
theory AdminGrants
  imports AdminProps
begin

text \<open>
  What the grids change: the grants after an edit are exactly the old ones with the changes of the
  request applied, and a grant that is withdrawn is withdrawn from the MCP server's next call,
  whatever its cache holds.
\<close>

section \<open>Grants as relations\<close>

definition table_grants :: "app_meta \<Rightarrow> (uuid \<times> subject \<times> pystr) set" where
  "table_grants m = (\<lambda>p. (tp_connection p, tp_subject p, tp_table p)) ` set (am_table_permissions m)"

definition tool_grants :: "app_meta \<Rightarrow> (subject \<times> pystr) set" where
  "tool_grants m = (\<lambda>p. (tl_subject p, tl_tool p)) ` set (am_tool_permissions m)"

definition access_grants :: "app_meta \<Rightarrow> (uuid \<times> subject) set" where
  "access_grants m = (\<lambda>a. (ac_connection a, ac_subject a)) ` set (am_connection_access m)"

lemma allowed_tables_grants:
  "allowed_tables_q cid subs m = {t. \<exists>s\<in>set subs. (cid, s, t) \<in> table_grants m}"
  by (force simp: allowed_tables_q_def table_grants_def matches_a_subject_def)

text \<open>The names a request grants, and those it only revokes.\<close>

definition granted_set :: "(pystr \<times> bool) list \<Rightarrow> pystr set" where
  "granted_set changes = {t. (t, True) \<in> set changes}"

definition revoked_set :: "(pystr \<times> bool) list \<Rightarrow> pystr set" where
  "revoked_set changes = {t. (t, False) \<in> set changes} - granted_set changes"

lemma granted_names_set: "set (granted_names changes) = granted_set changes"
  by (force simp: granted_names_def granted_set_def)

lemma revoked_names_set: "set (revoked_names changes) = revoked_set changes"
  by (force simp: revoked_names_def revoked_set_def granted_names_set)

text \<open>A loop of statements that each add or remove one element of a relation.\<close>

lemma each_adds:
  assumes "\<And>x m v m'. step x m = (Inr v, m') \<Longrightarrow> f m' = insert (g x) (f m)"
  shows "io_each step xs m = (Inr v, m') \<Longrightarrow> f m' = f m \<union> g ` set xs"
  by (induction xs arbitrary: m) (auto simp: io_then_Inr_iff dest!: assms)

lemma each_removes:
  assumes "\<And>x m v m'. step x m = (Inr v, m') \<Longrightarrow> f m' = f m - {g x}"
  shows "io_each step xs m = (Inr v, m') \<Longrightarrow> f m' = f m - g ` set xs"
  by (induction xs arbitrary: m) (auto simp: io_then_Inr_iff dest!: assms)

lemma image_filter: "(\<And>x. P x \<longleftrightarrow> h x \<noteq> k) \<Longrightarrow> h ` set (filter P xs) = h ` set xs - {k}"
  by auto

lemma image_known: "list_ex P xs \<Longrightarrow> (\<And>x. P x \<Longrightarrow> h x = k) \<Longrightarrow> h ` set xs = insert k (h ` set xs)"
  by (auto simp: list_ex_iff)

lemma grant_table_adds:
  assumes "grant_table now by cid s t m = (Inr v, m')"
  shows "table_grants m' = insert (cid, s, t) (table_grants m)"
proof (cases "list_ex (\<lambda>p. tp_connection p = cid \<and> tp_subject p = s \<and> tp_table p = t) (am_table_permissions m)")
  case True
  with bind_params_Inr [OF assms [unfolded grant_table_def]] have "m' = m" by (simp split: if_splits)
  with True show ?thesis unfolding table_grants_def by (auto intro!: image_known)
next
  case False
  with bind_params_Inr [OF assms [unfolded grant_table_def]] show ?thesis by (auto simp: table_grants_def split: if_splits)
qed

lemma grant_tool_adds:
  assumes "grant_tool now by s t m = (Inr v, m')"
  shows "tool_grants m' = insert (s, t) (tool_grants m)"
proof (cases "list_ex (\<lambda>p. tl_subject p = s \<and> tl_tool p = t) (am_tool_permissions m)")
  case True
  with bind_params_Inr [OF assms [unfolded grant_tool_def]] have "m' = m" by (simp split: if_splits)
  with True show ?thesis unfolding tool_grants_def by (auto intro!: image_known)
next
  case False
  with bind_params_Inr [OF assms [unfolded grant_tool_def]] show ?thesis by (auto simp: tool_grants_def split: if_splits)
qed

lemma insert_access_adds:
  "insert_access now by cid s m = (Inr v, m') \<Longrightarrow> access_grants m' = insert (cid, s) (access_grants m)"
  by (auto simp: insert_access_def access_grants_def dest!: bind_params_Inr split: if_splits)

lemma revoke_table_removes:
  assumes "revoke_table cid s t m = (Inr v, m')"
  shows "table_grants m' = table_grants m - {(cid, s, t)}"
proof -
  from assms have "am_table_permissions m' = filter (\<lambda>p. (tp_connection p, tp_subject p, tp_table p) \<noteq> (cid, s, t)) (am_table_permissions m)"
    by (auto simp: revoke_table_def dest!: bind_params_Inr)
  then show ?thesis unfolding table_grants_def by (simp only:) (rule image_filter, rule refl)
qed

lemma revoke_tool_removes:
  assumes "revoke_tool s t m = (Inr v, m')"
  shows "tool_grants m' = tool_grants m - {(s, t)}"
proof -
  from assms have "am_tool_permissions m' = filter (\<lambda>p. (tl_subject p, tl_tool p) \<noteq> (s, t)) (am_tool_permissions m)"
    by (auto simp: revoke_tool_def dest!: bind_params_Inr)
  then show ?thesis unfolding tool_grants_def by (simp only:) (rule image_filter, rule refl)
qed

lemma delete_access_removes:
  assumes "delete_access cid s m = (Inr v, m')"
  shows "access_grants m' = access_grants m - {(cid, s)}"
proof -
  from assms have "am_connection_access m' = filter (\<lambda>p. (ac_connection p, ac_subject p) \<noteq> (cid, s)) (am_connection_access m)"
    by (auto simp: delete_access_def dest!: bind_params_Inr)
  then show ?thesis unfolding access_grants_def by (simp only:) (rule image_filter, rule refl)
qed

definition grants_of :: "app_meta \<Rightarrow> (uuid \<times> subject \<times> pystr) set \<times> (subject \<times> pystr) set \<times> (uuid \<times> subject) set" where
  "grants_of m = (table_grants m, tool_grants m, access_grants m)"

lemma grants_steps:
  "leaves grants_of (remember_subject now s)" "leaves grants_of (log_change now u a tt target details)"
  unfolding remember_subject_def log_change_def
  by (rule leaves_params, rule leavesI, simp add: grants_of_def table_grants_def tool_grants_def access_grants_def)+

section \<open>The transactions\<close>

lemma change_tables_effect:
  assumes "change_tables_tx P u cid name s granted revoked now m = (Inr v, m')"
  shows "table_grants m' = (table_grants m \<union> {cid} \<times> {s} \<times> set granted) - {cid} \<times> {s} \<times> set revoked"
    and "(\<lambda>g. (cid, tg_subject g, tg_table g)) ` set v = table_grants m' \<inter> {cid} \<times> {s} \<times> UNIV"
proof -
  from assms obtain m1 m2 m3 where
    steps: "remember_subject now s m = (Inr (), m1)" "io_each (grant_table now (gu_sub u) cid s) granted m1 = (Inr (), m2)"
      "io_each (revoke_table cid s) revoked m2 = (Inr (), m3)"
    and log: "\<exists>details. log_change now u (lit ''permission.tables'') (lit ''connection'') (Some name) details m3 = (Inr (), m')"
    and v: "v = filter (\<lambda>g. tg_subject g = s) (grants_q (pg_sort_key P) cid m')"
    unfolding change_tables_tx_def io_then_Inr_iff by auto
  have "table_grants m1 = table_grants m" "table_grants m' = table_grants m3"
    using leavesD [OF grants_steps(1) steps(1)] log leavesD [OF grants_steps(2)] by (auto simp: grants_of_def)
  moreover have "table_grants m2 = table_grants m1 \<union> (\<lambda>t. (cid, s, t)) ` set granted"
    by (rule each_adds [OF grant_table_adds steps(2)])
  moreover have "table_grants m3 = table_grants m2 - (\<lambda>t. (cid, s, t)) ` set revoked"
    by (rule each_removes [OF revoke_table_removes steps(3)])
  ultimately show "table_grants m' = (table_grants m \<union> {cid} \<times> {s} \<times> set granted) - {cid} \<times> {s} \<times> set revoked"
    by auto
  show "(\<lambda>g. (cid, tg_subject g, tg_table g)) ` set v = table_grants m' \<inter> {cid} \<times> {s} \<times> UNIV"
    by (force simp: v grants_q_def table_grants_def)
qed

lemma change_tools_effect:
  assumes "change_tools_tx P u s granted revoked now m = (Inr v, m')"
  shows "tool_grants m' = (tool_grants m \<union> {s} \<times> set granted) - {s} \<times> set revoked"
    and "(\<lambda>g. (og_subject g, og_tool g)) ` set v = tool_grants m' \<inter> {s} \<times> UNIV"
proof -
  from assms obtain m1 m2 m3 where
    steps: "remember_subject now s m = (Inr (), m1)" "io_each (grant_tool now (gu_sub u) s) granted m1 = (Inr (), m2)"
      "io_each (revoke_tool s) revoked m2 = (Inr (), m3)"
    and log: "\<exists>details. log_change now u (lit ''permission.tools'') (fst s) (Some (snd s)) details m3 = (Inr (), m')"
    and v: "v = sort_key (\<lambda>g. pg_sort_key P (og_tool g)) (filter (\<lambda>g. og_subject g = s) (tool_grants_q m'))"
    unfolding change_tools_tx_def io_then_Inr_iff by auto
  have "tool_grants m1 = tool_grants m" "tool_grants m' = tool_grants m3"
    using leavesD [OF grants_steps(1) steps(1)] log leavesD [OF grants_steps(2)] by (auto simp: grants_of_def)
  moreover have "tool_grants m2 = tool_grants m1 \<union> Pair s ` set granted"
    by (rule each_adds [OF grant_tool_adds steps(2)])
  moreover have "tool_grants m3 = tool_grants m2 - Pair s ` set revoked"
    by (rule each_removes [OF revoke_tool_removes steps(3)])
  ultimately show "tool_grants m' = (tool_grants m \<union> {s} \<times> set granted) - {s} \<times> set revoked" by auto
  show "(\<lambda>g. (og_subject g, og_tool g)) ` set v = tool_grants m' \<inter> {s} \<times> UNIV"
    by (force simp: v tool_grants_q_def tool_grants_def)
qed

lemma set_access_effect:
  assumes "set_access_tx u cid name wanted now m = (Inr v, m')"
  shows "access_grants m' = {g \<in> access_grants m. fst g \<noteq> cid} \<union> {cid} \<times> set wanted"
proof -
  let ?old = "map ac_subject (filter (\<lambda>a. ac_connection a = cid) (am_connection_access m))"
  from assms obtain m1 m2 where
    steps: "io_each (delete_access cid) (filter (\<lambda>s. s \<notin> set wanted) ?old) m = (Inr (), m1)"
      "io_each (insert_access now (gu_sub u) cid) (filter (\<lambda>s. s \<notin> set ?old) wanted) m1 = (Inr (), m2)"
    and log: "m' = m2 \<or> (\<exists>details. log_change now u (lit ''connection.access'') (lit ''connection'') (Some name) details m2 = (Inr (), m'))"
    unfolding set_access_tx_def Let_def io_then_Inr_iff io_bind_Inr_iff by (auto split: if_splits)
  have "access_grants m' = access_grants m2"
    using log leavesD [OF grants_steps(2)] by (auto simp: grants_of_def)
  moreover have "access_grants m2 = access_grants m1 \<union> Pair cid ` set (filter (\<lambda>s. s \<notin> set ?old) wanted)"
    by (rule each_adds [OF insert_access_adds steps(2)])
  moreover have "access_grants m1 = access_grants m - Pair cid ` set (filter (\<lambda>s. s \<notin> set wanted) ?old)"
    by (rule each_removes [OF delete_access_removes steps(1)])
  moreover have old: "set ?old = {s. (cid, s) \<in> access_grants m}"
    by (force simp: access_grants_def)
  ultimately have "access_grants m' = access_grants m - Pair cid ` {s. (cid, s) \<in> access_grants m \<and> s \<notin> set wanted}
      \<union> Pair cid ` {s \<in> set wanted. (cid, s) \<notin> access_grants m}"
    by (simp only: set_filter old) simp
  then show ?thesis by auto
qed

section \<open>The endpoints\<close>

lemma db_begin_run:
  assumes "db_begin ctx tx s = (Inr v, s')"
  shows "\<exists>now. tx now (w_meta (snd s)) = (Inr v, w_meta (snd s'))" and "fst s' = fst s"
  using assms by (cases s; auto simp: db_begin_def split: prod.splits option.splits sum.splits)+

lemma announce_run:
  assumes "announce ctx True False s = (Inr u, s')"
  shows "snd s' = snd s" and "ca_bump (gc_cache ctx) META (fst s) = (Inr (), fst s')"
  using assms by (cases s; auto simp: announce_def raising_def io_then_Inr_iff io_catch_def io_on_fst_def
      split: prod.splits sum.splits)+

lemma change_table_access_run:
  assumes "change_table_access ctx u b s = (Inr v, s')"
  shows "\<exists>name now. change_tables_tx (gc_pg ctx) u (tc_connection_id b) name (tc_subject b)
      (granted_names (tc_changes b)) (revoked_names (tc_changes b)) now (w_meta (snd s)) = (Inr v, w_meta (snd s'))"
    and "ca_bump (gc_cache ctx) META (fst s) = (Inr (), fst s')"
proof -
  from assms obtain rec t t1 where load: "load_record ctx (tc_connection_id b) s = (Inr rec, t)"
    and tx: "db_begin ctx (change_tables_tx (gc_pg ctx) u (tc_connection_id b) (cr_name rec) (tc_subject b)
        (granted_names (tc_changes b)) (revoked_names (tc_changes b))) t = (Inr v, t1)"
    and bump: "announce ctx True False t1 = (Inr (), s')"
    by (auto simp: change_table_access_def io_bind_Inr_iff io_then_Inr_iff)
  have "w_meta (snd t) = w_meta (snd s)" by (rule quietD [OF quiet_fetches(2) load])
  moreover have "fst t = fst s" using load
    by (cases s) (auto simp: load_record_def io_bind_Inr_iff db_read_def raising_def io_catch_def io_on_snd_def pg_read_def
        or_error_def split: prod.splits option.splits sum.splits)
  ultimately show "\<exists>name now. change_tables_tx (gc_pg ctx) u (tc_connection_id b) name (tc_subject b)
      (granted_names (tc_changes b)) (revoked_names (tc_changes b)) now (w_meta (snd s)) = (Inr v, w_meta (snd s'))"
    and "ca_bump (gc_cache ctx) META (fst s) = (Inr (), fst s')"
    using db_begin_run [OF tx] announce_run [OF bump] by auto
qed

text \<open>C24: the grid of tables: after a successful edit the subject is granted on that connection what it
  was granted before, with the names the request grants added and those it only revokes removed
  (a name it both grants and revokes stays granted); nobody else's grants move, and the answer
  lists exactly the subject's grants there.\<close>

theorem table_edit_exact:
  assumes "change_table_access ctx u b s = (Inr v, s')"
  shows "table_grants (w_meta (snd s')) =
      (table_grants (w_meta (snd s)) \<union> {tc_connection_id b} \<times> {tc_subject b} \<times> granted_set (tc_changes b))
        - {tc_connection_id b} \<times> {tc_subject b} \<times> revoked_set (tc_changes b)
    \<and> (\<lambda>g. (tc_connection_id b, tg_subject g, tg_table g)) ` set v
        = table_grants (w_meta (snd s')) \<inter> {tc_connection_id b} \<times> {tc_subject b} \<times> UNIV"
proof -
  obtain name now where "change_tables_tx (gc_pg ctx) u (tc_connection_id b) name (tc_subject b)
      (granted_names (tc_changes b)) (revoked_names (tc_changes b)) now (w_meta (snd s)) = (Inr v, w_meta (snd s'))"
    using change_table_access_run(1) [OF assms] by blast
  from change_tables_effect [OF this] show ?thesis by (simp add: granted_names_set revoked_names_set)
qed

text \<open>C26: the grid of tools, in the same way; only names of tools that exist are granted.\<close>

theorem tool_edit_exact:
  assumes "change_tool_access ctx u b s = (Inr v, s')"
  shows "tool_grants (w_meta (snd s')) =
      (tool_grants (w_meta (snd s)) \<union> {oc_subject b} \<times> granted_set (oc_changes b))
        - {oc_subject b} \<times> revoked_set (oc_changes b)
    \<and> (\<lambda>g. (og_subject g, og_tool g)) ` set v = tool_grants (w_meta (snd s')) \<inter> {oc_subject b} \<times> UNIV
    \<and> granted_set (oc_changes b) \<subseteq> TOOL_NAMES"
proof -
  from assms have known: "sorted_strs (set (map fst (oc_changes b)) - TOOL_NAMES) = []"
    by (auto simp: change_tool_access_def Let_def io_then_Inr_iff)
  with assms obtain t where tx: "db_begin ctx (change_tools_tx (gc_pg ctx) u (oc_subject b)
        (granted_names (oc_changes b)) (revoked_names (oc_changes b))) s = (Inr v, t)"
    and bump: "announce ctx True False t = (Inr (), s')"
    by (auto simp: change_tool_access_def Let_def io_bind_Inr_iff io_then_Inr_iff)
  obtain now where "change_tools_tx (gc_pg ctx) u (oc_subject b) (granted_names (oc_changes b))
      (revoked_names (oc_changes b)) now (w_meta (snd s)) = (Inr v, w_meta (snd s'))"
    using db_begin_run(1) [OF tx] announce_run(1) [OF bump] by auto
  from change_tools_effect [OF this] known show ?thesis
    by (force simp: granted_names_set revoked_names_set granted_set_def sorted_strs_def)
qed

text \<open>C25: after a successful edit of who may use a connection, exactly the subjects of the request may,
  and no other connection is affected.\<close>

theorem access_edit_exact:
  assumes "set_access ctx u cid wanted s = (Inr v, s')"
  shows "access_grants (w_meta (snd s')) = {g \<in> access_grants (w_meta (snd s)). fst g \<noteq> cid} \<union> {cid} \<times> set wanted"
proof -
  from assms obtain out t t1 t2 where fetch: "fetch_connection ctx cid s = (Inr out, t)"
    and tx: "db_begin ctx (set_access_tx u cid (cu_name out) (remdups wanted)) t = (Inr (), t1)"
    and bump: "announce ctx True False t1 = (Inr (), t2)" and read: "get_access ctx cid t2 = (Inr v, s')"
    by (auto simp: set_access_def io_bind_Inr_iff io_then_Inr_iff)
  have "w_meta (snd t) = w_meta (snd s)" by (rule quietD [OF quiet_fetches(1) fetch])
  moreover have "w_meta (snd s') = w_meta (snd t2)" by (rule quietD [OF quiet_endpoints(4) read])
  moreover obtain now where "set_access_tx u cid (cu_name out) (remdups wanted) now (w_meta (snd t)) = (Inr (), w_meta (snd t1))"
    using db_begin_run(1) [OF tx] by blast
  ultimately show ?thesis using set_access_effect announce_run(1) [OF bump] by fastforce
qed

text \<open>The instance: Alice may read \<open>orders\<close> on the database \<open>shop\<close> and has just done so; her grant is
  replaced by one of \<open>customers\<close>, and so on.\<close>

definition shop_store :: "(kv_data redis_state \<times> int world) meta_store" where
  "shop_store = redis_meta_store mem_redis (\<lambda>x. (0, x)) shift_digest sample_codecs 60 300 demo_pg"

definition shop_open :: "kv_data redis_state \<times> int world \<Rightarrow> (exn + connection_access) \<times> kv_data redis_state \<times> int world" where
  "shop_open = open_connection ascii_ucd shop_store sample_caller (lit ''run_query'') (lit ''shop'')"

definition shop_start :: "(kv_data redis_state, int) gui_state" where
  "shop_start = (fst demo_start, \<lparr>w_meta = sample_grants, w_ext = 0\<rparr>)"

definition shop_warm :: "(kv_data redis_state, int) gui_state" where
  "shop_warm = snd (shop_open shop_start)"

definition shop_changes :: table_changes where
  "shop_changes = \<lparr>tc_connection_id = lit ''id1'', tc_subject = sample_subject,
     tc_changes = [(lit ''orders'', False), (lit ''customers'', True)]\<rparr>"

definition shop_edit ::
  "(kv_data redis_state, int) gui_state \<Rightarrow> (api_error + table_grant list) \<times> (kv_data redis_state, int) gui_state" where
  "shop_edit = change_table_access demo_ctx demo_admin shop_changes"

lemma shop_edit_start: "\<not> isl (fst (shop_edit shop_start))"
  by code_simp

theorem table_edit_exact_witness:
  "table_grants (w_meta (snd (snd (shop_edit shop_start)))) = {(lit ''id1'', sample_subject, lit ''customers'')}"
proof -
  obtain v s' where run: "shop_edit shop_start = (Inr v, s')" using run_Inr [OF shop_edit_start] by blast
  have "table_grants (w_meta (snd shop_start)) = {(lit ''id1'', sample_subject, lit ''orders'')}"
    by (simp add: table_grants_def shop_start_def sample_grants_def)
  with table_edit_exact [OF run [unfolded shop_edit_def]] run show ?thesis
    by (auto simp: shop_changes_def granted_set_def revoked_set_def lit_def)
qed

definition shop_tools :: tool_changes where
  "shop_tools = \<lparr>oc_subject = (lit ''role'', lit ''staff''), oc_changes = [(lit ''list_tables'', True)]\<rparr>"

lemma shop_tools_run: "\<not> isl (fst (change_tool_access demo_ctx demo_admin shop_tools shop_start))"
  by code_simp

theorem tool_edit_exact_witness:
  "tool_grants (w_meta (snd (snd (change_tool_access demo_ctx demo_admin shop_tools shop_start))))
     = {(sample_subject, lit ''run_query''), ((lit ''role'', lit ''staff''), lit ''list_tables'')}"
proof -
  obtain v s' where run: "change_tool_access demo_ctx demo_admin shop_tools shop_start = (Inr v, s')"
    using run_Inr [OF shop_tools_run] by blast
  have "tool_grants (w_meta (snd shop_start)) = {(sample_subject, lit ''run_query'')}"
    by (simp add: tool_grants_def shop_start_def sample_grants_def)
  with tool_edit_exact [OF run] run show ?thesis
    by (auto simp: shop_tools_def granted_set_def revoked_set_def)
qed

lemma shop_access_run:
  "\<not> isl (fst (set_access demo_ctx demo_admin (lit ''id1'') [(lit ''role'', lit ''staff'')] shop_start))"
  by code_simp

theorem access_edit_exact_witness:
  "access_grants (w_meta (snd (snd (set_access demo_ctx demo_admin (lit ''id1'') [(lit ''role'', lit ''staff'')] shop_start))))
     = {(lit ''id1'', (lit ''role'', lit ''staff''))}"
proof -
  obtain v s' where run: "set_access demo_ctx demo_admin (lit ''id1'') [(lit ''role'', lit ''staff'')] shop_start = (Inr v, s')"
    using run_Inr [OF shop_access_run] by blast
  have "access_grants (w_meta (snd shop_start)) = {(lit ''id1'', sample_subject)}"
    by (simp add: access_grants_def shop_start_def sample_grants_def)
  with access_edit_exact [OF run] run show ?thesis by auto
qed

section \<open>The MCP server sees the change\<close>

text \<open>C9: a table that is revoked is refused at the next call, whatever the MCP server has cached: once
  the backend's edit has succeeded and Redis has taken its \<open>INCR\<close>, a connection is opened for
  the caller (told apart by the cache keys) as the new grants say; when the revoked grant was the only one that covered the
  table for the caller, the table is not among those it may read.\<close>

theorem revoked_table_not_served:
  assumes "redis_laws R clk kv" "told_apart digest known" "faithful_codecs K" "subjects c \<in> known"
    and "redis_current kv digest K P known (r, w)" "gc_cache ctx = redis_cache R clk"
    and "change_table_access ctx u b (r, w) = (Inr v, (r', w'))"
    and "rd_incr R (prefixed (version_key META)) (rs_ext r) = (Inr n, y)"
    and "open_connection U (redis_meta_store R clk digest K pt dt P) c tool name (r', w') = (Inr acc, s')"
    and "cr_id (acc_record acc) = tc_connection_id b" "t \<in> revoked_set (tc_changes b)"
    and "\<forall>t'\<in>granted_set (tc_changes b). casefold U t' \<noteq> casefold U t"
    and "\<forall>s\<in>set (subjects c). \<forall>t'. (tc_connection_id b, s, t') \<in> table_grants (w_meta w)
        \<and> casefold U t' = casefold U t \<longrightarrow> s = tc_subject b \<and> t' = t"
  shows "casefold U t \<notin> acc_tables acc"
proof -
  have "redis_bump R clk META r = (Inr (), r')"
    using change_table_access_run(2) [OF assms(7)] by (simp add: assms(6) redis_cache_def)
  then have "opens_as U (w_meta w') c tool name acc"
    by (rule bumped_open [OF assms(1-5) _ assms(8,9)])
  then have tables: "acc_tables acc = casefold U ` allowed_tables_q (tc_connection_id b) (subjects c) (w_meta w')"
    by (simp add: opens_as_def assms(10))
  obtain nm now where "change_tables_tx (gc_pg ctx) u (tc_connection_id b) nm (tc_subject b)
      (granted_names (tc_changes b)) (revoked_names (tc_changes b)) now (w_meta w) = (Inr v, w_meta w')"
    using change_table_access_run(1) [OF assms(7)] by auto
  note grants = change_tables_effect(1) [OF this, unfolded granted_names_set revoked_names_set]
  show ?thesis
  proof
    assume "casefold U t \<in> acc_tables acc"
    then obtain s t' where t': "s \<in> set (subjects c)" "(tc_connection_id b, s, t') \<in> table_grants (w_meta w')"
        "casefold U t' = casefold U t"
      by (auto simp: tables allowed_tables_grants)
    with grants assms(12) have "(tc_connection_id b, s, t') \<in> table_grants (w_meta w)" by auto
    with assms(13) t' have "s = tc_subject b" "t' = t" by auto
    with grants t' assms(11) show False by auto
  qed
qed

lemma shop_warm_current:
  "redis_current (\<lambda>x. x) shift_digest sample_codecs demo_pg {subs. plain_subjects subs} shop_warm
   \<and> w_meta (snd shop_warm) = sample_grants"
proof -
  have "redis_current (\<lambda>x. x) shift_digest sample_codecs demo_pg {subs. plain_subjects subs} shop_start"
    unfolding shop_start_def by (rule empty_current) (simp add: demo_start_def)
  then have start: "redis_current (\<lambda>x. x) shift_digest sample_codecs demo_pg {subs. plain_subjects subs} shop_start
      \<and> w_meta (snd shop_start) = sample_grants"
    by (simp add: shop_start_def)
  have "io_keeps (\<lambda>s. redis_current (\<lambda>x. x) shift_digest sample_codecs demo_pg {subs. plain_subjects subs} s
      \<and> w_meta (snd s) = sample_grants) shop_open"
    unfolding shop_open_def shop_store_def by (rule triple_keeps [OF redis_open_triple [OF sample_hyps]])
  from io_keepsD [OF this start, of "fst (shop_open shop_start)" shop_warm] show ?thesis by (simp add: shop_warm_def)
qed

lemma shop_served: "\<not> isl (fst (shop_edit shop_warm)) \<and> \<not> isl (fst (shop_open (snd (shop_edit shop_warm))))
    \<and> (case fst (shop_open (snd (shop_edit shop_warm))) of Inl e \<Rightarrow> False | Inr acc \<Rightarrow> cr_id (acc_record acc) = lit ''id1'')"
  by code_simp

theorem revoked_table_not_served_witness:
  "\<exists>acc s'. shop_open (snd (shop_edit shop_warm)) = (Inr acc, s') \<and> casefold ascii_ucd (lit ''orders'') \<notin> acc_tables acc"
proof -
  obtain v t where edit: "shop_edit shop_warm = (Inr v, t)" using run_Inr shop_served by blast
  obtain acc s' where opened: "shop_open t = (Inr acc, s')" using run_Inr shop_served edit by fastforce
  have id: "cr_id (acc_record acc) = tc_connection_id shop_changes"
    using shop_served by (simp add: edit opened shop_changes_def)
  have current: "redis_current (\<lambda>x. x) shift_digest sample_codecs demo_pg {subs. plain_subjects subs} (fst shop_warm, snd shop_warm)"
    using shop_warm_current by simp
  have cache: "gc_cache demo_ctx = redis_cache mem_redis (\<lambda>x. (0, x))" by (simp add: demo_ctx_def)
  have run: "change_table_access demo_ctx demo_admin shop_changes (fst shop_warm, snd shop_warm) = (Inr v, (fst t, snd t))"
    using edit by (simp add: shop_edit_def)
  obtain n y where incr: "rd_incr mem_redis (prefixed (version_key META)) (rs_ext (fst shop_warm)) = (Inr n, y)"
    by (simp add: mem_redis_def)
  have opens: "open_connection ascii_ucd (redis_meta_store mem_redis (\<lambda>x. (0, x)) shift_digest sample_codecs 60 300 demo_pg)
      sample_caller (lit ''run_query'') (lit ''shop'') (fst t, snd t) = (Inr acc, s')"
    using opened by (simp add: shop_open_def shop_store_def)
  have revoked: "lit ''orders'' \<in> revoked_set (tc_changes shop_changes)"
    by (auto simp: shop_changes_def granted_set_def revoked_set_def)
  have others: "\<forall>t'\<in>granted_set (tc_changes shop_changes). casefold ascii_ucd t' \<noteq> casefold ascii_ucd (lit ''orders'')"
  proof -
    have "casefold ascii_ucd (lit ''customers'') \<noteq> casefold ascii_ucd (lit ''orders'')" by code_simp
    then show ?thesis by (simp add: shop_changes_def granted_set_def)
  qed
  have only: "\<forall>s\<in>set (subjects sample_caller). \<forall>t'. (tc_connection_id shop_changes, s, t') \<in> table_grants (w_meta (snd shop_warm))
        \<and> casefold ascii_ucd t' = casefold ascii_ucd (lit ''orders'') \<longrightarrow> s = tc_subject shop_changes \<and> t' = lit ''orders''"
    using shop_warm_current by (auto simp: table_grants_def sample_grants_def shop_changes_def)
  have "casefold ascii_ucd (lit ''orders'') \<notin> acc_tables acc"
    by (rule revoked_table_not_served [OF sample_hyps current cache run incr opens id revoked others only])
  with opened edit show ?thesis by auto
qed

end
