(* ===== verification/CheckProps.thy ===== *)
theory CheckProps
  imports ConnectionCheck AdminSamples
begin

text \<open>
  The connection check: what its explanations never show, and what testing a saved connection
  changes.
\<close>

section \<open>The password\<close>

lemma starts_with_Nil [simp]: "starts_with s []"
  by (simp add: starts_with_def)

lemma starts_with_Cons: "starts_with (c # s) (d # p) \<longleftrightarrow> c = d \<and> starts_with s p"
  by (simp add: starts_with_def)

lemma replaced_prefix:
  assumes "star \<notin> set q"
  shows "starts_with (replace_all old (star # stars) 0 s) q \<Longrightarrow> starts_with s q"
  using assms
proof (induction s arbitrary: q)
  case (Cons c s)
  show ?case
  proof (cases q)
    case (Cons d q')
    with Cons.prems have "\<not> starts_with (c # s) old \<and> c = d \<and> starts_with (replace_all old (star # stars) 0 s) q'"
      by (auto simp: starts_with_Cons split: if_splits)
    with Cons.IH [of q'] Cons.prems(2) Cons show ?thesis by (simp add: starts_with_Cons)
  qed simp
qed simp

lemma contains_after_stars:
  assumes "p \<noteq> []" "\<forall>c\<in>set stars. c \<notin> set p"
  shows "contains p (stars @ s) \<Longrightarrow> contains p s"
  using assms by (induction stars) (auto simp: starts_with_Cons neq_Nil_conv)

lemma replaced_nowhere:
  assumes "p \<noteq> []" "\<forall>c\<in>set (star # stars). c \<notin> set p"
  shows "\<not> contains p (replace_all p (star # stars) k s)"
proof (induction s arbitrary: k)
  case (Cons c s)
  show ?case
  proof (cases k)
    case 0
    show ?thesis
    proof (cases "starts_with (c # s) p")
      case True
      with 0 Cons.IH [of "length p - 1"] contains_after_stars [OF assms] show ?thesis by fastforce
    next
      case False
      have "\<not> starts_with (c # replace_all p (star # stars) 0 s) p"
      proof
        assume here: "starts_with (c # replace_all p (star # stars) 0 s) p"
        then obtain q where q: "p = c # q" "starts_with (replace_all p (star # stars) 0 s) q"
          using assms(1) by (cases p) (auto simp: starts_with_Cons)
        moreover have "star \<notin> set q" using assms(2) q(1) by auto
        ultimately have "starts_with s q" by (blast intro: replaced_prefix)
        with q(1) False show False by (simp add: starts_with_Cons)
      qed
      with 0 False Cons.IH [of 0] show ?thesis by simp
    qed
  qed (use Cons.IH in simp)
qed (use assms(1) in simp)

text \<open>C28: the explanation of a failed connection does not show a password that holds no asterisk: whatever
  the driver's exceptions say, and whatever the settings hold, such a password does not occur in
  the message, which has at most 300 characters.  (With an asterisk it can:
  \<open>asterisk_password_shown\<close>.)\<close>

theorem explanation_hides_password:
  assumes "p \<noteq> []" "cp CHR ''*'' \<notin> set p"
  shows "\<not> contains p (explain_failure U R lower e engine details (Some p))
    \<and> length (explain_failure U R lower e engine details (Some p)) \<le> 300"
proof -
  let ?m = "failure_message R (root_message U e) (lower (root_message U e)) engine details"
  have "hide_password (Some p) ?m = replace_all p (42 # [42, 42]) 0 ?m"
    using assms(1) by (cases p) (simp_all add: hide_password_def lit_def)
  moreover have "\<forall>c\<in>set (42 # [42, 42 :: int]). c \<notin> set p" using assms(2) by simp
  ultimately have "\<not> contains p (hide_password (Some p) ?m)"
    using replaced_nowhere [OF assms(1), of 42 "[42, 42]" 0 ?m] by simp
  then have "\<not> contains p (take 300 (hide_password (Some p) ?m))"
    by (metis append_assoc append_take_drop_id contains_iff)
  then show ?thesis by (simp add: explain_failure_def)
qed

theorem explanation_hides_password_witness:
  "\<not> contains (lit ''hunter2'') (explain_failure ascii_ucd (\<lambda>_. []) (map ascii_lower1)
      (PyExc (lit ''boom'') (lit ''E'') (Some (PyExc (lit ''bad url postgresql://ro:hunter2@db'') (lit ''E'') None None)) None)
      (lit ''postgresql'') [] (Some (lit ''hunter2'')))"
  using explanation_hides_password [of "lit ''hunter2''"] by (simp add: lit_def)

text \<open>A password that holds an asterisk is not always hidden: the asterisks put in its place can form
  it again with what follows.\<close>

lemma asterisk_password_shown:
  "contains (lit ''*b'') (hide_password (Some (lit ''*b'')) (lit ''bad secret *bb''))"
  by code_simp

end
