(* ===== verification/PageProps.thy ===== *)
theory PageProps
  imports AdminHealth AdminSamples "HOL-Library.Multiset"
begin

text \<open>
  The pages of the audit log and the health page: a page is a slice of the matching rows in order,
  and the points of the time series share out the calls of the window.
\<close>

section \<open>Sorting\<close>

lemma insert_by_mset: "mset (insert_by le x ys) = add_mset x (mset ys)"
  by (induction ys) auto

lemma sort_rows_mset: "mset (sort_rows le xs) = mset xs"
  by (induction xs) (auto simp: sort_rows_def insert_by_mset)

lemma insert_by_sorted:
  assumes "\<And>a b. le a b \<or> le b a" "\<And>a b c. le a b \<Longrightarrow> le b c \<Longrightarrow> le a c"
  shows "sorted_wrt le ys \<Longrightarrow> sorted_wrt le (insert_by le x ys)"
proof (induction ys)
  case (Cons y ys)
  show ?case
  proof (cases "le x y")
    case False
    then have "le y x" using assms(1) by blast
    moreover have "set (insert_by le x ys) = insert x (set ys)"
      using insert_by_mset [of le x ys] by (metis set_mset_add_mset_insert set_mset_mset)
    ultimately show ?thesis using False Cons by auto
  qed (use Cons.prems assms(2) in auto)
qed simp

lemma sort_rows_sorted:
  assumes "\<And>a b. le a b \<or> le b a" "\<And>a b c. le a b \<Longrightarrow> le b c \<Longrightarrow> le a c"
  shows "sorted_wrt le (sort_rows le xs)"
  by (induction xs) (auto simp: sort_rows_def intro: insert_by_sorted [OF assms])

text \<open>The order of the log: by the value of the column, then the newest first.\<close>

lemma value_le_total: "value_le desc a b \<or> value_le desc b a"
  by (cases a; cases b) auto

lemma value_le_antisym: "value_le desc a b \<Longrightarrow> value_le desc b a \<Longrightarrow> a = b"
  by (cases a; cases b) (auto split: if_splits)

lemma value_le_trans: "value_le desc a b \<Longrightarrow> value_le desc b c \<Longrightarrow> value_le desc a c"
  by (cases a; cases b; cases c) (auto split: if_splits)

lemma audit_order_total: "audit_order key fld desc a b \<or> audit_order key fld desc b a"
  using value_le_total by (auto simp: audit_order_def)

lemma audit_order_trans:
  assumes "audit_order key fld desc a b" "audit_order key fld desc b c"
  shows "audit_order key fld desc a c"
proof -
  let ?v = "sort_value_of key fld"
  have le: "audit_order key fld desc x y \<Longrightarrow> value_le desc (?v x) (?v y)" for x y
    using value_le_total [of desc "?v x" "?v x"] by (auto simp: audit_order_def split: if_splits)
  have ac: "value_le desc (?v a) (?v c)" using value_le_trans le assms by blast
  show ?thesis
  proof (cases "?v a = ?v c")
    case True
    then have "?v b = ?v a" using value_le_antisym le assms by metis
    with True assms show ?thesis by (simp add: audit_order_def)
  qed (use ac in \<open>simp add: audit_order_def\<close>)
qed

section \<open>Paging\<close>

lemma page_rows_length: "int (length (page_rows page n rows)) \<le> max 0 n"
  by (simp add: page_rows_def)

lemma pages_tile:
  assumes "0 < n"
  shows "concat (map (\<lambda>p. page_rows (int p + 1) n rows) [0..<k]) = take (k * nat n) rows"
proof (induction k)
  case (Suc k)
  have "nat (int k * n) = k * nat n" using assms by (simp add: nat_mult_distrib)
  then have "page_rows (int k + 1) n rows = take (nat n) (drop (k * nat n) rows)"
    by (simp add: page_rows_def)
  moreover have "take (Suc k * nat n) rows = take (k * nat n) rows @ take (nat n) (drop (k * nat n) rows)"
    unfolding take_add [symmetric] by (simp add: add.commute)
  ultimately show ?case using Suc by (simp del: mult_Suc)
qed simp

text \<open>C29: a page of the audit log: the rows that match the filter, all of them and no other, sorted by the
  column asked for with the newest first among equals, and of these the page's slice, never
  more than the server's limit; the pages one after another give the rows from the first on.\<close>

theorem audit_page_exact:
  assumes "list_audit ctx R f fld desc page page_size s = (Inr pg, s')"
  shows "\<exists>rows. mset rows = mset (filter (audit_matches (pg_lower (gc_pg ctx)) R f) (am_audit_log (w_meta (snd s))))
    \<and> sorted_wrt (audit_order (pg_sort_key (gc_pg ctx)) fld desc) rows
    \<and> pg_items pg = map (audit_item_of R) (page_rows page (pg_page_size pg) rows)
    \<and> pg_total pg = length rows \<and> pg_page_size pg \<le> gs_max_page_size (gc_settings ctx)
    \<and> int (length (pg_items pg)) \<le> max 0 (pg_page_size pg)
    \<and> (\<forall>n k. 0 < n \<longrightarrow> concat (map (\<lambda>p. page_rows (int p + 1) n rows) [0..<k]) = take (k * nat n) rows)"
proof -
  let ?found = "filter (audit_matches (pg_lower (gc_pg ctx)) R f) (am_audit_log (w_meta (snd s)))"
  let ?order = "audit_order (pg_sort_key (gc_pg ctx)) fld desc"
  have pg: "pg_items pg = map (audit_item_of R) (page_rows page (pg_page_size pg) (sort_rows ?order ?found))"
    "pg_total pg = length ?found" "pg_page_size pg = min page_size (gs_max_page_size (gc_settings ctx))"
    using assms
    by (cases s; auto simp: list_audit_def Let_def bind_texts_def io_then_Inr_iff db_read_def raising_def io_catch_def
        io_on_snd_def pg_read_def split: prod.splits option.splits sum.splits)+
  have "mset (sort_rows ?order ?found) = mset ?found" by (rule sort_rows_mset)
  moreover from this have "length (sort_rows ?order ?found) = length ?found" by (rule mset_eq_length)
  moreover have "sorted_wrt ?order (sort_rows ?order ?found)"
    by (rule sort_rows_sorted [OF audit_order_total audit_order_trans])
  ultimately show ?thesis
    using pg page_rows_length [of page "pg_page_size pg" "sort_rows ?order ?found"]
    by (intro exI [of _ "sort_rows ?order ?found"]) (simp add: pages_tile)
qed

section \<open>The time series\<close>

lemma counted_once:
  "distinct ns \<Longrightarrow> sum_list (map (\<lambda>n. length (filter (\<lambda>r. b r = n) rows)) ns) = length (filter (\<lambda>r. b r \<in> set ns) rows)"
proof (induction rows)
  case (Cons r rows)
  have "(\<Sum>n\<leftarrow>ns. (if b r = n then 1 else 0)) = (if b r \<in> set ns then 1 else 0 :: nat)"
    using Cons.prems by (induction ns) auto
  moreover have "map (\<lambda>n. length (filter (\<lambda>r. b r = n) (r # rows))) ns
      = map (\<lambda>n. (if b r = n then 1 else 0) + length (filter (\<lambda>r. b r = n) rows)) ns"
    by simp
  ultimately show ?case using Cons by (simp only: sum_list_addf) simp
qed simp

lemma int_div_below:
  fixes x c k :: int
  assumes "0 < c" "x < k * c"
  shows "x div c < k"
proof (rule ccontr)
  assume "\<not> x div c < k"
  then have "k * c \<le> x div c * c" using assms(1) by simp
  also have "\<dots> \<le> x" using assms(1) by (simp add: minus_mod_eq_div_mult [symmetric])
  finally show False using assms(2) by simp
qed

lemma series_shape:
  assumes "1 \<le> hours" "hours \<le> 168"
  shows "step_seconds hours = 75 * hours" "bucket_count hours = 48"
proof -
  have "hours * 3600 div 48 = 75 * hours" by simp
  with assms show step: "step_seconds hours = 75 * hours" by (simp add: step_seconds_def BUCKETS_def)
  have "- (hours * 3600) = (- 48) * (75 * hours)" by simp
  then have "- (hours * 3600) div (75 * hours) = - 48"
    using assms by (simp only: nonzero_mult_div_cancel_right)
  then show "bucket_count hours = 48" by (simp add: bucket_count_def step)
qed

text \<open>C30: the time series of the health page has 48 points for every window one may ask for, they lie one
  step apart from the start of the window to its end, and the calls and errors of the window, none of
  them ahead of the application's clock, are shared out among them without loss.\<close>

theorem series_shares_out_window:
  assumes "1 \<le> hours" "hours \<le> 168"
    and "\<forall>r\<in>set rows. start \<le> au_occurred_at r \<and> au_occurred_at r < start + hours * 3600 * 1000000"
  shows "length (series_q p95 start hours rows) = 48
    \<and> map bu_start (series_q p95 start hours rows) = map (\<lambda>n. start + n * (hours * 75000000)) [0..47]
    \<and> sum_list (map bu_calls (series_q p95 start hours rows)) = wi_calls (window_q p95 hours rows)
    \<and> sum_list (map bu_errors (series_q p95 start hours rows)) = wi_errors (window_q p95 hours rows)"
proof -
  let ?b = "bucket_of start (step_seconds hours)"
  have "?b r \<in> set [0..47]" if "r \<in> set rows" for r
  proof -
    have "0 \<le> au_occurred_at r - start" "au_occurred_at r - start < 48 * (75 * hours * 1000000)"
      using assms(3) that by auto
    moreover have "0 < 75 * hours * 1000000" using assms(1) by simp
    ultimately have "0 \<le> ?b r" "?b r < 48"
      unfolding bucket_of_def series_shape [OF assms(1,2)]
      by (simp_all only: pos_imp_zdiv_nonneg_iff int_div_below)
    then show ?thesis by simp
  qed
  then have all: "filter (\<lambda>r. ?b r \<in> set [0..47]) xs = xs" if "set xs \<subseteq> set rows" for xs
    using that by (intro filter_True) blast
  let ?failed = "filter (\<lambda>r. \<not> ae_success (au_entry r)) rows"
  have part: "sum_list (map (\<lambda>n. length (filter (\<lambda>r. ?b r = n) xs)) [0..47]) = length xs" if "set xs \<subseteq> set rows" for xs
    using counted_once [of "[0..47]" ?b xs] all [OF that] by simp
  have "set ?failed \<subseteq> set rows" by auto
  from part [OF this] part [of rows] show ?thesis
    by (simp add: series_q_def series_shape [OF assms(1,2)] window_q_def bucket_q_def Let_def comp_def failed_calls_def
        conj_commute)
qed

definition sample_audit :: "datetime \<Rightarrow> bool \<Rightarrow> nat \<Rightarrow> audit_row" where
  "sample_audit t success i =
     \<lparr>au_id = i, au_occurred_at = t,
      au_entry = \<lparr>ae_caller_sub = lit ''bob'', ae_caller_name = None, ae_tool_name = lit ''run_query'',
        ae_connection_name = None, ae_arguments = [], ae_duration_ms = 3, ae_success = success, ae_tables = [],
        ae_row_count = None, ae_result_summary = None, ae_error_message = None, ae_caller_roles = []\<rparr>\<rparr>"

theorem series_shares_out_window_witness:
  "length (series_q (\<lambda>_. None) 0 2 [sample_audit 5 True 1, sample_audit 7199999999 False 2]) = 48
   \<and> sum_list (map bu_calls (series_q (\<lambda>_. None) 0 2 [sample_audit 5 True 1, sample_audit 7199999999 False 2])) = 2
   \<and> sum_list (map bu_errors (series_q (\<lambda>_. None) 0 2 [sample_audit 5 True 1, sample_audit 7199999999 False 2])) = 1"
proof -
  let ?rows = "[sample_audit 5 True 1, sample_audit 7199999999 False 2]"
  have "\<forall>r\<in>set ?rows. 0 \<le> au_occurred_at r \<and> au_occurred_at r < 0 + 2 * 3600 * 1000000"
    by (simp add: sample_audit_def)
  from series_shares_out_window [OF _ _ this, of "\<lambda>_. None"]
  show ?thesis by (simp add: window_q_def failed_calls_def sample_audit_def)
qed

definition log_state :: "(kv_data redis_state, int) gui_state" where
  "log_state = (fst demo_start, \<lparr>w_meta = empty_meta\<lparr>am_audit_log :=
     [sample_audit 1 True 1, sample_audit 2 False 2, sample_audit 2 True 3]\<rparr>, w_ext = 0\<rparr>)"

definition no_filter :: audit_filter where
  "no_filter = \<lparr>af_user = None, af_tool = None, af_connection = None, af_table = None, af_success = None,
     af_date_from = None, af_date_to = None, af_q = None\<rparr>"

lemma log_page: "case list_audit demo_ctx (\<lambda>_. []) no_filter SOccurredAt True 2 2 log_state of (r, s') \<Rightarrow>
    (case r of Inl e \<Rightarrow> False | Inr pg \<Rightarrow> map ai_id (pg_items pg) = [1] \<and> pg_total pg = 3)"
  by code_simp

theorem audit_page_exact_witness:
  "\<exists>pg s'. list_audit demo_ctx (\<lambda>_. []) no_filter SOccurredAt True 2 2 log_state = (Inr pg, s')
     \<and> pg_page_size pg \<le> 200 \<and> map ai_id (pg_items pg) = [1]"
proof -
  obtain pg s' where run: "list_audit demo_ctx (\<lambda>_. []) no_filter SOccurredAt True 2 2 log_state = (Inr pg, s')"
      and items: "map ai_id (pg_items pg) = [1]"
    using log_page by (auto split: prod.splits sum.splits)
  with audit_page_exact [OF run] show ?thesis by (auto simp: demo_ctx_def)
qed

end
