(* ===== verification/HttpServer.thy ===== *)
theory HttpServer
  imports Governance Tokens Registry
begin

text \<open>
  \<open>server.py\<close>: how the server starts on each transport and whose request a tool call is.  The OAuth
  middleware of the \<open>mcp\<close> package is a parameter: which outcomes of the verifier it lets through.
\<close>

section \<open>Starting\<close>

record auth_settings =
  ah_issuer_url :: pystr
  ah_resource_server_url :: pystr
  ah_required_scopes :: "pystr list option"
  ah_validate_token_resource :: bool

text \<open>\<open>split_list(...) or None\<close>.\<close>

definition required_scopes :: "settings \<Rightarrow> pystr list option" where
  "required_scopes st =
     (case split_list (st_oauth_required_scopes st) of [] \<Rightarrow> None | s # ss \<Rightarrow> Some (s # ss))"

definition build_http_auth ::
  "settings \<Rightarrow> 's verifier option \<Rightarrow> 's cache option \<Rightarrow> exn + auth_settings \<times> 's verifier" where
  "build_http_auth st supplied cache =
     (if \<not> set_text (st_public_url st) \<or> \<not> set_text (st_oauth_issuer st) then Inl (py_error ''ValueError'')
      else
        res_bind (case supplied of Some v \<Rightarrow> Inr v | None \<Rightarrow> build_token_verifier st cache) (\<lambda>v.
          Inr (\<lparr>ah_issuer_url = the (st_oauth_issuer st), ah_resource_server_url = the (st_public_url st),
                ah_required_scopes = required_scopes st, ah_validate_token_resource = False\<rparr>, v)))"

text \<open>What \<open>main\<close> runs once the services are built (which checks the encryption keys): one caller for the
  whole process, or one per request from its token.\<close>

datatype transport = Stdio | Http

datatype 's running = StdioServer caller | HttpServer auth_settings "'s verifier" pystr

definition main :: "fernet_lib \<Rightarrow> settings \<Rightarrow> 's cache \<Rightarrow> transport \<Rightarrow> exn + 's running" where
  "main F st cache tr =
     res_bind (secret_box F (st_connection_secret_keys st)) (\<lambda>_.
     case tr of
       Stdio \<Rightarrow> res_bind (stdio_caller st) (\<lambda>c. Inr (StdioServer c))
     | Http \<Rightarrow> res_bind (build_http_auth st None (Some cache)) (\<lambda>(a, v). Inr (HttpServer a v (st_oauth_roles_claim st))))"

section \<open>One tool call\<close>

definition stdio_call ::
  "('s, 'q) services \<Rightarrow> caller \<Rightarrow> tool_request \<Rightarrow> (tool_outcome_error, 's, tool_answer) io" where
  "stdio_call S c req = call_tool S (io_return c) req"

text \<open>The HTTP side: the verifier at work, the middleware, \<open>str\<close> of a claim and the roles' place.\<close>

record 's http_side =
  hs_verify :: "pystr \<Rightarrow> ('s, access_token option) op"
  hs_admits :: "access_token option \<Rightarrow> bool"
  hs_text :: "json \<Rightarrow> pystr"
  hs_roles_claim :: pystr

datatype http_refusal = Unauthorized | VerifierFailed exn | AnsweredError tool_outcome_error

definition presented :: "'s http_side \<Rightarrow> pystr option \<Rightarrow> ('s, access_token option) op" where
  "presented H bearer =
     (case bearer of None \<Rightarrow> io_return None | Some token \<Rightarrow> hs_verify H token)"

definition http_call ::
  "('s, 'q) services \<Rightarrow> 's http_side \<Rightarrow> pystr option \<Rightarrow> tool_request \<Rightarrow> (http_refusal, 's, tool_answer) io" where
  "http_call S H bearer req =
     io_bind (io_catch (presented H bearer) (\<lambda>e. io_raise (VerifierFailed e))) (\<lambda>t.
     io_then (io_guard (hs_admits H t) Unauthorized)
       (io_catch (call_tool S (io_lift (token_caller (hs_text H) (hs_roles_claim H) t)) req)
         (\<lambda>e. io_raise (AnsweredError e))))"

text \<open>A verifier that works on a part of the state: on the outside world, or beside a log.\<close>

definition on_verifier :: "(('s, access_token option) op \<Rightarrow> ('t, access_token option) op) \<Rightarrow> 's http_side \<Rightarrow> 't http_side" where
  "on_verifier lift_op H =
     \<lparr>hs_verify = (\<lambda>token. lift_op (hs_verify H token)), hs_admits = hs_admits H, hs_text = hs_text H,
      hs_roles_claim = hs_roles_claim H\<rparr>"

lemma on_verifier_simps [simp]:
  "hs_verify (on_verifier l H) token = l (hs_verify H token)" "hs_admits (on_verifier l H) = hs_admits H"
  "hs_text (on_verifier l H) = hs_text H" "hs_roles_claim (on_verifier l H) = hs_roles_claim H"
  by (simp_all add: on_verifier_def)

section \<open>Whose request it is\<close>

text \<open>The caller a verified token stands for, when the verifier is asked in state \<open>s\<close>.\<close>

definition vouched :: "'s http_side \<Rightarrow> pystr option \<Rightarrow> 's \<Rightarrow> caller \<Rightarrow> bool" where
  "vouched H bearer s c \<longleftrightarrow>
     (\<exists>token t. bearer = Some token \<and> fst (hs_verify H token s) = Inr (Some t)
        \<and> token_caller (hs_text H) (hs_roles_claim H) (Some t) = Inr c)"

lemma token_caller_None: "token_caller txt claim None \<noteq> Inr c"
  by (simp add: token_caller_def)

text \<open>Either a call never gets to a service, or it is the request of a vouched caller.\<close>

lemma http_call_cases:
  "(\<exists>r s'. presented H bearer s = (r, s') \<and> snd (http_call S H bearer req s) = s')
   \<or> (\<exists>c s'. vouched H bearer s c \<and> params_ok req \<and> snd (presented H bearer s) = s'
        \<and> snd (http_call S H bearer req s) = snd (serve S c req s'))"
proof -
  obtain r s' where shown: "presented H bearer s = (r, s')" by (rule prod.exhaust)
  show ?thesis
  proof (cases "\<exists>t c. r = Inr t \<and> hs_admits H t \<and> params_ok req \<and> token_caller (hs_text H) (hs_roles_claim H) t = Inr c")
    case True
    then obtain t c where t: "r = Inr t" "hs_admits H t" "params_ok req" "token_caller (hs_text H) (hs_roles_claim H) t = Inr c"
      by blast
    with token_caller_None have "t \<noteq> None" by metis
    with shown t have "vouched H bearer s c"
      by (auto simp: presented_def vouched_def split: option.splits)
    moreover have "snd (http_call S H bearer req s) = snd (serve S c req s')"
      using t shown by (auto simp: http_call_def call_tool_def guarded_def io_bind_def io_catch_def io_then_def
          split: prod.split sum.split)
    ultimately show ?thesis using t shown by auto
  next
    case False
    have "snd (http_call S H bearer req s) = s'"
    proof (cases r)
      case (Inl e)
      with shown show ?thesis by (simp add: http_call_def io_bind_def io_catch_def)
    next
      case (Inr t)
      with False have "\<not> hs_admits H t \<or> \<not> params_ok req \<or> (\<exists>e. token_caller (hs_text H) (hs_roles_claim H) t = Inl e)"
        by (metis sum.exhaust)
      with shown Inr show ?thesis
        by (auto simp: http_call_def call_tool_def guarded_def io_bind_def io_catch_def io_then_def guard_res_def)
    qed
    with shown show ?thesis by blast
  qed
qed

lemma logged_presented:
  "presented (on_verifier io_on_fst H) bearer (s, log)
   = (fst (presented H bearer s), (snd (presented H bearer s), log))"
  by (cases bearer) (auto simp: presented_def io_on_fst_def split: prod.splits)

lemma logged_vouched: "vouched (on_verifier io_on_fst H) bearer (s, log) c \<longleftrightarrow> vouched H bearer s c"
  by (simp add: vouched_def io_on_fst_def case_prod_unfold)

context governed_services begin

lemma http_permitted:
  assumes "\<And>token. quiet ok view (hs_verify H token)" "ok s" "\<And>c. vouched H bearer s c \<Longrightarrow> subjects c \<in> known"
  shows "\<exists>evs. snd (snd (http_call (monitored S) (on_verifier io_on_fst H) bearer req (s, log))) = log @ evs
     \<and> (evs = [] \<or> (\<exists>c. vouched H bearer s c \<and> params_ok req \<and> list_all (permitted S (view s) c req) evs))"
proof -
  have "ok (snd (presented H bearer s)) \<and> view (snd (presented H bearer s)) = view s"
    using quiet_keeps [OF assms(1), of "view s"] assms(2) by (cases bearer) (auto simp: presented_def io_keeps_def)
  then have after: "ok (snd (presented H bearer s))" "view (snd (presented H bearer s)) = view s" by simp_all
  let ?run = "http_call (monitored S) (on_verifier io_on_fst H) bearer req (s, log)"
  from http_call_cases [of "on_verifier io_on_fst H" bearer "(s, log)" "monitored S" req]
  consider (refused) "snd ?run = (snd (presented H bearer s), log)"
    | (served) c where "vouched H bearer s c" "params_ok req"
        "snd ?run = snd (serve (monitored S) c req (snd (presented H bearer s), log))"
    unfolding logged_presented logged_vouched snd_conv by (metis snd_conv)
  then show ?thesis
  proof cases
    case refused
    then show ?thesis by (intro exI [of _ "[]"]) simp
  next
    case served
    with served_permitted [OF assms(3) after(1), of c req log] after(2) show ?thesis by auto
  qed
qed

end

text \<open>C33: over HTTP a target database is only reached on behalf of the owner of a verified token: whatever
  the middleware lets through, either nothing reaches the databases, or the verifier vouched for
  the bearer token, the caller is the one its claims name, the arguments are in range, and every
  event is one the grants of that caller permit.\<close>

theorem http_calls_permitted:
  "\<exists>evs. snd (snd (http_call (monitored (build_services D)) (on_verifier io_on_fst (on_verifier on_ext H)) bearer req (w, log)))
        = log @ evs
     \<and> (evs = [] \<or> (\<exists>c. vouched H bearer (w_ext w) c \<and> params_ok req
          \<and> list_all (permitted (build_services D) (w_meta w) c req) evs))"
proof -
  have "vouched (on_verifier on_ext H) bearer w c \<longleftrightarrow> vouched H bearer (w_ext w) c" for c
    by (simp add: vouched_def on_ext_def case_prod_unfold)
  with plain.http_permitted [where H = "on_verifier on_ext H" and s = w and bearer = bearer and D = D and req = req and log = log] show ?thesis
    by (simp add: on_ext_quiet)
qed

end
