(* ===== verification/SampleRegistry.thy ===== *)
theory SampleRegistry
  imports AdminGrants
begin

text \<open>
  \<open>devtools/seed.py\<close>: the development helper that registers the sample databases and grants a role
  access to them, with one table hidden.  One transaction over the same tables; what it leaves
  behind is stated at the end, for a first run and for any later one.
\<close>

section \<open>What is registered\<close>

definition SAMPLE_TABLES :: "pystr list" where
  "SAMPLE_TABLES = map lit [''categories'', ''customers'', ''order_items'', ''orders'', ''payments'', ''products'', ''reviews'']"

definition DESCRIPTIONS :: "((pystr \<times> pystr option) \<times> pystr) list" where
  "DESCRIPTIONS =
     [((lit ''customers'', None), lit ''People who have bought (or registered to buy) from the shop.''),
      ((lit ''customers'', Some (lit ''country'')),
         lit ''Customer'' @ 39 # lit ''s home country as an ISO 3166-1 alpha-2 code, e.g. DE.''),
      ((lit ''customers'', Some (lit ''is_active'')), lit ''False for closed accounts.''),
      ((lit ''categories'', None), lit ''Product categories. Sub-categories point at their parent.''),
      ((lit ''categories'', Some (lit ''parent_id'')),
         lit ''The category this one sits under; empty for top-level categories.''),
      ((lit ''products'', None), lit ''Items the shop sells, each in exactly one category.''),
      ((lit ''products'', Some (lit ''unit_price'')),
         lit ''Current list price. Old orders keep the price they were bought at.''),
      ((lit ''orders'', None),
         lit ''One row per checkout. What was bought is in order_items; payment is in payments.''),
      ((lit ''orders'', Some (lit ''status'')),
         lit ''Lifecycle stage: pending, paid, shipped, delivered, cancelled or refunded.''),
      ((lit ''orders'', Some (lit ''shipping_country'')),
         lit ''Destination country as an ISO 3166-1 alpha-2 code.''),
      ((lit ''order_items'', None), lit ''The products inside an order, one row per product per order.''),
      ((lit ''order_items'', Some (lit ''unit_price'')),
         lit ''Price per unit at the time of purchase (may differ from products.unit_price).''),
      ((lit ''payments'', None), lit ''Payment attempts against orders: captured, refunded or failed.''),
      ((lit ''reviews'', None), lit ''Customer ratings and free-text comments about products.''),
      ((lit ''reviews'', Some (lit ''rating'')), lit ''Whole stars from 1 (worst) to 5 (best).''),
      ((lit ''reviews'', Some (lit ''body'')), lit ''Free text written by the customer.'')]"

record postgres_target =
  pt_host :: pystr
  pt_port :: int
  pt_database :: pystr
  pt_username :: pystr
  pt_password :: pystr

record seed_target =
  sd_name :: pystr
  sd_engine :: pystr
  sd_description :: pystr
  sd_details :: "(pystr \<times> json) list"
  sd_secret :: "pystr option"

text \<open>What the script is given: the key box and its nonce, the targets, the role, the hidden tables.\<close>

record seed_input =
  si_fernet :: fernet_lib
  si_keys :: "pystr list"
  si_nonce :: nat
  si_postgres :: "postgres_target option"
  si_sqlite_path :: "pystr option"     \<comment> \<open>already resolved to an absolute path\<close>
  si_role :: pystr
  si_hidden_tables :: "pystr list"
  si_new_id :: "pystr \<Rightarrow> uuid"          \<comment> \<open>\<open>gen_random_uuid()\<close> for a new connection\<close>

definition visible_tables :: "seed_input \<Rightarrow> pystr list" where
  "visible_tables I = filter (\<lambda>t. t \<notin> set (si_hidden_tables I)) SAMPLE_TABLES"

definition postgres_entry :: "seed_input \<Rightarrow> exn + seed_target list" where
  "postgres_entry I =
     (case si_postgres I of
        None \<Rightarrow> Inr []
      | Some p \<Rightarrow>
          res_bind (box_encrypt (si_fernet I) (si_keys I) (si_nonce I) (pt_password p)) (\<lambda>secret.
            Inr [\<lparr>sd_name = lit ''shop-pg'', sd_engine = lit ''postgresql'',
                  sd_description = lit ''Sample online shop in Postgres (read-only).'',
                  sd_details = [(lit ''host'', JStr (pt_host p)), (lit ''port'', JInt (pt_port p)),
                                (lit ''database'', JStr (pt_database p)), (lit ''username'', JStr (pt_username p))],
                  sd_secret = Some secret\<rparr>]))"

definition sqlite_entry :: "seed_input \<Rightarrow> seed_target list" where
  "sqlite_entry I =
     (case si_sqlite_path I of
        None \<Rightarrow> []
      | Some path \<Rightarrow>
          [\<lparr>sd_name = lit ''shop-sqlite'', sd_engine = lit ''sqlite'',
            sd_description = lit ''The same sample shop, as a SQLite file (read-only).'',
            sd_details = [(lit ''path'', JStr path)], sd_secret = None\<rparr>])"

definition seed_targets :: "seed_input \<Rightarrow> exn + seed_target list" where
  "seed_targets I = res_bind (postgres_entry I) (\<lambda>pg. Inr (pg @ sqlite_entry I))"

section \<open>The statements\<close>

definition role_subject :: "pystr \<Rightarrow> subject" where
  "role_subject role = (lit ''role'', role)"

definition seed_tool :: "datetime \<Rightarrow> subject \<Rightarrow> pystr \<Rightarrow> unit tx" where
  "seed_tool now s tool = bind_params [fst s, snd s, tool] [] (\<lambda>m.
     if \<not> subject_ok s \<or> tool = [] then (Inl integrity_error, m)
     else if list_ex (\<lambda>p. tl_subject p = s \<and> tl_tool p = tool) (am_tool_permissions m) then (Inr (), m)
     else (Inr (), m\<lparr>am_tool_permissions := am_tool_permissions m @
            [\<lparr>tl_subject = s, tl_tool = tool, tl_granted_by = None, tl_granted_at = now\<rparr>]\<rparr>))"

text \<open>\<open>INSERT ... ON CONFLICT (name) DO UPDATE ... RETURNING id\<close>.\<close>

definition seeded :: "seed_target \<Rightarrow> connection_row \<Rightarrow> connection_row" where
  "seeded T c = c\<lparr>cn_engine := sd_engine T, cn_description := sd_description T, cn_details := sd_details T,
     cn_secret := sd_secret T, cn_active := True\<rparr>"

definition upsert_target :: "datetime \<Rightarrow> uuid \<Rightarrow> seed_target \<Rightarrow> uuid tx" where
  "upsert_target now new_id T =
     bind_params ([sd_name T, sd_engine T, sd_description T] @ opt_list (sd_secret T)) [sd_details T] (\<lambda>m.
       case find (\<lambda>c. cn_name c = sd_name T) (am_connections m) of
         Some c \<Rightarrow>
           (Inr (cn_id c), m\<lparr>am_connections := map (\<lambda>d. if cn_name d = sd_name T
              then connections_updated_at now d (seeded T d) else d) (am_connections m)\<rparr>)
       | None \<Rightarrow>
           (if new_id \<in> connection_ids m \<or> \<not> connection_name_ok (sd_name T) then (Inl integrity_error, m)
            else (Inr new_id, m\<lparr>am_connections := am_connections m @
              [\<lparr>cn_id = new_id, cn_name = sd_name T, cn_engine = sd_engine T, cn_description = sd_description T,
                cn_details = sd_details T, cn_secret = sd_secret T, cn_active = True, cn_created_by = None,
                cn_created_at = now, cn_updated_at = now, cn_last_checked_at = None, cn_last_check_ok = None,
                cn_last_check_error = None\<rparr>]\<rparr>)))"

definition seed_access :: "datetime \<Rightarrow> uuid \<Rightarrow> subject \<Rightarrow> unit tx" where
  "seed_access now cid s = bind_params [fst s, snd s] [] (\<lambda>m.
     if cid \<notin> connection_ids m \<or> \<not> subject_ok s then (Inl integrity_error, m)
     else if list_ex (\<lambda>a. ac_connection a = cid \<and> ac_subject a = s) (am_connection_access m) then (Inr (), m)
     else (Inr (), m\<lparr>am_connection_access := am_connection_access m @
            [\<lparr>ac_connection = cid, ac_subject = s, ac_granted_by = None, ac_granted_at = now\<rparr>]\<rparr>))"

definition clear_tables :: "uuid \<Rightarrow> subject \<Rightarrow> unit tx" where
  "clear_tables cid s = bind_params [fst s, snd s] []
     (io_modify (\<lambda>m. m\<lparr>am_table_permissions :=
        filter (\<lambda>p. \<not> (tp_connection p = cid \<and> tp_subject p = s)) (am_table_permissions m)\<rparr>))"

definition seed_table :: "datetime \<Rightarrow> uuid \<Rightarrow> subject \<Rightarrow> pystr \<Rightarrow> unit tx" where
  "seed_table now cid s table = bind_params [fst s, snd s, table] [] (\<lambda>m.
     if cid \<notin> connection_ids m \<or> \<not> subject_ok s \<or> table = []
        \<or> list_ex (\<lambda>p. tp_connection p = cid \<and> tp_subject p = s \<and> tp_table p = table) (am_table_permissions m)
     then (Inl integrity_error, m)
     else (Inr (), m\<lparr>am_table_permissions := am_table_permissions m @
            [\<lparr>tp_connection = cid, tp_subject = s, tp_table = table, tp_granted_by = None, tp_granted_at = now\<rparr>]\<rparr>))"

text \<open>The conflict clause sets the text only; the trigger moves \<open>updated_at\<close>.\<close>

definition seed_description :: "datetime \<Rightarrow> uuid \<Rightarrow> (pystr \<times> pystr option) \<times> pystr \<Rightarrow> unit tx" where
  "seed_description now cid d = (case d of ((table, column), description) \<Rightarrow>
     bind_params ([table, description] @ opt_list column) [] (\<lambda>m.
       if cid \<notin> connection_ids m \<or> table = [] \<or> column = Some [] then (Inl integrity_error, m)
       else if list_ex (same_place cid table column) (am_descriptions m) then
         (Inr (), m\<lparr>am_descriptions := map (\<lambda>r. if same_place cid table column r
             then r\<lparr>ds_description := description, ds_updated_at := now\<rparr> else r) (am_descriptions m)\<rparr>)
       else
         (Inr (), m\<lparr>am_descriptions := am_descriptions m @
             [\<lparr>ds_id = am_next_description m, ds_connection = cid, ds_table = table, ds_column = column,
               ds_description = description, ds_updated_by = None, ds_created_at = now, ds_updated_at = now\<rparr>],
            am_next_description := am_next_description m + 1\<rparr>)))"

section \<open>The transaction\<close>

definition register_target :: "datetime \<Rightarrow> seed_input \<Rightarrow> seed_target \<Rightarrow> unit tx" where
  "register_target now I T =
     io_bind (upsert_target now (si_new_id I (sd_name T)) T) (\<lambda>cid.
     io_then (seed_access now cid (role_subject (si_role I)))
     (io_then (clear_tables cid (role_subject (si_role I)))
     (io_then (io_each (seed_table now cid (role_subject (si_role I))) (visible_tables I))
       (io_each (seed_description now cid) DESCRIPTIONS))))"

definition seed_tx :: "seed_input \<Rightarrow> datetime \<Rightarrow> unit tx" where
  "seed_tx I now =
     io_then (io_each (seed_tool now (role_subject (si_role I))) (sorted_strs TOOL_NAMES))
       (io_bind (io_lift (case seed_targets I of Inl e \<Rightarrow> Inl (ServerError e) | Inr ts \<Rightarrow> Inr ts)) (\<lambda>targets.
         io_each (register_target now I) targets))"

definition seed_sample_registry :: "'x pg \<Rightarrow> seed_input \<Rightarrow> (api_error, 'x world, unit) io" where
  "seed_sample_registry P I = (\<lambda>w.
     case pg_reach P (w_ext w) of
       (Some e, x) \<Rightarrow> (Inl (ServerError e), w\<lparr>w_ext := x\<rparr>)
     | (None, x) \<Rightarrow>
         (case seed_tx I (pg_now P x) (w_meta w) of
            (Inl e, m) \<Rightarrow> (Inl e, w\<lparr>w_ext := x\<rparr>)
          | (Inr v, m) \<Rightarrow> (Inr v, w\<lparr>w_ext := x, w_meta := m\<rparr>)))"

section \<open>The constraints of the schema\<close>

lemma seed_tool_ok: "io_keeps app_meta_ok (seed_tool now s tool)"
  unfolding seed_tool_def
  by (rule keeps_bind_params) (auto simp: io_keeps_def meta_okD list_ex_iff intro!: meta_ok_update added_ok)

lemma seed_access_ok: "io_keeps app_meta_ok (seed_access now cid s)"
  unfolding seed_access_def
  by (rule keeps_bind_params) (auto simp: io_keeps_def meta_okD list_ex_iff intro!: meta_ok_update added_ok)

lemma clear_tables_ok: "io_keeps app_meta_ok (clear_tables cid s)"
  unfolding clear_tables_def
  by (rule keeps_bind_params) (auto simp: io_keeps_def ok_filter meta_okD intro!: meta_ok_update)

lemma seed_table_ok: "io_keeps app_meta_ok (seed_table now cid s table)"
  unfolding seed_table_def
  by (rule keeps_bind_params) (auto simp: io_keeps_def meta_okD list_ex_iff intro!: meta_ok_update added_ok)

lemma seed_description_ok: "io_keeps app_meta_ok (seed_description now cid d)"
proof -
  have edited: "descriptions_ok ids n (map (\<lambda>r. if P r
       then r\<lparr>ds_description := x, ds_updated_at := t\<rparr> else r) rs) = descriptions_ok ids n rs"
    for ids n P x t rs
    by (simp add: descriptions_ok_def comp_def list.pred_map if_distrib [of ds_id] if_distrib [of ds_connection]
        if_distrib [of ds_table] if_distrib [of ds_column] cong: if_cong)
  show ?thesis
    unfolding seed_description_def prod.case_eq_if
    by (rule keeps_bind_params)
      (auto simp: io_keeps_def edited meta_okD list_ex_iff intro!: meta_ok_update description_added)
qed

lemmas seed_loops_ok = io_keeps_each [where f = "seed_tool now s" for now s, OF seed_tool_ok]
  io_keeps_each [where f = "seed_table now cid s" for now cid s, OF seed_table_ok]
  io_keeps_each [where f = "seed_description now cid" for now cid, OF seed_description_ok]

text \<open>Ids and names of the connections.\<close>

definition id_names :: "app_meta \<Rightarrow> (uuid \<times> pystr) list" where
  "id_names m = map (\<lambda>c. (cn_id c, cn_name c)) (am_connections m)"

lemma names_determine:
  assumes "id_names m' = id_names m"
  shows "connections_ok (am_connections m') = connections_ok (am_connections m)" and "connection_ids m' = connection_ids m"
proof -
  have "connection_ids n = set (map fst (id_names n))" for n
    by (simp add: connection_ids_def id_names_def comp_def)
  moreover have "connections_ok (am_connections n) \<longleftrightarrow> distinct (map fst (id_names n)) \<and> distinct (map snd (id_names n))
      \<and> list_all connection_name_ok (map snd (id_names n))" for n
    by (simp add: connections_ok_def id_names_def comp_def list.pred_map)
  ultimately show "connections_ok (am_connections m') = connections_ok (am_connections m)" and "connection_ids m' = connection_ids m"
    by (simp_all add: assms)
qed

lemma upsert_effect:
  assumes run: "upsert_target now new_id T m = (Inr cid, m')" and ok: "app_meta_ok m"
  shows "app_meta_ok m'" and "set (id_names m') = insert (cid, sd_name T) (set (id_names m))" and "grants_of m' = grants_of m"
proof -
  have "app_meta_ok m' \<and> set (id_names m') = insert (cid, sd_name T) (set (id_names m)) \<and> grants_of m' = grants_of m"
  proof (cases "find (\<lambda>c. cn_name c = sd_name T) (am_connections m)")
    case None
    with bind_params_Inr [OF run [unfolded upsert_target_def]] obtain c where
      c: "m' = m\<lparr>am_connections := am_connections m @ [c]\<rparr>" "cn_id c = cid" "cn_name c = sd_name T"
        "cid \<notin> connection_ids m" "connection_name_ok (sd_name T)"
      by (auto split: if_splits)
    from None have new: "sd_name T \<notin> cn_name ` set (am_connections m)" by (auto simp: find_None_iff)
    have bigger: "access_ok ids a \<Longrightarrow> access_ok (insert cid ids) a" "table_perms_ok ids p \<Longrightarrow> table_perms_ok (insert cid ids) p"
      "descriptions_ok ids n d \<Longrightarrow> descriptions_ok (insert cid ids) n d" "reports_ok ids r \<Longrightarrow> reports_ok (insert cid ids) r"
      for ids a p n d r
      by (auto simp: access_ok_def table_perms_ok_def descriptions_ok_def reports_ok_def list_all_iff)
    have "connections_ok (am_connections m @ [c])"
      using meta_okD(7) [OF ok] c new by (auto simp: connections_ok_def connection_ids_def)
    moreover have "connection_ids m' = insert cid (connection_ids m)" by (simp add: c connection_ids_def)
    ultimately have "app_meta_ok m'" using ok bigger by (simp add: app_meta_ok_def c(1))
    then show ?thesis
      by (simp add: c id_names_def grants_of_def table_grants_def tool_grants_def access_grants_def)
  next
    case (Some c)
    let ?f = "\<lambda>d. if cn_name d = sd_name T then connections_updated_at now d (seeded T d) else d"
    from bind_params_Inr [OF run [unfolded upsert_target_def]] Some
    have m': "m' = m\<lparr>am_connections := map ?f (am_connections m)\<rparr>" "cid = cn_id c" by auto
    have "cn_id (?f d) = cn_id d \<and> cn_name (?f d) = cn_name d" for d
      by (simp add: connections_updated_at_def seeded_def)
    then have names: "id_names m' = id_names m" by (simp add: id_names_def m')
    then have "connections_ok (am_connections m') = connections_ok (am_connections m)" "connection_ids m' = connection_ids m"
      by (rule names_determine)+
    then have "app_meta_ok m'" using ok by (simp add: app_meta_ok_def m')
    moreover have "(cid, sd_name T) \<in> set (id_names m)"
      using Some m'(2) by (force simp: id_names_def find_Some_iff)
    ultimately show ?thesis
      by (simp add: names insert_absorb) (simp add: m' grants_of_def table_grants_def tool_grants_def access_grants_def)
  qed
  then show "app_meta_ok m'" and "set (id_names m') = insert (cid, sd_name T) (set (id_names m))" and "grants_of m' = grants_of m"
    by blast+
qed

section \<open>What each statement does to the grants\<close>

lemma seed_tool_adds:
  assumes "seed_tool now s tool m = (Inr v, m')"
  shows "tool_grants m' = insert (s, tool) (tool_grants m)"
proof (cases "list_ex (\<lambda>p. tl_subject p = s \<and> tl_tool p = tool) (am_tool_permissions m)")
  case True
  with bind_params_Inr [OF assms [unfolded seed_tool_def]] have "m' = m" by (simp split: if_splits)
  with True show ?thesis unfolding tool_grants_def by (auto intro!: image_known)
next
  case False
  with bind_params_Inr [OF assms [unfolded seed_tool_def]] show ?thesis by (auto simp: tool_grants_def split: if_splits)
qed

lemma seed_access_adds:
  assumes "seed_access now cid s m = (Inr v, m')"
  shows "access_grants m' = insert (cid, s) (access_grants m)"
proof (cases "list_ex (\<lambda>a. ac_connection a = cid \<and> ac_subject a = s) (am_connection_access m)")
  case True
  with bind_params_Inr [OF assms [unfolded seed_access_def]] have "m' = m" by (simp split: if_splits)
  with True show ?thesis unfolding access_grants_def by (auto intro!: image_known)
next
  case False
  with bind_params_Inr [OF assms [unfolded seed_access_def]] show ?thesis by (auto simp: access_grants_def split: if_splits)
qed

lemma clear_tables_removes:
  "clear_tables cid s m = (Inr v, m') \<Longrightarrow> table_grants m' = {g \<in> table_grants m. \<not> (fst g = cid \<and> fst (snd g) = s)}"
  by (auto simp: clear_tables_def table_grants_def dest!: bind_params_Inr)

lemma seed_table_adds:
  "seed_table now cid s table m = (Inr v, m') \<Longrightarrow> table_grants m' = insert (cid, s, table) (table_grants m)"
  by (auto simp: seed_table_def table_grants_def dest!: bind_params_Inr split: if_splits)

lemma seed_tools_add:
  assumes "io_each (seed_tool now s) tools m = (Inr v, m')"
  shows "tool_grants m' = tool_grants m \<union> {s} \<times> set tools"
proof -
  have "tool_grants m' = tool_grants m \<union> Pair s ` set tools"
    by (rule each_adds [where f = tool_grants, OF _ assms]) (rule seed_tool_adds)
  then show ?thesis by auto
qed

lemma seed_tables_add:
  assumes "io_each (seed_table now cid s) tables m = (Inr v, m')"
  shows "table_grants m' = table_grants m \<union> {cid} \<times> {s} \<times> set tables"
proof -
  have "table_grants m' = table_grants m \<union> (\<lambda>t. (cid, s, t)) ` set tables"
    by (rule each_adds [where f = table_grants, OF _ assms]) (rule seed_table_adds)
  then show ?thesis by auto
qed

text \<open>The relations a statement does not write.\<close>

lemma seed_leaves:
  "leaves (\<lambda>m. (am_connections m, am_table_permissions m, am_connection_access m)) (seed_tool now s tool)"
  "leaves (\<lambda>m. (am_connections m, am_table_permissions m, am_tool_permissions m)) (seed_access now cid s)"
  "leaves (\<lambda>m. (am_connections m, am_connection_access m, am_tool_permissions m)) (clear_tables cid s)"
  "leaves (\<lambda>m. (am_connections m, am_connection_access m, am_tool_permissions m)) (seed_table now cid s table)"
  "leaves (\<lambda>m. (am_connections m, am_table_permissions m, am_connection_access m, am_tool_permissions m))
     (seed_description now cid d)"
  unfolding seed_tool_def seed_access_def clear_tables_def seed_table_def seed_description_def prod.case_eq_if
  by (rule leaves_params, rule leavesI, simp split: if_splits; (elim conjE exE disjE; simp)?)+

section \<open>One connection\<close>

definition seeded_grants :: "subject \<Rightarrow> pystr set \<Rightarrow> (uuid \<times> pystr) set \<Rightarrow> app_meta \<Rightarrow> app_meta \<Rightarrow> bool" where
  "seeded_grants s visible Q m m' \<longleftrightarrow>
     app_meta_ok m' \<and> set (id_names m') = set (id_names m) \<union> Q \<and> tool_grants m' = tool_grants m
     \<and> table_grants m' = {g \<in> table_grants m. \<not> (fst g \<in> fst ` Q \<and> fst (snd g) = s)} \<union> fst ` Q \<times> {s} \<times> visible
     \<and> access_grants m' = access_grants m \<union> fst ` Q \<times> {s}"

lemma register_effect:
  assumes run: "register_target now I T m = (Inr v, m')" and ok: "app_meta_ok m"
  shows "\<exists>cid. seeded_grants (role_subject (si_role I)) (set (visible_tables I)) {(cid, sd_name T)} m m'"
proof -
  let ?s = "role_subject (si_role I)"
  from run obtain cid m1 m2 m3 m4 where
    steps: "upsert_target now (si_new_id I (sd_name T)) T m = (Inr cid, m1)" "seed_access now cid ?s m1 = (Inr (), m2)"
      "clear_tables cid ?s m2 = (Inr (), m3)" "io_each (seed_table now cid ?s) (visible_tables I) m3 = (Inr (), m4)"
      "io_each (seed_description now cid) DESCRIPTIONS m4 = (Inr v, m')"
    unfolding register_target_def io_bind_Inr_iff io_then_Inr_iff by auto
  note up = upsert_effect [OF steps(1) ok]
  have "app_meta_ok m2" using io_keepsD [OF seed_access_ok up(1)] steps(2) by auto
  then have "app_meta_ok m3" using io_keepsD [OF clear_tables_ok] steps(3) by auto
  then have "app_meta_ok m4" using io_keepsD [OF seed_loops_ok(2)] steps(4) by (metis snd_conv)
  then have ok': "app_meta_ok m'" using io_keepsD [OF seed_loops_ok(3)] steps(5) by (metis snd_conv)
  note kept = leavesD [OF seed_leaves(2) steps(2)] leavesD [OF seed_leaves(3) steps(3)]
    leavesD [OF leaves_each, OF seed_leaves(4) steps(4)] leavesD [OF leaves_each, OF seed_leaves(5) steps(5)]
  have names: "set (id_names m') = insert (cid, sd_name T) (set (id_names m))"
    and tools: "tool_grants m' = tool_grants m"
    using up kept by (simp_all add: id_names_def grants_of_def tool_grants_def)
  have "access_grants m' = access_grants m2" "table_grants m2 = table_grants m1" "table_grants m' = table_grants m4"
    using kept by (simp_all add: access_grants_def table_grants_def)
  moreover note seed_access_adds [OF steps(2)] clear_tables_removes [OF steps(3)] seed_tables_add [OF steps(4)] up(3)
  ultimately have "seeded_grants ?s (set (visible_tables I)) {(cid, sd_name T)} m m'"
    using ok' names tools unfolding seeded_grants_def grants_of_def by simp
  then show ?thesis ..
qed

lemma replaced_twice:
  "{g \<in> {g \<in> G. \<not> (fst g \<in> A \<and> fst (snd g) = s)} \<union> A \<times> {s} \<times> V. \<not> (fst g \<in> B \<and> fst (snd g) = s)} \<union> B \<times> {s} \<times> V
   = {g \<in> G. \<not> (fst g \<in> A \<union> B \<and> fst (snd g) = s)} \<union> (A \<union> B) \<times> {s} \<times> V"
  for G :: "('a \<times> 'b \<times> 'c) set"
  by auto

lemma seeded_join:
  "seeded_grants s V Q m m1 \<Longrightarrow> seeded_grants s V R m1 m2 \<Longrightarrow> seeded_grants s V (Q \<union> R) m m2"
  unfolding seeded_grants_def by (simp only: replaced_twice image_Un Sigma_Un_distrib1 Un_assoc simp_thms)

lemma registers_effect:
  assumes "io_each (register_target now I) ts m = (Inr v, m')" and "app_meta_ok m"
  shows "\<exists>Q. seeded_grants (role_subject (si_role I)) (set (visible_tables I)) Q m m' \<and> snd ` Q = sd_name ` set ts"
  using assms
proof (induction ts arbitrary: m)
  case Nil
  then show ?case by (intro exI [of _ "{}"]) (auto simp: seeded_grants_def)
next
  case (Cons T ts)
  let ?G = "seeded_grants (role_subject (si_role I)) (set (visible_tables I))"
  from Cons.prems(1) obtain m1 where first: "register_target now I T m = (Inr (), m1)"
      and rest: "io_each (register_target now I) ts m1 = (Inr v, m')"
    by (auto simp: io_then_Inr_iff)
  obtain cid where one: "?G {(cid, sd_name T)} m m1" using register_effect [OF first Cons.prems(2)] by blast
  then obtain Q where more: "?G Q m1 m'" "snd ` Q = sd_name ` set ts"
    using Cons.IH [OF rest] by (auto simp: seeded_grants_def)
  from seeded_join [OF one more(1)] have "?G (insert (cid, sd_name T) Q) m m'" by simp
  then show ?case using more(2) by (intro exI [of _ "insert (cid, sd_name T) Q"]) simp
qed

section \<open>The whole run\<close>

text \<open>The connections the targets name.\<close>

definition sample_ids :: "seed_target list \<Rightarrow> app_meta \<Rightarrow> uuid set" where
  "sample_ids ts m = cn_id ` set (filter (\<lambda>c. cn_name c \<in> sd_name ` set ts) (am_connections m))"

lemma sample_ids_named:
  assumes "app_meta_ok m" "Q \<subseteq> set (id_names m)" "snd ` Q = sd_name ` set ts"
  shows "fst ` Q = sample_ids ts m"
proof -
  from meta_okD(7) [OF assms(1)] have names: "inj_on cn_name (set (am_connections m))"
    by (simp add: connections_ok_def distinct_map)
  have "sample_ids ts m \<subseteq> fst ` Q"
  proof
    fix i assume "i \<in> sample_ids ts m"
    then obtain c where c: "c \<in> set (am_connections m)" "i = cn_id c" "cn_name c \<in> snd ` Q"
      by (auto simp: sample_ids_def assms(3))
    then obtain q where q: "q \<in> Q" "snd q = cn_name c" by auto
    with assms(2) obtain d where d: "d \<in> set (am_connections m)" "q = (cn_id d, cn_name d)" by (auto simp: id_names_def)
    with q c names have "d = c" by (auto dest: inj_onD)
    with q d c show "i \<in> fst ` Q" by force
  qed
  moreover have "fst ` Q \<subseteq> sample_ids ts m"
  proof
    fix i assume "i \<in> fst ` Q"
    then obtain q where q: "q \<in> Q" "i = fst q" by auto
    with assms(2) obtain c where "c \<in> set (am_connections m)" "q = (cn_id c, cn_name c)" by (auto simp: id_names_def)
    moreover have "snd q \<in> sd_name ` set ts" using q assms(3) by auto
    ultimately show "i \<in> sample_ids ts m" using q by (force simp: sample_ids_def)
  qed
  ultimately show ?thesis by blast
qed

lemma seed_run:
  assumes "seed_sample_registry P I w = (Inr v, w')"
  obtains now where "seed_tx I now (w_meta w) = (Inr v, w_meta w')"
  using assms by (auto simp: seed_sample_registry_def split: prod.splits option.splits sum.splits)

lemma all_tools: "set (sorted_strs TOOL_NAMES) = TOOL_NAMES"
  unfolding sorted_strs_def by (rule set_sorted_list_of_set) (simp add: TOOL_NAMES_def)

text \<open>C35: running the script leaves a sound registry in which the role's table grants on the sample
  connections are exactly the sample tables that are not hidden (whatever they were before), the role
  may use those connections and every tool, and nothing else has changed; so a second run adds nothing.\<close>

theorem seed_grants_exact:
  assumes "app_meta_ok (w_meta w)" and "seed_targets I = Inr ts" and "seed_sample_registry P I w = (Inr v, w')"
  shows "app_meta_ok (w_meta w')
    \<and> sd_name ` set ts \<subseteq> cn_name ` set (am_connections (w_meta w'))
    \<and> table_grants (w_meta w') =
        {g \<in> table_grants (w_meta w). \<not> (fst g \<in> sample_ids ts (w_meta w') \<and> fst (snd g) = role_subject (si_role I))}
        \<union> sample_ids ts (w_meta w') \<times> {role_subject (si_role I)} \<times> (set SAMPLE_TABLES - set (si_hidden_tables I))
    \<and> access_grants (w_meta w') = access_grants (w_meta w) \<union> sample_ids ts (w_meta w') \<times> {role_subject (si_role I)}
    \<and> tool_grants (w_meta w') = tool_grants (w_meta w) \<union> {role_subject (si_role I)} \<times> TOOL_NAMES"
proof -
  let ?s = "role_subject (si_role I)"
  from assms(3) obtain now where "seed_tx I now (w_meta w) = (Inr v, w_meta w')" by (rule seed_run)
  then obtain m1 where tools: "io_each (seed_tool now ?s) (sorted_strs TOOL_NAMES) (w_meta w) = (Inr (), m1)"
      and loop: "io_each (register_target now I) ts m1 = (Inr v, w_meta w')"
    unfolding seed_tx_def io_then_Inr_iff io_bind_Inr_iff by (auto simp: assms(2))
  have ok: "app_meta_ok m1" using io_keepsD [OF seed_loops_ok(1) assms(1)] tools by (metis snd_conv)
  obtain Q where Q: "seeded_grants ?s (set (visible_tables I)) Q m1 (w_meta w')" "snd ` Q = sd_name ` set ts"
    using registers_effect [OF loop ok] by blast
  have ids: "fst ` Q = sample_ids ts (w_meta w')"
    by (rule sample_ids_named) (use Q in \<open>auto simp: seeded_grants_def\<close>)
  have "set (visible_tables I) = set SAMPLE_TABLES - set (si_hidden_tables I)" by (auto simp: visible_tables_def)
  moreover have "tool_grants m1 = tool_grants (w_meta w) \<union> {?s} \<times> TOOL_NAMES"
    using seed_tools_add [OF tools] by (simp only: all_tools)
  moreover have "table_grants m1 = table_grants (w_meta w)" "access_grants m1 = access_grants (w_meta w)"
    using leavesD [OF leaves_each, OF seed_leaves(1) tools] by (simp_all add: table_grants_def access_grants_def)
  moreover have "sd_name ` set ts \<subseteq> cn_name ` set (am_connections (w_meta w'))"
  proof -
    have "Q \<subseteq> set (id_names (w_meta w'))" using Q(1) by (auto simp: seeded_grants_def)
    then have "snd ` Q \<subseteq> snd ` set (id_names (w_meta w'))" by (rule image_mono)
    also have "\<dots> = cn_name ` set (am_connections (w_meta w'))" by (force simp: id_names_def)
    finally show ?thesis by (simp add: Q(2))
  qed
  ultimately show ?thesis using Q(1) by (simp add: seeded_grants_def ids)
qed

definition demo_seed :: seed_input where
  "demo_seed = \<lparr>si_fernet = toy_fernet, si_keys = [lit ''k1''], si_nonce = 0,
     si_postgres = Some \<lparr>pt_host = lit ''127.0.0.1'', pt_port = 5432, pt_database = lit ''org_data'',
       pt_username = lit ''org_readonly'', pt_password = lit ''pw''\<rparr>,
     si_sqlite_path = Some (lit ''/data/sample.sqlite''), si_role = lit ''analyst'',
     si_hidden_tables = [lit ''payments''], si_new_id = (\<lambda>name. name)\<rparr>"

lemma demo_role: "si_role demo_seed = lit ''analyst''"
  by (simp add: demo_seed_def)

lemma demo_seed_runs:
  "\<not> isl (fst (seed_sample_registry demo_pg demo_seed (snd demo_start)))"
  by code_simp

lemma demo_seed_targets: "(case seed_targets demo_seed of Inl e \<Rightarrow> [] | Inr ts \<Rightarrow> map sd_name ts) = [lit ''shop-pg'', lit ''shop-sqlite'']"
  by code_simp

theorem seed_grants_exact_witness:
  "\<exists>v w'. seed_sample_registry demo_pg demo_seed (snd demo_start) = (Inr v, w')
     \<and> {lit ''shop-pg'', lit ''shop-sqlite''} \<subseteq> cn_name ` set (am_connections (w_meta w'))
     \<and> tool_grants (w_meta w') = {role_subject (lit ''analyst'')} \<times> TOOL_NAMES"
proof -
  obtain v w' where run: "seed_sample_registry demo_pg demo_seed (snd demo_start) = (Inr v, w')"
    using run_Inr demo_seed_runs by blast
  obtain ts where ts: "seed_targets demo_seed = Inr ts" "map sd_name ts = [lit ''shop-pg'', lit ''shop-sqlite'']"
    using demo_seed_targets by (cases "seed_targets demo_seed") simp_all
  have start: "w_meta (snd demo_start) = empty_meta" by (simp add: demo_start_def)
  have "app_meta_ok (w_meta (snd demo_start))" unfolding start by code_simp
  note exact = seed_grants_exact [OF this ts(1) run]
  have names: "sd_name ` set ts = {lit ''shop-pg'', lit ''shop-sqlite''}" unfolding set_map [symmetric] ts(2) by (simp only: list.set)
  have none: "tool_grants (w_meta (snd demo_start)) = {}" by (simp add: start tool_grants_def empty_meta_def)
  show ?thesis
  proof (intro exI conjI)
    show "seed_sample_registry demo_pg demo_seed (snd demo_start) = (Inr v, w')" by (rule run)
    show "{lit ''shop-pg'', lit ''shop-sqlite''} \<subseteq> cn_name ` set (am_connections (w_meta w'))"
      using exact unfolding names by (elim conjE)
    show "tool_grants (w_meta w') = {role_subject (lit ''analyst'')} \<times> TOOL_NAMES"
      using exact unfolding none demo_role Un_empty_left by (elim conjE)
  qed
qed

end
