(* ===== verification/Wiring.thy ===== *)
theory Wiring
  imports CacheProps RegistryProps Container
begin

text \<open>
  \<open>container.py\<close> as deployed: the cached store over Postgres, the pool of adapters with the same cache,
  and the services over both.  The state is the pool's, over the cache's, over the world.
\<close>

section \<open>Around the parts\<close>

text \<open>A store used by services whose state also holds the pool; an adapter beside a cache.\<close>

definition above_registry :: "'y meta_store \<Rightarrow> 'y registry_state meta_store" where
  "above_registry M =
     \<lparr>ms_list_connections = (\<lambda>subs. on_rg (ms_list_connections M subs)),
      ms_get_connection = (\<lambda>name subs. on_rg (ms_get_connection M name subs)),
      ms_allowed_tables = (\<lambda>cid subs. on_rg (ms_allowed_tables M cid subs)),
      ms_allowed_tools = (\<lambda>subs. on_rg (ms_allowed_tools M subs)),
      ms_descriptions = (\<lambda>cid. on_rg (ms_descriptions M cid)),
      ms_search_descriptions = (\<lambda>cid keyword tables limit. on_rg (ms_search_descriptions M cid keyword tables limit)),
      ms_write_audit = (\<lambda>e. on_rg (ms_write_audit M e)),
      ms_close = on_rg (ms_close M)\<rparr>"

definition beside_cache :: "'w adapter \<Rightarrow> ('c \<times> 'w) adapter" where
  "beside_cache a =
     \<lparr>ad_dialect_name = ad_dialect_name a, ad_default_schema = ad_default_schema a,
      ad_connect = io_on_snd (ad_connect a), ad_close = io_on_snd (ad_close a),
      ad_list_tables = io_on_snd (ad_list_tables a), ad_describe_table = (\<lambda>t. io_on_snd (ad_describe_table a t)),
      ad_execute = (\<lambda>sql n tm. io_on_snd (ad_execute a sql n tm)),
      ad_explain = (\<lambda>sql tm. io_on_snd (ad_explain a sql tm)),
      ad_sample_rows = (\<lambda>t n tm. io_on_snd (ad_sample_rows a t n tm))\<rparr>"

section \<open>The wiring\<close>

text \<open>What the parts are built from that is not of this program, or not of its settings.\<close>

record ('r, 'x, 'q) libraries =
  lb_fernet :: fernet_lib
  lb_redis :: "pystr \<Rightarrow> 'r redis_client"      \<comment> \<open>\<open>Redis.from_url\<close>\<close>
  lb_redis_clock :: "'r clock"
  lb_digest :: "pystr \<Rightarrow> pystr"
  lb_codecs :: store_codecs
  lb_adapter_codecs :: adapter_codecs
  lb_pg :: "pystr \<Rightarrow> 'x pg"                   \<comment> \<open>\<open>create_async_engine\<close> for \<open>app_meta\<close>\<close>
  lb_factory :: "engine_url \<Rightarrow> json list option \<Rightarrow> ('x, 'x adapter) op"
  lb_timestamp :: "datetime \<Rightarrow> pystr"
  lb_clock :: "'x clock"
  lb_ucd :: ucd
  lb_sqlglot :: "'q sqlglot"

type_synonym ('r, 'x) wired_state = "('r redis_state \<times> 'x world) registry_state"

definition wired_cache :: "settings \<Rightarrow> ('r, 'x, 'q) libraries \<Rightarrow> ('r redis_state \<times> 'x world) cache" where
  "wired_cache st L = lift_cache (create_cache st (lb_redis L) (lb_redis_clock L))"

definition wired_store :: "settings \<Rightarrow> ('r, 'x, 'q) libraries \<Rightarrow> ('r redis_state \<times> 'x world) meta_store" where
  "wired_store st L =
     cached_meta_store (lb_digest L) (lb_codecs L) (wired_cache st L)
       (st_permission_cache_ttl_s st) (st_cache_ttl_s st)
       (lift_store (postgres_meta_store (lb_pg L (st_app_meta_url st))))"

definition wired_registry :: "settings \<Rightarrow> ('r, 'x, 'q) libraries \<Rightarrow> pystr list \<Rightarrow> ('r redis_state \<times> 'x world) registry_config" where
  "wired_registry st L keys =
     \<lparr>rc_fernet = lb_fernet L, rc_keys = keys,
      rc_factory = (\<lambda>url schemas. io_bind (io_on_snd (on_ext (lb_factory L url schemas)))
        (\<lambda>a. io_return (beside_cache (lift_adapter a)))),
      rc_cache = Some (wired_cache st L), rc_schema_ttl_s = st_cache_ttl_s st, rc_codecs = lb_adapter_codecs L,
      rc_ucd = lb_ucd L, rc_timestamp = lb_timestamp L\<rparr>"

definition wired_clock :: "'x clock \<Rightarrow> ('r, 'x) wired_state clock" where
  "wired_clock clk = (\<lambda>s. case clk (w_ext (snd (rg_ext s))) of
     (t, x) \<Rightarrow> (t, s\<lparr>rg_ext := (fst (rg_ext s), snd (rg_ext s)\<lparr>w_ext := x\<rparr>)\<rparr>))"

definition wire_services :: "settings \<Rightarrow> ('r, 'x, 'q) libraries \<Rightarrow> exn + (('r, 'x) wired_state, 'q) services" where
  "wire_services st L =
     res_bind (secret_box (lb_fernet L) (st_connection_secret_keys st)) (\<lambda>keys.
       Inr \<lparr>sv_store = above_registry (wired_store st L), sv_adapters = registry_provider (wired_registry st L keys),
            sv_clock = wired_clock (lb_clock L), sv_ucd = lb_ucd L, sv_sqlglot = lb_sqlglot L,
            sv_limits = limits_of_settings st\<rparr>)"

definition services_close :: "settings \<Rightarrow> ('r, 'x, 'q) libraries \<Rightarrow> (('r, 'x) wired_state, unit) op" where
  "services_close st L = io_then registry_close (on_rg (ms_close (wired_store st L)))"

section \<open>The contract of the store, above the pool\<close>

lemma answers_above:
  assumes "answers ok view op q"
  shows "answers (\<lambda>s. ok (rg_ext s) \<and> Q (rg_adapters s)) (\<lambda>s. view (rg_ext s)) (on_rg op) q"
  unfolding answers_def triple_def
proof (intro allI impI)
  fix m and s :: "'a registry_state"
  assume s: "(ok (rg_ext s) \<and> Q (rg_adapters s)) \<and> view (rg_ext s) = m"
  obtain r y where run: "op (rg_ext s) = (r, y)" by (rule prod.exhaust)
  with assms s have "case r of Inl e \<Rightarrow> ok y \<and> view y = m | Inr x \<Rightarrow> (ok y \<and> view y = m) \<and> x = q m"
    unfolding answers_def triple_def by (fastforce split: sum.splits)
  with s run show "case on_rg op s of
      (Inl e, t) \<Rightarrow> (ok (rg_ext t) \<and> Q (rg_adapters t)) \<and> view (rg_ext t) = m
    | (Inr x, t) \<Rightarrow> ((ok (rg_ext t) \<and> Q (rg_adapters t)) \<and> view (rg_ext t) = m) \<and> x = q m"
    by (cases r) (simp_all add: on_rg_def)
qed

lemma above_guarded:
  assumes "guarded_store M view ok collate lower search known"
  shows "guarded_store (above_registry M) (\<lambda>s. view (rg_ext s)) (\<lambda>s. ok (rg_ext s) \<and> Q (rg_adapters s))
    collate lower search known"
proof (unfold_locales, goal_cases)
  case (7 s e r s')
  obtain x y where run: "ms_write_audit M e (rg_ext s) = (x, y)" by (rule prod.exhaust)
  with guarded_store.write_audit [OF assms _ run] 7 show ?case by (auto simp: above_registry_def on_rg_def)
qed (simp_all add: above_registry_def answers_above guarded_store.list_connections [OF assms]
    guarded_store.get_connection [OF assms] guarded_store.allowed_tables [OF assms]
    guarded_store.allowed_tools [OF assms] guarded_store.descriptions [OF assms]
    guarded_store.search_descriptions [OF assms])

lemma wired_store_redis:
  assumes "st_redis_url st = Some url"
  shows "wired_store st L = redis_meta_store (lb_redis L url) (lb_redis_clock L) (lb_digest L) (lb_codecs L)
    (st_permission_cache_ttl_s st) (st_cache_ttl_s st) (lb_pg L (st_app_meta_url st))"
  by (simp add: wired_store_def redis_meta_store_def wired_cache_def create_cache_def assms)

text \<open>The deployed services open a connection exactly as the grants of this moment say, although
  every grant may come from Redis; doing so neither opens nor closes a pooled adapter, and leaves
  the tables and the cache's soundness alone.\<close>

theorem wired_open_current:
  assumes "redis_laws (lb_redis L url) (lb_redis_clock L) kv" "told_apart (lb_digest L) known" "faithful_codecs (lb_codecs L)"
    and "subjects c \<in> known" "st_redis_url st = Some url" "wire_services st L = Inr S"
    and "redis_current kv (lb_digest L) (lb_codecs L) (lb_pg L (st_app_meta_url st)) known (rg_ext s)"
    and "open_connection (sv_ucd S) (sv_store S) c tool name s = (Inr acc, s')"
  shows "opens_as (lb_ucd L) (w_meta (snd (rg_ext s))) c tool name acc
    \<and> redis_current kv (lb_digest L) (lb_codecs L) (lb_pg L (st_app_meta_url st)) known (rg_ext s')
    \<and> w_meta (snd (rg_ext s')) = w_meta (snd (rg_ext s)) \<and> rg_adapters s' = rg_adapters s"
proof -
  let ?P = "lb_pg L (st_app_meta_url st)"
  from assms(6) have S: "sv_store S = above_registry (wired_store st L)" "sv_ucd S = lb_ucd L"
    by (auto simp: wire_services_def res_bind_Inr_iff)
  have "guarded_store (wired_store st L) (\<lambda>s. w_meta (snd s)) (redis_current kv (lb_digest L) (lb_codecs L) ?P known)
      (pg_sort_key ?P) (pg_lower ?P) (pg_search ?P) known"
    unfolding wired_store_redis [OF assms(5)] by (rule redis_store_guarded [OF assms(1-3)])
  from guarded_store.open_connection_triple [OF above_guarded [OF this, where Q = "\<lambda>a. a = rg_adapters s"] assms(4)]
  have "triple (\<lambda>t. (redis_current kv (lb_digest L) (lb_codecs L) ?P known (rg_ext t) \<and> rg_adapters t = rg_adapters s)
        \<and> w_meta (snd (rg_ext t)) = w_meta (snd (rg_ext s)))
     (open_connection (lb_ucd L) (sv_store S) c tool name)
     (\<lambda>acc t. ((redis_current kv (lb_digest L) (lb_codecs L) ?P known (rg_ext t) \<and> rg_adapters t = rg_adapters s)
        \<and> w_meta (snd (rg_ext t)) = w_meta (snd (rg_ext s))) \<and> opens_as (lb_ucd L) (w_meta (snd (rg_ext s))) c tool name acc)
     (\<lambda>_ t. (redis_current kv (lb_digest L) (lb_codecs L) ?P known (rg_ext t) \<and> rg_adapters t = rg_adapters s)
        \<and> w_meta (snd (rg_ext t)) = w_meta (snd (rg_ext s)))"
    unfolding S .
  from tripleD_Inr [OF this _ assms(8) [unfolded S(2)]] assms(7) show ?thesis by blast
qed

section \<open>A small deployment\<close>

definition sample_settings :: settings where
  "sample_settings = \<lparr>st_app_meta_url = lit ''postgresql://meta'', st_connection_secret_keys = lit ''k1'',
     st_redis_url = Some (lit ''redis://cache''), st_cache_ttl_s = 300, st_permission_cache_ttl_s = 60,
     st_default_query_timeout_ms = 5000, st_default_row_limit = 500, st_max_row_limit = 5000, st_max_sample_rows = 100,
     st_max_sql_length = 20000, st_max_cell_chars = 2000, st_stdio_sub = None, st_stdio_name = None, st_stdio_roles = [],
     st_http_host = lit ''127.0.0.1'', st_http_port = 8000, st_public_url = None, st_oauth_issuer = None,
     st_oauth_jwks_url = None, st_oauth_audience = None, st_oauth_roles_claim = lit ''roles'',
     st_oauth_required_scopes = [], st_token_verification = VerifyJwt, st_oauth_introspection_url = None,
     st_oauth_introspection_client_id = None, st_oauth_introspection_client_secret = None, st_token_cache_ttl_s = 60\<rparr>"

definition sample_libraries :: "(kv_data, unit, unit) libraries" where
  "sample_libraries = \<lparr>lb_fernet = toy_fernet, lb_redis = (\<lambda>_. mem_redis), lb_redis_clock = (\<lambda>x. (0, x)),
     lb_digest = shift_digest, lb_codecs = sample_codecs,
     lb_adapter_codecs = \<lparr>kc_tables = forgetful, kc_description = forgetful\<rparr>, lb_pg = (\<lambda>_. sample_pg),
     lb_factory = (\<lambda>_ _. io_raise (py_error ''OSError'')), lb_timestamp = str_of_int, lb_clock = (\<lambda>x. (0, x)),
     lb_ucd = ascii_ucd, lb_sqlglot = \<lparr>sg_parse = (\<lambda>_ _. Inr [Some ()]), sg_is_query = (\<lambda>_. True),
       sg_has_class = (\<lambda>_. False), sg_find = (\<lambda>_ _. False), sg_scopes = (\<lambda>_. Inr [])\<rparr>\<rparr>"

definition sample_wired :: "((kv_data, unit) wired_state, unit) services" where
  "sample_wired = (case wire_services sample_settings sample_libraries of Inr S \<Rightarrow> S)"

definition sample_wired_open :: "(kv_data, unit) wired_state \<Rightarrow> (exn + connection_access) \<times> (kv_data, unit) wired_state" where
  "sample_wired_open = open_connection (sv_ucd sample_wired) (sv_store sample_wired) sample_caller (lit ''run_query'') (lit ''shop'')"

definition sample_wired_warm :: "(kv_data, unit) wired_state" where
  "sample_wired_warm = \<lparr>rg_adapters = [], rg_ext = sample_warm\<rparr>"

lemma sample_keys: "secret_box toy_fernet (lit ''k1'') = Inr [lit ''k1'']"
  by code_simp

lemma sample_wiring: "\<not> isl (wire_services sample_settings sample_libraries)"
  using sample_keys by (simp add: wire_services_def sample_settings_def sample_libraries_def)

lemma open_above: "open_connection U (above_registry M) c tool name = on_rg (open_connection U M c tool name)"
  by (rule ext) (auto simp: open_connection_def require_tool_def above_registry_def io_then_def io_bind_def on_rg_def
      io_guard_def io_raise_def io_return_def split: prod.splits sum.splits option.splits)

lemma sample_wired_store:
  "wire_services sample_settings sample_libraries = Inr S \<Longrightarrow> sv_ucd S = ascii_ucd \<and> sv_store S = above_registry sample_store"
  by (auto simp: wire_services_def res_bind_Inr_iff wired_store_redis [of _ "lit ''redis://cache''"] sample_store_def
      sample_settings_def sample_libraries_def)

lemma sample_wired_opens: "\<not> isl (fst (sample_wired_open sample_wired_warm))"
proof -
  obtain S where S: "wire_services sample_settings sample_libraries = Inr S"
    using sample_wiring by (cases "wire_services sample_settings sample_libraries") simp_all
  then have run: "sample_wired_open = on_rg sample_open"
    using sample_wired_store [OF S] by (simp add: sample_wired_open_def sample_wired_def open_above sample_open_def)
  show ?thesis
    unfolding run using sample_second_open by (simp add: on_rg_def sample_wired_warm_def case_prod_unfold)
qed

text \<open>The second call of the caller is answered from Redis, and as the tables say.\<close>

theorem wired_open_current_witness:
  "\<exists>acc s'. sample_wired_open sample_wired_warm = (Inr acc, s')
     \<and> opens_as ascii_ucd sample_grants sample_caller (lit ''run_query'') (lit ''shop'') acc \<and> rg_adapters s' = []"
proof -
  obtain acc s' where run: "sample_wired_open sample_wired_warm = (Inr acc, s')"
    using run_Inr [OF sample_wired_opens] by blast
  obtain S where S: "wire_services sample_settings sample_libraries = Inr S"
    using sample_wiring by (cases "wire_services sample_settings sample_libraries") simp_all
  then have wired: "sample_wired = S" by (simp add: sample_wired_def)
  have libs: "redis_laws (lb_redis sample_libraries (lit ''redis://cache'')) (lb_redis_clock sample_libraries) (\<lambda>x. x)"
      "told_apart (lb_digest sample_libraries) {subs. plain_subjects subs}" "faithful_codecs (lb_codecs sample_libraries)"
    using sample_hyps by (simp_all add: sample_libraries_def)
  have redis: "st_redis_url sample_settings = Some (lit ''redis://cache'')" by (simp add: sample_settings_def)
  have current: "redis_current (\<lambda>x. x) (lb_digest sample_libraries) (lb_codecs sample_libraries)
      (lb_pg sample_libraries (st_app_meta_url sample_settings)) {subs. plain_subjects subs} (rg_ext sample_wired_warm)"
    and tables: "w_meta (snd (rg_ext sample_wired_warm)) = sample_grants"
    using sample_warm_current by (simp_all add: sample_libraries_def sample_wired_warm_def)
  show ?thesis
    using wired_open_current [OF libs sample_hyps(4) redis S current run [unfolded sample_wired_open_def wired]] run tables
    by (intro exI [of _ acc] exI [of _ s'] conjI) (simp_all add: sample_libraries_def sample_wired_warm_def)
qed

end
