(* ===== verification/QuietCache.thy ===== *)
theory QuietCache
  imports Wiring Governance
begin

text \<open>
  The schema cache is a guest in the cache of the permissions: an adapter behind it reads and
  writes keys of its own family, so it cannot change what the cached grants mean.
\<close>

section \<open>Keys of another family\<close>

lemma full_key_family:
  "full_key f v k = full_key g w l \<Longrightarrow> 58 \<notin> set f \<Longrightarrow> 58 \<notin> set g \<Longrightarrow> f = g"
  using append_sep_inject [of f 58 "str_of_int v @ 58 # k" g "str_of_int w @ 58 # l"]
  by (simp add: full_key_def)

lemma families_apart:
  "full_key SCHEMA v k \<noteq> full_key META w l" "\<not> reserved (full_key SCHEMA v k)"
  by (simp_all add: full_key_def SCHEMA_def META_def reserved_def starts_with_def)

context cache_contract begin

lemma foreign_version: "io_keeps (keeps_all family good r v) (ca_version C g)"
  unfolding io_keeps_def
proof (intro allI impI)
  fix s assume h: "keeps_all family good r v s"
  obtain rv t where run: "ca_version C g s = (rv, t)" by (rule prod.exhaust)
  with holds_step [OF h] version_law [OF holdsD(1) [OF h] run]
  show "keeps_all family good r v (snd (ca_version C g s))" by simp
qed

lemma foreign_get:
  assumes "\<not> reserved k"
  shows "io_keeps (keeps_all family good r v) (ca_get C k)"
  unfolding io_keeps_def
proof (intro allI impI)
  fix s assume h: "keeps_all family good r v s"
  obtain rg t where run: "ca_get C k s = (rg, t)" by (rule prod.exhaust)
  with holds_step [OF h] get_law [OF holdsD(1) [OF h] assms run]
  show "keeps_all family good r v (snd (ca_get C k s))" by simp
qed

lemma foreign_set:
  assumes "\<not> reserved k" "\<And>w l. k \<noteq> full_key family w l"
  shows "io_keeps (keeps_all family good r v) (ca_set C k x ttl)"
  unfolding io_keeps_def
proof (intro allI impI)
  fix s assume h: "keeps_all family good r v s"
  obtain ru t where run: "ca_set C k x ttl s = (ru, t)" by (rule prod.exhaust)
  note law = set_law [OF holdsD(1) [OF h] assms(1) run]
  have same: "entries s (full_key family w l) = Some y" if "entries t (full_key family w l) = Some y" for w l y
    using storesD [of "entries s" k x "entries t"] that law assms(2) by metis
  have "coherent entries ver family good t"
    by (rule coherentI; drule same; use law holdsD(4) [OF h] in \<open>auto dest: coherentD\<close>)
  with law run holdsD(2,3) [OF h] show "keeps_all family good r v (snd (ca_set C k x ttl s))"
    by (simp add: holds_def)
qed

lemma foreign_json:
  assumes "\<And>w. \<not> reserved (full_key g w key)" "\<And>u w l. full_key g u key \<noteq> full_key family w l"
    and ld: "io_keeps (keeps_all family good r v) ld"
  shows "io_keeps (keeps_all family good r v) (cached_json C g key ttl K ld)"
  unfolding cached_json_def Let_def
  by (intro io_keeps_bind io_keeps_then io_keeps_option io_keeps_basic foreign_version foreign_get foreign_set ld assms)

end

section \<open>Cached adapters\<close>

text \<open>An adapter that never touches the tables, opening and closing included.\<close>

definition quiet_throughout :: "('s \<Rightarrow> bool) \<Rightarrow> ('s \<Rightarrow> app_meta) \<Rightarrow> 's adapter \<Rightarrow> bool" where
  "quiet_throughout ok view a \<longleftrightarrow>
     quiet_adapter ok view a \<and> quiet ok view (ad_connect a) \<and> quiet ok view (ad_close a)"

text \<open>
  \<open>held g\<close>: the entries under the current version mean what \<open>g\<close> says, whatever that is.  With the
  meaning of the store it is \<open>fresh\<close>; with no meaning at all it is what remains true between a
  commit and its announcement.
\<close>

context cached_store begin

abbreviation "held g s \<equiv>
  alive (fst s) \<and> ok (snd s) \<and> coherent (\<lambda>p. entries (fst p)) (\<lambda>p. ver (fst p)) META (g (tables s)) s"

lemma quiet_held:
  assumes "\<And>m v. io_keeps (both.keeps_all META (g m) m v) op"
  shows "quiet (\<lambda>s. held g s) (\<lambda>s. tables s) op"
proof (rule quietI)
  fix s r t assume s: "held g s" and run: "op s = (r, t)"
  have "both.keeps_all META (g (tables s)) (tables s) (ver (fst s) META) s" using s by (simp add: holds_def)
  from io_keepsD [OF assms this run] show "held g t \<and> tables t = tables s" by (auto simp: holds_def)
qed

lemma quiet_load:
  assumes "quiet ok view op"
  shows "io_keeps (both.keeps_all family good' m v) (io_on_snd op)"
  unfolding io_keeps_def
proof (intro allI impI)
  fix s assume h: "both.keeps_all family good' m v s"
  obtain r t where run: "io_on_snd op s = (r, t)" by (rule prod.exhaust)
  then have "op (snd s) = (r, snd t)" "fst t = fst s" by (auto simp: io_on_snd_iff)
  then show "both.keeps_all family good' m v (snd (io_on_snd op s))"
    using h run io_keepsD [OF quiet_keeps [OF assms, of m], of "snd s" r "snd t"] by (simp add: holds_def coherent_def)
qed

lemma quiet_lifted: "quiet ok view op \<Longrightarrow> quiet (\<lambda>s. held g s) (\<lambda>s. tables s) (io_on_snd op)"
  by (rule quiet_held) (rule quiet_load)

lemma quiet_cached_schema:
  "quiet ok view op \<Longrightarrow>
   quiet (\<lambda>s. held g s) (\<lambda>s. tables s) (cached_json (lift_cache C) SCHEMA key ttl A (io_on_snd op))"
  by (intro quiet_held both.foreign_json families_apart quiet_load)

lemma cached_adapter_quiet:
  assumes "quiet_throughout ok view a"
  shows "quiet_throughout (\<lambda>s. held g s) (\<lambda>s. tables s) (cached_adapter U A (lift_cache C) ns ttl (beside_cache a))"
  using assms unfolding quiet_throughout_def quiet_adapter_def
  by (simp add: cached_adapter_def beside_cache_def quiet_lifted quiet_cached_schema)

text \<open>Between a commit and its announcement the store's look-ups do no lasting harm.\<close>

lemma stale_json:
  assumes "io_keeps (both.keeps_all META (\<lambda>_ _. True) m v) ld"
  shows "io_keeps (both.keeps_all META (\<lambda>_ _. True) m v) (cached_json (lift_cache C) META key ttl A ld)"
  using assms unfolding io_keeps_triple
  by (intro triple_post [OF both.cached_json_triple [OF not_reserved_meta, where R = "\<lambda>_. True"]]) simp_all

lemma quiet_stale:
  "(\<And>m v. io_keeps (both.keeps_all META (\<lambda>_ _. True) m v) op) \<Longrightarrow>
   quiet (\<lambda>s. held (\<lambda>_ _ _. True) s) (\<lambda>s. tables s) op"
  by (rule quiet_held [where g = "\<lambda>_ _ _. True"])

lemmas store_quiet =
  answers_quiet [OF store.list_connections] answers_quiet [OF store.get_connection] answers_quiet [OF store.allowed_tables]
  answers_quiet [OF store.allowed_tools] answers_quiet [OF store.descriptions] answers_quiet [OF store.search_descriptions]

lemma stale_reads:
  "subs \<in> known \<Longrightarrow> quiet (\<lambda>s. held (\<lambda>_ _ _. True) s) (\<lambda>s. tables s) (ms_list_connections cached subs)"
  "subs \<in> known \<Longrightarrow> quiet (\<lambda>s. held (\<lambda>_ _ _. True) s) (\<lambda>s. tables s) (ms_get_connection cached name subs)"
  "subs \<in> known \<Longrightarrow> quiet (\<lambda>s. held (\<lambda>_ _ _. True) s) (\<lambda>s. tables s) (ms_allowed_tables cached cid subs)"
  "subs \<in> known \<Longrightarrow> quiet (\<lambda>s. held (\<lambda>_ _ _. True) s) (\<lambda>s. tables s) (ms_allowed_tools cached subs)"
  "quiet (\<lambda>s. held (\<lambda>_ _ _. True) s) (\<lambda>s. tables s) (ms_descriptions cached cid)"
  "quiet (\<lambda>s. held (\<lambda>_ _ _. True) s) (\<lambda>s. tables s) (ms_search_descriptions cached cid kw ts lim)"
  by (simp_all add: cached_meta_store_def lift_store_def load_sorted_def,
      (intro quiet_stale io_keeps_bind io_keeps_basic stale_json quiet_load store_quiet
        | assumption)+)

lemma stale_write:
  assumes "held (\<lambda>_ _ _. True) s" "ms_write_audit cached e s = (r, t)"
  shows "held (\<lambda>_ _ _. True) t"
proof -
  from assms(2) obtain w where w: "ms_write_audit M e (snd s) = (r, w)" "t = (fst s, w)"
    by (auto simp: cached_meta_store_def lift_store_def io_on_snd_iff)
  with store.write_audit [OF _ w(1)] assms(1) show ?thesis by (simp add: coherent_def)
qed

end

lemma lift_adapter_throughout: "quiet_throughout (\<lambda>_. True) w_meta (lift_adapter a)"
  by (simp add: quiet_throughout_def lift_adapter_quiet) (simp add: lift_adapter_def on_ext_quiet)

end
