(* ===== verification/Deployed.thy ===== *)
theory Deployed
  imports QuietCache HttpServer AuditTrail
begin

text \<open>
  The deployment as a whole: any number of server processes, wired as \<open>container.py\<close> does, share
  one \<open>app_meta\<close> and one Redis; callers come and go, cached entries expire, administrators change
  the tables and bump the version.  At every point of every such history the next call is held
  to the grants of that moment.
\<close>

section \<open>Operations and what they return\<close>

definition yields :: "('s \<Rightarrow> bool) \<Rightarrow> ('a \<Rightarrow> bool) \<Rightarrow> ('s, 'a) op \<Rightarrow> bool" where
  "yields P R m \<longleftrightarrow> triple P m (\<lambda>x s. P s \<and> R x) (\<lambda>_. P)"

lemma yieldsD:
  assumes "yields P R m" "P s" "m s = (r, t)"
  shows "P t" "r = Inr x \<Longrightarrow> R x"
  using assms tripleD_Inr [of P m _ _ s] tripleD_Inl [of P m _ _ s]
  by (cases r; fastforce simp: yields_def)+

lemma yields_return: "R x \<Longrightarrow> yields P R (io_return x)"
  by (simp add: yields_def triple_def)

lemma yields_raise: "yields P R (io_raise e)"
  by (simp add: yields_def triple_def)

lemma yields_bind: "yields P Q m \<Longrightarrow> (\<And>x. Q x \<Longrightarrow> yields P R (f x)) \<Longrightarrow> yields P R (io_bind m f)"
  unfolding yields_def by (rule triple_bind [OF triple_pure])

lemma yields_after: "io_keeps P m \<Longrightarrow> (\<And>x. yields P R (f x)) \<Longrightarrow> yields P R (io_bind m f)"
  by (rule yields_bind [where Q = "\<lambda>_. True"]) (simp_all add: yields_def io_keeps_triple)

lemma yields_then: "io_keeps P m \<Longrightarrow> yields P R k \<Longrightarrow> yields P R (io_then m k)"
  unfolding io_then_def by (rule yields_after)

lemma yieldsI:
  assumes "\<And>s r t. P s \<Longrightarrow> m s = (r, t) \<Longrightarrow> P t \<and> (\<forall>x. r = Inr x \<longrightarrow> R x)"
  shows "yields P R m"
  unfolding yields_def using assms by (intro tripleI) blast+

lemma yields_catch:
  assumes m: "yields P R m" and h: "\<And>e. yields P R (h e)"
  shows "yields P R (io_catch m h)"
proof (rule yieldsI)
  fix s r t assume s: "P s" and run: "io_catch m h s = (r, t)"
  obtain q u where q: "m s = (q, u)" by (rule prod.exhaust)
  note u = yieldsD [OF m s q]
  show "P t \<and> (\<forall>x. r = Inr x \<longrightarrow> R x)"
  proof (cases q)
    case (Inl e)
    with q run have "h e u = (r, t)" by (simp add: io_catch_def)
    from yieldsD [OF h u(1) this] show ?thesis by blast
  next
    case (Inr x)
    with q run u show ?thesis by (auto simp: io_catch_def)
  qed
qed

lemma quiet_run:
  assumes "quiet ok view op" "ok s" "op s = (r, t)"
  shows "ok t" "view t = view s"
  using io_keepsD [OF quiet_keeps [OF assms(1), of "view s"] _ assms(3)] assms(2) by simp_all

section \<open>The pool of quiet adapters\<close>

text \<open>\<open>Q\<close> is what is known of every adapter of the pool; it implies that using it leaves the tables alone.\<close>

definition pool_quiet :: "('y \<Rightarrow> bool) \<Rightarrow> ('y adapter \<Rightarrow> bool) \<Rightarrow> 'y registry_state \<Rightarrow> bool" where
  "pool_quiet ok Q s \<longleftrightarrow> ok (rg_ext s) \<and> list_all (\<lambda>e. Q (snd (snd e))) (rg_adapters s)"

abbreviation pool_rest ::
  "('y \<Rightarrow> bool) \<Rightarrow> ('y \<Rightarrow> app_meta) \<Rightarrow> ('y adapter \<Rightarrow> bool) \<Rightarrow> app_meta \<Rightarrow> 'y registry_state \<Rightarrow> bool" where
  "pool_rest ok view Q m s \<equiv> pool_quiet ok Q s \<and> view (rg_ext s) = m"

text \<open>Opening a connection leaves the tables alone, and so will the adapter.\<close>

definition opens_quietly ::
  "('y \<Rightarrow> bool) \<Rightarrow> ('y \<Rightarrow> app_meta) \<Rightarrow> ('y adapter \<Rightarrow> bool) \<Rightarrow> 'y registry_config \<Rightarrow> bool" where
  "opens_quietly ok view Q G \<longleftrightarrow>
     (\<forall>rec m. yields (\<lambda>y. ok y \<and> view y = m) Q (open_record G rec)) \<and> (\<forall>a. Q a \<longrightarrow> quiet_throughout ok view a)"

lemma on_rg_quiet:
  assumes op: "quiet ok view op"
  shows "quiet (pool_quiet ok Q) (\<lambda>s. view (rg_ext s)) (on_rg op)"
proof (rule quietI)
  fix s r t assume s: "pool_quiet ok Q s" and run: "on_rg op s = (r, t)"
  obtain q y where y: "op (rg_ext s) = (q, y)" by (rule prod.exhaust)
  with run have "t = s\<lparr>rg_ext := y\<rparr>" by (simp add: on_rg_def)
  with quiet_run [OF op _ y] s show "pool_quiet ok Q t \<and> view (rg_ext t) = view (rg_ext s)"
    by (simp add: pool_quiet_def)
qed

lemma yields_on_rg:
  assumes "yields (\<lambda>y. ok y \<and> view y = m) R op"
  shows "yields (pool_rest ok view Q m) R (on_rg op)"
proof (rule yieldsI)
  fix s r t assume s: "pool_rest ok view Q m s" and run: "on_rg op s = (r, t)"
  obtain y where y: "op (rg_ext s) = (r, y)" "t = s\<lparr>rg_ext := y\<rparr>" using run by (auto simp: on_rg_def split: prod.splits)
  then show "pool_rest ok view Q m t \<and> (\<forall>x. r = Inr x \<longrightarrow> R x)"
    using yieldsD [OF assms _ y(1)] s by (simp add: pool_quiet_def)
qed

lemma pooled_adapter_quiet:
  "quiet_throughout ok view a \<Longrightarrow> quiet_adapter (pool_quiet ok Q) (\<lambda>s. view (rg_ext s)) (pooled_adapter a)"
  by (simp add: quiet_throughout_def quiet_adapter_def pooled_adapter_def on_rg_quiet)

lemma keep_entry:
  "Q a \<Longrightarrow> io_keeps (pool_rest ok view Q m) (io_modify (\<lambda>s. s\<lparr>rg_adapters := dict_set k (v, a) (rg_adapters s)\<rparr>))"
  using set_dict_set by (fastforce simp: io_keeps_def pool_quiet_def list_all_iff)

lemma drop_stale:
  "io_keeps (pool_rest ok view Q m) (io_modify (\<lambda>s. s\<lparr>rg_adapters := drop_entry k (rg_adapters s)\<rparr>))"
  using set_drop_entry(1) by (fastforce simp: io_keeps_def pool_quiet_def list_all_iff)

lemma open_and_keep_quiet:
  assumes "opens_quietly ok view Q G"
  shows "yields (pool_rest ok view Q m) Q (open_and_keep G rec)"
  unfolding open_and_keep_def
proof (rule yields_bind)
  have "yields (\<lambda>y. ok y \<and> view y = m) Q (open_record G rec)"
    using assms by (simp add: opens_quietly_def)
  then show "yields (pool_rest ok view Q m) Q (on_rg (open_record G rec))"
    by (rule yields_on_rg)
qed (intro yields_then keep_entry yields_return)

lemma adapter_for_quiet:
  fixes G :: "'a registry_config"
  assumes "opens_quietly ok view Q G"
  shows "yields (pool_rest ok view Q m) Q (adapter_for G rec)"
  unfolding adapter_for_def
proof (rule yields_bind)
  show "yields (pool_rest ok view Q m) (\<lambda>c. \<forall>v a. c = Some (v, a) \<longrightarrow> Q a)
      (io_gets (\<lambda>s. map_of (rg_adapters s) (cr_id rec)))"
    by (auto simp: yields_def triple_def pool_quiet_def list_all_iff dest!: map_of_SomeD)
  fix c :: "(datetime \<times> 'a adapter) option" assume c: "\<forall>v a. c = Some (v, a) \<longrightarrow> Q a"
  have "quiet ok view (ad_close a)" if "Q a" for a
    using assms that by (simp add: opens_quietly_def quiet_throughout_def)
  then show "yields (pool_rest ok view Q m) Q (case c of
         None \<Rightarrow> open_and_keep G rec
       | Some (version, adapter) \<Rightarrow>
           (if version = cr_updated_at rec then io_return adapter
            else io_then (on_rg (ad_close adapter))
              (io_then (io_modify (\<lambda>s. s\<lparr>rg_adapters := drop_entry (cr_id rec) (rg_adapters s)\<rparr>))
                (open_and_keep G rec))))"
    using c by (auto split: option.split
        intro!: yields_return yields_then drop_stale open_and_keep_quiet [OF assms] quiet_keeps [OF on_rg_quiet])
qed

lemma registry_provider_quiet:
  assumes "opens_quietly ok view Q G"
  shows "yields (pool_rest ok view Q m) (quiet_adapter (pool_quiet ok Q) (\<lambda>s. view (rg_ext s))) (registry_provider G rec)"
  unfolding registry_provider_def
proof (rule yields_bind [OF adapter_for_quiet [OF assms]])
  fix a assume "Q a"
  then have "quiet_throughout ok view a" using assms by (simp add: opens_quietly_def)
  then show "yields (pool_rest ok view Q m) (quiet_adapter (pool_quiet ok Q) (\<lambda>s. view (rg_ext s))) (io_return (pooled_adapter a))"
    by (intro yields_return pooled_adapter_quiet)
qed

section \<open>The wiring keeps the contracts\<close>

text \<open>What the libraries must be like, and what is then true of the cache.\<close>

definition deployment_laws ::
  "settings \<Rightarrow> ('r, 'x, 'q) libraries \<Rightarrow> ('r \<Rightarrow> pystr \<Rightarrow> pystr option) \<Rightarrow> subject list set \<Rightarrow> bool" where
  "deployment_laws st L kv known \<longleftrightarrow>
     told_apart (lb_digest L) known \<and> faithful_codecs (lb_codecs L)
     \<and> pred_option (\<lambda>url. redis_laws (lb_redis L url) (lb_redis_clock L) kv) (st_redis_url st)"

definition wired_entries :: "settings \<Rightarrow> ('r \<Rightarrow> pystr \<Rightarrow> pystr option) \<Rightarrow> 'r redis_state \<Rightarrow> pystr \<Rightarrow> pystr option" where
  "wired_entries st kv = (if st_redis_url st = None then (\<lambda>_ _. None) else redis_entries kv)"

definition wired_versions :: "settings \<Rightarrow> ('r \<Rightarrow> pystr \<Rightarrow> pystr option) \<Rightarrow> 'r redis_state \<Rightarrow> pystr \<Rightarrow> int" where
  "wired_versions st kv = (if st_redis_url st = None then (\<lambda>_ _. 0) else redis_versions kv)"

abbreviation wired_pg :: "settings \<Rightarrow> ('r, 'x, 'q) libraries \<Rightarrow> 'x pg" where
  "wired_pg st L \<equiv> lb_pg L (st_app_meta_url st)"

text \<open>
  \<open>cache_held\<close>: the entries of the permissions under their current version mean what \<open>g\<close> makes of
  the tables; \<open>current_grants\<close> is what they should mean, \<open>no_meaning\<close> all that is known of them
  between a commit and its announcement.
\<close>

definition cache_held ::
  "settings \<Rightarrow> ('r \<Rightarrow> pystr \<Rightarrow> pystr option) \<Rightarrow> (app_meta \<Rightarrow> pystr \<Rightarrow> pystr \<Rightarrow> bool) \<Rightarrow> 'r redis_state \<times> 'x world \<Rightarrow> bool" where
  "cache_held st kv g s \<longleftrightarrow>
     coherent (\<lambda>p. wired_entries st kv (fst p)) (\<lambda>p. wired_versions st kv (fst p)) META (g (w_meta (snd s))) s"

definition current_grants ::
  "settings \<Rightarrow> ('r, 'x, 'q) libraries \<Rightarrow> subject list set \<Rightarrow> app_meta \<Rightarrow> pystr \<Rightarrow> pystr \<Rightarrow> bool" where
  "current_grants st L known =
     store_good (lb_digest L) (lb_codecs L) (pg_sort_key (wired_pg st L)) (pg_lower (wired_pg st L)) known"

definition no_meaning :: "app_meta \<Rightarrow> pystr \<Rightarrow> pystr \<Rightarrow> bool" where
  "no_meaning = (\<lambda>_ _ _. True)"

definition lasting :: "settings \<Rightarrow> ('r \<Rightarrow> pystr \<Rightarrow> pystr option) \<Rightarrow> ('r redis_state \<times> 'x world) adapter \<Rightarrow> bool" where
  "lasting st kv a \<longleftrightarrow> (\<forall>g. quiet_throughout (cache_held st kv g) (\<lambda>p. w_meta (snd p)) a)"

abbreviation deployed_ok ::
  "settings \<Rightarrow> ('r \<Rightarrow> pystr \<Rightarrow> pystr option) \<Rightarrow> (app_meta \<Rightarrow> pystr \<Rightarrow> pystr \<Rightarrow> bool) \<Rightarrow> ('r, 'x) wired_state \<Rightarrow> bool" where
  "deployed_ok st kv g \<equiv> pool_quiet (cache_held st kv g) (lasting st kv)"

abbreviation deployed_tables :: "('r, 'x) wired_state \<Rightarrow> app_meta" where
  "deployed_tables s \<equiv> w_meta (snd (rg_ext s))"

lemma wired_cached_store:
  assumes "deployment_laws st L kv known"
  shows "cached_store (create_cache st (lb_redis L) (lb_redis_clock L)) (wired_entries st kv) (wired_versions st kv)
     (\<lambda>_. True) (postgres_meta_store (wired_pg st L)) w_meta (\<lambda>_. True) (pg_sort_key (wired_pg st L))
     (pg_lower (wired_pg st L)) (pg_search (wired_pg st L)) known (lb_digest L) (lb_codecs L)"
proof (cases "st_redis_url st")
  case None
  have "cache_contract null_cache (\<lambda>_ _. None) (\<lambda>_ _. 0) (\<lambda>_. True) (\<lambda>_. ())"
    by unfold_locales (auto simp: null_cache_def stores_def)
  moreover have "cached_store_axioms known (lb_digest L) (lb_codecs L)"
    using assms by (simp add: cached_store_axioms_def deployment_laws_def)
  ultimately show ?thesis
    using None by (simp add: create_cache_def wired_entries_def wired_versions_def cached_store_def postgres_guarded)
next
  case (Some url)
  with assms show ?thesis
    using redis_cached_store [of "lb_redis L url" "lb_redis_clock L" kv "lb_digest L" known "lb_codecs L"]
    by (simp add: create_cache_def wired_entries_def wired_versions_def deployment_laws_def)
qed

lemma wired_opens_quietly:
  fixes L :: "('a, 'b, 'q) libraries"
  assumes "deployment_laws st L kv known"
  shows "opens_quietly (cache_held st kv g) (\<lambda>p. w_meta (snd p)) (lasting st kv) (wired_registry st L keys)"
proof -
  let ?ok = "\<lambda>g. cache_held st kv g" and ?view = "\<lambda>p. w_meta (snd p)" and ?G = "wired_registry st L keys"
  note C = wired_cached_store [OF assms]
  have ok: "(\<lambda>s. True \<and> True \<and> coherent (\<lambda>p. wired_entries st kv (fst p)) (\<lambda>p. wired_versions st kv (fst p)) META
      (g (w_meta (snd s))) s) = ?ok g" for g
    by (simp add: cache_held_def fun_eq_iff)
  note lifted = cached_store.quiet_lifted [OF C, unfolded ok]
  have made: "lasting st kv (cached_adapter U A (wired_cache st L) ns ttl (beside_cache (lift_adapter a)))"
    for U A ns ttl and a :: "'b adapter"
    using cached_store.cached_adapter_quiet [OF C lift_adapter_throughout, unfolded ok]
    by (simp add: wired_cache_def lasting_def)
  have conn: "quiet (?ok g) ?view (ad_connect (beside_cache (lift_adapter a)))" for a :: "'b adapter"
    by (simp add: beside_cache_def lift_adapter_def lifted on_ext_quiet)
  have factory: "yields (\<lambda>y. ?ok g y \<and> ?view y = m) (\<lambda>ad. \<exists>a :: 'b adapter. ad = beside_cache (lift_adapter a))
      (rc_factory ?G url schemas)" for m url schemas
    unfolding wired_registry_def registry_config.simps
    by (intro yields_after yields_return quiet_keeps [OF lifted [OF on_ext_quiet]]) blast
  have open_rec: "yields (\<lambda>y. ?ok g y \<and> ?view y = m) (lasting st kv) (open_record ?G rec)" for rec m
    unfolding open_record_def
  proof (intro yields_catch yields_raise yields_after [OF io_keeps_basic(3)] yields_bind [OF factory], elim exE)
    fix password url schemas and ad :: "('a redis_state \<times> 'b world) adapter" and a :: "'b adapter"
    assume "ad = beside_cache (lift_adapter a)"
    then show "yields (\<lambda>y. ?ok g y \<and> ?view y = m) (lasting st kv) (io_then (ad_connect ad)
        (io_return (case rc_cache ?G of None \<Rightarrow> ad
          | Some C \<Rightarrow> cached_adapter (rc_ucd ?G) (rc_codecs ?G) C (adapter_namespace ?G rec) (rc_schema_ttl_s ?G) ad)))"
      by (intro yields_then yields_return) (simp_all add: quiet_keeps [OF conn] made wired_registry_def)
  qed
  then show ?thesis by (simp add: opens_quietly_def lasting_def)
qed

lemma wired_parts:
  assumes "wire_services st L = Inr S"
  shows "\<exists>keys. sv_store S = above_registry (wired_store st L) \<and> sv_ucd S = lb_ucd L
    \<and> sv_adapters S = registry_provider (wired_registry st L keys) \<and> sv_clock S = wired_clock (lb_clock L)"
  using assms by (auto simp: wire_services_def res_bind_Inr_iff)

lemma wired_clock_quiet:
  assumes "deployed_ok st kv g s"
  shows "deployed_ok st kv g (snd (wired_clock clk s))" "deployed_tables (snd (wired_clock clk s)) = deployed_tables s"
  using assms by (auto simp: wired_clock_def pool_quiet_def cache_held_def coherent_def split: prod.split)

lemma wired_provider_quiet:
  assumes laws: "deployment_laws st L kv known"
  shows "quiet (deployed_ok st kv g) deployed_tables (registry_provider (wired_registry st L keys) rec)"
    and "deployed_ok st kv g s \<Longrightarrow> registry_provider (wired_registry st L keys) rec s = (Inr a, t) \<Longrightarrow>
      quiet_adapter (deployed_ok st kv g) deployed_tables a"
proof -
  note provider = registry_provider_quiet [OF wired_opens_quietly [OF laws], of _ _ keys]
  show "quiet (deployed_ok st kv g) deployed_tables (registry_provider (wired_registry st L keys) rec)"
    using yieldsD(1) [OF provider] by (intro quietI) auto
  show "quiet_adapter (deployed_ok st kv g) deployed_tables a"
    if "deployed_ok st kv g s" "registry_provider (wired_registry st L keys) rec s = (Inr a, t)"
    using yieldsD(2) [OF provider] that by auto
qed

lemma wired_governed:
  fixes L :: "('a, 'b, 'q) libraries"
  assumes laws: "deployment_laws st L kv known" and wired: "wire_services st L = Inr S"
  shows "governed_services S deployed_tables (deployed_ok st kv (current_grants st L known))
    (pg_sort_key (wired_pg st L)) (pg_lower (wired_pg st L)) (pg_search (wired_pg st L)) known"
proof -
  obtain keys where S: "sv_store S = above_registry (wired_store st L)" "sv_ucd S = lb_ucd L"
      "sv_adapters S = registry_provider (wired_registry st L keys)" "sv_clock S = wired_clock (lb_clock L)"
    using wired_parts [OF wired] by blast
  have ok: "(\<lambda>s. True \<and> True \<and> cache_current (wired_entries st kv) (wired_versions st kv) w_meta
      (store_good (lb_digest L) (lb_codecs L) (pg_sort_key (wired_pg st L)) (pg_lower (wired_pg st L)) known) s)
    = cache_held st kv (current_grants st L known)"
    by (simp add: cache_held_def cache_current_def current_grants_def fun_eq_iff)
  have "guarded_store (wired_store st L) (\<lambda>s. w_meta (snd s)) (cache_held st kv (current_grants st L known))
      (pg_sort_key (wired_pg st L)) (pg_lower (wired_pg st L)) (pg_search (wired_pg st L)) known"
    using cached_store.served_contract [OF wired_cached_store [OF laws], unfolded ok]
    by (simp add: wired_store_def wired_cache_def)
  then have store: "guarded_store (sv_store S) deployed_tables (deployed_ok st kv (current_grants st L known))
      (pg_sort_key (wired_pg st L)) (pg_lower (wired_pg st L)) (pg_search (wired_pg st L)) known"
    unfolding S pool_quiet_def by (rule above_guarded)
  show ?thesis
  proof (intro governed_services.intro store governed_services_axioms.intro)
    fix s :: "('a, 'b) wired_state" assume "deployed_ok st kv (current_grants st L known) s"
    then show "deployed_ok st kv (current_grants st L known) (snd (sv_clock S s))
        \<and> deployed_tables (snd (sv_clock S s)) = deployed_tables s"
      unfolding S by (intro conjI wired_clock_quiet)
  qed (unfold S, rule wired_provider_quiet [OF laws], rule wired_provider_quiet(2) [OF laws])
qed

text \<open>Between a commit and its announcement.\<close>

lemma wired_kept:
  fixes L :: "('a, 'b, 'q) libraries"
  assumes laws: "deployment_laws st L kv known" and wired: "wire_services st L = Inr S"
  shows "kept_services S (\<lambda>s. deployed_ok st kv no_meaning s \<and> deployed_tables s = m) known"
proof -
  obtain keys where S: "sv_store S = above_registry (wired_store st L)" "sv_ucd S = lb_ucd L"
      "sv_adapters S = registry_provider (wired_registry st L keys)" "sv_clock S = wired_clock (lb_clock L)"
    using wired_parts [OF wired] by blast
  have ok: "(\<lambda>s. True \<and> True \<and> coherent (\<lambda>p. wired_entries st kv (fst p)) (\<lambda>p. wired_versions st kv (fst p)) META
      ((\<lambda>_ _ _. True) (w_meta (snd s))) s) = cache_held st kv no_meaning"
    by (simp add: cache_held_def no_meaning_def fun_eq_iff)
  note reads = cached_store.stale_reads [OF wired_cached_store [OF laws], unfolded ok]
  note up = quiet_keeps [OF on_rg_quiet]
  show ?thesis
  proof (intro kept_services.intro)
    fix s :: "('a, 'b) wired_state" assume "deployed_ok st kv no_meaning s \<and> deployed_tables s = m"
    then show "deployed_ok st kv no_meaning (snd (sv_clock S s)) \<and> deployed_tables (snd (sv_clock S s)) = m"
      unfolding S using wired_clock_quiet [of st kv no_meaning s] by simp
  next
    fix s t :: "('a, 'b) wired_state" and rec a
    assume "deployed_ok st kv no_meaning s \<and> deployed_tables s = m" "sv_adapters S rec s = (Inr a, t)"
    then have "quiet_adapter (deployed_ok st kv no_meaning) deployed_tables a"
      unfolding S using wired_provider_quiet(2) [OF laws] by blast
    then show "kept_adapter (\<lambda>s. deployed_ok st kv no_meaning s \<and> deployed_tables s = m) a"
      by (simp add: quiet_adapter_def kept_adapter_def quiet_def)
  qed (simp_all add: S above_registry_def wired_store_def wired_cache_def up [OF reads(1)] up [OF reads(2)] up [OF reads(3)]
      up [OF reads(4)] up [OF reads(5)] up [OF reads(6)] quiet_keeps [OF wired_provider_quiet(1) [OF laws]])
qed

lemma wired_write_kept:
  assumes laws: "deployment_laws st L kv known" and wired: "wire_services st L = Inr S"
    and s: "deployed_ok st kv no_meaning s" and run: "ms_write_audit (sv_store S) e s = (r, t)"
  shows "deployed_ok st kv no_meaning t"
proof -
  have "sv_store S = above_registry (wired_store st L)" using wired_parts [OF wired] by blast
  with run obtain y where y: "ms_write_audit (wired_store st L) e (rg_ext s) = (r, y)" "t = s\<lparr>rg_ext := y\<rparr>"
    by (auto simp: above_registry_def on_rg_def split: prod.splits)
  have ok: "(True \<and> True \<and> coherent (\<lambda>p. wired_entries st kv (fst p)) (\<lambda>p. wired_versions st kv (fst p)) META
      ((\<lambda>_ _ _. True) (w_meta (snd s))) s) = cache_held st kv no_meaning s" for s
    by (simp add: cache_held_def no_meaning_def)
  from s have "cache_held st kv no_meaning (rg_ext s)" by (simp add: pool_quiet_def)
  from cached_store.stale_write [OF wired_cached_store [OF laws], unfolded ok, OF this
      y(1) [unfolded wired_store_def wired_cache_def]]
  have "cache_held st kv no_meaning y" .
  with s y(2) show ?thesis by (simp add: pool_quiet_def)
qed

lemma wired_write:
  assumes wired: "wire_services st L = Inr S" and run: "ms_write_audit (sv_store S) e s = (r, s')"
  shows "r = Inr () \<and> logged_entry (deployed_tables s) (deployed_tables s') e
     \<or> (\<exists>err. r = Inl err) \<and> am_audit_log (deployed_tables s') = am_audit_log (deployed_tables s)"
proof -
  have "sv_store S = above_registry (wired_store st L)"
    using wired by (auto simp: wire_services_def res_bind_Inr_iff)
  with run obtain w where "ms_write_audit (postgres_meta_store (wired_pg st L)) e (snd (rg_ext s)) = (r, w)"
      "snd (rg_ext s') = w"
    by (auto simp: above_registry_def wired_store_def cached_meta_store_def lift_store_def on_rg_def io_on_snd_def
        split: prod.splits)
  with write_audit_log show ?thesis by blast
qed

lemma wired_audited:
  assumes "deployment_laws st L kv known" "wire_services st L = Inr S"
  shows "audited_services S deployed_tables (deployed_ok st kv (current_grants st L known))
    (pg_sort_key (wired_pg st L)) (pg_lower (wired_pg st L)) (pg_search (wired_pg st L)) known"
  by (intro audited_services.intro wired_governed assms audited_services_axioms.intro) (rule wired_write [OF assms(2)])

end
