(* ===== verification/Serving.thy ===== *)
theory Serving
  imports Deployed
begin

text \<open>
  \<open>create_http_app\<close> (\<open>server.py\<close>) as deployed: the verifier the settings ask for, which shares the cache
  of the services, the middleware and the roles' place.  Its own entries are of no family, so
  checking a token cannot change what the cached grants mean.
\<close>

section \<open>The HTTP application\<close>

text \<open>
  What the verifiers use that is not of this program: the HTTP client and the clocks, PyJWT, the
  JSON codec, and the middleware.  \<open>tk_keys\<close> says how the key set of a process is part of the outside world.
\<close>

record ('k, 'y, 'x) token_libs =
  tk_text :: py_text
  tk_json :: json_lib
  tk_post :: "'x oauth_http"
  tk_wall :: "'x clock"
  tk_jwt :: "'k jwt_lib"
  tk_get :: "'y oauth_http"
  tk_mono :: "'y clock"
  tk_now :: "'y clock"
  tk_keys :: "pystr option \<Rightarrow> (('k, 'y) jwt_state, access_token option) op \<Rightarrow> ('x, access_token option) op"
  tk_admits :: "auth_settings \<Rightarrow> access_token option \<Rightarrow> bool"

definition in_world :: "('x, 'a) op \<Rightarrow> ('c \<times> 'x world, 'a) op" where
  "in_world op = io_on_snd (on_ext op)"

definition world_http :: "'x oauth_http \<Rightarrow> ('c \<times> 'x world) oauth_http" where
  "world_http H =
     \<lparr>oh_get = (\<lambda>url. in_world (oh_get H url)), oh_post = (\<lambda>url form auth. in_world (oh_post H url form auth))\<rparr>"

definition world_clock :: "'x clock \<Rightarrow> ('c \<times> 'x world) clock" where
  "world_clock clk = (\<lambda>(c, w). case clk (w_ext w) of (t, x) \<Rightarrow> (t, (c, w\<lparr>w_ext := x\<rparr>)))"

fun verify_with ::
  "('k, 'y, 'x) token_libs \<Rightarrow> ('r redis_state \<times> 'x world) verifier \<Rightarrow> pystr
   \<Rightarrow> ('r redis_state \<times> 'x world, access_token option) op" where
  "verify_with TL (JwtVerifier C url) token =
     in_world (tk_keys TL url (jwt_verify_token (tk_text TL) (tk_jwt TL) C (tk_get TL) (tk_mono TL) (tk_now TL) token))"
| "verify_with TL (IntrospectionVerifier I C) token =
     introspection_verify_token (tk_text TL) I (tk_json TL) (world_http (tk_post TL)) C (world_clock (tk_wall TL)) token"
| "verify_with TL (OtherVerifier V) token = V token"

text \<open>A verifier handed in works on the outside world.\<close>

definition create_http_app ::
  "settings \<Rightarrow> ('r, 'x, 'q) libraries \<Rightarrow> ('k, 'y, 'x) token_libs \<Rightarrow> (pystr \<Rightarrow> ('x, access_token option) op) option
   \<Rightarrow> exn + ('r redis_state \<times> 'x world) http_side" where
  "create_http_app st L TL supplied =
     res_bind (build_http_auth st (map_option (\<lambda>V. OtherVerifier (\<lambda>token. in_world (V token))) supplied) (Some (wired_cache st L)))
       (\<lambda>(auth, v). Inr
          \<lparr>hs_verify = verify_with TL v, hs_admits = tk_admits TL auth, hs_text = pt_str (tk_text TL),
           hs_roles_claim = st_oauth_roles_claim st\<rparr>)"

section \<open>Tokens and grants share a cache\<close>

text \<open>A token's key is of no family.\<close>

lemma token_key_apart: "\<not> reserved (token_key J token)" "token_key J token \<noteq> full_key META w l"
  by (simp_all add: token_key_def reserved_def starts_with_def full_key_def META_def)

context cached_store begin

lemma held_world: "quiet ok view op \<Longrightarrow> io_keeps (both.keeps_all META (g m) m v) (io_on_snd op)"
  by (rule quiet_load)

lemma held_token:
  "io_keeps (both.keeps_all META (g m) m v) (ca_get (lift_cache C) (token_key J token))"
  "io_keeps (both.keeps_all META (g m) m v) (ca_set (lift_cache C) (token_key J token) x ttl)"
  by (intro both.foreign_get both.foreign_set token_key_apart)+

text \<open>Looking up, asking for and keeping an answer leaves the cached grants and the tables alone.\<close>

lemma introspection_quiet:
  assumes post: "\<And>url form auth. io_keeps (both.keeps_all META (g m) m v) (oh_post H url form auth)"
    and wall: "io_keeps (both.keeps_all META (g m) m v) (wall_seconds clk)"
  shows "io_keeps (both.keeps_all META (g m) m v) (introspection_verify_token T I J H (lift_cache C) clk token)"
proof -
  note steps = io_keeps_bind io_keeps_then io_keeps_catch io_keeps_if io_keeps_basic held_token post wall
  have found: "io_keeps (both.keeps_all META (g m) m v) (from_cache J (lift_cache C) (token_key J token))"
    unfolding from_cache_def by (intro steps)
  have ttl: "io_keeps (both.keeps_all META (g m) m v) (answer_ttl I clk cl)" for cl
    unfolding answer_ttl_def by (cases "as_int (get_claim cl (lit ''exp''))"; simp; intro steps)
  have put: "io_keeps (both.keeps_all META (g m) m v) (remember_answer I J (lift_cache C) clk (token_key J token) cl)" for cl
    unfolding remember_answer_def by (intro steps ttl)
  have ask: "io_keeps (both.keeps_all META (g m) m v) (ask_provider I H token)"
    unfolding ask_provider_def by (intro steps)
  have intro: "io_keeps (both.keeps_all META (g m) m v) (introspect I J H (lift_cache C) clk token (token_key J token))"
    unfolding introspect_def by (intro io_keeps_bind ask) (auto split: option.split json.split intro!: steps put)
  have ok: "io_keeps (both.keeps_all META (g m) m v) (acceptable I clk cl)" for cl
    unfolding acceptable_def by (intro io_keeps_if io_keeps_basic) (auto split: option.split intro!: steps)
  show ?thesis
    unfolding introspection_verify_token_def
    by (intro io_keeps_bind found) (auto split: option.split intro!: steps intro ok)
qed

end

lemma world_seconds: "wall_seconds (world_clock clk) = in_world (wall_seconds clk)"
  by (rule ext) (auto simp: wall_seconds_def world_clock_def in_world_def io_on_snd_def on_ext_def split: prod.splits)

lemma create_http_app_quiet:
  fixes L :: "('r, 'x, 'q) libraries"
  assumes laws: "deployment_laws st L kv known" and app: "create_http_app st L TL supplied = Inr H"
  shows "quiet (cache_held st kv g) (\<lambda>p. w_meta (snd p)) (hs_verify H token)"
proof -
  note store = wired_cached_store [OF laws]
  have ok: "(\<lambda>s. True \<and> True \<and> coherent (\<lambda>p. wired_entries st kv (fst p)) (\<lambda>p. wired_versions st kv (fst p)) META
      (g (w_meta (snd s))) s) = (cache_held st kv g :: 'r redis_state \<times> 'x world \<Rightarrow> bool)" for g
    by (simp add: cache_held_def fun_eq_iff)
  have out: "quiet (cache_held st kv g) (\<lambda>p. w_meta (snd p)) (in_world op :: ('r redis_state \<times> 'x world, 'v) op)" for op :: "('x, 'v) op"
    using cached_store.quiet_lifted [OF store, unfolded ok, OF on_ext_quiet] by (simp add: in_world_def)
  from app obtain auth v where v: "build_http_auth st (map_option (\<lambda>V. OtherVerifier (\<lambda>token. in_world (V token))) supplied)
      (Some (wired_cache st L)) = Inr (auth, v)" and H: "hs_verify H = verify_with TL v"
    by (auto simp: create_http_app_def res_bind_Inr_iff)
  then consider (jwt) C url where "v = JwtVerifier C url" | (intro) I where "v = IntrospectionVerifier I (wired_cache st L)"
    | (other) V where "v = OtherVerifier (\<lambda>token. in_world (V token))"
    by (auto simp: build_http_auth_def build_token_verifier_def Let_def res_bind_Inr_iff
        split: option.splits if_splits token_verification.splits)
  then show ?thesis
  proof cases
    case intro
    have "quiet (cache_held st kv g) (\<lambda>p. w_meta (snd p)) (introspection_verify_token (tk_text TL) I (tk_json TL)
        (world_http (tk_post TL)) (lift_cache (create_cache st (lb_redis L) (lb_redis_clock L))) (world_clock (tk_wall TL)) token)"
    proof (rule cached_store.quiet_held [OF store, where g = g, unfolded ok], rule cached_store.introspection_quiet [OF store])
      note load = cached_store.quiet_load [OF store on_ext_quiet]
      show "io_keeps (holds (\<lambda>p. wired_entries st kv (fst p)) (\<lambda>p. wired_versions st kv (fst p)) (\<lambda>p. True \<and> True)
          (\<lambda>p. w_meta (snd p)) META (g m) m v) (oh_post (world_http (tk_post TL)) url form auth)" for m v url form auth
        using load by (simp add: world_http_def in_world_def)
      show "io_keeps (holds (\<lambda>p. wired_entries st kv (fst p)) (\<lambda>p. wired_versions st kv (fst p)) (\<lambda>p. True \<and> True)
          (\<lambda>p. w_meta (snd p)) META (g m) m v) (wall_seconds (world_clock (tk_wall TL)))" for m v
        using load by (simp add: world_seconds in_world_def)
    qed
    then show ?thesis by (simp add: H intro wired_cache_def)
  qed (simp_all add: H out)
qed

end
