(* ===== verification/Cluster.thy ===== *)
theory Cluster
  imports Serving
begin

text \<open>
  The deployment over time.  Any number of server processes, each with its own pool and circuit
  breaker, share one Redis and one \<open>app_meta\<close>; \<open>reachable\<close> is every history of tool calls,
  restarts, expiring entries and announced changes.
\<close>

section \<open>Processes and what they share\<close>

record ('r, 'x) cluster =
  cl_pools :: "nat \<Rightarrow> (uuid \<times> datetime \<times> ('r redis_state \<times> 'x world) adapter) list"
  cl_down_until :: "nat \<Rightarrow> int"
  cl_redis :: 'r
  cl_world :: "'x world"

definition process :: "nat \<Rightarrow> ('r, 'x) cluster \<Rightarrow> ('r, 'x) wired_state" where
  "process i K =
     \<lparr>rg_adapters = cl_pools K i, rg_ext = (\<lparr>rs_down_until = cl_down_until K i, rs_ext = cl_redis K\<rparr>, cl_world K)\<rparr>"

definition put_process :: "nat \<Rightarrow> ('r, 'x) wired_state \<Rightarrow> ('r, 'x) cluster \<Rightarrow> ('r, 'x) cluster" where
  "put_process i s K =
     \<lparr>cl_pools = (cl_pools K)(i := rg_adapters s),
      cl_down_until = (cl_down_until K)(i := rs_down_until (fst (rg_ext s))),
      cl_redis = rs_ext (fst (rg_ext s)), cl_world = snd (rg_ext s)\<rparr>"

text \<open>The token verifier, above the pool.\<close>

definition deployed_side :: "('r redis_state \<times> 'x world) http_side \<Rightarrow> ('r, 'x) wired_state http_side" where
  "deployed_side H = on_verifier on_rg H"

text \<open>A bump of a family, by the admin backend or anyone else, as the server's Redis sees it.\<close>

definition bump_shared ::
  "settings \<Rightarrow> ('r, 'x, 'q) libraries \<Rightarrow> pystr \<Rightarrow> int \<Rightarrow> 'r \<Rightarrow> 'r" where
  "bump_shared st L family down x =
     rs_ext (snd (ca_bump (create_cache st (lb_redis L) (lb_redis_clock L)) family \<lparr>rs_down_until = down, rs_ext = x\<rparr>))"

definition bump_arrives :: "settings \<Rightarrow> ('r, 'x, 'q) libraries \<Rightarrow> 'r \<Rightarrow> bool" where
  "bump_arrives st L x =
     pred_option (\<lambda>url. \<not> isl (fst (rd_incr (lb_redis L url) (prefixed (version_key META)) x))) (st_redis_url st)"

text \<open>
  What else may happen to the Redis: entries expire, and others, such as the admin backend when it
  tries a connection out, write what they like under keys of other families than the permissions'.
\<close>

definition grants_fade :: "('r \<Rightarrow> pystr \<Rightarrow> pystr option) \<Rightarrow> 'r \<Rightarrow> 'r \<Rightarrow> bool" where
  "grants_fade kv x x' \<longleftrightarrow>
     (\<forall>f. kv x' (prefixed (version_key f)) = kv x (prefixed (version_key f)))
     \<and> (\<forall>v k. kv x' (prefixed (full_key META v k)) \<in> {None, kv x (prefixed (full_key META v k))})"

text \<open>
  The flag says whether every commit has been announced by a bump that arrived.  A commit and its
  announcement are two steps: requests may run in between.  A process that serves HTTP does so as
  \<open>create_http_app\<close> builds it, with the verifier of the settings, which may keep its answers in the
  same Redis, or one handed in.
\<close>

inductive reachable ::
  "settings \<Rightarrow> ('r, 'x, 'q) libraries \<Rightarrow> (('r, 'x) wired_state, 'q) services \<Rightarrow> (nat \<Rightarrow> ('k, 'y, 'x) token_libs)
   \<Rightarrow> ('r \<Rightarrow> pystr \<Rightarrow> pystr option) \<Rightarrow> subject list set \<Rightarrow> bool \<Rightarrow> ('r, 'x) cluster \<Rightarrow> bool"
  for st L S TL kv known where
  boot: "kv x = (\<lambda>_. None) \<Longrightarrow>
    reachable st L S TL kv known True \<lparr>cl_pools = (\<lambda>_. []), cl_down_until = down, cl_redis = x, cl_world = w\<rparr>"
| http: "reachable st L S TL kv known ann K \<Longrightarrow> create_http_app st L (TL i) supplied = Inr H \<Longrightarrow>
    (\<And>c. vouched H bearer (rg_ext (process i K)) c \<Longrightarrow> subjects c \<in> known) \<Longrightarrow>
    reachable st L S TL kv known ann (put_process i (snd (http_call S (deployed_side H) bearer req (process i K))) K)"
| stdio: "reachable st L S TL kv known ann K \<Longrightarrow> subjects c \<in> known \<Longrightarrow>
    reachable st L S TL kv known ann (put_process i (snd (stdio_call S c req (process i K))) K)"
| restart: "reachable st L S TL kv known ann K \<Longrightarrow>
    reachable st L S TL kv known ann (K\<lparr>cl_pools := (cl_pools K)(i := []), cl_down_until := (cl_down_until K)(i := 0)\<rparr>)"
| outside: "reachable st L S TL kv known ann K \<Longrightarrow> grants_fade kv (cl_redis K) x \<Longrightarrow>
    reachable st L S TL kv known ann (K\<lparr>cl_redis := x, cl_world := (cl_world K)\<lparr>w_ext := y\<rparr>\<rparr>)"
| refresh: "reachable st L S TL kv known ann K \<Longrightarrow>
    reachable st L S TL kv known ann (K\<lparr>cl_redis := bump_shared st L family down (cl_redis K)\<rparr>)"
| commit: "reachable st L S TL kv known ann K \<Longrightarrow>
    reachable st L S TL kv known False (K\<lparr>cl_world := (cl_world K)\<lparr>w_meta := m\<rparr>\<rparr>)"
| announce: "reachable st L S TL kv known ann K \<Longrightarrow> bump_arrives st L (cl_redis K) \<Longrightarrow>
    reachable st L S TL kv known True (K\<lparr>cl_redis := bump_shared st L META down (cl_redis K)\<rparr>)"

section \<open>What every call leaves\<close>

context kept_services begin

lemma called_post:
  assumes known: "subjects c \<in> known" and s: "P s" and weaker: "\<And>u. P u \<Longrightarrow> Q u"
    and writes: "\<And>e u r t. P u \<Longrightarrow> ms_write_audit (sv_store S) e u = (r, t) \<Longrightarrow> Q t"
  shows "Q (snd (stdio_call S c req s))"
proof -
  have "Q (snd (serve S c req s))" by (rule served_post [OF known s writes])
  then show ?thesis
    using weaker [OF s] by (cases "serve S c req s")
      (auto simp: stdio_call_def call_tool_def guarded_def io_then_def io_bind_def io_catch_def split: sum.split)
qed

lemma http_post:
  assumes verify: "\<And>token. io_keeps P (hs_verify H token)" and s: "P s"
    and known: "\<And>c. vouched H bearer s c \<Longrightarrow> subjects c \<in> known" and weaker: "\<And>u. P u \<Longrightarrow> Q u"
    and writes: "\<And>e u r t. P u \<Longrightarrow> ms_write_audit (sv_store S) e u = (r, t) \<Longrightarrow> Q t"
  shows "Q (snd (http_call S H bearer req s))"
proof -
  have shown: "P (snd (presented H bearer s))"
    using verify s by (cases bearer) (auto simp: presented_def io_keeps_def)
  from http_call_cases [of H bearer s S req] show ?thesis
  proof (elim disjE exE conjE)
    show ?thesis if "presented H bearer s = (r, s')" "snd (http_call S H bearer req s) = s'" for r s'
      using that shown weaker by simp
    show ?thesis if "vouched H bearer s c" "snd (presented H bearer s) = s'"
        "snd (http_call S H bearer req s) = snd (serve S c req s')" for c s'
      using that shown served_post [where s = s', OF known _ writes] by simp
  qed
qed

end

section \<open>The invariant\<close>

definition cluster_ok ::
  "settings \<Rightarrow> ('r \<Rightarrow> pystr \<Rightarrow> pystr option) \<Rightarrow> (app_meta \<Rightarrow> pystr \<Rightarrow> pystr \<Rightarrow> bool) \<Rightarrow> ('r, 'x) cluster \<Rightarrow> bool" where
  "cluster_ok st kv g K \<longleftrightarrow> (\<forall>i. deployed_ok st kv g (process i K))"

lemma cache_held_shared:
  "rs_ext r' = rs_ext r \<Longrightarrow> w_meta w' = w_meta w \<Longrightarrow> cache_held st kv g (r', w') = cache_held st kv g (r, w)"
  by (simp add: cache_held_def coherent_def wired_entries_def wired_versions_def redis_entries_def redis_versions_def)

definition shared_held ::
  "settings \<Rightarrow> ('r \<Rightarrow> pystr \<Rightarrow> pystr option) \<Rightarrow> (app_meta \<Rightarrow> pystr \<Rightarrow> pystr \<Rightarrow> bool) \<Rightarrow> 'r \<Rightarrow> app_meta \<Rightarrow> bool" where
  "shared_held st kv g x m \<longleftrightarrow>
     coherent (wired_entries st kv) (wired_versions st kv) META (g m) \<lparr>rs_down_until = 0, rs_ext = x\<rparr>"

lemma shared_held_iff:
  "shared_held st kv g (rs_ext r) m \<longleftrightarrow> coherent (wired_entries st kv) (wired_versions st kv) META (g m) r"
  by (simp add: shared_held_def coherent_def wired_entries_def wired_versions_def redis_entries_def redis_versions_def)

lemma cache_held_iff: "cache_held st kv g p \<longleftrightarrow> shared_held st kv g (rs_ext (fst p)) (w_meta (snd p))"
  by (simp add: shared_held_iff cache_held_def coherent_def)

lemma deployed_ok_iff:
  "deployed_ok st kv g s \<longleftrightarrow>
   shared_held st kv g (rs_ext (fst (rg_ext s))) (deployed_tables s)
   \<and> list_all (\<lambda>e. lasting st kv (snd (snd e))) (rg_adapters s)"
  unfolding pool_quiet_def by (subst cache_held_iff) simp

lemma cluster_ok_iff:
  "cluster_ok st kv g K \<longleftrightarrow>
   shared_held st kv g (cl_redis K) (w_meta (cl_world K))
   \<and> (\<forall>i. list_all (\<lambda>e. lasting st kv (snd (snd e))) (cl_pools K i))"
  by (simp add: cluster_ok_def deployed_ok_iff process_def)

lemma put_process_ok:
  "cluster_ok st kv g K \<Longrightarrow> deployed_ok st kv g s \<Longrightarrow> cluster_ok st kv g (put_process i s K)"
  unfolding cluster_ok_iff deployed_ok_iff by (simp add: put_process_def)

lemma forgotten: "shared_held st kv g x m \<Longrightarrow> shared_held st kv no_meaning x m'"
  by (simp add: shared_held_def coherent_def no_meaning_def)

lemma bumped_held:
  assumes laws: "deployment_laws st L kv known" and held: "shared_held st kv g x m"
    and how: "g' = g \<or> family = META \<and> bump_arrives st L x"
  shows "shared_held st kv g' (bump_shared st L family d x) m"
proof (cases "st_redis_url st")
  case None
  then show ?thesis by (simp add: shared_held_def coherent_def wired_entries_def)
next
  case (Some url)
  let ?R = "lb_redis L url" and ?clk = "lb_redis_clock L" and ?r = "\<lparr>rs_down_until = d, rs_ext = x\<rparr>"
  have E: "wired_entries st kv = redis_entries kv" "wired_versions st kv = redis_versions kv"
    using Some by (simp_all add: wired_entries_def wired_versions_def)
  obtain u c where run: "redis_bump ?R ?clk family ?r = (u, c)" by (rule prod.exhaust)
  then have c: "bump_shared st L family d x = rs_ext c"
    using Some by (simp add: bump_shared_def create_cache_def redis_cache_def)
  have server: "redis_server ?R ?clk kv"
    using laws Some by (simp add: redis_server_def deployment_laws_def)
  have coh: "coherent (redis_entries kv) (redis_versions kv) META (g m) ?r"
    using held shared_held_iff [of st kv g ?r m] by (simp add: E)
  note counts = redis_server.redis_bump_counts [OF server run]
  have "coherent (redis_entries kv) (redis_versions kv) META (g' m) c"
  proof (cases "redis_versions kv c META = redis_versions kv ?r META")
    case True
    have "\<not> bump_arrives st L x \<or> family \<noteq> META"
      using counts(2,3) True Some
      by (cases "rd_incr ?R (prefixed (version_key META)) x"; cases "fst (rd_incr ?R (prefixed (version_key META)) x)")
        (auto simp: bump_arrives_def fun_eq_iff split: if_splits)
    with how have "g' = g" by blast
    show ?thesis
      unfolding \<open>g' = g\<close>
      by (rule coherentI; drule map_le_Some [OF counts(1)]) (use coh True in \<open>auto dest: coherentD\<close>)
  next
    case False
    with counts(2) have later: "redis_versions kv ?r META < redis_versions kv c META" by (auto split: if_splits)
    show ?thesis
      by (rule coherentI; drule map_le_Some [OF counts(1)]; drule coherentD(2) [OF coh, rotated]) (use later in auto)
  qed
  then show ?thesis unfolding c shared_held_iff E .
qed

lemma faded_held:
  assumes held: "shared_held st kv g x m" and x': "grants_fade kv x x'"
  shows "shared_held st kv g x' m"
proof -
  let ?s = "\<lambda>x. \<lparr>rs_down_until = 0, rs_ext = x\<rparr>"
  have "redis_versions kv (?s x') = redis_versions kv (?s x)"
    using x' by (simp add: redis_versions_def grants_fade_def fun_eq_iff)
  then have versions: "wired_versions st kv (?s x') = wired_versions st kv (?s x)" by (simp add: wired_versions_def)
  have "kv x' (prefixed (full_key META v k)) \<in> {None, kv x (prefixed (full_key META v k))}" for v k
    using x' by (simp add: grants_fade_def)
  then have "wired_entries st kv (?s x') (full_key META v k) \<in> {None, wired_entries st kv (?s x) (full_key META v k)}" for v k
    by (simp add: wired_entries_def redis_entries_def)
  then have entries: "wired_entries st kv (?s x') (full_key META v k) = Some y \<Longrightarrow> wired_entries st kv (?s x) (full_key META v k) = Some y"
    for v k y by (metis empty_iff insert_iff option.distinct(1))
  show ?thesis
    unfolding shared_held_def
    by (rule coherentI; drule entries)
      (use held [unfolded shared_held_def] in \<open>auto simp: versions dest: coherentD\<close>)
qed

lemma side_quiet:
  assumes "deployment_laws st L kv known" "create_http_app st L TL supplied = Inr H"
  shows "quiet (deployed_ok st kv g) deployed_tables (hs_verify (deployed_side H) token)"
  using on_rg_quiet [OF create_http_app_quiet [OF assms]] by (simp add: deployed_side_def)

lemma side_vouched: "vouched (deployed_side H) bearer s c \<longleftrightarrow> vouched H bearer (rg_ext s) c"
  by (simp add: vouched_def deployed_side_def on_rg_def case_prod_unfold)

text \<open>What the cache holds while every commit is announced, and otherwise.\<close>

definition held_now ::
  "settings \<Rightarrow> ('r, 'x, 'q) libraries \<Rightarrow> subject list set \<Rightarrow> bool \<Rightarrow> app_meta \<Rightarrow> pystr \<Rightarrow> pystr \<Rightarrow> bool" where
  "held_now st L known ann = (if ann then current_grants st L known else no_meaning)"

lemma deployed_kept:
  assumes laws: "deployment_laws st L kv known" and wired: "wire_services st L = Inr S"
  shows "kept_services S (\<lambda>s. deployed_ok st kv (held_now st L known ann) s \<and> deployed_tables s = m) known"
    and "deployed_ok st kv (held_now st L known ann) s \<Longrightarrow> ms_write_audit (sv_store S) e s = (r, t) \<Longrightarrow>
      deployed_ok st kv (held_now st L known ann) t"
proof -
  note gov = wired_governed [OF laws wired]
  show "kept_services S (\<lambda>s. deployed_ok st kv (held_now st L known ann) s \<and> deployed_tables s = m) known"
    using governed_services.governed_kept [OF gov] wired_kept [OF laws wired] by (simp add: held_now_def)
  show "deployed_ok st kv (held_now st L known ann) t"
    if "deployed_ok st kv (held_now st L known ann) s" "ms_write_audit (sv_store S) e s = (r, t)"
  proof (cases ann)
    case True
    with that show ?thesis
      using guarded_store.write_audit [OF governed_services.axioms(1) [OF gov]] by (simp add: held_now_def)
  next
    case False
    with that show ?thesis using wired_write_kept [OF laws wired] by (simp add: held_now_def)
  qed
qed

theorem reachable_ok:
  assumes "reachable st L S TL kv known ann K" "deployment_laws st L kv known" "wire_services st L = Inr S"
  shows "cluster_ok st kv (held_now st L known ann) K"
  using assms(1)
proof induction
  case (boot x down w)
  then show ?case
    by (simp add: cluster_ok_iff shared_held_def coherent_def wired_entries_def redis_entries_def)
next
  case (http ann K i supplied H bearer req)
  have "deployed_ok st kv (held_now st L known ann) (snd (http_call S (deployed_side H) bearer req (process i K)))"
  proof (rule kept_services.http_post [OF deployed_kept(1) [OF assms(2,3), where ann = ann and m = "deployed_tables (process i K)"]])
    show "io_keeps (\<lambda>s. deployed_ok st kv (held_now st L known ann) s \<and> deployed_tables s = deployed_tables (process i K))
        (hs_verify (deployed_side H) token)" for token by (rule quiet_keeps [OF side_quiet [OF assms(2) http.hyps(2)]])
  qed (use http.IH http.hyps(3) deployed_kept(2) [OF assms(2,3)] in \<open>auto simp: cluster_ok_def side_vouched\<close>)
  then show ?case by (rule put_process_ok [OF http.IH])
next
  case (stdio ann K c i req)
  have "deployed_ok st kv (held_now st L known ann) (snd (stdio_call S c req (process i K)))"
    by (rule kept_services.called_post [OF deployed_kept(1) [OF assms(2,3), where ann = ann and m = "deployed_tables (process i K)"]])
      (use stdio.IH stdio.hyps(2) deployed_kept(2) [OF assms(2,3)] in \<open>auto simp: cluster_ok_def\<close>)
  then show ?case by (rule put_process_ok [OF stdio.IH])
next
  case (outside ann K x y)
  then show ?case using faded_held [OF _ outside.hyps(2)] by (simp add: cluster_ok_iff)
next
  case (refresh ann K family down)
  then show ?case using bumped_held [OF assms(2) _ disjI1 [OF refl]] by (simp add: cluster_ok_iff)
next
  case (commit ann K m)
  then have "shared_held st kv (held_now st L known ann) (cl_redis K) (w_meta (cl_world K))" by (simp add: cluster_ok_iff)
  from forgotten [OF this, of m] commit.IH show ?case by (simp add: cluster_ok_iff held_now_def)
next
  case (announce ann K down)
  then have "shared_held st kv (held_now st L known ann) (cl_redis K) (w_meta (cl_world K))" by (simp add: cluster_ok_iff)
  from bumped_held [OF assms(2) this disjI2 [OF conjI [OF refl announce.hyps(2)]]] announce.IH
  show ?case by (simp add: cluster_ok_iff)
qed (simp add: cluster_ok_iff)

section \<open>A small history\<close>

text \<open>
  One HTTP call warms the cache, then an administrator withdraws the table; another process still
  serves a call before the change is announced.
\<close>

definition cluster_settings :: settings where
  "cluster_settings = sample_settings\<lparr>st_public_url := Some (lit ''https://server''), st_oauth_issuer := Some (lit ''https://idp''),
     st_token_verification := VerifyIntrospection, st_oauth_introspection_url := Some (lit ''https://idp/introspect''),
     st_oauth_introspection_client_id := Some (lit ''server''), st_oauth_introspection_client_secret := Some (lit ''s3'')\<rparr>"

definition cluster_wired :: "((kv_data, unit) wired_state, unit) services" where
  "cluster_wired = (case wire_services cluster_settings sample_libraries of Inr S \<Rightarrow> S)"

text \<open>A provider with one answer, kept in the shared Redis by the verifier.\<close>

definition sample_answer :: claims where
  "sample_answer = [(lit ''active'', JBool True), (lit ''sub'', JStr (lit ''alice'')), (lit ''exp'', JInt 1000),
     (lit ''aud'', JStr (lit ''https://server'')), (lit ''iss'', JStr (lit ''https://idp''))]"

definition sample_token_libs :: "(nat, unit, unit) token_libs" where
  "sample_token_libs =
     \<lparr>tk_text = \<lparr>pt_str = (\<lambda>_. []), pt_int = (\<lambda>_. None)\<rparr>,
      tk_json = \<lparr>jn_dumps = (\<lambda>_. lit ''answer''), jn_loads = (\<lambda>_. Some (JDict sample_answer)), jn_sha256 = (\<lambda>t. t)\<rparr>,
      tk_post = \<lparr>oh_get = (\<lambda>url. io_raise (py_error ''HTTPError'')), oh_post = (\<lambda>url form auth. io_return (JDict sample_answer))\<rparr>,
      tk_wall = (\<lambda>x. (0, x)),
      tk_jwt = \<lparr>jl_header = (\<lambda>t. Inl (py_error ''PyJWTError'')), jl_decode = (\<lambda>t k opts now. Inl (py_error ''PyJWTError'')),
        jl_from_dict = (\<lambda>d. Inl (py_error ''PyJWTError''))\<rparr>,
      tk_get = \<lparr>oh_get = (\<lambda>url. io_raise (py_error ''HTTPError'')), oh_post = (\<lambda>url form auth. io_raise (py_error ''HTTPError''))\<rparr>,
      tk_mono = (\<lambda>x. (0, x)), tk_now = (\<lambda>x. (0, x)), tk_keys = (\<lambda>url op. io_return None),
      tk_admits = (\<lambda>auth t. t \<noteq> None)\<rparr>"

definition sample_side :: "(kv_data redis_state \<times> unit world) http_side" where
  "sample_side = (case create_http_app cluster_settings sample_libraries sample_token_libs None of Inr H \<Rightarrow> H)"

definition sample_request :: tool_request where
  "sample_request = RunQuery (lit ''shop'') (lit ''select id from orders'') None"

definition sample_booted :: "(kv_data, unit) cluster" where
  "sample_booted = \<lparr>cl_pools = (\<lambda>_. []), cl_down_until = (\<lambda>_. 0), cl_redis = (\<lambda>_. None),
     cl_world = \<lparr>w_meta = sample_grants, w_ext = ()\<rparr>\<rparr>"

definition sample_called :: "(kv_data, unit) cluster" where
  "sample_called = put_process 0 (snd (http_call cluster_wired (deployed_side sample_side) (Some (lit ''t''))
     sample_request (process 0 sample_booted))) sample_booted"

definition sample_committed :: "(kv_data, unit) cluster" where
  "sample_committed = sample_called\<lparr>cl_world := (cl_world sample_called)\<lparr>w_meta := sample_revoked\<rparr>\<rparr>"

definition sample_between :: "(kv_data, unit) cluster" where
  "sample_between = put_process 1 (snd (http_call cluster_wired (deployed_side sample_side) (Some (lit ''t''))
     sample_request (process 1 sample_committed))) sample_committed"

definition sample_changed :: "(kv_data, unit) cluster" where
  "sample_changed = sample_between\<lparr>cl_redis := bump_shared cluster_settings sample_libraries META 0 (cl_redis sample_between)\<rparr>"

lemma sample_laws: "deployment_laws cluster_settings sample_libraries (\<lambda>x. x) {subs. plain_subjects subs}"
  using sample_hyps by (simp add: deployment_laws_def cluster_settings_def sample_settings_def sample_libraries_def)

lemma cluster_wired_Inr: "wire_services cluster_settings sample_libraries = Inr cluster_wired"
proof -
  have "\<not> isl (wire_services cluster_settings sample_libraries)"
    using sample_keys by (simp add: wire_services_def cluster_settings_def sample_settings_def sample_libraries_def)
  then show ?thesis by (cases "wire_services cluster_settings sample_libraries") (simp_all add: cluster_wired_def)
qed

lemma sample_app: "create_http_app cluster_settings sample_libraries sample_token_libs None = Inr sample_side"
proof -
  have "\<not> isl (create_http_app cluster_settings sample_libraries sample_token_libs None)"
    by (simp add: create_http_app_def build_http_auth_def build_token_verifier_def cluster_settings_def sample_settings_def lit_def)
  then show ?thesis
    by (cases "create_http_app cluster_settings sample_libraries sample_token_libs None") (simp_all add: sample_side_def)
qed

text \<open>Whatever is cached, the one answer is the one taken, and its subject the caller.\<close>

lemma one_answer:
  assumes "introspection_verify_token T I (tk_json sample_token_libs) (world_http (tk_post sample_token_libs)) C clk token s = (Inr (Some t), s')"
  shows "at_claims t = sample_answer"
  using assms
  by (auto simp: introspection_verify_token_def from_cache_def introspect_def ask_provider_def sample_token_libs_def world_http_def
      in_world_def io_bind_Inr_iff io_then_Inr_iff io_catch_def io_bind_def io_return_def io_on_snd_def on_ext_def
      access_token_from_claims_def res_bind_Inr_iff split: option.splits if_splits prod.splits sum.splits)

lemma sample_claims_caller: "caller_from_claims (\<lambda>_. []) sample_answer (lit ''roles'') = Inr sample_caller"
  by code_simp

lemma sample_side_parts:
  "hs_text sample_side = (\<lambda>_. [])" "hs_roles_claim sample_side = lit ''roles''"
  "\<exists>I C. hs_verify sample_side = introspection_verify_token (tk_text sample_token_libs) I (tk_json sample_token_libs)
     (world_http (tk_post sample_token_libs)) C (world_clock (tk_wall sample_token_libs))"
proof -
  have intro: "\<exists>I C. v = IntrospectionVerifier I C"
    if "build_http_auth cluster_settings None cache = Inr (auth, v)" for cache auth and v :: "(kv_data redis_state \<times> unit world) verifier"
    using that by (simp add: build_http_auth_def build_token_verifier_def cluster_settings_def lit_def) blast
  from sample_app obtain auth v where v: "build_http_auth cluster_settings None
        (Some (wired_cache cluster_settings sample_libraries)) = Inr (auth, v)"
      and side: "sample_side = \<lparr>hs_verify = verify_with sample_token_libs v, hs_admits = tk_admits sample_token_libs auth,
        hs_text = pt_str (tk_text sample_token_libs), hs_roles_claim = st_oauth_roles_claim cluster_settings\<rparr>"
    by (auto simp: create_http_app_def res_bind_Inr_iff)
  obtain I C where "v = IntrospectionVerifier I C" using intro [OF v] by blast
  then have "hs_text sample_side = pt_str (tk_text sample_token_libs) \<and> hs_roles_claim sample_side = st_oauth_roles_claim cluster_settings
    \<and> (\<exists>I C. hs_verify sample_side = verify_with sample_token_libs (IntrospectionVerifier I C))"
    unfolding side by (simp, blast)
  then show "hs_text sample_side = (\<lambda>_. [])" "hs_roles_claim sample_side = lit ''roles''"
    "\<exists>I C. hs_verify sample_side = introspection_verify_token (tk_text sample_token_libs) I (tk_json sample_token_libs)
     (world_http (tk_post sample_token_libs)) C (world_clock (tk_wall sample_token_libs))"
    by (auto simp: cluster_settings_def sample_settings_def sample_token_libs_def fun_eq_iff)
qed

lemma sample_vouched: "vouched sample_side bearer s c \<Longrightarrow> subjects c \<in> {subs. plain_subjects subs}"
proof -
  assume "vouched sample_side bearer s c"
  then obtain token t s' where run: "hs_verify sample_side token s = (Inr (Some t), s')"
      and c: "token_caller (\<lambda>_. []) (lit ''roles'') (Some t) = Inr c"
    by (auto simp: vouched_def sample_side_parts prod_eq_iff)
  from sample_side_parts(3) run have "at_claims t = sample_answer" by (auto dest: one_answer)
  with c sample_claims_caller have "c = sample_caller" by (auto simp: token_caller_def split: if_splits)
  with sample_known show ?thesis by simp
qed

abbreviation sample_reachable :: "bool \<Rightarrow> (kv_data, unit) cluster \<Rightarrow> bool" where
  "sample_reachable \<equiv>
     reachable cluster_settings sample_libraries cluster_wired (\<lambda>_. sample_token_libs) (\<lambda>x. x) {subs. plain_subjects subs}"

lemma sample_changed_reachable: "sample_reachable True sample_changed"
proof -
  have "sample_reachable True sample_booted"
    unfolding sample_booted_def by (rule reachable.boot) simp
  then have "sample_reachable True sample_called"
    unfolding sample_called_def by (rule reachable.http [OF _ sample_app]) (rule sample_vouched)
  then have "sample_reachable False sample_committed"
    unfolding sample_committed_def by (rule reachable.commit)
  then have "sample_reachable False sample_between"
    unfolding sample_between_def by (rule reachable.http [OF _ sample_app]) (rule sample_vouched)
  then show ?thesis
    unfolding sample_changed_def
    by (rule reachable.announce) (simp add: bump_arrives_def cluster_settings_def sample_settings_def sample_libraries_def mem_redis_def)
qed

section \<open>Every call is held to the grants of the moment\<close>

text \<open>C1: however the deployment has got where it is, the next HTTP call of any process reaches target
  databases only on behalf of the owner of a token the verifier vouches for, and only as the
  tables of this moment permit, whatever Redis still holds, whichever adapters are pooled and
  whatever was served between a commit and its announcement.  The conditions: the last commit has
  been announced by now; the cache keys tell the callers apart (\<open>told_apart\<close>, which wants names
  without a line feed); Redis and the codecs keep their laws.  The verifier is the one
  \<open>create_http_app\<close> builds, which may keep its answers in the same Redis, or one handed in that does
  not use it.\<close>

theorem reachable_calls_permitted:
  assumes "deployment_laws st L kv known" "wire_services st L = Inr S" "reachable st L S TL kv known True K"
    and "create_http_app st L (TL i) supplied = Inr H"
    and "\<And>c. vouched H bearer (rg_ext (process i K)) c \<Longrightarrow> subjects c \<in> known"
  shows "\<exists>evs. snd (snd (http_call (monitored S) (on_verifier io_on_fst (deployed_side H)) bearer req (process i K, log)))
        = log @ evs
     \<and> (evs = [] \<or> (\<exists>c. vouched H bearer (rg_ext (process i K)) c \<and> params_ok req
          \<and> list_all (permitted S (w_meta (cl_world K)) c req) evs))"
proof -
  have ok: "deployed_ok st kv (current_grants st L known) (process i K)"
    using reachable_ok [OF assms(3,1,2)] by (simp add: cluster_ok_def held_now_def)
  have tables: "deployed_tables (process i K) = w_meta (cl_world K)" by (simp add: process_def)
  show ?thesis
    using governed_services.http_permitted [OF wired_governed [OF assms(1,2)] side_quiet [OF assms(1,4)] ok, of bearer req log]
      assms(5) by (simp add: side_vouched tables)
qed

theorem reachable_calls_permitted_witness:
  "\<exists>evs. snd (snd (http_call (monitored cluster_wired) (on_verifier io_on_fst (deployed_side sample_side)) (Some (lit ''t''))
        sample_request (process 1 sample_changed, []))) = [] @ evs
     \<and> (evs = [] \<or> (\<exists>c. vouched sample_side (Some (lit ''t'')) (rg_ext (process 1 sample_changed)) c \<and> params_ok sample_request
          \<and> list_all (permitted cluster_wired (w_meta (cl_world sample_changed)) c sample_request) evs))"
  using reachable_calls_permitted [OF sample_laws cluster_wired_Inr sample_changed_reachable sample_app sample_vouched,
      where bearer = "Some (lit ''t'')" and req = sample_request and i = 1 and log = "[]"]
  by simp

text \<open>C4: in every reachable state whose commits are announced, a request of a caller whom the cache keys
  tell apart leaves the audit row that describes it in the shared tables, or fails; a cache, a
  pool and other processes do not change that.\<close>

theorem reachable_calls_on_record:
  assumes "deployment_laws st L kv known" "wire_services st L = Inr S" "reachable st L S TL kv known True K" "subjects c \<in> known"
  shows "case serve S c req (process i K) of
     (r, s') \<Rightarrow> on_record c req (w_meta (cl_world K)) r (w_meta (cl_world (put_process i s' K)))"
proof -
  have ok: "deployed_ok st kv (current_grants st L known) (process i K)"
    using reachable_ok [OF assms(3,1,2)] by (simp add: cluster_ok_def held_now_def)
  have tables: "deployed_tables (process i K) = w_meta (cl_world K)"
      "w_meta (cl_world (put_process i s' K)) = deployed_tables s'" for s'
    by (simp_all add: process_def put_process_def)
  show ?thesis
    using audited_services.served_on_record [OF wired_audited [OF assms(1,2)] assms(4) ok, of req]
    by (simp add: tables)
qed

theorem reachable_calls_on_record_witness:
  "case serve cluster_wired sample_caller ListConnections (process 1 sample_changed) of
     (r, s') \<Rightarrow> on_record sample_caller ListConnections (w_meta (cl_world sample_changed)) r (w_meta (cl_world (put_process 1 s' sample_changed)))"
  using reachable_calls_on_record [OF sample_laws cluster_wired_Inr sample_changed_reachable sample_known,
      where req = ListConnections and i = 1]
  by simp

text \<open>C39: checking a token, by whichever verifier the settings ask for, leaves the tables as they are and the
  cached grants meaning what they meant, although the introspection verifier reads, asks for and keeps
  its answers in the very Redis that holds the grants: no answer of the identity provider, cached
  or not, can be read as a grant.\<close>

theorem token_check_harmless:
  assumes "deployment_laws st L kv known" "create_http_app st L TL supplied = Inr H"
    and "cache_held st kv g s" "hs_verify H token s = (r, t)"
  shows "cache_held st kv g t \<and> w_meta (snd t) = w_meta (snd s)"
  using quiet_run [OF create_http_app_quiet [OF assms(1,2)] assms(3,4)] by simp

theorem token_check_harmless_witness:
  "\<exists>r t. hs_verify sample_side (lit ''t'') (rg_ext (process 1 sample_changed)) = (r, t)
     \<and> cache_held cluster_settings (\<lambda>x. x) (current_grants cluster_settings sample_libraries {subs. plain_subjects subs}) t
     \<and> w_meta (snd t) = w_meta (cl_world sample_changed)"
proof -
  obtain r t where run: "hs_verify sample_side (lit ''t'') (rg_ext (process 1 sample_changed)) = (r, t)" by (rule prod.exhaust)
  have "cache_held cluster_settings (\<lambda>x. x) (current_grants cluster_settings sample_libraries {subs. plain_subjects subs})
      (rg_ext (process 1 sample_changed))"
    using reachable_ok [OF sample_changed_reachable sample_laws cluster_wired_Inr]
    by (simp add: cluster_ok_def held_now_def pool_quiet_def)
  from token_check_harmless [OF sample_laws sample_app this run] run show ?thesis by (auto simp: process_def)
qed

end
