(* ===== verification/Bootstrap.thy ===== *)
theory Bootstrap
  imports Claims
begin

text \<open>
  \<open>deploy/keycloak/bootstrap_dev.py\<close>: the script that prepares the identity provider.  The \<open>httpx\<close>
  calls and \<open>time.sleep\<close> are the parameter \<open>kc_lib\<close>; the environment is a map, the \<open>.env\<close> file its
  text if there is one.  The last section shows what \<open>--structure-only\<close> leaves out.
\<close>

section \<open>Requests\<close>

datatype kc_method = GET | POST | PUT

record kc_request =
  kq_method :: kc_method
  kq_url :: pystr
  kq_params :: "(pystr \<times> pystr) list"
  kq_form :: "(pystr \<times> pystr) list"
  kq_body :: "json option"
  kq_bearer :: "pystr option"
  kq_timeout_s :: int

record kc_response =
  kp_status :: int
  kp_location :: "pystr option"
  kp_json :: "exn + json"

record 'x kc_lib =
  kl_send :: "kc_request \<Rightarrow> ('x, kc_response) op"
  kl_sleep :: "int \<Rightarrow> ('x, unit) op"
  kl_text :: "json \<Rightarrow> pystr"

text \<open>\<open>raise_for_status()\<close>, \<open>json()\<close>, and what is taken from a JSON value.\<close>

definition raise_for_status :: "kc_response \<Rightarrow> exn + kc_response" where
  "raise_for_status r = (if 200 \<le> kp_status r \<and> kp_status r \<le> 299 then Inr r else Inl (py_error ''HTTPError''))"

definition json_field :: "json \<Rightarrow> pystr \<Rightarrow> exn + json" where
  "json_field j k = (case j of JDict d \<Rightarrow> claim_item d k | _ \<Rightarrow> Inl (py_error ''TypeError''))"

fun first_item :: "json \<Rightarrow> exn + json" where
  "first_item (JList (x # xs)) = Inr x"
| "first_item (JList []) = Inl (py_error ''IndexError'')"
| "first_item (JStr (c # s)) = Inr (JStr [c])"
| "first_item (JStr []) = Inl (py_error ''IndexError'')"
| "first_item (JDict d) = Inl (py_error ''KeyError'')"
| "first_item j = Inl (py_error ''TypeError'')"

section \<open>The environment\<close>

type_synonym environ = "pystr \<Rightarrow> pystr option"

definition env_item :: "environ \<Rightarrow> pystr \<Rightarrow> exn + pystr" where
  "env_item env k = (case env k of None \<Rightarrow> Inl (py_error ''KeyError'') | Some v \<Rightarrow> Inr v)"

definition env_or :: "environ \<Rightarrow> pystr \<Rightarrow> pystr \<Rightarrow> pystr" where
  "env_or env k d = (case env k of None \<Rightarrow> d | Some v \<Rightarrow> v)"

text \<open>\<open>str.splitlines()\<close>, and \<open>line.split("=", 1)\<close> of a line with the sign in it.\<close>

definition ends_line :: "int \<Rightarrow> bool" where
  "ends_line c \<longleftrightarrow> (10 \<le> c \<and> c \<le> 13) \<or> (28 \<le> c \<and> c \<le> 30) \<or> c = 133 \<or> c = 8232 \<or> c = 8233"

function lines_from :: "pystr \<Rightarrow> pystr \<Rightarrow> pystr list" where
  "lines_from cur [] = (if cur = [] then [] else [rev cur])"
| "lines_from cur (c # s) =
     (if ends_line c then rev cur # lines_from [] (if c = 13 \<and> s \<noteq> [] \<and> hd s = 10 then tl s else s)
      else lines_from (c # cur) s)"
  by pat_completeness auto
termination by (relation "measure (\<lambda>(cur, s). length s)") auto

definition split_once :: "int \<Rightarrow> pystr \<Rightarrow> pystr \<times> pystr" where
  "split_once c s = (takeWhile (\<lambda>x. x \<noteq> c) s, tl (dropWhile (\<lambda>x. x \<noteq> c) s))"

text \<open>\<open>os.environ.setdefault\<close>: the system takes no empty name and no null character.\<close>

definition set_default :: "environ \<Rightarrow> pystr \<Rightarrow> pystr \<Rightarrow> exn + environ" where
  "set_default env k v =
     (if env k \<noteq> None then Inr env
      else if 0 \<in> set k \<or> 0 \<in> set v then Inl (py_error ''ValueError'')
      else if k = [] then Inl (py_error ''OSError'')
      else Inr (env(k \<mapsto> v)))"

fun load_lines :: "environ \<Rightarrow> pystr list \<Rightarrow> exn + environ" where
  "load_lines env [] = Inr env"
| "load_lines env (line # lines) =
     (if cp CHR ''='' \<in> set line \<and> \<not> starts_with (lstrip_by is_space line) (lit ''#'') then
        (case split_once (cp CHR ''='') line of (key, value) \<Rightarrow>
           res_bind (set_default env (strip key) (strip value)) (\<lambda>env'. load_lines env' lines))
      else load_lines env lines)"

definition load_env :: "pystr option \<Rightarrow> environ \<Rightarrow> exn + environ" where
  "load_env env_file env =
     (case env_file of None \<Rightarrow> Inr env | Some content \<Rightarrow> load_lines env (lines_from [] content))"

section \<open>Waiting for Keycloak\<close>

definition plain_request :: "kc_method \<Rightarrow> pystr \<Rightarrow> int \<Rightarrow> kc_request" where
  "plain_request m url timeout_s =
     \<lparr>kq_method = m, kq_url = url, kq_params = [], kq_form = [], kq_body = None, kq_bearer = None, kq_timeout_s = timeout_s\<rparr>"

definition keycloak_up :: "'x kc_lib \<Rightarrow> pystr \<Rightarrow> ('x, bool) op" where
  "keycloak_up L base =
     io_catch
       (io_bind (kl_send L (plain_request GET (base @ lit ''/realms/master'') 3)) (\<lambda>r. io_return (kp_status r = 200)))
       (\<lambda>e. if e = py_error ''HTTPError'' then io_return False else io_raise e)"

fun wait_tries :: "'x kc_lib \<Rightarrow> pystr \<Rightarrow> nat \<Rightarrow> ('x, unit) op" where
  "wait_tries L base 0 = io_raise (BaseError (lit ''SystemExit: Keycloak did not come up at '' @ base))"
| "wait_tries L base (Suc n) =
     io_bind (keycloak_up L base) (\<lambda>up.
       if up then io_return () else io_then (kl_sleep L 2) (wait_tries L base n))"

definition wait_for :: "'x kc_lib \<Rightarrow> pystr \<Rightarrow> ('x, unit) op" where
  "wait_for L base = wait_tries L base 90"

section \<open>The script\<close>

definition REALM :: pystr where
  "REALM = lit ''sql-data-layer''"

definition USERS :: "(pystr \<times> pystr \<times> pystr) list" where
  "USERS =
     [(lit ''alice'', lit ''Alice Admin'', lit ''admin''), (lit ''bob'', lit ''Bob Analyst'', lit ''analyst''),
      (lit ''carol'', lit ''Carol Viewer'', lit ''viewer'')]"

text \<open>The administrators' client: its base URL and its token.\<close>

record kc_client =
  kc_base_url :: pystr
  kc_token :: pystr

definition kc_request ::
  "kc_client \<Rightarrow> kc_method \<Rightarrow> pystr \<Rightarrow> (pystr \<times> pystr) list \<Rightarrow> json option \<Rightarrow> kc_request" where
  "kc_request kc m path params body =
     \<lparr>kq_method = m, kq_url = kc_base_url kc @ path, kq_params = params, kq_form = [], kq_body = body,
      kq_bearer = Some (kc_token kc), kq_timeout_s = 15\<rparr>"

definition kc_get :: "'x kc_lib \<Rightarrow> kc_client \<Rightarrow> pystr \<Rightarrow> (pystr \<times> pystr) list \<Rightarrow> ('x, json) op" where
  "kc_get L kc path params =
     io_bind (kl_send L (kc_request kc GET path params None)) (\<lambda>r. io_lift (kp_json r))"

definition kc_write :: "'x kc_lib \<Rightarrow> kc_client \<Rightarrow> kc_method \<Rightarrow> pystr \<Rightarrow> json \<Rightarrow> ('x, kc_response) op" where
  "kc_write L kc m path body =
     io_bind (kl_send L (kc_request kc m path [] (Some body))) (\<lambda>r. io_lift (raise_for_status r))"

definition kc_do :: "'x kc_lib \<Rightarrow> kc_client \<Rightarrow> kc_method \<Rightarrow> pystr \<Rightarrow> json \<Rightarrow> ('x, unit) op" where
  "kc_do L kc m path body = io_bind (kc_write L kc m path body) (\<lambda>_. io_return ())"

definition text_fields :: "(string \<times> string) list \<Rightarrow> (pystr \<times> json) list" where
  "text_fields kvs = map (\<lambda>(k, v). (lit k, JStr (lit v))) kvs"

definition audience_mapper :: "string \<Rightarrow> pystr \<Rightarrow> json" where
  "audience_mapper name audience =
     JDict (text_fields [(''name'', name), (''protocol'', ''openid-connect''),
               (''protocolMapper'', ''oidc-audience-mapper'')] @
            [(lit ''consentRequired'', JBool False),
             (lit ''config'', JDict ((lit ''included.custom.audience'', JStr audience)
               # text_fields [(''access.token.claim'', ''true''), (''id.token.claim'', ''false'')]))])"

definition audience_scope :: "pystr \<Rightarrow> json" where
  "audience_scope audience =
     JDict (text_fields [(''name'', ''mcp-audience''),
               (''description'', ''Marks access tokens as issued for the MCP server (RFC 8707).''),
               (''protocol'', ''openid-connect'')] @
            [(lit ''attributes'', JDict (text_fields [(''include.in.token.scope'', ''false''),
               (''display.on.consent.screen'', ''false'')])),
             (lit ''protocolMappers'', JList [audience_mapper ''mcp-audience'' audience])])"

fun scopes_by_name :: "json list \<Rightarrow> (json \<times> json) list \<Rightarrow> exn + (json \<times> json) list" where
  "scopes_by_name [] d = Inr d"
| "scopes_by_name (s # ss) d =
     res_bind (json_field s (lit ''name'')) (\<lambda>name.
     res_bind (json_field s (lit ''id'')) (\<lambda>i.
       case name of
         JList v \<Rightarrow> Inl (py_error ''TypeError'')
       | JDict v \<Rightarrow> Inl (py_error ''TypeError'')
       | key \<Rightarrow> scopes_by_name ss (dict_set key i d)))"

definition fetch_scopes :: "'x kc_lib \<Rightarrow> kc_client \<Rightarrow> ('x, (json \<times> json) list) op" where
  "fetch_scopes L kc =
     io_bind (kc_get L kc (lit ''/client-scopes'') []) (\<lambda>j.
       io_lift (res_bind (iterate j) (\<lambda>ss. scopes_by_name ss [])))"

definition mcp_audience :: json where
  "mcp_audience = JStr (lit ''mcp-audience'')"

definition ensure_scope :: "'x kc_lib \<Rightarrow> kc_client \<Rightarrow> environ \<Rightarrow> ('x, unit) op" where
  "ensure_scope L kc env =
     io_bind (fetch_scopes L kc) (\<lambda>scopes.
     io_bind
       (if map_of scopes mcp_audience \<noteq> None then io_return scopes
        else io_then (kc_do L kc POST (lit ''/client-scopes'')
               (audience_scope (env_or env (lit ''MCP_AUDIENCE'') (lit ''https://localhost/mcp''))))
             (fetch_scopes L kc)) (\<lambda>scopes.
     case map_of scopes mcp_audience of
       None \<Rightarrow> io_raise (py_error ''KeyError'')
     | Some i \<Rightarrow>
         io_bind (kl_send L (kc_request kc PUT (lit ''/default-default-client-scopes/'' @ py_str (kl_text L) i) [] None)) (\<lambda>r.
           if kp_status r = 409 then io_return ()
           else io_bind (io_lift (raise_for_status r)) (\<lambda>_. io_return ()))))"

text \<open>\<open>response.headers["Location"].rsplit("/", 1)[1]\<close>.\<close>

definition last_segment :: "pystr \<Rightarrow> exn + pystr" where
  "last_segment s =
     (if cp CHR ''/'' \<in> set s then Inr (rev (takeWhile (\<lambda>c. c \<noteq> cp CHR ''/'') (rev s)))
      else Inl (py_error ''IndexError''))"

definition created_id :: "kc_response \<Rightarrow> exn + json" where
  "created_id r =
     (case kp_location r of
        None \<Rightarrow> Inl (py_error ''KeyError'')
      | Some l \<Rightarrow> res_bind (last_segment l) (\<lambda>s. Inr (JStr s)))"

definition new_user :: "pystr \<Rightarrow> pystr \<Rightarrow> json" where
  "new_user username full_name =
     (case split_once (cp CHR '' '') full_name of (given, family) \<Rightarrow>
        JDict [(lit ''username'', JStr username), (lit ''email'', JStr (username @ lit ''@example.test'')),
               (lit ''firstName'', JStr given), (lit ''lastName'', JStr family),
               (lit ''enabled'', JBool True), (lit ''emailVerified'', JBool True)])"

definition password_body :: "pystr \<Rightarrow> json" where
  "password_body value =
     JDict [(lit ''type'', JStr (lit ''password'')), (lit ''value'', JStr value), (lit ''temporary'', JBool False)]"

definition setup_user :: "'x kc_lib \<Rightarrow> kc_client \<Rightarrow> pystr \<Rightarrow> pystr \<times> pystr \<times> pystr \<Rightarrow> ('x, unit) op" where
  "setup_user L kc user_password = (\<lambda>(username, full_name, role).
     io_bind (kc_get L kc (lit ''/users'') [(lit ''username'', username), (lit ''exact'', lit ''true'')]) (\<lambda>existing.
     io_bind
       (if truthy existing then io_lift (res_bind (first_item existing) (\<lambda>u. json_field u (lit ''id'')))
        else io_bind (kc_write L kc POST (lit ''/users'') (new_user username full_name)) (\<lambda>r.
          io_lift (created_id r))) (\<lambda>user_id.
     let user_path = lit ''/users/'' @ py_str (kl_text L) user_id in
     io_then (kc_do L kc PUT (user_path @ lit ''/reset-password'') (password_body user_password))
     (io_bind (kc_get L kc (lit ''/roles/'' @ role) []) (\<lambda>role_repr.
      kc_do L kc POST (user_path @ lit ''/role-mappings/realm'') (JList [role_repr]))))))"

definition test_client :: "pystr \<Rightarrow> json" where
  "test_client audience =
     JDict (text_fields [(''clientId'', ''e2e-test''), (''name'', ''Automated test client (dev only)'')] @
            [(lit ''enabled'', JBool True), (lit ''publicClient'', JBool True),
             (lit ''directAccessGrantsEnabled'', JBool True), (lit ''standardFlowEnabled'', JBool False),
             (lit ''defaultClientScopes'', JList (map (\<lambda>s. JStr (lit s))
               [''mcp-audience'', ''web-origins'', ''acr'', ''profile'', ''roles'', ''basic'', ''email''])),
             (lit ''protocolMappers'', JList [audience_mapper ''gui-audience'' audience])])"

definition ensure_test_client :: "'x kc_lib \<Rightarrow> kc_client \<Rightarrow> environ \<Rightarrow> ('x, unit) op" where
  "ensure_test_client L kc env =
     io_bind (kc_get L kc (lit ''/clients'') [(lit ''clientId'', lit ''e2e-test'')]) (\<lambda>found.
       if truthy found then io_return ()
       else kc_do L kc POST (lit ''/clients'')
              (test_client (env_or env (lit ''GUI_AUDIENCE'') (lit ''https://localhost/api''))))"

definition token_request :: "pystr \<Rightarrow> pystr \<Rightarrow> pystr \<Rightarrow> kc_request" where
  "token_request base user password =
     (plain_request POST (base @ lit ''/realms/master/protocol/openid-connect/token'') 15)
       \<lparr>kq_form := [(lit ''grant_type'', lit ''password''), (lit ''client_id'', lit ''admin-cli''),
                   (lit ''username'', user), (lit ''password'', password)]\<rparr>"

definition kc_base :: "environ \<Rightarrow> pystr" where
  "kc_base env = rstrip_char (cp CHR ''/'') (env_or env (lit ''KEYCLOAK_URL'') (lit ''http://localhost:8080/auth''))"

definition sign_in :: "'x kc_lib \<Rightarrow> environ \<Rightarrow> pystr \<Rightarrow> ('x, kc_client) op" where
  "sign_in L env admin_password =
     io_bind (kl_send L (token_request (kc_base env) (env_or env (lit ''KEYCLOAK_ADMIN_USER'') (lit ''admin'')) admin_password)) (\<lambda>r.
     io_bind (io_lift (res_bind (raise_for_status r) kp_json)) (\<lambda>j.
     io_bind (io_lift (json_field j (lit ''access_token''))) (\<lambda>token.
       io_return \<lparr>kc_base_url = kc_base env @ lit ''/admin/realms/'' @ REALM, kc_token = py_str (kl_text L) token\<rparr>)))"

text \<open>\<open>main\<close>; its result is what it prints.\<close>

definition bootstrap :: "'x kc_lib \<Rightarrow> pystr option \<Rightarrow> environ \<Rightarrow> pystr list \<Rightarrow> ('x, pystr) op" where
  "bootstrap L env_file env0 argv =
     (let structure_only = lit ''--structure-only'' \<in> set argv in
      io_bind (io_lift (load_env env_file env0)) (\<lambda>env.
      io_bind (io_lift (env_item env (lit ''KEYCLOAK_ADMIN_PASSWORD''))) (\<lambda>admin_password.
      io_bind (if structure_only then io_return [] else io_lift (env_item env (lit ''KEYCLOAK_DEV_USER_PASSWORD''))) (\<lambda>user_password.
      io_then (wait_for L (kc_base env))
      (io_bind (sign_in L env admin_password) (\<lambda>kc.
       io_then (ensure_scope L kc env)
       (if structure_only then
          io_return (lit ''Keycloak realm '' @ quoted REALM @ lit '' structure ready (audience scope for MCP clients).'')
        else
          io_then (io_each (setup_user L kc user_password) USERS)
          (io_then (ensure_test_client L kc env)
           (io_return (lit ''Keycloak realm '' @ quoted REALM @ lit '' ready: users alice, bob, carol; client e2e-test.''))))))))))"

section \<open>What is sent\<close>

text \<open>The script beside the list of the requests it has made.\<close>

definition recorded :: "'x kc_lib \<Rightarrow> ('x \<times> kc_request list) kc_lib" where
  "recorded L =
     \<lparr>kl_send = (\<lambda>q (x, log). case kl_send L q x of (r, x') \<Rightarrow> (r, (x', log @ [q]))),
      kl_sleep = (\<lambda>s. io_on_fst (kl_sleep L s)), kl_text = kl_text L\<rparr>"

definition only_sent :: "(kc_request \<Rightarrow> bool) \<Rightarrow> kc_request list \<Rightarrow> 'x \<times> kc_request list \<Rightarrow> bool" where
  "only_sent P log0 p \<longleftrightarrow> (\<exists>reqs. snd p = log0 @ reqs \<and> list_all P reqs)"

lemma send_keeps: "P q \<Longrightarrow> io_keeps (only_sent P log0) (kl_send (recorded L) q)"
proof (unfold io_keeps_def, intro allI impI)
  fix s :: "'a \<times> kc_request list" assume P: "P q" and s: "only_sent P log0 s"
  then obtain reqs where "snd s = log0 @ reqs" "list_all P (reqs @ [q])" by (auto simp: only_sent_def)
  then show "only_sent P log0 (snd (kl_send (recorded L) q s))"
    unfolding only_sent_def by (intro exI [of _ "reqs @ [q]"]) (cases s, simp add: recorded_def split: prod.split)
qed

lemma sleep_keeps: "io_keeps (only_sent P log0) (kl_sleep (recorded L) s)"
  by (auto simp: io_keeps_def only_sent_def recorded_def io_on_fst_def split: prod.splits)

lemma wait_keeps:
  assumes "P (plain_request GET (base @ lit ''/realms/master'') 3)"
  shows "io_keeps (only_sent P log0) (wait_tries (recorded L) base n)"
  by (induction n) (simp_all only: wait_tries.simps keycloak_up_def,
    (intro io_keeps_bind io_keeps_then io_keeps_catch io_keeps_if io_keeps_basic send_keeps sleep_keeps assms | assumption)+)

text \<open>The wait asks once per try: at most 90 times, and then it gives up.\<close>

lemma asks_once: "snd (snd (keycloak_up (recorded L) base p)) = snd p @ [plain_request GET (base @ lit ''/realms/master'') 3]"
  by (cases p) (auto simp: keycloak_up_def io_catch_def io_bind_def io_return_def recorded_def split: prod.split sum.split)

lemma sleep_silent: "snd (snd (kl_sleep (recorded L) s p)) = snd p"
  by (simp add: recorded_def io_on_fst_def split: prod.split)

lemma wait_tries_bound: "length (snd (snd (wait_tries (recorded L) base n p))) \<le> length (snd p) + n"
proof (induction n arbitrary: p)
  case (Suc n)
  obtain r p' where ask: "keycloak_up (recorded L) base p = (r, p')" by (rule prod.exhaust)
  obtain u q where slept: "kl_sleep (recorded L) 2 p' = (u, q)" by (rule prod.exhaust)
  have "length (snd q) = length (snd p) + 1" "length (snd p') = length (snd p) + 1"
    using asks_once [of L base p] sleep_silent [of L 2 p'] by (simp_all add: ask slept)
  with Suc.IH [of q] show ?case
    by (cases r; cases u) (simp_all add: io_bind_def ask slept io_then_def)
qed simp

text \<open>The requests of every deployment: readiness, sign-in, and the audience scope.\<close>

definition structural :: "pystr \<Rightarrow> kc_request \<Rightarrow> bool" where
  "structural base q \<longleftrightarrow>
     (let admin = base @ lit ''/admin/realms/'' @ REALM in
      (kq_method q, kq_url q) \<in> {(GET, base @ lit ''/realms/master''),
        (POST, base @ lit ''/realms/master/protocol/openid-connect/token''),
        (GET, admin @ lit ''/client-scopes''), (POST, admin @ lit ''/client-scopes'')}
      \<or> kq_method q = PUT \<and> starts_with (kq_url q) (admin @ lit ''/default-default-client-scopes/''))"

lemma starts_with_own: "starts_with (s @ t) s"
  by (simp add: starts_with_def)

lemma structural_requests:
  "structural base (plain_request GET (base @ lit ''/realms/master'') 3)"
  "structural base (token_request base user password)"
  "kc_base_url kc = base @ lit ''/admin/realms/'' @ REALM \<Longrightarrow> structural base (kc_request kc GET (lit ''/client-scopes'') ps b)"
  "kc_base_url kc = base @ lit ''/admin/realms/'' @ REALM \<Longrightarrow> structural base (kc_request kc POST (lit ''/client-scopes'') ps b)"
  "kc_base_url kc = base @ lit ''/admin/realms/'' @ REALM \<Longrightarrow>
     structural base (kc_request kc PUT (lit ''/default-default-client-scopes/'' @ i) ps b)"
  using starts_with_own [of "base @ lit ''/admin/realms/'' @ REALM @ lit ''/default-default-client-scopes/''" i]
  by (simp_all add: structural_def Let_def plain_request_def token_request_def kc_request_def)

lemma scope_keeps:
  assumes "kc_base_url kc = base @ lit ''/admin/realms/'' @ REALM"
  shows "io_keeps (only_sent (structural base) log0) (ensure_scope (recorded L) kc env)"
  unfolding ensure_scope_def fetch_scopes_def kc_get_def kc_do_def kc_write_def
  by (intro io_keeps_bind io_keeps_then io_keeps_if io_keeps_option io_keeps_basic send_keeps structural_requests assms)

lemma triple_conj_keeps:
  "io_keeps P m \<Longrightarrow> triple P m (\<lambda>x s. R x) (\<lambda>_ _. True) \<Longrightarrow> triple P m (\<lambda>x s. P s \<and> R x) (\<lambda>_. P)"
  by (rule tripleI) (auto dest: io_keepsD tripleD_Inr)

lemma sign_in_client:
  "triple P (sign_in L env pw) (\<lambda>kc s. kc_base_url kc = kc_base env @ lit ''/admin/realms/'' @ REALM) (\<lambda>_ _. True)"
  by (auto simp: triple_def sign_in_def io_bind_def io_return_def split: prod.splits sum.splits)

lemma sign_in_keeps: "io_keeps (only_sent (structural (kc_base env)) log0) (sign_in (recorded L) env pw)"
  unfolding sign_in_def by (intro io_keeps_bind io_keeps_basic send_keeps structural_requests)

text \<open>C34: with \<open>--structure-only\<close>, the mode for every deployment, the script touches nothing but readiness,
  sign-in and the audience scope, whatever Keycloak answers: no user is created, no password is
  set, and the client that allows the password grant is neither looked up nor created.\<close>

theorem structure_only_no_accounts:
  "case load_env env_file env0 of
     Inl e \<Rightarrow> bootstrap (recorded L) env_file env0 (before @ lit ''--structure-only'' # after) (x, log) = (Inl e, (x, log))
   | Inr env \<Rightarrow> \<exists>reqs. snd (snd (bootstrap (recorded L) env_file env0 (before @ lit ''--structure-only'' # after) (x, log)))
        = log @ reqs \<and> list_all (structural (kc_base env)) reqs"
proof (cases "load_env env_file env0")
  case (Inl e)
  then show ?thesis by (simp add: bootstrap_def io_bind_def)
next
  case (Inr env)
  let ?P = "only_sent (structural (kc_base env)) log"
  have rest: "io_keeps ?P (io_bind (sign_in (recorded L) env pw) (\<lambda>kc.
      io_then (ensure_scope (recorded L) kc env) (io_return msg)))" for pw and msg :: pystr
  proof (rule io_keeps_bind_info [OF triple_conj_keeps [OF sign_in_keeps sign_in_client]])
    fix kc :: kc_client assume "kc_base_url kc = kc_base env @ lit ''/admin/realms/'' @ REALM"
    then show "io_keeps ?P (io_then (ensure_scope (recorded L) kc env) (io_return msg))"
      by (intro io_keeps_then io_keeps_basic scope_keeps)
  qed
  have "io_keeps ?P (bootstrap (recorded L) env_file env0 (before @ lit ''--structure-only'' # after))"
    unfolding bootstrap_def Let_def
    by (rule io_keeps_bind_info [OF triple_lift_info])
      (auto simp: Inr wait_for_def intro!: io_keeps_bind io_keeps_then io_keeps_basic rest wait_keeps structural_requests)
  moreover have "?P (x, log)" by (simp add: only_sent_def)
  ultimately have "?P (snd (bootstrap (recorded L) env_file env0 (before @ lit ''--structure-only'' # after) (x, log)))"
    by (simp add: io_keeps_def)
  then show ?thesis by (simp add: Inr only_sent_def)
qed

end
