(* ===== verification/CacheRace.thy ===== *)
theory CacheRace
  imports CacheProps
begin

text \<open>
  Look-ups that overlap.  \<open>cached_json\<close> talks to Redis up to three times and to the database once,
  and between any two of these another process may read, store, commit a change or bump the
  version.  Here every such call is a step of its own; a look-up that began when the last change
  was announced, and that no commit disturbed, still answers with the tables of the moment.
\<close>

section \<open>One look-up, step by step\<close>

datatype 'a phase =
    Started pystr
  | Versioned pystr int
  | Missed pystr int
  | Bypassing pystr
  | Fetched pystr int 'a
  | Answered pystr 'a
  | Gone

text \<open>\<open>now\<close> is what the tables answer at the moment of the step.\<close>

fun lookup_step ::
  "'s cache \<Rightarrow> pystr \<Rightarrow> int \<Rightarrow> 'a codec \<Rightarrow> (pystr \<Rightarrow> 'a) \<Rightarrow> 'a phase \<Rightarrow> ('s, 'a phase) op" where
  "lookup_step C family ttl_s K now (Started key) =
     io_bind (ca_version C family) (\<lambda>version.
       io_return (case version of None \<Rightarrow> Bypassing key | Some v \<Rightarrow> Versioned key v))"
| "lookup_step C family ttl_s K now (Versioned key v) =
     io_bind (ca_get C (full_key family v key)) (\<lambda>hit.
       io_return (case hit of
           None \<Rightarrow> Missed key v
         | Some text \<Rightarrow> (case co_load K text of Some value \<Rightarrow> Answered key value | None \<Rightarrow> Missed key v)))"
| "lookup_step C family ttl_s K now (Missed key v) = io_return (Fetched key v (now key))"
| "lookup_step C family ttl_s K now (Bypassing key) = io_return (Answered key (now key))"
| "lookup_step C family ttl_s K now (Fetched key v value) =
     io_then (ca_set C (full_key family v key) (co_dump K value) ttl_s) (io_return (Answered key value))"
| "lookup_step C family ttl_s K now (Answered key value) = io_return (Answered key value)"
| "lookup_step C family ttl_s K now Gone = io_return Gone"

fun steps_alone ::
  "'s cache \<Rightarrow> pystr \<Rightarrow> int \<Rightarrow> 'a codec \<Rightarrow> (pystr \<Rightarrow> 'a) \<Rightarrow> nat \<Rightarrow> 'a phase \<Rightarrow> ('s, 'a phase) op" where
  "steps_alone C family ttl_s K now 0 p = io_return p"
| "steps_alone C family ttl_s K now (Suc n) p =
     io_bind (lookup_step C family ttl_s K now p) (steps_alone C family ttl_s K now n)"

lemma steps_alone_answered: "steps_alone C family ttl_s K now n (Answered key x) s = (Inr (Answered key x), s)"
  by (induction n) (simp_all add: io_bind_def)

text \<open>The steps are those of \<open>cached_json\<close>: four of them, undisturbed, are the whole of it.\<close>

lemma undisturbed_steps:
  "steps_alone C family ttl_s K now 4 (Started key) s
   = io_bind (cached_json C family key ttl_s K (io_return (now key))) (\<lambda>x. io_return (Answered key x)) s"
proof -
  have four: "(4::nat) = Suc (Suc (Suc (Suc 0)))" by simp
  show ?thesis
    unfolding four steps_alone.simps cached_json_def Let_def
    by (auto simp: io_bind_def io_then_def steps_alone_answered split: prod.split sum.split option.split)
qed

section \<open>Many of them, and those who write\<close>

text \<open>
  A reader is \<open>undisturbed\<close> when it began while every commit had been announced and nobody has
  committed since.
\<close>

record 'a reader =
  re_phase :: "'a phase"
  re_undisturbed :: bool

record ('s, 'm, 'a) race =
  ra_cache :: 's
  ra_tables :: 'm
  ra_announced :: bool
  ra_readers :: "nat \<Rightarrow> 'a reader"

definition set_phase :: "nat \<Rightarrow> 'a phase \<Rightarrow> 's \<Rightarrow> ('s, 'm, 'a) race \<Rightarrow> ('s, 'm, 'a) race" where
  "set_phase i p c r = r\<lparr>ra_cache := c, ra_readers := (ra_readers r)(i := (ra_readers r i)\<lparr>re_phase := p\<rparr>)\<rparr>"

inductive race_step ::
  "'s cache \<Rightarrow> ('s \<Rightarrow> pystr \<Rightarrow> pystr option) \<Rightarrow> ('s \<Rightarrow> pystr \<Rightarrow> int) \<Rightarrow> pystr \<Rightarrow> int \<Rightarrow> 'a codec \<Rightarrow> (pystr \<Rightarrow> 'm \<Rightarrow> 'a)
   \<Rightarrow> ('s, 'm, 'a) race \<Rightarrow> ('s, 'm, 'a) race \<Rightarrow> bool"
  for C entries ver family ttl_s K q where
  begins: "race_step C entries ver family ttl_s K q r
    (r\<lparr>ra_readers := (ra_readers r)(i := \<lparr>re_phase = Started key, re_undisturbed = ra_announced r\<rparr>)\<rparr>)"
| moves: "lookup_step C family ttl_s K (\<lambda>k. q k (ra_tables r)) (re_phase (ra_readers r i)) (ra_cache r) = (Inr p, c) \<Longrightarrow>
    race_step C entries ver family ttl_s K q r (set_phase i p c r)"
| fails: "lookup_step C family ttl_s K (\<lambda>k. q k (ra_tables r)) (re_phase (ra_readers r i)) (ra_cache r) = (Inl e, c) \<Longrightarrow>
    race_step C entries ver family ttl_s K q r (set_phase i Gone c r)"
| commits: "race_step C entries ver family ttl_s K q r
    (r\<lparr>ra_tables := m, ra_announced := False, ra_readers := (\<lambda>i. (ra_readers r i)\<lparr>re_undisturbed := False\<rparr>)\<rparr>)"
| bumps: "ca_bump C f (ra_cache r) = (u, c) \<Longrightarrow>
    race_step C entries ver family ttl_s K q r
      (r\<lparr>ra_cache := c, ra_announced := ra_announced r \<or> ver c family \<noteq> ver (ra_cache r) family\<rparr>)"
| fades: "entries c \<subseteq>\<^sub>m entries (ra_cache r) \<Longrightarrow> ver c = ver (ra_cache r) \<Longrightarrow>
    race_step C entries ver family ttl_s K q r (r\<lparr>ra_cache := c\<rparr>)"

section \<open>The invariant\<close>

fun phase_version :: "'a phase \<Rightarrow> int option" where
  "phase_version (Versioned key v) = Some v"
| "phase_version (Missed key v) = Some v"
| "phase_version (Fetched key v x) = Some v"
| "phase_version p = None"

text \<open>From the version \<open>b\<close> on, everything stored or about to be stored is what the tables say.\<close>

definition clean_from ::
  "'a codec \<Rightarrow> (pystr \<Rightarrow> 'a) \<Rightarrow> pystr \<Rightarrow> (pystr \<Rightarrow> pystr option) \<Rightarrow> (nat \<Rightarrow> 'a reader) \<Rightarrow> int \<Rightarrow> bool" where
  "clean_from K now family store readers b \<longleftrightarrow>
     (\<forall>v k t. b \<le> v \<and> store (full_key family v k) = Some t \<longrightarrow> means K t (now k))
     \<and> (\<forall>i k v x. re_phase (readers i) = Fetched k v x \<and> b \<le> v \<longrightarrow> x = now k)
     \<and> (\<forall>i v. re_undisturbed (readers i) \<and> phase_version (re_phase (readers i)) = Some v \<longrightarrow> b \<le> v)
     \<and> (\<forall>i k x. re_undisturbed (readers i) \<and> re_phase (readers i) = Answered k x \<longrightarrow> x = now k)"

definition race_ok ::
  "('s \<Rightarrow> pystr \<Rightarrow> pystr option) \<Rightarrow> ('s \<Rightarrow> pystr \<Rightarrow> int) \<Rightarrow> pystr \<Rightarrow> 'a codec \<Rightarrow> (pystr \<Rightarrow> 'm \<Rightarrow> 'a) \<Rightarrow> ('s, 'm, 'a) race \<Rightarrow> bool" where
  "race_ok entries ver family K q r \<longleftrightarrow>
     (\<forall>v k. ver (ra_cache r) family < v \<longrightarrow> entries (ra_cache r) (full_key family v k) = None)
     \<and> (\<forall>i v. phase_version (re_phase (ra_readers r i)) = Some v \<longrightarrow> v \<le> ver (ra_cache r) family)
     \<and> (if ra_announced r
        then \<exists>b \<le> ver (ra_cache r) family. clean_from K (\<lambda>k. q k (ra_tables r)) family (entries (ra_cache r)) (ra_readers r) b
        else \<forall>i. \<not> re_undisturbed (ra_readers r i))"

lemma race_okD:
  assumes "race_ok entries ver family K q r"
  shows "ver (ra_cache r) family < v \<Longrightarrow> entries (ra_cache r) (full_key family v k) \<noteq> Some t"
    and "phase_version (re_phase (ra_readers r i)) = Some v \<Longrightarrow> v \<le> ver (ra_cache r) family"
    and "ra_announced r \<Longrightarrow> \<exists>b \<le> ver (ra_cache r) family.
      clean_from K (\<lambda>k. q k (ra_tables r)) family (entries (ra_cache r)) (ra_readers r) b"
    and "\<not> ra_announced r \<Longrightarrow> \<not> re_undisturbed (ra_readers r i)"
  using assms by (auto simp: race_ok_def)

lemma clean_fromD:
  assumes "clean_from K now family store readers b"
  shows "b \<le> v \<Longrightarrow> store (full_key family v k) = Some t \<Longrightarrow> means K t (now k)"
    and "re_phase (readers i) = Fetched k v x \<Longrightarrow> b \<le> v \<Longrightarrow> x = now k"
    and "re_undisturbed (readers i) \<Longrightarrow> phase_version (re_phase (readers i)) = Some v \<Longrightarrow> b \<le> v"
    and "re_undisturbed (readers i) \<Longrightarrow> re_phase (readers i) = Answered k x \<Longrightarrow> x = now k"
  using assms unfolding clean_from_def by blast+

lemma clean_fewer:
  "clean_from K now family store readers b \<Longrightarrow> store' \<subseteq>\<^sub>m store \<Longrightarrow> clean_from K now family store' readers b"
  unfolding clean_from_def by (meson map_le_Some)

lemma clean_phase:
  assumes "clean_from K now family store readers b"
    and "\<And>k v x. p = Fetched k v x \<Longrightarrow> b \<le> v \<Longrightarrow> x = now k"
    and "\<And>v. re_undisturbed (readers i) \<Longrightarrow> phase_version p = Some v \<Longrightarrow> b \<le> v"
    and "\<And>k x. re_undisturbed (readers i) \<Longrightarrow> p = Answered k x \<Longrightarrow> x = now k"
  shows "clean_from K now family store (readers(i := (readers i)\<lparr>re_phase := p\<rparr>)) b"
  using assms unfolding clean_from_def by auto

lemma set_phase_simps [simp]:
  "ra_cache (set_phase i p c r) = c" "ra_tables (set_phase i p c r) = ra_tables r"
  "ra_announced (set_phase i p c r) = ra_announced r"
  "ra_readers (set_phase i p c r) = (ra_readers r)(i := (ra_readers r i)\<lparr>re_phase := p\<rparr>)"
  by (simp_all add: set_phase_def)

context cache_contract begin

abbreviation "ok_race \<equiv> race_ok entries ver"

text \<open>A step that stores nothing keeps the invariant when the new phase is right.\<close>

lemma race_ok_phase:
  assumes ok: "ok_race family K q r" and c: "ver c = ver (ra_cache r)" "entries c \<subseteq>\<^sub>m entries (ra_cache r)"
    and le: "\<And>v. phase_version p = Some v \<Longrightarrow> v \<le> ver (ra_cache r) family"
    and right: "\<And>b. b \<le> ver (ra_cache r) family \<Longrightarrow>
      clean_from K (\<lambda>k. q k (ra_tables r)) family (entries (ra_cache r)) (ra_readers r) b \<Longrightarrow>
      (\<forall>k v x. p = Fetched k v x \<and> b \<le> v \<longrightarrow> x = q k (ra_tables r))
      \<and> (re_undisturbed (ra_readers r i) \<longrightarrow>
           (\<forall>v. phase_version p = Some v \<longrightarrow> b \<le> v) \<and> (\<forall>k x. p = Answered k x \<longrightarrow> x = q k (ra_tables r)))"
  shows "ok_race family K q (set_phase i p c r)"
proof -
  have none: "entries c (full_key family v k) = None" if "ver c family < v" for v k
  proof (rule ccontr)
    assume "entries c (full_key family v k) \<noteq> None"
    then obtain t where "entries c (full_key family v k) = Some t" by blast
    from map_le_Some [OF c(2) this] race_okD(1) [OF ok, of v k t] that c(1) show False by simp
  qed
  have clean: "\<exists>b \<le> ver c family. clean_from K (\<lambda>k. q k (ra_tables r)) family (entries c)
      ((ra_readers r)(i := (ra_readers r i)\<lparr>re_phase := p\<rparr>)) b" if a: "ra_announced r"
  proof -
    from race_okD(3) [OF ok a] obtain b where b: "b \<le> ver (ra_cache r) family"
      "clean_from K (\<lambda>k. q k (ra_tables r)) family (entries (ra_cache r)) (ra_readers r) b" by blast
    from right [OF b] have "clean_from K (\<lambda>k. q k (ra_tables r)) family (entries (ra_cache r))
        ((ra_readers r)(i := (ra_readers r i)\<lparr>re_phase := p\<rparr>)) b"
      by (intro clean_phase [OF b(2)]) blast+
    with b(1) c show ?thesis by (auto intro: clean_fewer)
  qed
  show ?thesis
    unfolding race_ok_def using none clean le race_okD(2,4) [OF ok] c(1) by auto
qed

lemma race_ok_fails:
  assumes "ok_race family K q r" "ver c = ver (ra_cache r)" "entries c \<subseteq>\<^sub>m entries (ra_cache r)"
  shows "ok_race family K q (set_phase i Gone c r)"
  by (rule race_ok_phase [OF assms]) simp_all

lemma clean_stored:
  assumes clean: "clean_from K now family store readers b" and faithful: "faithful K"
    and put: "stores store (full_key family v key) (co_dump K x) store'" and own: "re_phase (readers i) = Fetched key v x"
  shows "clean_from K now family store' readers b"
proof -
  have "means K t (now k)" if b: "b \<le> w" and t: "store' (full_key family w k) = Some t" for w k t
    using storesD [OF put t]
  proof
    assume "store (full_key family w k) = Some t"
    with clean b show ?thesis unfolding clean_from_def by blast
  next
    assume e: "full_key family w k = full_key family v key \<and> t = co_dump K x"
    then have "w = v" "k = key" using full_key_inject by blast+
    with clean own b have "x = now k" unfolding clean_from_def by blast
    with e faithful show ?thesis by (simp add: faithful_def)
  qed
  with clean show ?thesis unfolding clean_from_def by blast
qed

lemma race_ok_stored:
  assumes ok: "ok_race family K q r" and alive: "alive (ra_cache r)" and faithful: "faithful K"
    and own: "re_phase (ra_readers r i) = Fetched key v x" and fam: "\<not> reserved (full_key family v key)"
    and put: "ca_set C (full_key family v key) (co_dump K x) ttl_s (ra_cache r) = (u, c)"
    and p: "p = Answered key x \<or> p = Gone"
  shows "alive c \<and> ok_race family K q (set_phase i p c r)"
proof -
  note law = set_law [OF alive fam put]
  have up: "stores (entries (ra_cache r)) (full_key family v key) (co_dump K x) (entries c)" and ver: "ver c = ver (ra_cache r)"
    using law by simp_all
  have v: "v \<le> ver (ra_cache r) family" using race_okD(2) [OF ok, of i v] own by simp
  have none: "entries c (full_key family w k) = None" if "ver c family < w" for w k
  proof (rule ccontr)
    assume "entries c (full_key family w k) \<noteq> None"
    then obtain t where "entries c (full_key family w k) = Some t" by blast
    from storesD [OF up this] race_okD(1) [OF ok, of w k t] that v ver show False by (auto dest: full_key_inject)
  qed
  have clean: "\<exists>b \<le> ver c family. clean_from K (\<lambda>k. q k (ra_tables r)) family (entries c)
      ((ra_readers r)(i := (ra_readers r i)\<lparr>re_phase := p\<rparr>)) b" if a: "ra_announced r"
  proof -
    from race_okD(3) [OF ok a] obtain b where b: "b \<le> ver (ra_cache r) family"
      "clean_from K (\<lambda>k. q k (ra_tables r)) family (entries (ra_cache r)) (ra_readers r) b" by blast
    have "x = q key (ra_tables r)" if "re_undisturbed (ra_readers r i)"
    proof -
      from clean_fromD(3) [OF b(2) that] own have "b \<le> v" by simp
      with clean_fromD(2) [OF b(2) own] show ?thesis by simp
    qed
    with p have "clean_from K (\<lambda>k. q k (ra_tables r)) family (entries c)
        ((ra_readers r)(i := (ra_readers r i)\<lparr>re_phase := p\<rparr>)) b"
      by (intro clean_phase [OF clean_stored [OF b(2) faithful up own]]) auto
    with b(1) ver show ?thesis by auto
  qed
  show ?thesis
    unfolding race_ok_def using none clean p race_okD(2,4) [OF ok] ver law by auto
qed

lemma lookup_step_ok:
  assumes ok: "ok_race family K q r" and alive: "alive (ra_cache r)" and faithful: "faithful K"
    and fam: "\<And>v k. \<not> reserved (full_key family v k)"
    and run: "lookup_step C family ttl_s K (\<lambda>k. q k (ra_tables r)) (re_phase (ra_readers r i)) (ra_cache r) = (res, c)"
  shows "alive c \<and> ok_race family K q (set_phase i (case res of Inl e \<Rightarrow> Gone | Inr p \<Rightarrow> p) c r)"
proof (cases "re_phase (ra_readers r i)")
  case (Started key)
  obtain rv d where call: "ca_version C family (ra_cache r) = (rv, d)" by (rule prod.exhaust)
  note law = version_law [OF alive call]
  from run Started call have d: "c = d" "res = (case rv of Inl e \<Rightarrow> Inl e
      | Inr None \<Rightarrow> Inr (Bypassing key) | Inr (Some v) \<Rightarrow> Inr (Versioned key v))"
    by (auto simp: io_bind_def split: sum.splits option.splits)
  with law race_okD(2) [OF ok] show ?thesis
    by (intro conjI [OF _ race_ok_phase [OF ok]]) (auto split: sum.splits option.splits)
next
  case (Versioned key v)
  obtain rg d where call: "ca_get C (full_key family v key) (ra_cache r) = (rg, d)" by (rule prod.exhaust)
  note law = get_law [OF alive fam call]
  from run Versioned call have d: "c = d" "(\<exists>e. res = Inl e) \<or> res = Inr (Missed key v)
      \<or> (\<exists>t x. rg = Inr (Some t) \<and> co_load K t = Some x \<and> res = Inr (Answered key x))"
    by (auto simp: io_bind_def split: sum.splits option.splits)
  have v: "v \<le> ver (ra_cache r) family" using race_okD(2) [OF ok, of i v] Versioned by simp
  have here: "b \<le> v" if "clean_from K now family store (ra_readers r) b" "re_undisturbed (ra_readers r i)" for now store b
    using clean_fromD(3) [OF that] Versioned by simp
  show ?thesis
  proof (rule conjI [OF _ race_ok_phase [OF ok]], goal_cases)
    case (5 b)
    have "x = q key (ra_tables r)" if "re_undisturbed (ra_readers r i)" "rg = Inr (Some t)" "co_load K t = Some x" for t x
      using law that(2,3) clean_fromD(1) [OF 5(2) here [OF 5(2) that(1)], of key t] by (simp add: means_def)
    with d(2) here [OF 5(2)] show ?case by auto
  qed (use law d v in auto)
next
  case (Fetched key v x)
  obtain ru d where call: "ca_set C (full_key family v key) (co_dump K x) ttl_s (ra_cache r) = (ru, d)" by (rule prod.exhaust)
  from run Fetched call have "c = d" "(case res of Inl e \<Rightarrow> Gone | Inr p \<Rightarrow> p) = Answered key x
      \<or> (case res of Inl e \<Rightarrow> Gone | Inr p \<Rightarrow> p) = Gone"
    by (auto simp: io_bind_def io_then_def split: sum.splits)
  then show ?thesis using race_ok_stored [OF ok alive faithful Fetched fam call] by blast
next
  case (Missed key v)
  have here: "clean_from K now family store (ra_readers r) b \<Longrightarrow> re_undisturbed (ra_readers r i) \<Longrightarrow> b \<le> v" for now store b
    using clean_fromD(3) [of K now family store "ra_readers r" b i v] Missed by simp
  have "c = ra_cache r" "res = Inr (Fetched key v (q key (ra_tables r)))" using run Missed by simp_all
  with alive race_okD(2) [OF ok, of i v] Missed show ?thesis
    by (auto intro!: race_ok_phase [OF ok] here)
qed (use run alive race_okD(2) [OF ok, of i] in
    \<open>auto intro!: race_ok_phase [OF ok] simp: clean_from_def split: sum.splits\<close>)

lemma race_ok_shrinks:
  assumes ok: "ok_race family K q r" and sub: "entries c \<subseteq>\<^sub>m entries (ra_cache r)"
    and up: "ver (ra_cache r) family \<le> ver c family"
    and a: "a \<longleftrightarrow> ra_announced r \<or> ver c family \<noteq> ver (ra_cache r) family"
  shows "ok_race family K q (r\<lparr>ra_cache := c, ra_announced := a\<rparr>)"
proof -
  have none: "entries c (full_key family v k) = None" if "ver (ra_cache r) family < v" for v k
    using map_le_Some [OF sub, of "full_key family v k"] race_okD(1) [OF ok that, of k]
    by (cases "entries c (full_key family v k)") auto
  have le: "v \<le> ver c family" if "phase_version (re_phase (ra_readers r i)) = Some v" for i v
    using race_okD(2) [OF ok that] up by simp
  have clean: "\<exists>b \<le> ver c family. clean_from K (\<lambda>k. q k (ra_tables r)) family (entries c) (ra_readers r) b" if "a"
  proof (cases "ra_announced r")
    case True
    from race_okD(3) [OF ok True] up show ?thesis by (meson clean_fewer [OF _ sub] order_trans)
  next
    case False
    with that a up have later: "ver (ra_cache r) family < ver c family" by simp
    have "clean_from K (\<lambda>k. q k (ra_tables r)) family (entries c) (ra_readers r) (ver c family)"
      unfolding clean_from_def
    proof (intro conjI allI impI; elim conjE)
      fix v k t assume "ver c family \<le> v" "entries c (full_key family v k) = Some t"
      with none [of v k] later show "means K t (q k (ra_tables r))" by simp
    next
      fix i k v x assume "re_phase (ra_readers r i) = Fetched k v x" "ver c family \<le> v"
      with race_okD(2) [OF ok, of i v] later show "x = q k (ra_tables r)" by simp
    qed (use race_okD(4) [OF ok False] in simp_all)
    then show ?thesis by blast
  qed
  from none up have "\<forall>v k. ver c family < v \<longrightarrow> entries c (full_key family v k) = None" by simp
  with le clean race_okD(4) [OF ok] a show ?thesis unfolding race_ok_def by simp
qed

lemma race_step_ok:
  assumes step: "race_step C entries ver family ttl_s K q r r'"
    and ok: "ok_race family K q r" and alive: "alive (ra_cache r)" and faithful: "faithful K"
    and fam: "\<And>v k. \<not> reserved (full_key family v k)" and lives: "\<And>c. alive c"
  shows "ok_race family K q r'"
  using step
proof cases
  case (begins i key)
  have "clean_from K now family store ((ra_readers r)(i := \<lparr>re_phase = Started key, re_undisturbed = u\<rparr>)) b"
    if "clean_from K now family store (ra_readers r) b" for now store b u
    using that unfolding clean_from_def by auto
  note fresh = this
  show ?thesis
    using ok fresh unfolding begins race_ok_def by (cases "ra_announced r") (simp_all, blast)
next
  case (moves i p c)
  from lookup_step_ok [OF ok alive faithful fam moves(2)] moves(1) show ?thesis by simp
next
  case (fails i e c)
  from lookup_step_ok [OF ok alive faithful fam fails(2)] fails(1) show ?thesis by simp
next
  case (commits m)
  then show ?thesis using ok by (auto simp: race_ok_def)
next
  case (bumps f u c)
  note law = bump_law [OF alive bumps(2)]
  then have "entries c \<subseteq>\<^sub>m entries (ra_cache r)" "ver (ra_cache r) family \<le> ver c family" by auto
  from race_ok_shrinks [OF ok this refl] show ?thesis unfolding bumps(1) .
next
  case (fades c)
  from race_ok_shrinks [OF ok fades(2), of "ra_announced r"] fades show ?thesis by simp
qed

end

section \<open>Overlapping look-ups on Redis\<close>

text \<open>The histories of the readers and writers of one family, from an empty Redis and with no reader.\<close>

inductive raced ::
  "'x redis_client \<Rightarrow> 'x clock \<Rightarrow> ('x \<Rightarrow> pystr \<Rightarrow> pystr option) \<Rightarrow> int \<Rightarrow> 'a codec \<Rightarrow> (pystr \<Rightarrow> 'm \<Rightarrow> 'a)
   \<Rightarrow> ('x redis_state, 'm, 'a) race \<Rightarrow> bool"
  for R clk kv ttl_s K q where
  empty: "kv (rs_ext c) = (\<lambda>_. None) \<Longrightarrow> raced R clk kv ttl_s K q
    \<lparr>ra_cache = c, ra_tables = m, ra_announced = True, ra_readers = (\<lambda>_. \<lparr>re_phase = Gone, re_undisturbed = False\<rparr>)\<rparr>"
| more: "raced R clk kv ttl_s K q r \<Longrightarrow>
    race_step (redis_cache R clk) (redis_entries kv) (redis_versions kv) META ttl_s K q r r' \<Longrightarrow>
    raced R clk kv ttl_s K q r'"

lemma raced_ok:
  assumes "redis_laws R clk kv" "faithful K" "raced R clk kv ttl_s K q r"
  shows "race_ok (redis_entries kv) (redis_versions kv) META K q r"
  using assms(3)
proof induction
  case (empty c m)
  then show ?case
    by (auto simp: race_ok_def clean_from_def redis_entries_def intro!: exI [of _ "redis_versions kv c META"])
next
  case (more r r')
  have "cache_contract (redis_cache R clk) (redis_entries kv) (redis_versions kv) (\<lambda>_. True) (\<lambda>_. ())"
    by (rule redis_server.redis_contract [OF redis_server.intro [OF assms(1)]])
  from cache_contract.race_step_ok [OF this more.hyps(2) more.IH _ assms(2) not_reserved_meta]
  show ?case by simp
qed

text \<open>A small history: reader 0 loads the old names, the table is withdrawn and the version bumped, and
  only then does reader 0 store what it loaded; reader 1 comes after that.\<close>

type_synonym name_race = "(kv_data redis_state, pystr list, pystr list) race"

definition race_key :: pystr where
  "race_key = lit ''tables:shop''"

definition advance :: "nat \<Rightarrow> name_race \<Rightarrow> name_race" where
  "advance i r =
     (case lookup_step (redis_cache mem_redis (\<lambda>x. (0, x))) META 60 (sc_names sample_codecs) (\<lambda>k. ra_tables r)
        (re_phase (ra_readers r i)) (ra_cache r) of
        (Inr p, c) \<Rightarrow> set_phase i p c r
      | (Inl e, c) \<Rightarrow> set_phase i Gone c r)"

definition arrive :: "nat \<Rightarrow> name_race \<Rightarrow> name_race" where
  "arrive i r = r\<lparr>ra_readers := (ra_readers r)(i := \<lparr>re_phase = Started race_key, re_undisturbed = ra_announced r\<rparr>)\<rparr>"

definition withdraw :: "name_race \<Rightarrow> name_race" where
  "withdraw r = r\<lparr>ra_tables := [], ra_announced := False, ra_readers := (\<lambda>i. (ra_readers r i)\<lparr>re_undisturbed := False\<rparr>)\<rparr>"

definition announce_all :: "name_race \<Rightarrow> name_race" where
  "announce_all r =
     (let c = snd (redis_bump mem_redis (\<lambda>x. (0, x)) META (ra_cache r)) in
      r\<lparr>ra_cache := c, ra_announced := ra_announced r \<or> redis_versions (\<lambda>x. x) c META \<noteq> redis_versions (\<lambda>x. x) (ra_cache r) META\<rparr>)"

definition race_start :: name_race where
  "race_start = \<lparr>ra_cache = \<lparr>rs_down_until = 0, rs_ext = (\<lambda>_. None)\<rparr>, ra_tables = [lit ''orders''], ra_announced = True,
     ra_readers = (\<lambda>_. \<lparr>re_phase = Gone, re_undisturbed = False\<rparr>)\<rparr>"

definition slow_reader :: name_race where
  "slow_reader = advance 0 (announce_all (withdraw (advance 0 (advance 0 (advance 0 (arrive 0 race_start))))))"

definition late_reader :: name_race where
  "late_reader = advance 1 (advance 1 (advance 1 (advance 1 (arrive 1 slow_reader))))"

abbreviation "name_raced \<equiv> raced mem_redis (\<lambda>x. (0, x)) (\<lambda>x. x) 60 (sc_names sample_codecs) (\<lambda>k m. m)"

lemma name_raced_steps:
  assumes "name_raced r"
  shows "name_raced (advance i r)" "name_raced (arrive i r)" "name_raced (withdraw r)" "name_raced (announce_all r)"
proof -
  obtain q c where run: "lookup_step (redis_cache mem_redis (\<lambda>x. (0, x))) META 60 (sc_names sample_codecs) (\<lambda>k. ra_tables r)
      (re_phase (ra_readers r i)) (ra_cache r) = (q, c)" by (rule prod.exhaust)
  show "name_raced (advance i r)"
  proof (cases q)
    case (Inl e)
    have "race_step (redis_cache mem_redis (\<lambda>x. (0, x))) E V META 60 (sc_names sample_codecs) (\<lambda>k m. m) r (set_phase i Gone c r)"
      for E V by (rule race_step.fails) (simp add: run Inl)
    from raced.more [OF assms this] show ?thesis by (simp add: advance_def run Inl)
  next
    case (Inr p)
    have "race_step (redis_cache mem_redis (\<lambda>x. (0, x))) E V META 60 (sc_names sample_codecs) (\<lambda>k m. m) r (set_phase i p c r)"
      for E V by (rule race_step.moves) (simp add: run Inr)
    from raced.more [OF assms this] show ?thesis by (simp add: advance_def run Inr)
  qed
  show "name_raced (arrive i r)" unfolding arrive_def by (rule raced.more [OF assms race_step.begins])
  show "name_raced (withdraw r)" unfolding withdraw_def by (rule raced.more [OF assms race_step.commits])
  obtain u d where bump: "redis_bump mem_redis (\<lambda>x. (0, x)) META (ra_cache r) = (u, d)" by (rule prod.exhaust)
  then have "ca_bump (redis_cache mem_redis (\<lambda>x. (0, x))) META (ra_cache r) = (u, d)" by (simp add: redis_cache_def)
  from raced.more [OF assms race_step.bumps [OF this]] show "name_raced (announce_all r)"
    by (simp add: announce_all_def Let_def bump)
qed

lemma late_reader_raced: "name_raced late_reader"
proof -
  have "name_raced race_start" unfolding race_start_def by (rule raced.empty) simp
  then show ?thesis unfolding late_reader_def slow_reader_def by (intro name_raced_steps)
qed

lemma slow_reader_answer: "re_phase (ra_readers slow_reader 0) = Answered race_key [lit ''orders'']"
  by code_simp

lemma late_reader_phase:
  "(case re_phase (ra_readers late_reader 1) of Answered k x \<Rightarrow> k = race_key | _ \<Rightarrow> False)
   \<and> re_undisturbed (ra_readers late_reader 1) \<and> ra_tables late_reader = []"
  by code_simp

text \<open>C8: overlapping look-ups never bring an old grant back.  However the calls of any number of
  look-ups interleave with each other, with commits, with bumps and with expiring entries: an answer
  is what the tables say now, if its look-up began when the last commit had been announced and
  nobody has committed since; a look-up that loaded before the change may store what it
  loaded after the bump, but nobody will read it.\<close>

theorem overlapping_lookup_current:
  assumes "redis_laws R clk kv" "faithful K" "raced R clk kv ttl_s K q r"
    and "re_phase (ra_readers r i) = Answered key x" "re_undisturbed (ra_readers r i)"
  shows "x = q key (ra_tables r)"
proof -
  note ok = raced_ok [OF assms(1-3)]
  have "ra_announced r" using race_okD(4) [OF ok] assms(5) by blast
  from race_okD(3) [OF ok this] obtain b where
    "clean_from K (\<lambda>k. q k (ra_tables r)) META (redis_entries kv (ra_cache r)) (ra_readers r) b" by blast
  from clean_fromD(4) [OF this assms(5,4)] show ?thesis .
qed

theorem overlapping_lookup_current_witness:
  "re_phase (ra_readers slow_reader 0) = Answered race_key [lit ''orders'']
   \<and> re_phase (ra_readers late_reader 1) = Answered race_key []"
proof -
  obtain x where x: "re_phase (ra_readers late_reader 1) = Answered race_key x"
    using late_reader_phase by (auto split: phase.splits)
  have "faithful (sc_names sample_codecs)" using sample_faithful by (simp add: faithful_codecs_def)
  from overlapping_lookup_current [OF mem_redis_laws this late_reader_raced x] late_reader_phase
  have "x = []" by simp
  with x slow_reader_answer show ?thesis by simp
qed

end
