(* ===== verification/Spec2Isabelle.thy ===== *)
theory Spec2Isabelle
  imports ValidatorProps MaskLoop SanitizerProps AuditTrail CacheProps TokenProps JwtProps RegistryProps AdapterProps
    AdminProps AdminSettings AdminGrants CheckProps PageProps HttpServer SampleRegistry Cluster
    Bootstrap CacheRace
begin

text \<open>
  A verification development for the MCP server for SQL agents: a service through which AI agents
  query an organisation's databases read-only, under grants that administrators edit in a web
  backend, with every call on record.

  \<^bold>\<open>The program.\<close>  \<open>src/mcp-server/mcp_sql_server\<close> serves eight tools over stdio or OAuth-protected
  HTTP (\<open>server.py\<close>, \<open>tools/mcp_tools.py\<close>).  A tool call becomes a call of the schema or query
  service (\<open>services/\<close>); the service asks the permission service, which reads the grants from the
  \<open>app_meta\<close> database through \<open>services/meta_store.py\<close>, usually behind the Redis cache (\<open>cache/\<close>);
  a query goes through the three layers of \<open>query_validator.py\<close>; the connection registry opens the
  target database with a decrypted password (\<open>connection_registry.py\<close>, \<open>crypto.py\<close>) and the SQLAlchemy
  adapter runs the statement (\<open>adapters/\<close>); what comes back is made JSON-safe and cleaned
  (\<open>serialization.py\<close>, \<open>sanitizer.py\<close>); \<open>audit_service.py\<close> writes the outcome.  Who calls is settled by
  \<open>auth/\<close>.  \<open>src/gui-backend/gui_backend\<close> is the administrators' API over the same tables: connections,
  grants, descriptions, reports, the audit pages and the health page; it logs each change and
  announces it to the caches.  \<open>src/db/migrations\<close> defines the tables and their constraints.

  \<^bold>\<open>How code became definitions.\<close>  A \<open>raise\<close> is the left of a sum; a method with effects is a function
  of type \<open>('e, 's, 'a) io\<close> from a state to a result and a new state (\<open>Prelude\<close>), which keeps the
  state at the moment of a raise; \<open>async\<close> methods are run without interleaving, each database
  transaction as one step that is undone when it raises.  A \<open>str\<close> is the list of its code points
  (\<open>PyStr\<close>); the regular expressions of the source are values of a datatype whose executable matcher
  is proved equal to the language they denote (\<open>PyRegex\<close>).  Enumerations are datatypes, classes with
  data are records, abstract base classes are records of operations (\<open>Interfaces\<close>), classes that
  implement them are definitions of such records.  Times are integers (microseconds, or the ticks of
  the database), ids are strings.

  \<^bold>\<open>Parameters.\<close>  What is not under \<open>src/\<close> is an argument: sqlglot's parser (\<open>sqlglot\<close>), the Unicode
  tables of Python (\<open>ucd\<close>), SQLAlchemy with the databases behind it (\<open>driver\<close>), the Redis client, PyJWT,
  HTTP calls and clocks, Fernet, pydantic's JSON codecs, Postgres' reachability, collation, \<open>lower\<close> and
  full-text ranking (\<open>pg\<close>), the MCP and Starlette middleware (\<open>http_side\<close>), FastAPI's parsing of requests
  (\<open>gui_request\<close> is a parsed request, \<open>request_ok\<close> the pydantic constraints it has passed).  What a
  theorem needs of one of them is a named hypothesis (\<open>redis_laws\<close>, \<open>fernet_ok\<close>, \<open>faithful_codecs\<close>,
  \<open>digest_ok\<close>) with an instance that has it: an in-memory Redis, a reversible box, a small sorting
  database.  \<open>told_apart\<close> adds to \<open>digest_ok\<close> that no caller's name holds a line feed, which the code
  does not see to.

  \<^bold>\<open>The theories, in the order of the program.\<close>
  \<^item> Shared ground: \<open>Prelude\<close> (results, \<open>io\<close>, Hoare triples, \<open>io_keeps\<close>), \<open>PyStr\<close>, \<open>PyRegex\<close>, \<open>Models\<close>
    (\<open>models.py\<close>, \<open>errors.py\<close>), \<open>Config\<close> (\<open>config.py\<close>), \<open>Serialization\<close>, \<open>Interfaces\<close> (\<open>adapters/base.py\<close>,
    \<open>cache/base.py\<close>, the \<open>MetaStore\<close> class).
  \<^item> Validator: \<open>Validator\<close> follows \<open>query_validator.py\<close> function by function.  \<open>ValidatorLex\<close> gives the
    grammar of the texts the mask accepts (\<open>lexed\<close>) and shows that masking computes it; \<open>MaskLoop\<close> runs
    the loops by index, as the source does;
    \<open>ValidatorProps\<close> states what is accepted without regular expressions or loops (\<open>validate_iff\<close>).
  \<^item> Sanitizer: \<open>Sanitizer\<close>, \<open>SanitizerProps\<close>.
  \<^item> Meta store: \<open>AppMeta\<close> has a record per table of the migrations and the constraints as the
    invariant \<open>app_meta_ok\<close>; \<open>MetaStore\<close> is \<open>PostgresMetaStore\<close>, each SQL statement a function on them.
  \<^item> Services: \<open>Permission\<close>, \<open>Auditing\<close>, \<open>QueryService\<close> (with \<open>tool_service.py\<close>), \<open>SchemaService\<close>, \<open>Tools\<close>,
    composed in \<open>Container\<close> without a cache, in \<open>Wiring\<close> with Redis and the pool of adapters
    (\<open>container.py\<close>), and started in \<open>HttpServer\<close> (\<open>server.py\<close>).
  \<^item> What the services guarantee, for any wiring: \<open>GuardedStore\<close> is the interface between the permission
    service and any store, as a locale; \<open>Monitor\<close> runs services beside a log of every event at a target
    database, and \<open>Transparency\<close> shows that the log changes nothing; \<open>Kept\<close> shows that the services keep
    whatever the operations they call keep (\<open>kept_services\<close>); \<open>Governed\<close> extends the store's contract to
    services (\<open>governed_services\<close>: the adapters and the clock leave the tables alone) and shows inside
    it that each event of any request is permitted by the grants in force; \<open>AuditTrail\<close> extends it once
    more (\<open>audited_services\<close>) and shows that every call leaves exactly one row.  \<open>Governance\<close> interprets
    the contracts for the services without a cache; \<open>HttpServer\<close> adds that over HTTP the caller is the
    owner of a verified token.
  \<^item> The deployment: \<open>Serving\<close> is \<open>create_http_app\<close>, with the verifier the settings ask for over the cache of the
    services, and shows that checking a token leaves the cached grants alone; \<open>QuietCache\<close> shows that the schema cache, which shares Redis with the permissions,
    cannot change what they mean; \<open>Deployed\<close> discharges the contracts for \<open>Wiring\<close>, pool of adapters and
    cache included; \<open>Cluster\<close> lets any number of such processes run over one Redis and one \<open>app_meta\<close>
    and proves the guarantees for every state their histories reach, requests between a commit and its
    announcement included.
  \<^item> Cache: \<open>Caching\<close> (\<open>redis_cache.py\<close>, \<open>helpers.py\<close>) and \<open>CachedStore\<close> (\<open>cached_meta_store.py\<close>,
    \<open>cached_adapter.py\<close>).  \<open>CacheContract\<close> states what a cache promises as a locale, interpreted by the
    Redis cache in \<open>RedisServer\<close> and by the cache that does nothing; \<open>CachedGrants\<close> and \<open>CachedService\<close> show
    that a cached store over both contracts keeps the store's own, by a sublocale; \<open>CacheProps\<close> draws
    the consequence: an announced change is in force at the next call.  \<open>CacheRace\<close> takes look-ups apart
    into their calls of Redis and the database and lets them interleave with each other, with commits
    and with bumps; the look-up in steps is proved to be \<open>cached_json\<close> when it is alone.
  \<^item> Identity: \<open>Claims\<close> (\<open>auth/caller.py\<close>), \<open>Tokens\<close> (both verifiers), \<open>TokenProps\<close>, \<open>JwtProps\<close>.
  \<^item> Connections: \<open>Registry\<close> (\<open>crypto.py\<close>, \<open>connection_registry.py\<close>), \<open>RegistryProps\<close>; \<open>SqlAdapter\<close>
    (\<open>sqlalchemy_adapter.py\<close>), \<open>AdapterProps\<close>: the order of the statements on a connection, the limit on
    rows, the translation of errors.
  \<^item> Admin backend, one theory per file of \<open>gui_backend\<close>: \<open>AdminApi\<close> (\<open>auth.py\<close>, \<open>changes.py\<close>,
    \<open>context.py\<close>, \<open>routers/me.py\<close>), \<open>AdminConnections\<close>, \<open>AdminPermissions\<close>, \<open>AdminSchema\<close>, \<open>AdminReports\<close>,
    \<open>AdminAudit\<close>, \<open>AdminHealth\<close> (the routers), \<open>ConnectionCheck\<close>.  \<open>AdminApp\<close> puts them together: one
    datatype of requests, \<open>gui_serve\<close>, and the step relation \<open>change\<close> of what a request may do to the
    tables.  \<open>AdminEffects\<close>, \<open>AdminRecord\<close> and \<open>AdminTables\<close> carry three invariants through every step: the
    constraints of the schema, one row of the admin log per change, and soundness of what is stored
    (checked reports, settings that open, passwords that decrypt).  \<open>AdminProps\<close> states them for every
    state reachable by requests and tool calls, \<open>AdminSettings\<close>, \<open>AdminGrants\<close>, \<open>CheckProps\<close> and \<open>PageProps\<close>
    are about single pages; \<open>AdminSamples\<close> is the small deployment their witnesses run on.
  \<^item> Set-up: \<open>SampleRegistry\<close> is the transaction of \<open>devtools/seed.py\<close>, \<open>Bootstrap\<close> the script
    \<open>deploy/keycloak/bootstrap_dev.py\<close> that prepares the identity provider.

  \<^bold>\<open>The main results.\<close>  Nothing reaches a target database but what the grants of the caller permit
  (\<open>only_permitted_events\<close>, \<open>http_calls_permitted\<close>), also at any moment of the life of a deployment with
  caches and several processes (\<open>reachable_calls_permitted\<close>); every call is recorded
  (\<open>every_request_on_record\<close>, \<open>reachable_calls_on_record\<close>); a
  revoked grant is out of force from the next call on, whatever was cached
  (\<open>change_in_force_after_bump\<close>, \<open>revoked_table_not_served\<close>), and overlapping look-ups do not bring it back
  (\<open>overlapping_lookup_current\<close>); only administrators change anything, every
  change is on record and the tables stay sound (\<open>only_administrators\<close>, \<open>changes_on_record\<close>,
  \<open>tables_stay_sound\<close>); the accepted queries are characterised exactly (\<open>validate_iff\<close>, \<open>mask_segments\<close>); a
  token is accepted only if the provider vouches for it (\<open>introspected_token_vouched\<close>,
  \<open>jwt_token_checked\<close>); a query runs only on a connection that was made read-only and limited
  (\<open>streamed_after_setup\<close>, \<open>rows_capped\<close>); what is handed to the model holds no invisible character, and a
  placeholder in place of every text that fires a rule (\<open>clean_value_safe\<close>).  Some lemmas record where the
  code falls short of its documentation (\<open>line_feed_role_let_in\<close>, \<open>keyless_lookup_always_asks\<close>,
  \<open>alnum_dollar_tag_hides_statement\<close>, \<open>nested_comment_hides_statement\<close>, \<open>dotted_identifier_collides\<close>,
  \<open>cancelled_call_marked_success\<close>, \<open>truncation_can_fire_rule\<close>, \<open>true_for_one_not_recorded\<close>,
  \<open>asterisk_password_shown\<close>, \<open>port_true_accepted\<close>).

  \<^bold>\<open>Bounds.\<close>  No definition runs on fuel: the loops of the source that are not structural are functions
  with a termination proof (the mask by the length of the text that is left; exception chains are
  finite values).  \<open>MaskLoop\<close> has the loops of the mask as \<open>while\<close> loops over an index, with the proof that
  they end.  The circuit breaker, the cache lifetimes and the refetch interval of the keys are
  the constants of the source in microseconds.

  \<^bold>\<open>Not modelled.\<close>  Interleaving inside a request, but for the look-ups of \<open>CacheRace\<close> (the locks of the
  registry and of the key set are taken as held; two requests do not mix), log lines, the wording of
  tool descriptions, FastAPI's and Starlette's own code, reading command lines and, but for \<open>Bootstrap\<close>,
  the environment, the downgrade scripts, indexes and roles of the migrations, and
  \<open>db/migrations/env.py\<close>.  The registry of the admin backend is any provider: the schema entries it keeps
  in the shared Redis are not in the backend's state, but \<open>Cluster\<close> lets such entries appear at any time.
  In \<open>Cluster\<close> a request is one step.  Until the
  bump that announces a commit has reached Redis, old answers may be served; of that time it is only
  shown that it leaves nothing behind.
\<close>

end
